(* ===== verification/Prelude.thy ===== *)
theory Prelude
  imports Main Complex_Main
begin

text \<open>
  The prelude of the development: the collections of rewrite rules the component theories share
  (\<open>run_simps\<close> executes a handler step by step in a symbolic world, \<open>frame_simps\<close> holds the facts
  that a write leaves a table alone), decimal numerals as the code prints them into references and titles, JavaScript's
  \<open>Number.toFixed(2)\<close> and \<open>Math.round\<close> on exact rationals, and keyed tables: lists of rows with a
  unique numeric key, which is what every repository of the program stores.

  Money is counted in whole pesewas (1 GHS = 100 pesewas): every money column is
  \<open>decimal(10,2)\<close>. \<open>cedis\<close> reads such an amount as the number of cedis the code computes with.
\<close>

named_theorems run_simps "symbolic execution: what a handler does in a given world"
named_theorems frame_simps "what an operation leaves unchanged"

type_synonym money = int

section \<open>Numbers as JavaScript prints and rounds them\<close>

definition digit_char :: "nat \<Rightarrow> char" where
  "digit_char d = char_of (48 + d)"

fun show_nat :: "nat \<Rightarrow> string" where
  "show_nat n = (if n < 10 then [digit_char n] else show_nat (n div 10) @ [digit_char (n mod 10)])"

declare show_nat.simps [simp del]

definition cedis :: "money \<Rightarrow> rat" where
  "cedis p = of_int p / 100"

definition to_fixed2 :: "rat \<Rightarrow> money" where
  "to_fixed2 x = (if x < 0 then - \<lfloor>100 * (- x) + 1 / 2\<rfloor> else \<lfloor>100 * x + 1 / 2\<rfloor>)"

definition js_round :: "rat \<Rightarrow> int" where
  "js_round x = \<lfloor>x + 1 / 2\<rfloor>"

lemma floor_of_int_plus_half [simp]: "\<lfloor>(of_int n :: rat) + 1 / 2\<rfloor> = n"
  by linarith

lemma to_fixed2_cedis [simp]: "to_fixed2 (cedis p) = p"
proof -
  have "100 * cedis p = of_int p" "100 * (- cedis p) = of_int (- p)"
    by (simp_all add: cedis_def)
  then show ?thesis by (simp only: to_fixed2_def floor_of_int_plus_half) simp
qed

lemma cedis_diff: "cedis a - cedis b = cedis (a - b)"
  by (simp add: cedis_def diff_divide_distrib)

lemma cedis_add: "cedis a + cedis b = cedis (a + b)"
  by (simp add: cedis_def add_divide_distrib)

lemma to_fixed2_nonneg: "0 \<le> x \<Longrightarrow> 0 \<le> to_fixed2 x"
  unfolding to_fixed2_def by simp

lemma to_fixed2_le_cedis: "0 \<le> x \<Longrightarrow> x \<le> cedis p \<Longrightarrow> to_fixed2 x \<le> p"
proof -
  assume "0 \<le> x" "x \<le> cedis p"
  then have "100 * x + 1 / 2 \<le> of_int p + 1 / 2"
    by (simp add: cedis_def)
  then have "\<lfloor>100 * x + 1 / 2\<rfloor> \<le> \<lfloor>(of_int p :: rat) + 1 / 2\<rfloor>"
    by (rule floor_mono)
  with \<open>0 \<le> x\<close> show ?thesis by (simp add: to_fixed2_def)
qed

lemma to_fixed2_near: "0 \<le> x \<Longrightarrow> \<bar>cedis (to_fixed2 x) - x\<bar> \<le> 1 / 200"
proof -
  assume "0 \<le> x"
  define n where "n = \<lfloor>100 * x + 1 / 2\<rfloor>"
  have "of_int n \<le> 100 * x + 1 / 2" "100 * x + 1 / 2 < of_int n + 1"
    unfolding n_def by linarith+
  moreover have "to_fixed2 x = n" using \<open>0 \<le> x\<close> by (simp only: to_fixed2_def n_def) simp
  ultimately have "\<bar>of_int (to_fixed2 x) - 100 * x\<bar> \<le> 1 / 2" by linarith
  moreover have "cedis (to_fixed2 x) = of_int (to_fixed2 x) / 100" by (simp add: cedis_def)
  ultimately show ?thesis by linarith
qed

subsection \<open>Printed numbers\<close>

lemma digit_char_eq_iff: "a < 10 \<Longrightarrow> b < 10 \<Longrightarrow> digit_char a = digit_char b \<longleftrightarrow> a = b"
proof
  assume "a < 10" "b < 10" "digit_char a = digit_char b"
  then have "(of_char (digit_char a) :: nat) = of_char (digit_char b)" by simp
  then show "a = b" using \<open>a < 10\<close> \<open>b < 10\<close>
    by (simp add: digit_char_def take_bit_eq_mod)
qed simp

lemma show_nat_nonempty: "show_nat n \<noteq> []"
  by (subst show_nat.simps) simp

lemma show_nat_digits: "c \<in> set (show_nat n) \<Longrightarrow> \<exists>d < 10. c = digit_char d"
proof (induction n rule: show_nat.induct)
  case (1 n)
  show ?case
  proof (cases "n < 10")
    case True
    with "1.prems" show ?thesis by (subst (asm) show_nat.simps) auto
  next
    case False
    with "1.prems" have "c \<in> set (show_nat (n div 10)) \<or> c = digit_char (n mod 10)"
      by (subst (asm) show_nat.simps) auto
    with "1.IH" False show ?thesis by (metis mod_less_divisor zero_less_numeral)
  qed
qed

lemma show_nat_inject: "show_nat a = show_nat b \<Longrightarrow> a = b"
proof (induction a arbitrary: b rule: show_nat.induct)
  case (1 a)
  note eq = "1.prems"
  show ?case
  proof (cases "a < 10 \<or> b < 10")
    case True
    have lens: "length (show_nat (x div 10)) > 0" for x using show_nat_nonempty by simp
    from True eq lens [of a] lens [of b] show ?thesis
      by (subst (asm) show_nat.simps, subst (asm) (2) show_nat.simps)
        (auto simp: digit_char_eq_iff split: if_splits)
  next
    case False
    with eq have "show_nat (a div 10) = show_nat (b div 10) \<and> digit_char (a mod 10) = digit_char (b mod 10)"
      by (subst (asm) show_nat.simps, subst (asm) (2) show_nat.simps) simp
    then have "a div 10 = b div 10" "a mod 10 = b mod 10"
      using "1.IH" False by (auto simp: digit_char_eq_iff)
    then show ?thesis by (metis div_mult_mod_eq)
  qed
qed

lemma dash_not_digit: "CHR ''-'' \<notin> set (show_nat n)"
proof
  assume "CHR ''-'' \<in> set (show_nat n)"
  then obtain d where "d < 10" "CHR ''-'' = digit_char d" using show_nat_digits by blast
  then have "(of_char (CHR ''-'') :: nat) = of_char (digit_char d)" by simp
  with \<open>d < 10\<close> show False by (simp add: digit_char_def take_bit_eq_mod)
qed

text \<open>Two strings cut at their first dash agree on both sides.\<close>

lemma cut_at_first:
  "x \<notin> set us \<Longrightarrow> x \<notin> set vs \<Longrightarrow> us @ x # ys = vs @ x # zs \<longleftrightarrow> us = vs \<and> ys = zs"
proof (induction us arbitrary: vs)
  case Nil
  then show ?case by (cases vs) auto
next
  case (Cons a us)
  then show ?case by (cases vs) auto
qed

section \<open>Strings and lists as the code handles them\<close>

text \<open>\<open>String.trim\<close>: the whitespace characters that are single bytes. \<open>uniq\<close> is \<open>[...new Set(xs)]\<close>.\<close>

definition is_ws :: "char \<Rightarrow> bool" where
  "is_ws c \<longleftrightarrow> c = CHR '' '' \<or> (9 \<le> (of_char c :: nat) \<and> (of_char c :: nat) \<le> 13) \<or> (of_char c :: nat) = 160"

definition js_trim :: "string \<Rightarrow> string" where
  "js_trim s = rev (dropWhile is_ws (rev (dropWhile is_ws s)))"

definition uniq :: "'a list \<Rightarrow> 'a list" where
  "uniq xs = rev (remdups (rev xs))"

lemma set_uniq [simp]: "set (uniq xs) = set xs"
  by (simp add: uniq_def)

lemma distinct_uniq [simp]: "distinct (uniq xs)"
  by (simp add: uniq_def)

lemma length_uniq: "length (uniq xs) = card (set xs)"
  using distinct_card [OF distinct_uniq, of xs] by simp

lemma find_by_key:
  assumes "inj_on key (set xs)" and "x \<in> set xs"
  shows "(\<And>y. P y \<Longrightarrow> key y = key x) \<Longrightarrow> P x \<Longrightarrow> find P xs = Some x"
proof -
  assume P: "\<And>y. P y \<Longrightarrow> key y = key x" "P x"
  then obtain y where y: "find P xs = Some y" using assms(2) by (cases "find P xs") (auto simp: find_None_iff)
  then have "y \<in> set xs" "key y = key x" using P(1) by (auto simp: find_Some_iff)
  then have "y = x" using assms by (auto simp: inj_on_def)
  with y show ?thesis by simp
qed

section \<open>Keyed tables\<close>

definition find_row :: "('r \<Rightarrow> nat) \<Rightarrow> nat \<Rightarrow> 'r list \<Rightarrow> 'r option" where
  "find_row key k rows = find (\<lambda>r. key r = k) rows"

definition save_row :: "('r \<Rightarrow> nat) \<Rightarrow> 'r \<Rightarrow> 'r list \<Rightarrow> 'r list" where
  "save_row key r rows =
     (if \<exists>x \<in> set rows. key x = key r
      then map (\<lambda>x. if key x = key r then r else x) rows else rows @ [r])"

definition update_where :: "('r \<Rightarrow> bool) \<Rightarrow> ('r \<Rightarrow> 'r) \<Rightarrow> 'r list \<Rightarrow> 'r list" where
  "update_where p f rows = map (\<lambda>r. if p r then f r else r) rows"

lemma find_row_Some_iff:
  "distinct (map key rows) \<Longrightarrow> find_row key k rows = Some r \<longleftrightarrow> r \<in> set rows \<and> key r = k"
  by (induction rows) (auto simp: find_row_def)

lemma find_row_SomeD: "find_row key k rows = Some r \<Longrightarrow> r \<in> set rows \<and> key r = k"
  by (auto simp: find_row_def find_Some_iff)

lemma find_row_None_iff: "find_row key k rows = None \<longleftrightarrow> (\<forall>r \<in> set rows. key r \<noteq> k)"
  by (auto simp: find_row_def find_None_iff)

lemma find_row_save_same: "find_row key (key r) (save_row key r rows) = Some r"
proof (cases "\<exists>x \<in> set rows. key x = key r")
  case True
  then show ?thesis by (induction rows) (auto simp: find_row_def save_row_def)
next
  case False
  then show ?thesis by (induction rows) (auto simp: find_row_def save_row_def)
qed

lemma find_row_save_other: "k \<noteq> key r \<Longrightarrow> find_row key k (save_row key r rows) = find_row key k rows"
proof (cases "\<exists>x \<in> set rows. key x = key r")
  case True
  assume "k \<noteq> key r"
  then have "find_row key k (map (\<lambda>x. if key x = key r then r else x) rows) = find_row key k rows"
    by (induction rows) (auto simp: find_row_def)
  with True show ?thesis by (simp add: save_row_def)
next
  case False
  assume "k \<noteq> key r"
  then have "find_row key k (rows @ [r]) = find_row key k rows"
    by (induction rows) (auto simp: find_row_def)
  with False show ?thesis by (simp add: save_row_def)
qed

lemma save_row_keys_present:
  "\<exists>x \<in> set rows. key x = key r \<Longrightarrow> map key (save_row key r rows) = map key rows"
  by (auto simp: save_row_def)

lemma save_row_distinct: "distinct (map key rows) \<Longrightarrow> distinct (map key (save_row key r rows))"
proof (cases "\<exists>x \<in> set rows. key x = key r")
  case True
  assume "distinct (map key rows)"
  with save_row_keys_present [of rows key r, OF True] show ?thesis by simp
next
  case False
  assume "distinct (map key rows)"
  with False show ?thesis by (auto simp: save_row_def)
qed

lemma set_save_row:
  "distinct (map key rows) \<Longrightarrow>
   set (save_row key r rows) = insert r {x \<in> set rows. key x \<noteq> key r}"
  by (auto simp: save_row_def)

lemma length_update_where [simp]: "length (update_where p f rows) = length rows"
  by (simp add: update_where_def)

lemma update_where_keys: "(\<And>r. key (f r) = key r) \<Longrightarrow> map key (update_where p f rows) = map key rows"
  by (simp add: update_where_def)

lemma in_update_where:
  "r \<in> set (update_where p f rows) \<longleftrightarrow> (\<exists>x \<in> set rows. r = (if p x then f x else x))"
  by (auto simp: update_where_def)

lemma find_row_update_where:
  "(\<And>r. key (f r) = key r) \<Longrightarrow>
   find_row key k (update_where p f rows) =
   map_option (\<lambda>r. if p r then f r else r) (find_row key k rows)"
  by (induction rows) (auto simp: find_row_def update_where_def)

lemma update_where_idem:
  "(\<And>r. p r \<Longrightarrow> \<not> p (f r)) \<Longrightarrow> update_where p f (update_where p f rows) = update_where p f rows"
  by (simp add: update_where_def)

text \<open>
  The contract of a repository, as the services use it: reading a row by its key after a save. The
  clients' lemmas are proved here once and reach the tables by interpretation.
\<close>

locale repository =
  fixes key :: "'r \<Rightarrow> nat"
    and lookup :: "nat \<Rightarrow> 't \<Rightarrow> 'r option"
    and save :: "'r \<Rightarrow> 't \<Rightarrow> 't"
    and wf :: "'t \<Rightarrow> bool"
  assumes lookup_save_same: "lookup (key r) (save r t) = Some r"
    and lookup_save_other: "k \<noteq> key r \<Longrightarrow> lookup k (save r t) = lookup k t"
    and lookup_key: "lookup k t = Some r \<Longrightarrow> key r = k"
    and wf_save: "wf t \<Longrightarrow> wf (save r t)"
begin

lemma lookup_save: "lookup k (save r t) = (if k = key r then Some r else lookup k t)"
  using lookup_save_same lookup_save_other by simp

lemma modify_keeps_others:
  assumes "lookup k t = Some r" and "\<And>x. key (f x) = key x" and "k' \<noteq> k"
  shows "lookup k' (save (f r) t) = lookup k' t"
  using assms lookup_key by (simp add: lookup_save)

lemma modify_hits:
  assumes "lookup k t = Some r" and "\<And>x. key (f x) = key x"
  shows "lookup k (save (f r) t) = Some (f r)"
  using assms lookup_key by (simp add: lookup_save)

lemma save_preserves_all:
  assumes "\<forall>k r. lookup k t = Some r \<longrightarrow> P r" and "P r'"
  shows "\<forall>k r. lookup k (save r' t) = Some r \<longrightarrow> P r"
  using assms by (simp add: lookup_save)

end

end
