(* ===== verification/Types.thy ===== *)
theory Types
  imports Prelude
begin

text \<open>
  The data of the program: the enums of \<open>src/common/types/enums.ts\<close>, the rows of the entities
  (\<open>src/*/entities/*.entity.ts\<close>), the payloads of the domain events
  (\<open>src/common/events/app.events.ts\<close>) and the exceptions the services throw.

  A nullable column is an \<open>option\<close>. Timestamps are milliseconds since the epoch (\<open>int\<close>), money is
  pesewas (\<open>int\<close>), a coordinate is an exact rational. Relations are the ids of their foreign keys
  (\<open>@RelationId\<close>); \<open>updated_at\<close> columns, which no modelled code reads, are left out. An exception
  carries a constructor naming its message, with the values the message interpolates.
\<close>

section \<open>Enums\<close>

datatype role = CUSTOMER | ADMIN | ARTISAN

datatype status = OPEN | PENDING | IN_PROGRESS | COMPLETED | CANCELLED | EXPIRED

datatype app_status = App_PENDING | App_ACCEPTED | App_REJECTED

datatype booking_status = Bk_PENDING | Bk_CONFIRMED | Bk_COMPLETED | Bk_CANCELLED | Bk_DECLINED
  | Bk_EXPIRED | Bk_NO_SHOW

datatype availability = AVAILABLE | BUSY | UNAVAILABLE

datatype payment_status = Pay_PENDING | Pay_HELD | Pay_PENDING_TRANSFER | Pay_TRANSFER_FAILED
  | Pay_RELEASED | Pay_REFUNDED | Pay_CANCELLED | Pay_FAILED

datatype payout_type = MOBILE_MONEY | BANK

datatype hold_reason = PAYOUT_NAME_MISMATCH | PAYOUT_ACCOUNT_NOT_FOUND | PAYOUT_CHECK_PENDING

datatype method_type = M_mobile_money | M_card | M_hosted

datatype charge_status = Ch_pending | Ch_needs_otp | Ch_hosted_open | Ch_succeeded | Ch_failed
  | Ch_expired | Ch_cancelled | Ch_duplicate

datatype refund_status = Rf_pending | Rf_processing | Rf_requested | Rf_processed | Rf_failed

datatype dispute_status = Dp_OPEN | Dp_UNDER_REVIEW | Dp_RESOLVED | Dp_CLOSED

datatype dispute_outcome = REFUND_CLIENT | RELEASE_ARTISAN | MUTUAL

datatype dispute_money = Mn_NONE | Mn_REFUND | Mn_RELEASE

datatype dispute_category = WORK_NOT_COMPLETED | WORK_QUALITY | ARTISAN_NO_SHOW | CLIENT_NO_ACCESS
  | PAYMENT_AMOUNT | PROPERTY_DAMAGE | OTHER

datatype admin_action = PAYMENT_REFUND | PAYMENT_FRAUD_FLAG | PAYMENT_FRAUD_FLAG_CLEARED
  | DISPUTE_RESOLVE | DISPUTE_CLOSE | USER_BAN | USER_UNBAN | USER_SUSPEND | USER_ACTIVATE
  | VERIFICATION_APPROVE | VERIFICATION_REJECT

datatype audit_target = Target_PAYMENT | Target_DISPUTE | Target_USER | Target_VERIFICATION

datatype network = MTN | VOD | ATL

datatype milestone = Reminder24H | Reminder2H

datatype review_status = Rv_ACTIVE | Rv_FLAGGED

datatype moderation_action = FLAG | REMOVE | RESTORE

datatype verification_status = Vf_PENDING | Vf_UNDER_REVIEW | Vf_APPROVED | Vf_REJECTED

datatype document_type = GHANA_CARD | PASSPORT | VOTERS_ID | DRIVERS_LICENSE | NATIONAL_ID

datatype token_type = Tok_EMAIL_VERIFICATION | Tok_PASSWORD_RESET | Tok_REFRESH

datatype code_purpose = Cp_signup | Cp_login | Cp_password_reset

datatype sign_in = By_password | By_code | By_google

datatype key_state = In_progress | Completed

datatype json = J_null | J_bool bool | J_num string | J_str string | J_arr "json list" | J_obj "(string \<times> json) list"

datatype stored_response = Stored_success json | Stored_error string json

section \<open>Rows\<close>

record user =
  u_id :: nat
  u_email :: string
  u_firstname :: string
  u_lastname :: string
  u_role :: role
  u_isBanned :: bool
  u_isSuspended :: bool
  u_deletedAt :: "int option"
  u_purgedAt :: "int option"
  u_accountVerified :: bool
  u_verifiedAt :: "int option"
  u_password :: "string option"
  u_username :: "string option"
  u_middlename :: "string option"
  u_phoneNumber :: "string option"
  u_nationalId :: "string option"
  u_dateOfBirth :: "string option"
  u_gender :: "string option"
  u_profilePicture :: "string option"
  u_socialProvider :: "string option"
  u_socialProviderId :: "string option"
  u_isSocialLogin :: bool
  u_bannedAt :: "int option"
  u_bannedById :: "nat option"
  u_suspendedAt :: "int option"
  u_suspendedById :: "nat option"
  u_suspensionReason :: "string option"

record profile =
  pr_id :: nat
  pr_userId :: "nat option"
  pr_businessName :: "string option"
  pr_availabilityStatus :: availability
  pr_location :: "string option"
  pr_isProfileComplete :: bool
  pr_services :: "nat list"
  pr_payoutType :: "payout_type option"
  pr_recipientCode :: "string option"
  pr_payoutAccountName :: "string option"
  pr_payoutNameVerified :: "bool option"
  pr_payoutAccountNumber :: "string option"
  pr_payoutBankCode :: "string option"
  pr_averageRating :: money
  pr_totalReviews :: nat
  pr_weightedRating :: money
  pr_bio :: "string option"
  pr_cancellationPolicy :: "string option"
  pr_isVerified :: bool

record customer_profile =
  cp_id :: nat
  cp_userId :: nat
  cp_bio :: "string option"
  cp_budgetMin :: "money option"
  cp_budgetMax :: "money option"

record verification =
  vf_id :: nat
  vf_profileId :: nat
  vf_documentType :: document_type
  vf_idNumber :: "string option"
  vf_fullLegalName :: "string option"
  vf_dateOfBirth :: "string option"
  vf_documentFrontUrl :: "string option"
  vf_documentBackUrl :: "string option"
  vf_selfieUrl :: "string option"
  vf_additionalNotes :: "string option"
  vf_status :: verification_status
  vf_provider :: string
  vf_providerReference :: "string option"
  vf_providerRawResponse :: "string option"
  vf_adminNotes :: "string option"
  vf_rejectionReason :: "string option"
  vf_reviewedById :: "nat option"
  vf_reviewedAt :: "int option"
  vf_createdAt :: int

record device =
  dt_userId :: nat
  dt_token :: string

record address =
  ad_userId :: nat
  ad_street :: string

record pay_settings =
  ps_userId :: nat
  ps_preferred :: string

record service =
  s_id :: nat
  s_name :: string
  s_description :: "string option"
  s_price :: "money option"
  s_durationMins :: nat
  s_isActive :: bool

record job =
  j_id :: nat
  j_customerId :: nat
  j_serviceId :: nat
  j_title :: "string option"
  j_description :: "string option"
  j_location :: string
  j_budgetMin :: "money option"
  j_budgetMax :: "money option"
  j_currency :: string
  j_latitude :: "rat option"
  j_longitude :: "rat option"
  j_accuracyM :: "int option"
  j_landmark :: "string option"
  j_status :: status
  j_acceptedArtisanId :: "nat option"
  j_paymentIntentId :: "string option"
  j_deadline :: "int option"
  j_completionRequestedAt :: "int option"
  j_bookingId :: "nat option"
  j_createdAt :: int
  j_deletedAt :: "int option"

record application =
  a_id :: nat
  a_jobId :: nat
  a_artisanId :: nat
  a_quotePrice :: "money option"
  a_message :: "string option"
  a_status :: app_status
  a_createdAt :: int

record history =
  h_id :: nat
  h_jobId :: nat
  h_from :: "status option"
  h_to :: status
  h_changedBy :: string
  h_reason :: "string option"
  h_createdAt :: int

record attachment =
  at_id :: nat
  at_jobId :: nat
  at_url :: string
  at_fileType :: string

record booking =
  b_id :: nat
  b_customerId :: nat
  b_artisanProfileId :: nat
  b_availabilitySlotId :: "nat option"
  b_serviceId :: "nat option"
  b_scheduledDate :: string
  b_startTime :: string
  b_endTime :: string
  b_status :: booking_status
  b_notes :: "string option"
  b_artisanNotes :: "string option"
  b_agreedPrice :: "money option"
  b_currency :: string
  b_location :: "string option"
  b_latitude :: "rat option"
  b_longitude :: "rat option"
  b_accuracyM :: "int option"
  b_landmark :: "string option"
  b_attachmentUrls :: "string list"
  b_noShowByCustomerAt :: "int option"
  b_noShowByArtisanAt :: "int option"
  b_reminder24hSentAt :: "int option"
  b_reminder2hSentAt :: "int option"
  b_createdAt :: int

text \<open>A \<open>time\<close> column reads back as \<open>HH:MM:SS\<close>, a \<open>date\<close> column as \<open>YYYY-MM-DD\<close>.\<close>

record slot =
  sl_id :: nat
  sl_artisanProfileId :: nat
  sl_dayOfWeek :: int
  sl_startTime :: string
  sl_endTime :: string
  sl_isActive :: bool

record block =
  bl_id :: nat
  bl_artisanProfileId :: nat
  bl_startDate :: string
  bl_endDate :: string
  bl_reason :: "string option"

record payment =
  p_id :: nat
  p_jobId :: nat
  p_customerId :: nat
  p_artisanProfileId :: nat
  p_amount :: money
  p_platformFee :: money
  p_artisanAmount :: money
  p_currency :: string
  p_status :: payment_status
  p_reference :: string
  p_authorizationUrl :: "string option"
  p_accessCode :: "string option"
  p_channel :: "string option"
  p_transferReference :: "string option"
  p_transferCode :: "string option"
  p_refundedAmount :: money
  p_fraudFlagged :: bool
  p_fraudFlagReason :: "string option"
  p_fraudFlaggedAt :: "int option"
  p_fraudFlaggedById :: "nat option"
  p_payoutHoldReason :: "hold_reason option"
  p_payoutCheckAttempts :: nat
  p_payoutCheckNextAt :: "int option"
  p_payoutHoldNotifiedAt :: "int option"
  p_saveCardRequested :: bool
  p_paidReference :: "string option"
  p_paidAt :: "int option"
  p_releasedAt :: "int option"
  p_createdAt :: int

record charge =
  c_id :: nat
  c_paymentId :: nat
  c_customerId :: nat
  c_reference :: string
  c_methodType :: method_type
  c_paymentMethodId :: "nat option"
  c_status :: charge_status
  c_action :: "string option"
  c_message :: "string option"
  c_lastVerifiedAt :: "int option"
  c_authorizationUrl :: "string option"
  c_accessCode :: "string option"
  c_expiresAt :: "int option"
  c_channel :: "string option"
  c_refundStatus :: "refund_status option"
  c_refundId :: "string option"
  c_refundAmount :: "money option"
  c_refundAttempts :: nat
  c_refundNextAt :: "int option"
  c_refundedAt :: "int option"
  c_createdAt :: int

record dispute =
  dp_id :: nat
  dp_bookingId :: nat
  dp_raisedById :: nat
  dp_reason :: string
  dp_category :: "dispute_category option"
  dp_status :: dispute_status
  dp_response :: "string option"
  dp_respondedById :: "nat option"
  dp_respondedAt :: "int option"
  dp_adminNotes :: "string option"
  dp_resolution :: "string option"
  dp_outcome :: "dispute_outcome option"
  dp_moneyAction :: "dispute_money option"
  dp_moneyAmount :: "money option"
  dp_moneyPaymentId :: "nat option"
  dp_resolvedById :: "nat option"
  dp_resolvedAt :: "int option"
  dp_createdAt :: int

text \<open>The metadata of an audit row: of a payment its job, of a dispute its booking, payment and category,
  of an account its role, of a verification the profile and the user.\<close>

datatype audit_meta = Meta_status nat payment_status | Meta_refund nat bool
  | Meta_dispute nat "nat option" "dispute_category option"
  | Meta_role role | Meta_verification "nat option" "nat option"

record audit =
  au_action :: admin_action
  au_target :: audit_target
  au_targetId :: nat
  au_targetLabel :: string
  au_reason :: "string option"
  au_actorId :: nat
  au_actorName :: string
  au_actorEmail :: string
  au_outcome :: "string option"
  au_moneyAction :: "string option"
  au_amount :: "money option"
  au_meta :: audit_meta

text \<open>A rating is a decimal with two places, as money is. Rows of removed reviews do not exist.\<close>

record review =
  rv_id :: nat
  rv_jobId :: "nat option"
  rv_artisanProfileId :: nat
  rv_reviewerId :: "nat option"
  rv_reviewedId :: "nat option"
  rv_reviewerName :: "string option"
  rv_rating :: money
  rv_text :: "string option"
  rv_status :: review_status
  rv_editedAt :: "int option"
  rv_reply :: "string option"
  rv_repliedAt :: "int option"
  rv_createdAt :: int

record photo =
  ph_id :: nat
  ph_reviewId :: nat
  ph_url :: string
  ph_fileType :: string

record moderation =
  md_id :: nat
  md_reviewId :: nat
  md_action :: moderation_action
  md_reason :: "string option"
  md_actorId :: nat
  md_actorName :: string
  md_actorRole :: role
  md_reviewerId :: "nat option"
  md_reviewerName :: "string option"
  md_artisanProfileId :: "nat option"
  md_artisanName :: "string option"
  md_rating :: money
  md_excerpt :: "string option"
  md_createdAt :: int

record user_token =
  tk_id :: nat
  tk_userId :: nat
  tk_type :: token_type
  tk_token :: string
  tk_expiresAt :: int
  tk_createdAt :: int

record auth_code =
  ac_id :: nat
  ac_userId :: "nat option"
  ac_emailHash :: string
  ac_purpose :: code_purpose
  ac_codeHash :: string
  ac_attempts :: nat
  ac_expiresAt :: int
  ac_consumedAt :: "int option"
  ac_createdAt :: int

record code_request =
  cr_emailHash :: string
  cr_purpose :: code_purpose
  cr_windowStart :: int
  cr_sent :: nat
  cr_lastSent :: int
  cr_failed :: nat

record idem_key =
  ik_id :: nat
  ik_userId :: nat
  ik_key :: string
  ik_route :: string
  ik_fingerprint :: string
  ik_state :: key_state
  ik_responseStatus :: "nat option"
  ik_responseBody :: "stored_response option"
  ik_updatedAt :: int
  ik_expiresAt :: int

record pay_method =
  m_id :: nat
  m_userId :: nat
  m_type :: method_type
  m_isDefault :: bool
  m_network :: "network option"
  m_numberPrefix :: "string option"
  m_numberLast4 :: "string option"
  m_accountName :: "string option"
  m_nameVerified :: bool
  m_numberEncrypted :: "string option"
  m_numberHash :: "string option"
  m_cardBrand :: "string option"
  m_cardLast4 :: "string option"
  m_expMonth :: "int option"
  m_expYear :: "int option"
  m_cardBank :: "string option"
  m_authorizationEncrypted :: "string option"
  m_signatureHash :: "string option"
  m_createdAt :: int

datatype security_kind = Method_added_momo network | Method_added_card | Method_removed method_type
  | Code_sent code_purpose | Code_failed code_purpose | Code_locked code_purpose
  | Signed_in sign_in | Password_reset_by_code

record security_event =
  se_userId :: nat
  se_kind :: security_kind
  se_ip :: "string option"
  se_userAgent :: "string option"

section \<open>Events\<close>

datatype fail_text = Provider_text string | Name_check_gave_up | Reported string
  | First_refund_try_failed string | Refund_given_up nat string | Refund_reported_failed

record dispute_notice =
  dn_disputeId :: nat
  dn_bookingId :: nat
  dn_raisedBy :: nat
  dn_counterparty :: nat
  dn_resolution :: "string option"
  dn_verdict :: "dispute_outcome option"
  dn_moneyAction :: "dispute_money option"
  dn_moneyAmount :: "money option"
  dn_customer :: nat
  dn_artisan :: nat

datatype event =
    JOB_APPLICATION_RECEIVED nat string string nat
  | JOB_APPLICATION_ACCEPTED nat string nat
  | JOB_APPLICATION_REJECTED nat string nat
  | JOB_STARTED nat string nat
  | JOB_COMPLETION_REQUESTED nat string nat
  | JOB_COMPLETED nat string nat
  | JOB_CANCELLED nat string nat
  | JOB_EXPIRED nat string nat "nat list"
  | BOOKING_RECEIVED nat string string nat
  | BOOKING_CONFIRMED nat string string nat
  | BOOKING_DECLINED nat string string nat
  | BOOKING_CANCELLED nat string string nat
  | BOOKING_COMPLETED nat string nat
  | BOOKING_EXPIRED nat string nat
  | BOOKING_NO_SHOW nat string string nat
  | BOOKING_REMINDER nat role string string nat milestone
  | PAYMENT_RECEIPT nat nat string money string
  | PAYMENT_SECURED nat nat string money
  | PAYOUT_RELEASED nat nat string money
  | PAYMENT_REFUNDED nat nat string money bool
  | PAYMENT_TRANSFER_FAILED nat nat string string money fail_text
  | PAYOUT_ON_HOLD nat nat nat string hold_reason
  | PAYMENT_DUPLICATE_REFUNDED nat nat string money string
  | PAYMENT_REFUND_NEEDS_ATTENTION nat nat string money string fail_text
  | DISPUTE_FILED nat nat string role "nat option" dispute_category
  | DISPUTE_RESOLVED dispute_notice
  | DISPUTE_CLOSED dispute_notice
  | REVIEW_RECEIVED nat string nat rat string
  | REVIEW_FLAGGED nat string string string
  | ARTISAN_VERIFICATION_SUBMITTED nat nat string
  | ARTISAN_PROFILE_VERIFIED nat
  | ARTISAN_VERIFICATION_REJECTED nat string
  | MAIL_ACCOUNT_DELETED string string int int
  | SECURITY_ALERT_CHANGED nat
  | SECURITY_ALERT_RESET nat
  | MAIL_AUTH_CODE string string string code_purpose
  | MAIL_WELCOME_USER string string
  | MAIL_NEW_SIGN_IN string string int sign_in
  | MAIL_AUTH_PASSWORD_CHANGED string string int
  | MAIL_PASSWORD_CHANGED string string
  | MAIL_PASSWORD_RESET string string string
  | MAIL_PASSWORD_RESET_SUCCESS string string
  | MAIL_USER_REGISTERED string string string
  | MAIL_ACCOUNT_RESTORED string string

section \<open>Exceptions\<close>

datatype job_msg = Only_customers_post | Customer_not_found | Service_not_found nat
  | Service_retired | Budget_max_below_min | Job_not_found nat | Not_job_owner
  | Only_open_deleted status | Immutable_status status | Artisan_already_accepted
  | Apply_only_open status | Already_applied | Artisan_not_found | Accept_only_open status
  | Application_not_found nat nat | Accept_only_pending app_status | Start_only_pending status
  | Not_accepted_artisan | Not_paid_yet | Request_only_in_progress status
  | Completion_already_requested | Confirm_only_in_progress status | Completion_not_requested
  | Cannot_cancel_status status | Cannot_cancel_expired | Cannot_cancel_after_request

datatype booking_msg = Booking_not_found | Profile_not_found | Access_denied
  | Not_accepting_bookings | Profile_incomplete | Artisan_busy | Artisan_unavailable
  | Service_not_offered | Slot_not_found | Price_out_of_band money | End_before_start
  | Invalid_schedule | In_the_past | Outside_hours | Slot_taken | Too_many_pending
  | Cannot_confirm booking_status | Agreed_price_set money | Price_needed | No_service
  | Cannot_decline booking_status | Cannot_cancel_booking booking_status | Job_already_started
  | Only_confirmed_complete | Artisan_must_finish | Only_confirmed_no_show booking_status
  | Not_ended_yet

datatype avail_msg = Set_up_profile_first | Profile_id_not_found nat | Slot_id_not_found nat | End_not_after_start
  | Block_end_before_start | Block_in_past | Slot_overlaps string string | Block_not_found nat

datatype pay_msg = Hold_job_not_found | No_accepted_artisan | Currency_not_ghs string
  | No_profile_for_job | No_price_yet | Refund_refused | Payment_not_found nat
  | Already_released | Cannot_release payment_status | Payout_in_flight
  | Held_for hold_reason | No_payout_method | Transfer_not_initiated | Cannot_refund payment_status
  | Fully_refunded | Refund_not_positive | Refund_over_remaining money money | Already_flagged
  | Not_flagged | No_retryable_transfer | Name_mismatch_422 | Account_not_found_422
  | Check_pending_503 | Account_name_not_found | Account_name_required | Already_paid
  | Attempt_active method_type | Attempt_starting | Attempt_not_found | Payment_missing
  | User_not_found | Method_not_found | Method_already_saved | Method_limit_reached
  | Momo_name_not_found | Momo_lookup_unavailable | Saving_disabled | No_pending_hosted_payment
  | No_pending_payment | Charge_not_found | Not_waiting_for_otp | Card_expired

datatype dispute_msg = Dispute_not_found | Disputed_booking_not_found | Not_a_participant
  | Not_disputable booking_status | Already_raised | Raiser_cannot_respond
  | No_longer_open dispute_status | Already_responded | Changed_while_writing
  | Cannot_start_review dispute_status | Dispute_already dispute_status
  | Ruled_by_another_admin "dispute_status option" | Amount_with_mutual | Amount_without_refund
  | Amount_over_balance money money | Already_closed | Conversation_closed dispute_status
  | Participants_unresolved

datatype review_msg = Review_job_not_found | Review_job_not_completed | Not_job_customer | Job_no_artisan
  | Review_duplicate | Reviewed_profile_not_found | Review_not_found nat | No_fields_to_update | Not_review_owner
  | Edit_window_expired | Not_reviewed_artisan | Already_replied | Already_flagged_by_you | Review_not_flagged

datatype blocker_kind = Live_bookings | Live_jobs | Live_payments | Live_disputes

datatype account_msg = No_such_user nat | Managed_user_not_found | Cannot_ban_yourself | Already_banned | Not_banned
  | Cannot_suspend_yourself | Already_suspended | Banned_is_stricter | Not_suspended | Last_admin
  | Live_commitments "(blocker_kind \<times> nat) list"

datatype kyc_msg = Kyc_profile_not_found | Already_verified | Submission_active | Verification_not_found
  | No_submission | Cannot_start_verification verification_status | Already_approved
  | Cannot_approve verification_status | Already_rejected | Cannot_reject_approved
  | Unknown_folder | Invalid_filename | File_gone

datatype auth_msg = Code_invalid | Code_attempts_exceeded | Code_send_limited int nat
  | Provide_email_and_password | Invalid_credentials | Restore_invalid_credentials | Account_banned | Email_not_verified
  | Account_pending_deletion int int | Permanently_deleted | Window_expired | Invalid_or_expired_token
  | Passwords_do_not_match | Invalid_refresh_token | Auth_user_not_found | Wrong_current_password
  | Email_required | Turnstile_required

datatype idem_msg = Key_invalid | Key_reused | Key_in_progress

datatype exn = NotFound_job job_msg | Forbidden_job job_msg | BadRequest_job job_msg
  | Conflict_job job_msg
  | NotFound_booking booking_msg | Forbidden_booking booking_msg | BadRequest_booking booking_msg
  | Conflict_booking booking_msg
  | NotFound_avail avail_msg | BadRequest_avail avail_msg
  | NotFound_pay pay_msg | BadRequest_pay pay_msg | Conflict_pay pay_msg | Unprocessable pay_msg
  | Unavailable pay_msg | ProviderError string | TypeError | UniqueViolation | NotNullViolation
  | ActiveIndexViolation | DecryptError | OutOfRange
  | NotFound_dispute dispute_msg | Forbidden_dispute dispute_msg | BadRequest_dispute dispute_msg
  | Money_action_failed dispute_money exn | Settled_by_other_admin dispute_money exn
  | NotFound_review review_msg | Forbidden_review review_msg | BadRequest_review review_msg | Conflict_review review_msg
  | BadRequest_auth auth_msg | Forbidden_auth auth_msg | Unauthorized_auth auth_msg | NotFound_auth auth_msg
  | TooMany_auth auth_msg | Idempotency_error idem_msg
  | NotFound_account account_msg | BadRequest_account account_msg | Conflict_account account_msg
  | NotFound_kyc kyc_msg | BadRequest_kyc kyc_msg

section \<open>JavaScript values\<close>

text \<open>An optional field of a request: \<open>undefined\<close>, \<open>null\<close> or a value. A loaded column is \<open>null\<close> or a value.\<close>

datatype 'a sent = Absent | Null | Sent 'a

fun of_column :: "'a option \<Rightarrow> 'a sent" where
  "of_column None = Null"
| "of_column (Some x) = Sent x"

text \<open>The operator \<open>??\<close>, and assigning a field and saving: \<open>undefined\<close> leaves the column.\<close>

fun or_else :: "'a sent \<Rightarrow> 'a sent \<Rightarrow> 'a sent" where
  "or_else (Sent x) y = Sent x"
| "or_else _ y = y"

fun assigned :: "'a sent \<Rightarrow> 'a option \<Rightarrow> 'a option" where
  "assigned Absent old = old"
| "assigned Null old = None"
| "assigned (Sent x) old = Some x"

section \<open>JavaScript truthiness of nullable columns\<close>

definition truthy :: "string option \<Rightarrow> bool" where
  "truthy s = (case s of None \<Rightarrow> False | Some t \<Rightarrow> t \<noteq> [])"

definition truthy_id :: "nat option \<Rightarrow> bool" where
  "truthy_id n = (case n of None \<Rightarrow> False | Some k \<Rightarrow> k \<noteq> 0)"

lemma truthy_simps [simp]: "\<not> truthy None" "truthy (Some t) \<longleftrightarrow> t \<noteq> []"
  by (simp_all add: truthy_def)

lemma truthyE: "truthy s \<Longrightarrow> \<exists>t. s = Some t \<and> t \<noteq> []"
  by (cases s) auto

lemma truthy_id_simps [simp]: "\<not> truthy_id None" "truthy_id (Some k) \<longleftrightarrow> k \<noteq> 0"
  by (simp_all add: truthy_id_def)

end
