(* ===== verification/Store.thy ===== *)
theory Store
  imports Types
begin

text \<open>
  The state the services share and the effects they have.

  \<^item> \<open>db\<close> is the database: one list of rows per table. A list holds its rows in the order of their
    insertion, so in ascending id.
  \<^item> \<open>world\<close> adds what a database rollback does not undo: the calls made to Paystack with whether
    each was accepted (\<open>ps_log\<close>), the domain events emitted (\<open>outbox\<close>), the clock and the id
    sequences (a Postgres sequence is not rolled back).
  \<^item> a handler is an \<open>act\<close>: it takes the world to an exception or a value, and to the world it leaves
    behind. A handler that throws keeps the effects it had before; \<open>transaction\<close> restores the tables,
    and only them, when its body throws.
  \<^item> Paystack is not part of the repository. A \<open>provider\<close> gives its answers: functions of the calls
    made before and of the request. Nothing is assumed about it.
\<close>

datatype ps_call =
    PsRefund string money
  | PsRefundAll string
  | PsTransfer string money string
  | PsResolve string string
  | PsVerify string
  | PsInit string money
  | PsRecipient string string string string
  | PsCharge string money
  | PsOtp string string

type_synonym ps_log = "(ps_call \<times> bool) list"

datatype resolve_result = Resolved string | Unresolvable | Lookup_unavailable

record remote_charge =
  rc_status :: "string option"
  rc_amount :: int
  rc_currency :: "string option"
  rc_channel :: "string option"
  rc_paid_at :: "int option"

datatype verify_result = Verified remote_charge | Verify_refused | Verify_unreachable

text \<open>A direct charge: what is asked (\<open>/charge\<close>, \<open>charge_authorization\<close>, \<open>submit_otp\<close>) and the reply.\<close>

datatype charge_request = Charge_momo string money string string | Charge_card string money string
  | Submit_otp string string

record reply_data =
  rd_status :: "string option"
  rd_displayText :: "string option"
  rd_gatewayResponse :: "string option"

datatype charge_reply = Reply_ok reply_data | Reply_refused "string option" | Reply_unreachable

record provider =
  pv_refund :: "ps_log \<Rightarrow> string \<Rightarrow> money \<Rightarrow> string option"
  pv_refund_all :: "ps_log \<Rightarrow> string \<Rightarrow> string + (string option \<times> bool)"
  pv_transfer :: "ps_log \<Rightarrow> money \<Rightarrow> string \<Rightarrow> string \<Rightarrow> string + string"
  pv_resolve :: "ps_log \<Rightarrow> string \<Rightarrow> string \<Rightarrow> resolve_result"
  pv_verify :: "ps_log \<Rightarrow> string \<Rightarrow> verify_result"
  pv_recipient :: "ps_log \<Rightarrow> string \<Rightarrow> string \<Rightarrow> string \<Rightarrow> string \<Rightarrow> string + string"
  pv_init :: "ps_log \<Rightarrow> string \<Rightarrow> money \<Rightarrow> string + string \<times> string"
  pv_charge :: "ps_log \<Rightarrow> charge_request \<Rightarrow> charge_reply"

record db =
  t_users :: "user list"
  t_profiles :: "profile list"
  t_services :: "service list"
  t_slots :: "slot list"
  t_blocks :: "block list"
  t_jobs :: "job list"
  t_applications :: "application list"
  t_history :: "history list"
  t_attachments :: "attachment list"
  t_bookings :: "booking list"
  t_payments :: "payment list"
  t_charges :: "charge list"
  t_audits :: "audit list"
  t_methods :: "pay_method list"
  t_security :: "security_event list"
  t_disputes :: "dispute list"
  t_reviews :: "review list"
  t_photos :: "photo list"
  t_moderation :: "moderation list"
  t_tokens :: "user_token list"
  t_codes :: "auth_code list"
  t_codeRequests :: "code_request list"
  t_keys :: "idem_key list"
  t_customerProfiles :: "customer_profile list"
  t_verifications :: "verification list"
  t_devices :: "device list"
  t_addresses :: "address list"
  t_settings :: "pay_settings list"

datatype table = T_jobs | T_applications | T_history | T_attachments | T_bookings | T_payments
  | T_charges | T_methods | T_slots | T_blocks
  | T_disputes | T_reviews | T_photos | T_moderation | T_tokens | T_codes | T_keys | T_verifications

record world =
  w_db :: db
  ps_log :: ps_log
  outbox :: "event list"
  clock :: int
  next_id :: "table \<Rightarrow> nat"
  w_files :: "(string \<times> string) list"

type_synonym 'a act = "world \<Rightarrow> (exn + 'a) \<times> world"

section \<open>Handlers\<close>

definition ret :: "'a \<Rightarrow> 'a act" where
  "ret x w = (Inr x, w)"

definition throw :: "exn \<Rightarrow> 'a act" where
  "throw e w = (Inl e, w)"

definition bnd :: "'a act \<Rightarrow> ('a \<Rightarrow> 'b act) \<Rightarrow> 'b act" where
  "bnd m f w = (case m w of (Inl e, w') \<Rightarrow> (Inl e, w') | (Inr x, w') \<Rightarrow> f x w')"

definition andthen :: "'a act \<Rightarrow> 'b act \<Rightarrow> 'b act" where
  "andthen m n = bnd m (\<lambda>_. n)"

definition guard :: "bool \<Rightarrow> exn \<Rightarrow> unit act" where
  "guard b e = (if b then ret () else throw e)"

definition only_if :: "bool \<Rightarrow> unit act \<Rightarrow> unit act" where
  "only_if b m = (if b then m else ret ())"

definition asks :: "(world \<Rightarrow> 'a) \<Rightarrow> 'a act" where
  "asks f w = (Inr (f w), w)"

definition with_db :: "(db \<Rightarrow> db) \<Rightarrow> unit act" where
  "with_db f w = (Inr (), w\<lparr>w_db := f (w_db w)\<rparr>)"

definition some_or :: "exn \<Rightarrow> 'a option \<Rightarrow> 'a act" where
  "some_or e x = (case x of None \<Rightarrow> throw e | Some y \<Rightarrow> ret y)"

definition transaction :: "'a act \<Rightarrow> 'a act" where
  "transaction m w =
     (case m w of (Inl e, w') \<Rightarrow> (Inl e, w'\<lparr>w_db := w_db w\<rparr>) | (Inr x, w') \<Rightarrow> (Inr x, w'))"

definition attempt :: "'a act \<Rightarrow> (exn + 'a) act" where
  "attempt m w = (case m w of (r, w') \<Rightarrow> (Inr r, w'))"

definition emit :: "event \<Rightarrow> unit act" where
  "emit e w = (Inr (), w\<lparr>outbox := outbox w @ [e]\<rparr>)"

definition fresh :: "table \<Rightarrow> nat act" where
  "fresh t w = (Inr (next_id w t), w\<lparr>next_id := (next_id w)(t := Suc (next_id w t))\<rparr>)"

definition log_call :: "ps_call \<Rightarrow> bool \<Rightarrow> unit act" where
  "log_call c ok w = (Inr (), w\<lparr>ps_log := ps_log w @ [(c, ok)]\<rparr>)"

fun for_each :: "'a list \<Rightarrow> ('a \<Rightarrow> unit act) \<Rightarrow> unit act" where
  "for_each [] f = ret ()"
| "for_each (x # xs) f = andthen (f x) (for_each xs f)"

lemmas act_defs = ret_def throw_def bnd_def andthen_def guard_def only_if_def asks_def with_db_def
  some_or_def transaction_def attempt_def emit_def fresh_def log_call_def

lemma bnd_ret [simp]: "bnd (ret x) f = f x"
  by (simp add: fun_eq_iff bnd_def ret_def)

lemma bnd_throw [simp]: "bnd (throw e) f = throw e"
  by (simp add: fun_eq_iff bnd_def throw_def)

lemma andthen_ret [simp]: "andthen (ret x) m = m"
  by (simp add: andthen_def)

lemma andthen_throw [simp]: "andthen (throw e) m = throw e"
  by (simp add: andthen_def)

subsection \<open>Running a handler\<close>

lemma run_asks [run_simps]: "bnd (asks f) g w = g (f w) w"
  by (simp add: act_defs)

lemma run_guard [run_simps]: "andthen (guard b e) m w = (if b then m w else (Inl e, w))"
  by (simp add: act_defs)

lemma run_guard_last [run_simps]: "guard b e w = (if b then (Inr (), w) else (Inl e, w))"
  by (simp add: act_defs)

lemma run_some_or [run_simps]:
  "bnd (some_or e x) g w = (case x of None \<Rightarrow> (Inl e, w) | Some y \<Rightarrow> g y w)"
  by (simp add: act_defs split: option.splits)

lemma run_with_db [run_simps]: "andthen (with_db f) m w = m (w\<lparr>w_db := f (w_db w)\<rparr>)"
  by (simp add: act_defs)

lemma run_with_db_last [run_simps]: "with_db f w = (Inr (), w\<lparr>w_db := f (w_db w)\<rparr>)"
  by (simp add: act_defs)

lemma run_emit [run_simps]: "andthen (emit e) m w = m (w\<lparr>outbox := outbox w @ [e]\<rparr>)"
  by (simp add: act_defs)

lemma run_emit_last [run_simps]: "emit e w = (Inr (), w\<lparr>outbox := outbox w @ [e]\<rparr>)"
  by (simp add: act_defs)

lemma run_fresh [run_simps]:
  "bnd (fresh t) g w = g (next_id w t) (w\<lparr>next_id := (next_id w)(t := Suc (next_id w t))\<rparr>)"
  by (simp add: act_defs)

lemma run_only_if [run_simps]: "andthen (only_if b m) n w = (if b then andthen m n w else n w)"
  by (simp add: act_defs)

lemma run_only_if_last [run_simps]: "only_if b m w = (if b then m w else (Inr (), w))"
  by (simp add: act_defs)

lemma run_ret [run_simps]: "ret x w = (Inr x, w)"
  by (simp add: act_defs)

lemma run_throw [run_simps]: "throw e w = (Inl e, w)"
  by (simp add: act_defs)

lemma run_assoc_bnd_bnd [run_simps]: "bnd (bnd m f) g = bnd m (\<lambda>x. bnd (f x) g)"
  by (auto simp: act_defs fun_eq_iff split: prod.splits sum.splits)

lemma run_assoc_andthen_bnd [run_simps]: "andthen (bnd m f) n = bnd m (\<lambda>x. andthen (f x) n)"
  by (auto simp: act_defs fun_eq_iff split: prod.splits sum.splits)

lemma run_assoc_bnd_andthen [run_simps]: "bnd (andthen m n) g = andthen m (bnd n g)"
  by (auto simp: act_defs fun_eq_iff split: prod.splits sum.splits)

lemma run_assoc_andthen [run_simps]: "andthen (andthen m n) k = andthen m (andthen n k)"
  by (auto simp: act_defs fun_eq_iff split: prod.splits sum.splits)

lemma run_attempt [run_simps]: "bnd (attempt m) g w = (case m w of (r, w') \<Rightarrow> g r w')"
  by (simp add: act_defs split: prod.splits)

lemma run_attempt_last [run_simps]: "attempt m w = (case m w of (r, w') \<Rightarrow> (Inr r, w'))"
  by (simp add: act_defs)

lemma run_transaction [run_simps]:
  "transaction m w = (case m w of (Inl e, w') \<Rightarrow> (Inl e, w'\<lparr>w_db := w_db w\<rparr>) | (Inr x, w') \<Rightarrow> (Inr x, w'))"
  by (simp add: act_defs)

lemma run_bnd_transaction [run_simps]:
  "bnd (transaction m) g w =
     (case m w of (Inl e, w') \<Rightarrow> (Inl e, w'\<lparr>w_db := w_db w\<rparr>) | (Inr x, w') \<Rightarrow> g x w')"
  by (simp add: act_defs split: prod.splits sum.splits)

lemma run_known [run_simps]:
  "bnd (\<lambda>w. (Inr (g w), f w)) h w0 = h (g w0) (f w0)"
  "bnd (Pair (Inr x)) h w0 = h x w0"
  "bnd (\<lambda>w. (Inl (e w), f w)) h w0 = (Inl (e w0), f w0)"
  "bnd (Pair (Inl e')) h w0 = (Inl e', w0)"
  "andthen (\<lambda>w. (Inr (g w), f w)) m w0 = m (f w0)"
  "andthen (Pair (Inr x)) m w0 = m w0"
  "andthen (\<lambda>w. (Inl (e w), f w)) m w0 = (Inl (e w0), f w0)"
  "andthen (Pair (Inl e')) m w0 = (Inl e', w0)"
  by (simp_all add: bnd_def andthen_def)

lemma run_bnd_Pair: "m w = (Inr x, w') \<Longrightarrow> bnd m f w = f x w'"
  by (simp add: bnd_def)

lemma run_bnd_throws: "m w = (Inl e, w') \<Longrightarrow> bnd m f w = (Inl e, w')"
  by (simp add: bnd_def)

section \<open>Calls to Paystack\<close>

definition create_refund :: "provider \<Rightarrow> string \<Rightarrow> money \<Rightarrow> unit act" where
  "create_refund pv ref amt w =
     (case pv_refund pv (ps_log w) ref amt of
        None \<Rightarrow> log_call (PsRefund ref amt) True w
      | Some e \<Rightarrow> andthen (log_call (PsRefund ref amt) False) (throw (ProviderError e)) w)"

definition refund_all :: "provider \<Rightarrow> string \<Rightarrow> (string option \<times> bool) act" where
  "refund_all pv ref w =
     (case pv_refund_all pv (ps_log w) ref of
        Inr r \<Rightarrow> andthen (log_call (PsRefundAll ref) True) (ret r) w
      | Inl e \<Rightarrow> andthen (log_call (PsRefundAll ref) False) (throw (ProviderError e)) w)"

definition initiate_transfer :: "provider \<Rightarrow> money \<Rightarrow> string \<Rightarrow> string \<Rightarrow> string act" where
  "initiate_transfer pv amt rcp ref w =
     (case pv_transfer pv (ps_log w) amt rcp ref of
        Inr code \<Rightarrow> andthen (log_call (PsTransfer rcp amt ref) True) (ret code) w
      | Inl e \<Rightarrow> andthen (log_call (PsTransfer rcp amt ref) False) (throw (ProviderError e)) w)"

definition resolve_account :: "provider \<Rightarrow> string \<Rightarrow> string \<Rightarrow> resolve_result act" where
  "resolve_account pv acct bank w =
     (let r = pv_resolve pv (ps_log w) acct bank
      in andthen (log_call (PsResolve acct bank) (r \<noteq> Lookup_unavailable)) (ret r) w)"

definition verify_transaction :: "provider \<Rightarrow> string \<Rightarrow> verify_result act" where
  "verify_transaction pv ref w =
     (let r = pv_verify pv (ps_log w) ref
      in andthen (log_call (PsVerify ref) (r \<noteq> Verify_unreachable)) (ret r) w)"

definition create_recipient :: "provider \<Rightarrow> string \<Rightarrow> string \<Rightarrow> string \<Rightarrow> string \<Rightarrow> string act" where
  "create_recipient pv ty nm acct bank w =
     (case pv_recipient pv (ps_log w) ty nm acct bank of
        Inr code \<Rightarrow> andthen (log_call (PsRecipient ty nm acct bank) True) (ret code) w
      | Inl e \<Rightarrow> andthen (log_call (PsRecipient ty nm acct bank) False) (throw (ProviderError e)) w)"

definition initialize_transaction :: "provider \<Rightarrow> string \<Rightarrow> money \<Rightarrow> (string \<times> string) act" where
  "initialize_transaction pv ref amt w =
     (case pv_init pv (ps_log w) ref amt of
        Inr s \<Rightarrow> andthen (log_call (PsInit ref amt) True) (ret s) w
      | Inl e \<Rightarrow> andthen (log_call (PsInit ref amt) False) (throw (ProviderError e)) w)"

definition request_call :: "charge_request \<Rightarrow> ps_call" where
  "request_call rq = (case rq of Charge_momo ref amt _ _ \<Rightarrow> PsCharge ref amt
     | Charge_card ref amt _ \<Rightarrow> PsCharge ref amt | Submit_otp ref otp \<Rightarrow> PsOtp ref otp)"

definition post_charge :: "provider \<Rightarrow> charge_request \<Rightarrow> charge_reply act" where
  "post_charge pv rq w =
     (let r = pv_charge pv (ps_log w) rq
      in andthen (log_call (request_call rq) (case r of Reply_ok _ \<Rightarrow> True | _ \<Rightarrow> False)) (ret r) w)"

lemmas provider_defs = initialize_transaction_def post_charge_def create_refund_def refund_all_def initiate_transfer_def resolve_account_def
  verify_transaction_def create_recipient_def

lemma run_create_refund [run_simps]:
  "andthen (create_refund pv ref amt) m w =
     (case pv_refund pv (ps_log w) ref amt of
        None \<Rightarrow> m (w\<lparr>ps_log := ps_log w @ [(PsRefund ref amt, True)]\<rparr>)
      | Some e \<Rightarrow> (Inl (ProviderError e), w\<lparr>ps_log := ps_log w @ [(PsRefund ref amt, False)]\<rparr>))"
  "create_refund pv ref amt w =
     (case pv_refund pv (ps_log w) ref amt of
        None \<Rightarrow> (Inr (), w\<lparr>ps_log := ps_log w @ [(PsRefund ref amt, True)]\<rparr>)
      | Some e \<Rightarrow> (Inl (ProviderError e), w\<lparr>ps_log := ps_log w @ [(PsRefund ref amt, False)]\<rparr>))"
  by (simp_all add: create_refund_def act_defs split: option.splits)

lemma run_initiate_transfer [run_simps]:
  "bnd (initiate_transfer pv amt rcp ref) g w =
     (case pv_transfer pv (ps_log w) amt rcp ref of
        Inr code \<Rightarrow> g code (w\<lparr>ps_log := ps_log w @ [(PsTransfer rcp amt ref, True)]\<rparr>)
      | Inl e \<Rightarrow> (Inl (ProviderError e), w\<lparr>ps_log := ps_log w @ [(PsTransfer rcp amt ref, False)]\<rparr>))"
  by (simp add: initiate_transfer_def act_defs split: sum.splits)

lemma run_refund_all [run_simps]:
  "refund_all pv ref w =
     (case pv_refund_all pv (ps_log w) ref of
        Inr r \<Rightarrow> (Inr r, w\<lparr>ps_log := ps_log w @ [(PsRefundAll ref, True)]\<rparr>)
      | Inl e \<Rightarrow> (Inl (ProviderError e), w\<lparr>ps_log := ps_log w @ [(PsRefundAll ref, False)]\<rparr>))"
  by (simp add: refund_all_def act_defs split: sum.splits)

lemma run_resolve_account [run_simps]:
  "bnd (resolve_account pv acct bank) g w =
     (let r = pv_resolve pv (ps_log w) acct bank
      in g r (w\<lparr>ps_log := ps_log w @ [(PsResolve acct bank, r \<noteq> Lookup_unavailable)]\<rparr>))"
  by (simp add: resolve_account_def act_defs Let_def)

lemma run_verify_transaction [run_simps]:
  "bnd (verify_transaction pv ref) g w =
     (let r = pv_verify pv (ps_log w) ref
      in g r (w\<lparr>ps_log := ps_log w @ [(PsVerify ref, r \<noteq> Verify_unreachable)]\<rparr>))"
  by (simp add: verify_transaction_def act_defs Let_def)

lemma run_create_recipient [run_simps]:
  "bnd (create_recipient pv ty nm acct bank) g w =
     (case pv_recipient pv (ps_log w) ty nm acct bank of
        Inr code \<Rightarrow> g code (w\<lparr>ps_log := ps_log w @ [(PsRecipient ty nm acct bank, True)]\<rparr>)
      | Inl e \<Rightarrow> (Inl (ProviderError e), w\<lparr>ps_log := ps_log w @ [(PsRecipient ty nm acct bank, False)]\<rparr>))"
  by (simp add: create_recipient_def act_defs split: sum.splits)

lemma run_initialize_transaction [run_simps]:
  "attempt (initialize_transaction pv ref amt) w =
     (case pv_init pv (ps_log w) ref amt of
        Inr s \<Rightarrow> (Inr (Inr s), w\<lparr>ps_log := ps_log w @ [(PsInit ref amt, True)]\<rparr>)
      | Inl e \<Rightarrow> (Inr (Inl (ProviderError e)), w\<lparr>ps_log := ps_log w @ [(PsInit ref amt, False)]\<rparr>))"
  by (simp add: initialize_transaction_def act_defs split: sum.splits)

lemma run_post_charge [run_simps]:
  "bnd (post_charge pv rq) g w =
     (let r = pv_charge pv (ps_log w) rq
      in g r (w\<lparr>ps_log := ps_log w @ [(request_call rq, case r of Reply_ok _ \<Rightarrow> True | _ \<Rightarrow> False)]\<rparr>))"
  by (simp add: post_charge_def act_defs Let_def)

section \<open>Repositories\<close>

definition find_user :: "db \<Rightarrow> nat \<Rightarrow> user option" where
  "find_user d k = (case find_row u_id k (t_users d) of
     None \<Rightarrow> None | Some u \<Rightarrow> if u_deletedAt u = None then Some u else None)"

definition find_profile :: "db \<Rightarrow> nat \<Rightarrow> profile option" where
  "find_profile d k = find_row pr_id k (t_profiles d)"

definition find_service :: "db \<Rightarrow> nat \<Rightarrow> service option" where
  "find_service d k = find_row s_id k (t_services d)"

definition find_job :: "db \<Rightarrow> nat \<Rightarrow> job option" where
  "find_job d k = (case find_row j_id k (t_jobs d) of
     None \<Rightarrow> None | Some j \<Rightarrow> if j_deletedAt j = None then Some j else None)"

definition find_booking :: "db \<Rightarrow> nat \<Rightarrow> booking option" where
  "find_booking d k = find_row b_id k (t_bookings d)"

definition find_payment :: "db \<Rightarrow> nat \<Rightarrow> payment option" where
  "find_payment d k = find_row p_id k (t_payments d)"

definition find_charge :: "db \<Rightarrow> nat \<Rightarrow> charge option" where
  "find_charge d k = find_row c_id k (t_charges d)"

definition payment_by_reference :: "db \<Rightarrow> string \<Rightarrow> payment option" where
  "payment_by_reference d ref = find (\<lambda>p. p_reference p = ref) (t_payments d)"

definition charge_by_reference :: "db \<Rightarrow> string \<Rightarrow> charge option" where
  "charge_by_reference d ref = find (\<lambda>c. c_reference c = ref) (t_charges d)"

text \<open>\<open>where: { user: { id } }\<close>: the join leaves out soft-deleted users.\<close>

definition profile_of_user :: "db \<Rightarrow> nat \<Rightarrow> profile option" where
  "profile_of_user d uid = (case find_user d uid of
     None \<Rightarrow> None | Some _ \<Rightarrow> find (\<lambda>p. pr_userId p = Some uid) (t_profiles d))"

definition user_of_profile :: "db \<Rightarrow> profile \<Rightarrow> user option" where
  "user_of_profile d p = Option.bind (pr_userId p) (find_user d)"

definition job_of_booking :: "db \<Rightarrow> nat \<Rightarrow> job option" where
  "job_of_booking d bid = find (\<lambda>j. j_bookingId j = Some bid \<and> j_deletedAt j = None) (t_jobs d)"

definition put_job :: "job \<Rightarrow> db \<Rightarrow> db" where
  "put_job j d = d\<lparr>t_jobs := save_row j_id j (t_jobs d)\<rparr>"

definition put_application :: "application \<Rightarrow> db \<Rightarrow> db" where
  "put_application a d = d\<lparr>t_applications := save_row a_id a (t_applications d)\<rparr>"

definition put_booking :: "booking \<Rightarrow> db \<Rightarrow> db" where
  "put_booking b d = d\<lparr>t_bookings := save_row b_id b (t_bookings d)\<rparr>"

definition put_slot :: "slot \<Rightarrow> db \<Rightarrow> db" where
  "put_slot x d = d\<lparr>t_slots := save_row sl_id x (t_slots d)\<rparr>"

definition put_payment :: "payment \<Rightarrow> db \<Rightarrow> db" where
  "put_payment p d = d\<lparr>t_payments := save_row p_id p (t_payments d)\<rparr>"

definition put_charge :: "charge \<Rightarrow> db \<Rightarrow> db" where
  "put_charge c d = d\<lparr>t_charges := save_row c_id c (t_charges d)\<rparr>"

definition put_profile :: "profile \<Rightarrow> db \<Rightarrow> db" where
  "put_profile p d = d\<lparr>t_profiles := save_row pr_id p (t_profiles d)\<rparr>"

definition update_charges :: "(charge \<Rightarrow> bool) \<Rightarrow> (charge \<Rightarrow> charge) \<Rightarrow> db \<Rightarrow> db" where
  "update_charges p f d = d\<lparr>t_charges := update_where p f (t_charges d)\<rparr>"

lemmas put_defs = put_job_def put_application_def put_booking_def put_payment_def put_charge_def
  put_profile_def update_charges_def

definition wf_payments :: "db \<Rightarrow> bool" where
  "wf_payments d \<longleftrightarrow> distinct (map p_id (t_payments d))"

definition wf_charges :: "db \<Rightarrow> bool" where
  "wf_charges d \<longleftrightarrow> distinct (map c_id (t_charges d))"

definition wf_bookings :: "db \<Rightarrow> bool" where
  "wf_bookings d \<longleftrightarrow> distinct (map b_id (t_bookings d))"

definition wf_jobs :: "db \<Rightarrow> bool" where
  "wf_jobs d \<longleftrightarrow> distinct (map j_id (t_jobs d))"

interpretation payments: repository p_id "\<lambda>k d. find_payment d k" put_payment wf_payments
  by unfold_locales
    (auto simp: find_payment_def put_payment_def wf_payments_def find_row_save_same
      find_row_save_other save_row_distinct dest: find_row_SomeD)

interpretation charges: repository c_id "\<lambda>k d. find_charge d k" put_charge wf_charges
  by unfold_locales
    (auto simp: find_charge_def put_charge_def wf_charges_def find_row_save_same
      find_row_save_other save_row_distinct dest: find_row_SomeD)

interpretation bookings: repository b_id "\<lambda>k d. find_booking d k" put_booking wf_bookings
  by unfold_locales
    (auto simp: find_booking_def put_booking_def wf_bookings_def find_row_save_same
      find_row_save_other save_row_distinct dest: find_row_SomeD)

interpretation job_rows: repository j_id "\<lambda>k d. find_row j_id k (t_jobs d)" put_job wf_jobs
  by unfold_locales
    (auto simp: put_job_def wf_jobs_def find_row_save_same
      find_row_save_other save_row_distinct dest: find_row_SomeD)

section \<open>Invariants of handlers\<close>

text \<open>
  \<open>keeps I m\<close>: the handler \<open>m\<close>, whether it returns or throws, takes a world satisfying \<open>I\<close> to one
  satisfying \<open>I\<close>. For an invariant of the tables alone the combinators all keep it, so the proof for
  a handler is about its table writes only.
\<close>

definition keeps :: "(world \<Rightarrow> bool) \<Rightarrow> 'a act \<Rightarrow> bool" where
  "keeps I m \<longleftrightarrow> (\<forall>w. I w \<longrightarrow> I (snd (m w)))"

locale db_invariant =
  fixes I :: "world \<Rightarrow> bool"
  assumes db_only: "w_db w = w_db w' \<Longrightarrow> I w = I w'"
begin

lemma I_outbox [simp]: "I (w\<lparr>outbox := x\<rparr>) = I w"
  by (rule db_only) simp

lemma I_log [simp]: "I (w\<lparr>ps_log := x\<rparr>) = I w"
  by (rule db_only) simp

lemma I_next_id [simp]: "I (w\<lparr>next_id := f\<rparr>) = I w"
  by (rule db_only) simp

text \<open>Case distinctions.\<close>

lemma keeps_if: "(b \<Longrightarrow> keeps I m) \<Longrightarrow> (\<not> b \<Longrightarrow> keeps I n) \<Longrightarrow> keeps I (if b then m else n)"
  by simp

lemma keeps_option: "(x = None \<Longrightarrow> keeps I m) \<Longrightarrow> (\<And>y. x = Some y \<Longrightarrow> keeps I (f y)) \<Longrightarrow>
    keeps I (case x of None \<Rightarrow> m | Some y \<Rightarrow> f y)"
  by (cases x) simp_all

lemma keeps_sum: "(\<And>e. x = Inl e \<Longrightarrow> keeps I (g e)) \<Longrightarrow> (\<And>y. x = Inr y \<Longrightarrow> keeps I (f y)) \<Longrightarrow>
    keeps I (case x of Inl e \<Rightarrow> g e | Inr y \<Rightarrow> f y)"
  by (cases x) simp_all

lemma keeps_prod: "(\<And>a b. x = (a, b) \<Longrightarrow> keeps I (f a b)) \<Longrightarrow> keeps I (case x of (a, b) \<Rightarrow> f a b)"
  by (cases x) simp

lemma keeps_Let: "keeps I (f x) \<Longrightarrow> keeps I (Let x f)"
  by simp

lemma keeps_ret: "keeps I (ret x)"
  by (simp add: keeps_def ret_def)

lemma keeps_throw: "keeps I (throw e)"
  by (simp add: keeps_def throw_def)

lemma keeps_bnd: "keeps I m \<Longrightarrow> (\<And>x. keeps I (f x)) \<Longrightarrow> keeps I (bnd m f)"
  by (fastforce simp: keeps_def bnd_def split: prod.splits sum.splits)

lemma keeps_andthen: "keeps I m \<Longrightarrow> keeps I n \<Longrightarrow> keeps I (andthen m n)"
  unfolding andthen_def by (rule keeps_bnd)

text \<open>What is read from the tables can be used: \<open>P\<close> holds of it in every world satisfying \<open>I\<close>.\<close>

lemma keeps_read:
  assumes "\<And>w. I w \<Longrightarrow> P (f w)" and "\<And>x. P x \<Longrightarrow> keeps I (g x)"
  shows "keeps I (bnd (asks f) g)"
  using assms by (simp add: keeps_def bnd_def asks_def)

lemma keeps_some_or_bnd: "(\<And>y. x = Some y \<Longrightarrow> keeps I (g y)) \<Longrightarrow> keeps I (bnd (some_or e x) g)"
  by (cases x) (simp_all add: some_or_def keeps_throw)

lemma keeps_guard_andthen: "(b \<Longrightarrow> keeps I m) \<Longrightarrow> keeps I (andthen (guard b e) m)"
  by (simp add: guard_def keeps_throw)

lemma keeps_guard: "keeps I (guard b e)"
  by (simp add: guard_def keeps_ret keeps_throw)

lemma keeps_only_if: "(b \<Longrightarrow> keeps I m) \<Longrightarrow> keeps I (only_if b m)"
  by (simp add: only_if_def keeps_ret)

lemma keeps_asks: "keeps I (asks f)"
  by (simp add: keeps_def asks_def)

lemma keeps_some_or: "keeps I (some_or e x)"
  by (cases x) (simp_all add: some_or_def keeps_ret keeps_throw)

lemma keeps_transaction: "keeps I m \<Longrightarrow> keeps I (transaction m)"
  by (auto simp: keeps_def transaction_def split: prod.splits sum.splits)
    (metis db_only select_convs(1) surjective update_convs(1) snd_conv)+

lemma keeps_attempt: "keeps I m \<Longrightarrow> keeps I (attempt m)"
  by (fastforce simp: keeps_def attempt_def split: prod.splits)

lemma keeps_emit: "keeps I (emit e)"
  by (simp add: keeps_def emit_def)

lemma keeps_fresh: "keeps I (fresh t)"
  by (simp add: keeps_def fresh_def)

lemma keeps_log_call: "keeps I (log_call c ok)"
  by (simp add: keeps_def log_call_def)

lemma keeps_for_each: "(\<And>x. keeps I (f x)) \<Longrightarrow> keeps I (for_each xs f)"
  by (induction xs) (simp_all add: keeps_ret keeps_andthen)

lemma keeps_with_db: "(\<And>w. I w \<Longrightarrow> I (w\<lparr>w_db := f (w_db w)\<rparr>)) \<Longrightarrow> keeps I (with_db f)"
  by (simp add: keeps_def with_db_def)

lemma keeps_create_refund: "keeps I (create_refund pv r a)"
  by (simp add: keeps_def create_refund_def act_defs split: option.splits)

lemma keeps_refund_all: "keeps I (refund_all pv r)"
  by (simp add: keeps_def refund_all_def act_defs split: sum.splits)

lemma keeps_initiate_transfer: "keeps I (initiate_transfer pv a rc r)"
  by (simp add: keeps_def initiate_transfer_def act_defs split: sum.splits)

lemma keeps_resolve_account: "keeps I (resolve_account pv a b)"
  by (simp add: keeps_def resolve_account_def act_defs Let_def)

lemma keeps_verify_transaction: "keeps I (verify_transaction pv r)"
  by (simp add: keeps_def verify_transaction_def act_defs Let_def)

lemma keeps_create_recipient: "keeps I (create_recipient pv ty n a b)"
  by (simp add: keeps_def create_recipient_def act_defs split: sum.splits)

lemma keeps_initialize_transaction: "keeps I (initialize_transaction pv r a)"
  by (simp add: keeps_def initialize_transaction_def act_defs split: sum.splits)

lemma keeps_post_charge: "keeps I (post_charge pv rq)"
  by (simp add: keeps_def post_charge_def act_defs Let_def)

lemmas keeps_rules = keeps_initialize_transaction keeps_post_charge keeps_ret keeps_throw keeps_bnd keeps_andthen keeps_guard keeps_only_if keeps_asks
  keeps_some_or keeps_transaction keeps_attempt keeps_emit keeps_fresh keeps_log_call keeps_for_each
  keeps_if keeps_option keeps_sum keeps_prod keeps_Let keeps_create_refund keeps_refund_all keeps_initiate_transfer keeps_resolve_account
  keeps_verify_transaction keeps_create_recipient

end

end
