(* ===== verification/PayoutChecks.thy ===== *)
theory PayoutChecks
  imports Store
begin

text \<open>
  The pure rules of a payout: the name check that runs before every transfer
  (\<open>src/payments/payout-name-match.ts\<close>) and the hold reasons with the retry schedule of a check that
  could not be made (\<open>src/payments/payout-hold.ts\<close>).

  The Unicode tables behind \<open>String.normalize\<close>, \<open>toLowerCase\<close> and the \<open>\p{M}\<close>, \<open>\p{L}\<close>, \<open>\p{N}\<close>
  classes are not part of the repository: \<open>unicode\<close> supplies them, and every theorem holds for any
  such tables. \<open>ascii\<close> is the instance for plain names, used where a name is evaluated.
\<close>

section \<open>Name tokens\<close>

record unicode =
  uc_nfkd :: "string \<Rightarrow> string"
  uc_mark :: "char \<Rightarrow> bool"
  uc_lower :: "char \<Rightarrow> char"
  uc_curly_quote :: "char \<Rightarrow> bool"
  uc_letter_or_number :: "char \<Rightarrow> bool"

definition ascii_lower :: "char \<Rightarrow> char" where
  "ascii_lower c = (let n = (of_char c :: nat) in if 65 \<le> n \<and> n \<le> 90 then char_of (n + 32) else c)"

definition ascii_alnum :: "char \<Rightarrow> bool" where
  "ascii_alnum c = (let n = (of_char c :: nat)
     in (48 \<le> n \<and> n \<le> 57) \<or> (65 \<le> n \<and> n \<le> 90) \<or> (97 \<le> n \<and> n \<le> 122))"

definition ascii :: unicode where
  "ascii = \<lparr>uc_nfkd = (\<lambda>s. s), uc_mark = (\<lambda>_. False), uc_lower = ascii_lower,
            uc_curly_quote = (\<lambda>_. False), uc_letter_or_number = ascii_alnum\<rparr>"

definition titles :: "string list" where
  "titles = [''mr'', ''mrs'', ''ms'', ''miss'', ''dr'', ''rev'', ''prof'']"

text \<open>\<open>.replace(/[^\p{L}\p{N}]+/gu, ' ')\<close>: each run of separators becomes one space.\<close>

fun squeeze :: "(char \<Rightarrow> bool) \<Rightarrow> bool \<Rightarrow> string \<Rightarrow> string" where
  "squeeze ok in_run [] = []"
| "squeeze ok in_run (c # cs) =
     (if ok c then c # squeeze ok False cs
      else if in_run then squeeze ok True cs else CHR '' '' # squeeze ok True cs)"

text \<open>\<open>.split(' ')\<close>.\<close>

fun split_space :: "string \<Rightarrow> string \<Rightarrow> string list" where
  "split_space acc [] = [rev acc]"
| "split_space acc (c # cs) =
     (if c = CHR '' '' then rev acc # split_space [] cs else split_space (c # acc) cs)"

definition apostrophe :: "unicode \<Rightarrow> char \<Rightarrow> bool" where
  "apostrophe uc c \<longleftrightarrow> c = CHR 0x27 \<or> c = CHR 0x60 \<or> uc_curly_quote uc c"

definition plain_name :: "unicode \<Rightarrow> string \<Rightarrow> string" where
  "plain_name uc s =
     js_trim (squeeze (uc_letter_or_number uc) False
       (filter (\<lambda>c. \<not> apostrophe uc c) (map (uc_lower uc)
         (filter (\<lambda>c. \<not> uc_mark uc c) (uc_nfkd uc s)))))"

definition name_tokens :: "unicode \<Rightarrow> string option \<Rightarrow> string list" where
  "name_tokens uc name = (case name of None \<Rightarrow> [] | Some s \<Rightarrow>
     let plain = plain_name uc s
     in if plain = [] then []
        else uniq (filter (\<lambda>t. t \<noteq> [] \<and> t \<notin> set titles) (split_space [] plain)))"

definition payout_names_match :: "unicode \<Rightarrow> string option \<Rightarrow> string option \<Rightarrow> bool" where
  "payout_names_match uc a b =
     (let ta = name_tokens uc a; tb = name_tokens uc b
      in if length ta = 0 \<or> length tb = 0 then False
         else let (shorter, longer) = (if length ta \<le> length tb then (ta, tb) else (tb, ta))
              in if \<not> list_all (\<lambda>t. t \<in> set longer) shorter then False
                 else if length shorter = length longer then True
                 else length shorter \<ge> 2)"

lemma name_tokens_distinct [simp]: "distinct (name_tokens uc a)"
  by (simp add: name_tokens_def Let_def split: option.splits)

lemma name_tokens_no_title: "t \<in> set (name_tokens uc a) \<Longrightarrow> t \<noteq> [] \<and> t \<notin> set titles"
  by (auto simp: name_tokens_def Let_def split: option.splits if_splits)

text \<open>The rule as the comment states it, on the sets of tokens.\<close>

definition same_person :: "string set \<Rightarrow> string set \<Rightarrow> bool" where
  "same_person A B \<longleftrightarrow> A \<noteq> {} \<and> B \<noteq> {} \<and> (A = B \<or> ((A \<subseteq> B \<or> B \<subseteq> A) \<and> 2 \<le> card (A \<inter> B)))"

lemma payout_names_match_sets:
  "payout_names_match uc a b \<longleftrightarrow> same_person (set (name_tokens uc a)) (set (name_tokens uc b))"
proof -
  define A where "A = set (name_tokens uc a)"
  define B where "B = set (name_tokens uc b)"
  have fin: "finite A" "finite B" by (simp_all add: A_def B_def)
  have la: "length (name_tokens uc a) = card A" and lb: "length (name_tokens uc b) = card B"
    by (simp_all add: A_def B_def distinct_card)
  have code: "payout_names_match uc a b \<longleftrightarrow> A \<noteq> {} \<and> B \<noteq> {} \<and>
      (if card A \<le> card B then A \<subseteq> B \<and> (card A = card B \<or> 2 \<le> card A)
       else B \<subseteq> A \<and> 2 \<le> card B)"
    unfolding payout_names_match_def Let_def
    by (auto simp: A_def B_def list_all_iff subset_iff la [unfolded A_def] lb [unfolded B_def])
  have eq: "A \<subseteq> B \<Longrightarrow> card A = card B \<Longrightarrow> A = B" using fin card_subset_eq by blast
  have le: "A \<subseteq> B \<Longrightarrow> card A \<le> card B" "B \<subseteq> A \<Longrightarrow> card B \<le> card A"
    using fin card_mono by blast+
  have "payout_names_match uc a b \<longleftrightarrow> same_person A B"
    unfolding code same_person_def using eq le
    by (auto simp: Int_absorb1 Int_absorb2 dest: card_subset_eq [OF fin(1)])
  then show ?thesis by (simp add: A_def B_def)
qed

lemma same_person_sym: "same_person A B \<longleftrightarrow> same_person B A"
  by (auto simp: same_person_def Int_commute)

section \<open>Payout holds\<close>

definition needs_artisan_action :: "hold_reason option \<Rightarrow> bool" where
  "needs_artisan_action r \<longleftrightarrow> r \<in> {Some PAYOUT_NAME_MISMATCH, Some PAYOUT_ACCOUNT_NOT_FOUND}"

fun payout_hold_label :: "hold_reason option \<Rightarrow> string" where
  "payout_hold_label (Some PAYOUT_NAME_MISMATCH) = ''Payout account name doesn'' @ [CHR 0x27] @ ''t match''"
| "payout_hold_label (Some PAYOUT_ACCOUNT_NOT_FOUND) = ''Payout account not found''"
| "payout_hold_label (Some PAYOUT_CHECK_PENDING) = ''Checking your payout account''"
| "payout_hold_label None = ''''"

definition PAYOUT_CHECK_RETRY_BASE_MS :: int where
  "PAYOUT_CHECK_RETRY_BASE_MS = 30 * 60000"

definition PAYOUT_CHECK_RETRY_MAX_MS :: int where
  "PAYOUT_CHECK_RETRY_MAX_MS = 12 * 60 * 60000"

definition PAYOUT_CHECK_MAX_ATTEMPTS :: nat where
  "PAYOUT_CHECK_MAX_ATTEMPTS = 8"

definition next_payout_check_at :: "nat \<Rightarrow> int \<Rightarrow> int option" where
  "next_payout_check_at attempts now =
     (if attempts \<ge> PAYOUT_CHECK_MAX_ATTEMPTS then None
      else let n = max 1 attempts;
               delay = min (PAYOUT_CHECK_RETRY_BASE_MS * 2 ^ (n - 1)) PAYOUT_CHECK_RETRY_MAX_MS
           in Some (now + delay))"

lemmas payout_check_consts = PAYOUT_CHECK_RETRY_BASE_MS_def PAYOUT_CHECK_RETRY_MAX_MS_def
  PAYOUT_CHECK_MAX_ATTEMPTS_def

lemma next_payout_check_None: "next_payout_check_at n now = None \<longleftrightarrow> 8 \<le> n"
  by (simp add: next_payout_check_at_def payout_check_consts Let_def)

lemma next_payout_check_bounds:
  assumes "next_payout_check_at n now = Some t"
  shows "now + 1800000 \<le> t" and "t \<le> now + 43200000"
proof -
  have p: "(1::int) \<le> 2 ^ (max 1 n - 1)" by simp
  from assms p show "now + 1800000 \<le> t" and "t \<le> now + 43200000"
    by (auto simp: next_payout_check_at_def payout_check_consts Let_def split: if_splits)
qed

lemma next_payout_check_mono:
  assumes "next_payout_check_at n now = Some t" and "next_payout_check_at m now = Some t'" and "n \<le> m"
  shows "t \<le> t'"
proof -
  define d where "d k = min (1800000 * (2::int) ^ (max 1 k - 1)) 43200000" for k :: nat
  have "t = now + d n" "t' = now + d m" using assms
    by (auto simp: next_payout_check_at_def payout_check_consts Let_def d_def split: if_splits)
  moreover have "d n \<le> d m" unfolding d_def using \<open>n \<le> m\<close>
    by (intro min.mono mult_left_mono power_increasing) auto
  ultimately show ?thesis by simp
qed

section \<open>Properties\<close>

text \<open>
  The payout name check decides exactly its documented rule: two names match if and only if both
  have tokens and either the token sets are equal, or one set contains the other and they share at
  least two tokens. It does not depend on the order of the two names, and no courtesy title ever
  counts as a token.
\<close>

theorem payout_name_rule:
  "(payout_names_match uc a b \<longleftrightarrow> same_person (set (name_tokens uc a)) (set (name_tokens uc b)))
   \<and> (payout_names_match uc a b \<longleftrightarrow> payout_names_match uc b a)
   \<and> set (name_tokens uc a) \<inter> set titles = {}"
  using name_tokens_no_title same_person_sym by (auto simp: payout_names_match_sets)

text \<open>
  The retry schedule of a payout check that could not be made: it stops exactly from the eighth
  attempt on; before, each wait is between 30 minutes and 12 hours and no later attempt waits less
  than an earlier one.
\<close>

theorem payout_check_schedule:
  "(next_payout_check_at n now = None \<longleftrightarrow> 8 \<le> n)
   \<and> (\<forall>t. next_payout_check_at n now = Some t \<longrightarrow> now + 1800000 \<le> t \<and> t \<le> now + 43200000)
   \<and> (\<forall>m t t'. n \<le> m \<longrightarrow> next_payout_check_at n now = Some t
         \<longrightarrow> next_payout_check_at m now = Some t' \<longrightarrow> t \<le> t')"
  using next_payout_check_None next_payout_check_bounds next_payout_check_mono by blast

theorem payout_check_schedule_witness:
  "next_payout_check_at 3 0 = Some 7200000 \<and> (0::int) + 1800000 \<le> 7200000 \<and> (7200000::int) \<le> 0 + 43200000"
proof -
  have "next_payout_check_at 3 0 = Some 7200000"
    by (simp add: next_payout_check_at_def payout_check_consts Let_def)
  then show ?thesis using payout_check_schedule [of 3 0] by blast
qed

end
