(* ===== verification/Payments.thy ===== *)
theory Payments
  imports PayoutChecks
begin

text \<open>
  \<open>src/payments/payments.service.ts\<close>: holding a payment for an accepted artisan, capturing it (the
  transfer to the artisan, guarded by the payout name check), cancelling it with its job, releasing
  and refunding it by an admin, fraud flags, the transfer webhooks and the retries.

  Locked transactions are one atomic \<open>act\<close>. A check made before the lock is a separate definition
  (\<open>precheck_payout_name\<close>), and the transaction (\<open>capture_tx\<close>) takes its result as an argument, so
  what is proved of it holds whatever happened between the two.
\<close>

section \<open>Environment\<close>

record cipher =
  ci_enabled :: bool
  ci_hashes :: "string \<Rightarrow> string list"
  ci_encrypt :: "nat \<Rightarrow> string \<Rightarrow> string"
  ci_decrypt :: "string \<Rightarrow> string option"

record env =
  e_pv :: provider
  e_fee :: rat
  e_uc :: unicode
  e_cipher :: cipher

text \<open>The constructor's validation of \<open>PLATFORM_FEE_PERCENT\<close>: \<open>None\<close> in is \<open>NaN\<close>, \<open>None\<close> out throws.\<close>

definition platform_fee_percent :: "rat option \<Rightarrow> rat option" where
  "platform_fee_percent raw = (case raw of None \<Rightarrow> None
     | Some f \<Rightarrow> if f < 0 \<or> f > 100 then None else Some f)"

section \<open>Notifications\<close>

definition default_title :: "nat \<Rightarrow> string" where
  "default_title jid = ''Job #'' @ show_nat jid"

definition job_title :: "job \<Rightarrow> string" where
  "job_title j = (case j_title j of Some t \<Rightarrow> t | None \<Rightarrow> default_title (j_id j))"

record pay_context =
  pc_jobTitle :: string
  pc_artisanUserId :: "nat option"
  pc_artisanName :: string

definition resolve_payment_context :: "db \<Rightarrow> payment \<Rightarrow> pay_context" where
  "resolve_payment_context d p =
     (let usr = (case find_profile d (p_artisanProfileId p) of None \<Rightarrow> None
                 | Some pr \<Rightarrow> user_of_profile d pr)
      in \<lparr>pc_jobTitle = (case find_job d (p_jobId p) of
            Some j \<Rightarrow> (case j_title j of Some t \<Rightarrow> t | None \<Rightarrow> default_title (p_jobId p))
          | None \<Rightarrow> default_title (p_jobId p)),
          pc_artisanUserId = map_option u_id usr,
          pc_artisanName = (case usr of Some u \<Rightarrow> u_firstname u @ '' '' @ u_lastname u
                            | None \<Rightarrow> ''the artisan'')\<rparr>)"

definition emit_payment_held :: "payment \<Rightarrow> unit act" where
  "emit_payment_held p =
     bnd (asks (\<lambda>w. resolve_payment_context (w_db w) p)) (\<lambda>ctx.
     andthen (emit (PAYMENT_RECEIPT (p_customerId p) (p_jobId p) (pc_jobTitle ctx) (p_amount p) (p_reference p)))
      (only_if (truthy_id (pc_artisanUserId ctx))
        (emit (PAYMENT_SECURED (the (pc_artisanUserId ctx)) (p_jobId p) (pc_jobTitle ctx) (p_artisanAmount p)))))"

definition emit_payout_released :: "payment \<Rightarrow> unit act" where
  "emit_payout_released p =
     bnd (asks (\<lambda>w. resolve_payment_context (w_db w) p)) (\<lambda>ctx.
     only_if (truthy_id (pc_artisanUserId ctx))
       (emit (PAYOUT_RELEASED (the (pc_artisanUserId ctx)) (p_jobId p) (pc_jobTitle ctx) (p_artisanAmount p))))"

definition emit_payment_refunded :: "payment \<Rightarrow> money \<Rightarrow> bool \<Rightarrow> unit act" where
  "emit_payment_refunded p now_refunded fully =
     bnd (asks (\<lambda>w. resolve_payment_context (w_db w) p)) (\<lambda>ctx.
     emit (PAYMENT_REFUNDED (p_customerId p) (p_jobId p) (pc_jobTitle ctx) now_refunded fully))"

definition emit_transfer_failed :: "payment \<Rightarrow> fail_text \<Rightarrow> unit act" where
  "emit_transfer_failed p why =
     bnd (asks (\<lambda>w. resolve_payment_context (w_db w) p)) (\<lambda>ctx.
     emit (PAYMENT_TRANSFER_FAILED (p_id p) (p_jobId p) (pc_jobTitle ctx) (pc_artisanName ctx)
             (p_artisanAmount p) why))"

definition emit_payout_on_hold :: "payment \<Rightarrow> hold_reason \<Rightarrow> unit act" where
  "emit_payout_on_hold p why =
     bnd (asks (\<lambda>w. resolve_payment_context (w_db w) p)) (\<lambda>ctx.
     case pc_artisanUserId ctx of None \<Rightarrow> ret ()
     | Some uid \<Rightarrow> emit (PAYOUT_ON_HOLD uid (p_id p) (p_jobId p) (pc_jobTitle ctx) why))"

lemmas emitter_defs = emit_payment_held_def emit_payout_released_def emit_payment_refunded_def
  emit_transfer_failed_def emit_payout_on_hold_def

section \<open>Holding a payment\<close>

definition payment_reference :: "nat \<Rightarrow> nat \<Rightarrow> int \<Rightarrow> string" where
  "payment_reference jid cid now =
     ''jinva-'' @ show_nat jid @ ''-'' @ show_nat cid @ ''-'' @ show_nat (nat now)"

definition new_payment :: "nat \<Rightarrow> nat \<Rightarrow> nat \<Rightarrow> nat \<Rightarrow> money \<Rightarrow> money \<Rightarrow> money \<Rightarrow> string \<Rightarrow> string \<Rightarrow> int \<Rightarrow> payment" where
  "new_payment pid jid cid prid amt fee art cur ref now =
     \<lparr>p_id = pid, p_jobId = jid, p_customerId = cid, p_artisanProfileId = prid, p_amount = amt,
      p_platformFee = fee, p_artisanAmount = art, p_currency = cur, p_status = Pay_PENDING,
      p_reference = ref, p_authorizationUrl = None, p_accessCode = None, p_channel = None,
      p_transferReference = None, p_transferCode = None, p_refundedAmount = 0,
      p_fraudFlagged = False, p_fraudFlagReason = None, p_fraudFlaggedAt = None,
      p_fraudFlaggedById = None, p_payoutHoldReason = None, p_payoutCheckAttempts = 0,
      p_payoutCheckNextAt = None, p_payoutHoldNotifiedAt = None, p_saveCardRequested = False,
      p_paidReference = None, p_paidAt = None, p_releasedAt = None, p_createdAt = now\<rparr>"

definition hold_payment :: "env \<Rightarrow> nat \<Rightarrow> nat \<Rightarrow> nat \<Rightarrow> money option \<Rightarrow> string act" where
  "hold_payment env jid cid aid amount =
     bnd (asks (\<lambda>w. find_job (w_db w) jid)) (\<lambda>job0.
     bnd (some_or (NotFound_pay Hold_job_not_found) job0) (\<lambda>job.
     andthen (guard (aid \<noteq> 0) (BadRequest_pay No_accepted_artisan))
     (andthen (guard (j_currency job = ''GHS'') (BadRequest_pay (Currency_not_ghs (j_currency job))))
     (bnd (asks (\<lambda>w. profile_of_user (w_db w) aid)) (\<lambda>pr0.
      bnd (some_or (NotFound_pay No_profile_for_job) pr0) (\<lambda>pr.
      let agreed = (case amount of Some a \<Rightarrow> a
                    | None \<Rightarrow> (case j_budgetMax job of Some b \<Rightarrow> b | None \<Rightarrow> 0))
      in andthen (guard (agreed > 0) (BadRequest_pay No_price_yet))
      (let fee = to_fixed2 (cedis agreed * e_fee env / 100);
           art = to_fixed2 (cedis agreed - cedis fee)
       in bnd (asks clock) (\<lambda>now.
          let ref = payment_reference jid cid now
          in bnd (fresh T_payments) (\<lambda>pid.
             bnd (asks (\<lambda>w. payment_by_reference (w_db w) ref)) (\<lambda>clash.
             andthen (guard (clash = None) UniqueViolation)
             (andthen (with_db (put_payment
                 (new_payment pid jid cid (pr_id pr) agreed fee art (j_currency job) ref now)))
              (ret ref))))))))))))"

section \<open>The payout name check\<close>

datatype name_outcome = Nm_match | Nm_mismatch | Nm_not_found | Nm_unavailable

record name_check =
  nc_outcome :: name_outcome
  nc_resolvedName :: "string option"
  nc_recipientCode :: "string option"
  nc_accountNumber :: "string option"
  nc_bankCode :: "string option"

definition check_payout_name :: "env \<Rightarrow> profile \<Rightarrow> name_check act" where
  "check_payout_name env pr =
     (let checked = (\<lambda>out nm. \<lparr>nc_outcome = out, nc_resolvedName = nm,
            nc_recipientCode = pr_recipientCode pr, nc_accountNumber = pr_payoutAccountNumber pr,
            nc_bankCode = pr_payoutBankCode pr\<rparr>)
      in if \<not> truthy (pr_payoutAccountNumber pr) \<or> \<not> truthy (pr_payoutBankCode pr)
         then ret (checked Nm_not_found None)
         else bnd (resolve_account (e_pv env) (the (pr_payoutAccountNumber pr)) (the (pr_payoutBankCode pr)))
           (\<lambda>r. case r of
              Lookup_unavailable \<Rightarrow> ret (checked Nm_unavailable None)
            | Unresolvable \<Rightarrow> ret (checked Nm_not_found None)
            | Resolved nm \<Rightarrow> ret (checked
                (if payout_names_match (e_uc env) (pr_payoutAccountName pr) (Some nm)
                 then Nm_match else Nm_mismatch) (Some nm))))"

definition capturable :: "payment_status \<Rightarrow> bool" where
  "capturable s \<longleftrightarrow> s \<in> {Pay_HELD, Pay_PENDING_TRANSFER, Pay_TRANSFER_FAILED}"

definition transfer_in_flight :: "payment \<Rightarrow> bool" where
  "transfer_in_flight p \<longleftrightarrow> p_status p = Pay_HELD \<and> truthy (p_transferCode p)"

definition precheck_payout_name :: "env \<Rightarrow> string \<Rightarrow> name_check option act" where
  "precheck_payout_name env ref =
     bnd (asks (\<lambda>w. payment_by_reference (w_db w) ref)) (\<lambda>p0. case p0 of None \<Rightarrow> ret None
     | Some p \<Rightarrow>
       if transfer_in_flight p then ret None
       else if \<not> capturable (p_status p) then ret None
       else bnd (asks (\<lambda>w. find_profile (w_db w) (p_artisanProfileId p))) (\<lambda>pr0.
         case pr0 of None \<Rightarrow> ret None
         | Some pr \<Rightarrow> if \<not> truthy (pr_recipientCode pr) then ret None
                     else bnd (check_payout_name env pr) (\<lambda>c. ret (Some c))))"

definition clear_payout_hold :: "payment \<Rightarrow> payment" where
  "clear_payout_hold p = p\<lparr>p_payoutHoldReason := None, p_payoutCheckAttempts := 0, p_payoutCheckNextAt := None\<rparr>"

section \<open>Capturing a payment\<close>

text \<open>What the transaction leaves for after its commit: the three variables of \<open>capturePayment\<close>.\<close>

record capture_out =
  co_held :: "(payment \<times> hold_reason) option"
  co_gave_up :: "payment option"
  co_failed :: "(payment \<times> exn) option"

definition nothing_more :: capture_out where
  "nothing_more = \<lparr>co_held = None, co_gave_up = None, co_failed = None\<rparr>"

definition same_details :: "profile \<Rightarrow> profile \<Rightarrow> bool" where
  "same_details pr x \<longleftrightarrow> pr_id x = pr_id pr \<and> pr_payoutAccountNumber x = pr_payoutAccountNumber pr
     \<and> pr_payoutBankCode x = pr_payoutBankCode pr"

definition update_profiles :: "(profile \<Rightarrow> bool) \<Rightarrow> (profile \<Rightarrow> profile) \<Rightarrow> db \<Rightarrow> db" where
  "update_profiles q f d = d\<lparr>t_profiles := update_where q f (t_profiles d)\<rparr>"

definition park_no_method :: "payment \<Rightarrow> capture_out act" where
  "park_no_method p =
     andthen (with_db (put_payment (clear_payout_hold (p\<lparr>p_status := Pay_PENDING_TRANSFER\<rparr>))))
       (ret nothing_more)"

definition park_on_hold :: "payment \<Rightarrow> profile \<Rightarrow> hold_reason \<Rightarrow> capture_out act" where
  "park_on_hold p pr why =
     bnd (asks clock) (\<lambda>now.
     let tell = (p_payoutHoldNotifiedAt p = None);
         p1 = p\<lparr>p_status := Pay_PENDING_TRANSFER, p_payoutHoldReason := Some why,
                p_payoutCheckAttempts := 0, p_payoutCheckNextAt := None\<rparr>;
         p2 = (if tell then p1\<lparr>p_payoutHoldNotifiedAt := Some now\<rparr> else p1)
     in andthen (with_db (put_payment p2))
       (andthen (with_db (update_profiles (same_details pr) (\<lambda>x. x\<lparr>pr_payoutNameVerified := Some False\<rparr>)))
         (ret (nothing_more\<lparr>co_held := (if tell then Some (p2, why) else None)\<rparr>))))"

definition park_unavailable :: "payment \<Rightarrow> capture_out act" where
  "park_unavailable p =
     bnd (asks clock) (\<lambda>now.
     let attempts = (if p_payoutHoldReason p = Some PAYOUT_CHECK_PENDING
                     then p_payoutCheckAttempts p + 1 else 1);
         p1 = p\<lparr>p_status := Pay_PENDING_TRANSFER, p_payoutHoldReason := Some PAYOUT_CHECK_PENDING,
                p_payoutCheckAttempts := attempts,
                p_payoutCheckNextAt := next_payout_check_at attempts now\<rparr>
     in andthen (with_db (put_payment p1))
       (ret (nothing_more\<lparr>co_gave_up := (if attempts = PAYOUT_CHECK_MAX_ATTEMPTS then Some p1 else None)\<rparr>)))"

definition transfer_ref :: "nat \<Rightarrow> int \<Rightarrow> string" where
  "transfer_ref jid now = ''jinva-tr-'' @ show_nat jid @ ''-'' @ show_nat (nat now)"

definition send_transfer :: "env \<Rightarrow> nat \<Rightarrow> payment \<Rightarrow> profile \<Rightarrow> name_check option \<Rightarrow> capture_out act" where
  "send_transfer env jid p pr check =
     andthen (only_if (pr_payoutNameVerified pr \<noteq> Some True \<and> check \<noteq> None \<and> truthy (nc_resolvedName (the check)))
       (with_db (update_profiles (same_details pr)
          (\<lambda>x. x\<lparr>pr_payoutNameVerified := Some True, pr_payoutAccountName := nc_resolvedName (the check)\<rparr>))))
     (bnd (asks clock) (\<lambda>now.
      let tref = transfer_ref jid now;
          p1 = (clear_payout_hold (p\<lparr>p_status := Pay_HELD\<rparr>))\<lparr>p_transferReference := Some tref\<rparr>
      in andthen (with_db (put_payment p1))
        (bnd (attempt (bnd (initiate_transfer (e_pv env) (p_artisanAmount p1) (the (pr_recipientCode pr)) tref)
                 (\<lambda>code. with_db (put_payment (p1\<lparr>p_transferCode := Some code\<rparr>)))))
          (\<lambda>r. case r of
             Inr _ \<Rightarrow> ret nothing_more
           | Inl e \<Rightarrow> let p2 = p1\<lparr>p_status := Pay_TRANSFER_FAILED\<rparr>
                      in andthen (with_db (put_payment p2)) (ret (nothing_more\<lparr>co_failed := Some (p2, e)\<rparr>))))))"

definition check_is_current :: "name_check option \<Rightarrow> profile \<Rightarrow> bool" where
  "check_is_current check pr = (case check of None \<Rightarrow> False | Some c \<Rightarrow>
     nc_recipientCode c = pr_recipientCode pr \<and> nc_accountNumber c = pr_payoutAccountNumber pr
     \<and> nc_bankCode c = pr_payoutBankCode pr)"

definition effective_outcome :: "name_check option \<Rightarrow> profile \<Rightarrow> name_outcome" where
  "effective_outcome check pr =
     (if check_is_current check pr then nc_outcome (the check) else Nm_unavailable)"

definition capture_tx :: "env \<Rightarrow> string \<Rightarrow> nat \<Rightarrow> name_check option \<Rightarrow> capture_out act" where
  "capture_tx env ref jid check =
     bnd (asks (\<lambda>w. payment_by_reference (w_db w) ref)) (\<lambda>p0. case p0 of None \<Rightarrow> ret nothing_more
     | Some p \<Rightarrow>
       if transfer_in_flight p then ret nothing_more
       else if \<not> capturable (p_status p) then ret nothing_more
       else bnd (asks (\<lambda>w. find_profile (w_db w) (p_artisanProfileId p))) (\<lambda>pr0.
         if pr0 = None \<or> \<not> truthy (pr_recipientCode (the pr0)) then park_no_method p
         else let pr = the pr0 in
           (case effective_outcome check pr of
              Nm_mismatch \<Rightarrow> park_on_hold p pr PAYOUT_NAME_MISMATCH
            | Nm_not_found \<Rightarrow> park_on_hold p pr PAYOUT_ACCOUNT_NOT_FOUND
            | Nm_unavailable \<Rightarrow> park_unavailable p
            | Nm_match \<Rightarrow> send_transfer env jid p pr check)))"

definition error_text :: "exn \<Rightarrow> string" where
  "error_text e = (case e of ProviderError s \<Rightarrow> s | _ \<Rightarrow> '''')"

definition capture_after :: "capture_out \<Rightarrow> unit act" where
  "capture_after out =
     andthen (case co_held out of None \<Rightarrow> ret () | Some (p, why) \<Rightarrow> emit_payout_on_hold p why)
     (andthen (case co_gave_up out of None \<Rightarrow> ret () | Some p \<Rightarrow> emit_transfer_failed p Name_check_gave_up)
      (case co_failed out of None \<Rightarrow> ret ()
       | Some (p, e) \<Rightarrow> andthen (emit_transfer_failed p (Provider_text (error_text e))) (throw e)))"

definition capture_payment :: "env \<Rightarrow> string \<Rightarrow> nat \<Rightarrow> unit act" where
  "capture_payment env ref jid =
     bnd (precheck_payout_name env ref) (\<lambda>check.
     bnd (transaction (capture_tx env ref jid check)) capture_after)"

definition is_payment_secured :: "string \<Rightarrow> db \<Rightarrow> bool" where
  "is_payment_secured ref d = (map_option p_status (payment_by_reference d ref) = Some Pay_HELD)"

section \<open>Cancelling, releasing, refunding\<close>

definition money_reference :: "payment \<Rightarrow> string" where
  "money_reference p = (case p_paidReference p of Some r \<Rightarrow> r | None \<Rightarrow> p_reference p)"

definition cancel_payment :: "env \<Rightarrow> string \<Rightarrow> unit act" where
  "cancel_payment env ref =
     transaction
      (bnd (asks (\<lambda>w. payment_by_reference (w_db w) ref)) (\<lambda>p0. case p0 of None \<Rightarrow> ret ()
       | Some p \<Rightarrow>
         if p_status p = Pay_HELD then
           bnd (attempt (create_refund (e_pv env) (money_reference p) (p_amount p))) (\<lambda>r. case r of
             Inl e \<Rightarrow> throw (Unavailable Refund_refused)
           | Inr _ \<Rightarrow> with_db (put_payment (p\<lparr>p_status := Pay_REFUNDED, p_refundedAmount := p_amount p\<rparr>)))
         else if p_status p = Pay_PENDING then
           with_db (put_payment (p\<lparr>p_status := Pay_CANCELLED\<rparr>))
         else ret ()))"

definition releasable_error :: "nat \<Rightarrow> payment option \<Rightarrow> exn option" where
  "releasable_error pid p0 = (case p0 of None \<Rightarrow> Some (NotFound_pay (Payment_not_found pid))
     | Some p \<Rightarrow>
       if p_status p = Pay_RELEASED then Some (BadRequest_pay Already_released)
       else if \<not> capturable (p_status p) then Some (BadRequest_pay (Cannot_release (p_status p)))
       else if transfer_in_flight p then Some (BadRequest_pay Payout_in_flight)
       else None)"

definition release_withheld_payment :: "env \<Rightarrow> nat \<Rightarrow> (nat \<times> money \<times> payment_status) act" where
  "release_withheld_payment env pid =
     bnd (asks (\<lambda>w. find_payment (w_db w) pid)) (\<lambda>p0.
     case releasable_error pid p0 of Some e \<Rightarrow> throw e
     | None \<Rightarrow> let p = the p0 in
       andthen (capture_payment env (p_reference p) (p_jobId p))
       (bnd (asks (\<lambda>w. find_payment (w_db w) pid)) (\<lambda>after.
        let st = map_option p_status after;
            why = (case after of Some a \<Rightarrow> p_payoutHoldReason a | None \<Rightarrow> None)
        in if st = Some Pay_PENDING_TRANSFER \<and> why \<noteq> None
           then throw (BadRequest_pay (Held_for (the why)))
           else if st = Some Pay_PENDING_TRANSFER then throw (BadRequest_pay No_payout_method)
           else if st \<noteq> Some Pay_RELEASED \<and> \<not> (case after of Some a \<Rightarrow> truthy (p_transferCode a) | None \<Rightarrow> False)
           then throw (BadRequest_pay Transfer_not_initiated)
           else ret (p_id p, p_artisanAmount p, (case st of Some s \<Rightarrow> s | None \<Rightarrow> p_status p)))))"

definition record_audit :: "audit \<Rightarrow> unit act" where
  "record_audit a = with_db (\<lambda>d. d\<lparr>t_audits := t_audits d @ [a\<lparr>au_targetLabel := take 200 (au_targetLabel a)\<rparr>]\<rparr>)"

definition payment_audit :: "admin_action \<Rightarrow> payment \<Rightarrow> user \<Rightarrow> string option \<Rightarrow> string option \<Rightarrow> money option \<Rightarrow> audit_meta \<Rightarrow> audit" where
  "payment_audit act p actor reason mact amt meta =
     \<lparr>au_action = act, au_target = Target_PAYMENT, au_targetId = p_id p, au_targetLabel = ''Payment '' @ p_reference p,
      au_reason = reason, au_actorId = u_id actor,
      au_actorName = u_firstname actor @ '' '' @ u_lastname actor, au_actorEmail = u_email actor,
      au_outcome = None, au_moneyAction = mact, au_amount = amt, au_meta = meta\<rparr>"

definition set_fraud_flag :: "user \<Rightarrow> nat \<Rightarrow> string \<Rightarrow> unit act" where
  "set_fraud_flag admin pid reason =
     bnd (asks (\<lambda>w. find_payment (w_db w) pid)) (\<lambda>p0.
     bnd (some_or (NotFound_pay (Payment_not_found pid)) p0) (\<lambda>p.
     andthen (guard (\<not> p_fraudFlagged p) (BadRequest_pay Already_flagged))
     (bnd (asks clock) (\<lambda>now.
      andthen (with_db (put_payment (p\<lparr>p_fraudFlagged := True, p_fraudFlagReason := Some reason,
                 p_fraudFlaggedAt := Some now, p_fraudFlaggedById := Some (u_id admin)\<rparr>)))
        (record_audit (payment_audit PAYMENT_FRAUD_FLAG p admin (Some reason) None (Some (p_amount p))
           (Meta_status (p_jobId p) (p_status p))))))))"

definition clear_fraud_flag :: "user \<Rightarrow> nat \<Rightarrow> string \<Rightarrow> unit act" where
  "clear_fraud_flag admin pid reason =
     bnd (asks (\<lambda>w. find_payment (w_db w) pid)) (\<lambda>p0.
     bnd (some_or (NotFound_pay (Payment_not_found pid)) p0) (\<lambda>p.
     andthen (guard (p_fraudFlagged p) (BadRequest_pay Not_flagged))
     (andthen (with_db (put_payment (p\<lparr>p_fraudFlagged := False, p_fraudFlagReason := None,
                 p_fraudFlaggedAt := None, p_fraudFlaggedById := None\<rparr>)))
        (record_audit (payment_audit PAYMENT_FRAUD_FLAG_CLEARED p admin (Some reason) None None
           (Meta_status (p_jobId p) (p_status p)))))))"

definition admin_refund_tx :: "env \<Rightarrow> nat \<Rightarrow> money option \<Rightarrow> (payment \<times> money \<times> bool) act" where
  "admin_refund_tx env pid amount =
     bnd (asks (\<lambda>w. find_payment (w_db w) pid)) (\<lambda>p0.
     bnd (some_or (NotFound_pay (Payment_not_found pid)) p0) (\<lambda>p.
     andthen (guard (p_status p = Pay_HELD \<or> p_status p = Pay_RELEASED)
                (BadRequest_pay (Cannot_refund (p_status p))))
     (let already = p_refundedAmount p;
          remaining = to_fixed2 (cedis (p_amount p) - cedis already)
      in andthen (guard (remaining > 0) (BadRequest_pay Fully_refunded))
        (let amt = (case amount of Some a \<Rightarrow> a | None \<Rightarrow> remaining)
         in andthen (guard (amt > 0) (BadRequest_pay Refund_not_positive))
           (andthen (guard (amt \<le> remaining) (BadRequest_pay (Refund_over_remaining amt remaining)))
             (andthen (create_refund (e_pv env) (money_reference p) amt)
               (let refunded = to_fixed2 (cedis already + cedis amt);
                    fully = (refunded \<ge> p_amount p);
                    p1 = p\<lparr>p_refundedAmount := refunded\<rparr>;
                    p2 = (if fully then p1\<lparr>p_status := Pay_REFUNDED\<rparr> else p1)
                in andthen (with_db (put_payment p2)) (ret (p2, amt, fully)))))))))"

definition admin_refund :: "env \<Rightarrow> nat \<Rightarrow> money option \<Rightarrow> user option \<Rightarrow> unit act" where
  "admin_refund env pid amount actor =
     bnd (transaction (admin_refund_tx env pid amount)) (\<lambda>(p, amt, fully).
     andthen (emit_payment_refunded p amt fully)
       (case actor of None \<Rightarrow> ret ()
        | Some a \<Rightarrow> record_audit (payment_audit PAYMENT_REFUND p a None (Some ''REFUND'') (Some amt)
                     (Meta_refund (p_jobId p) fully))))"

section \<open>Transfer webhooks\<close>

definition payment_by_transfer :: "db \<Rightarrow> string \<Rightarrow> payment option" where
  "payment_by_transfer d ref = find (\<lambda>p. p_transferReference p = Some ref) (t_payments d)"

definition on_transfer_success :: "string \<Rightarrow> unit act" where
  "on_transfer_success ref =
     bnd (asks (\<lambda>w. payment_by_transfer (w_db w) ref)) (\<lambda>p0. case p0 of None \<Rightarrow> ret ()
     | Some p \<Rightarrow> bnd (asks clock) (\<lambda>now.
         let p1 = p\<lparr>p_status := Pay_RELEASED, p_releasedAt := Some now\<rparr>
         in andthen (with_db (put_payment p1))
              (only_if (p_status p \<noteq> Pay_RELEASED) (emit_payout_released p1))))"

definition on_transfer_failed :: "string \<Rightarrow> string option \<Rightarrow> string option \<Rightarrow> unit act" where
  "on_transfer_failed event ref reason =
     (if \<not> truthy ref then ret ()
      else bnd (asks (\<lambda>w. payment_by_transfer (w_db w) (the ref))) (\<lambda>p0. case p0 of None \<Rightarrow> ret ()
      | Some p \<Rightarrow>
         let p1 = p\<lparr>p_status := Pay_TRANSFER_FAILED\<rparr>
         in andthen (with_db (put_payment p1))
              (only_if (p_status p \<noteq> Pay_TRANSFER_FAILED)
                 (emit_transfer_failed p1 (if truthy reason then Provider_text (the reason) else Reported event)))))"

section \<open>Payout details and retries\<close>

definition retry_one_held :: "env \<Rightarrow> payment \<Rightarrow> nat act" where
  "retry_one_held env p =
     andthen (attempt (capture_payment env (p_reference p) (p_jobId p)))
       (bnd (asks (\<lambda>w. find_payment (w_db w) (p_id p))) (\<lambda>after.
        ret (case after of Some a \<Rightarrow> if needs_artisan_action (p_payoutHoldReason a) then 1 else 0
             | None \<Rightarrow> 0)))"

fun retry_each_held :: "env \<Rightarrow> payment list \<Rightarrow> nat act" where
  "retry_each_held env [] = ret 0"
| "retry_each_held env (p # ps) =
     bnd (retry_one_held env p) (\<lambda>n. bnd (retry_each_held env ps) (\<lambda>m. ret (n + m)))"

definition HELD_PAYOUT_RETRY_LIMIT :: nat where
  "HELD_PAYOUT_RETRY_LIMIT = 20"

definition held_payouts :: "db \<Rightarrow> nat \<Rightarrow> payment list" where
  "held_payouts d prid = take HELD_PAYOUT_RETRY_LIMIT (sort_key p_id
     (filter (\<lambda>p. p_artisanProfileId p = prid \<and> p_status p = Pay_PENDING_TRANSFER
                  \<and> needs_artisan_action (p_payoutHoldReason p)) (t_payments d)))"

definition retry_held_payouts :: "env \<Rightarrow> nat \<Rightarrow> (nat \<times> nat) act" where
  "retry_held_payouts env prid =
     bnd (asks (\<lambda>w. held_payouts (w_db w) prid)) (\<lambda>held.
     bnd (retry_each_held env held) (\<lambda>still. ret (length held, still)))"

definition setup_payout_method :: "env \<Rightarrow> nat \<Rightarrow> payout_type \<Rightarrow> string option \<Rightarrow> string \<Rightarrow> string \<Rightarrow> (string \<times> bool \<times> nat \<times> nat) act" where
  "setup_payout_method env uid ty typed_name acct bank =
     bnd (asks (\<lambda>w. profile_of_user (w_db w) uid)) (\<lambda>pr0.
     bnd (some_or (NotFound_pay No_profile_for_job) pr0) (\<lambda>pr.
     bnd (resolve_account (e_pv env) acct bank) (\<lambda>lookup.
     andthen (guard (lookup \<noteq> Unresolvable) (Unprocessable Account_name_not_found))
     (let verified = (case lookup of Resolved _ \<Rightarrow> True | _ \<Rightarrow> False);
          nm = (case lookup of Resolved n \<Rightarrow> n
                | _ \<Rightarrow> js_trim (case typed_name of Some t \<Rightarrow> t | None \<Rightarrow> ''''))
      in andthen (guard (length nm \<ge> 2) (BadRequest_pay Account_name_required))
        (bnd (create_recipient (e_pv env) (if ty = MOBILE_MONEY then ''mobile_money'' else ''ghipss'') nm acct bank)
          (\<lambda>code.
           andthen (with_db (put_profile (pr\<lparr>pr_payoutType := Some ty, pr_recipientCode := Some code,
               pr_payoutAccountName := Some nm, pr_payoutNameVerified := Some verified,
               pr_payoutAccountNumber := Some acct, pr_payoutBankCode := Some bank\<rparr>)))
             (bnd (retry_held_payouts env (pr_id pr)) (\<lambda>(n, still).
                ret (nm, verified, n, still)))))))))"

definition PAYOUT_CHECK_BATCH :: nat where
  "PAYOUT_CHECK_BATCH = 50"

definition due_payout_checks :: "db \<Rightarrow> int \<Rightarrow> payment list" where
  "due_payout_checks d now = take PAYOUT_CHECK_BATCH (sort_key (\<lambda>p. the (p_payoutCheckNextAt p))
     (filter (\<lambda>p. p_status p = Pay_PENDING_TRANSFER \<and> p_payoutHoldReason p = Some PAYOUT_CHECK_PENDING
                  \<and> (case p_payoutCheckNextAt p of Some t \<Rightarrow> t \<le> now | None \<Rightarrow> False)) (t_payments d)))"

fun retry_each_due :: "env \<Rightarrow> payment list \<Rightarrow> (nat \<times> nat) act" where
  "retry_each_due env [] = ret (0, 0)"
| "retry_each_due env (p # ps) =
     bnd (attempt (capture_payment env (p_reference p) (p_jobId p))) (\<lambda>r.
     bnd (asks (\<lambda>w. find_payment (w_db w) (p_id p))) (\<lambda>after.
     let sent = (case (r, after) of (Inr _, Some a) \<Rightarrow> if transfer_in_flight a then 1 else 0 | _ \<Rightarrow> 0);
         failed = (case r of Inl _ \<Rightarrow> 1 | Inr _ \<Rightarrow> 0)
     in bnd (retry_each_due env ps) (\<lambda>(s, f). ret (sent + s, failed + f))))"

definition retry_due_payout_checks :: "env \<Rightarrow> (nat \<times> nat \<times> nat) act" where
  "retry_due_payout_checks env =
     bnd (asks (\<lambda>w. due_payout_checks (w_db w) (clock w))) (\<lambda>due.
     bnd (retry_each_due env due) (\<lambda>(sent, failed). ret (length due, sent, failed)))"

definition retry_pending_transfer :: "env \<Rightarrow> nat \<Rightarrow> nat \<Rightarrow> unit act" where
  "retry_pending_transfer env uid jid =
     bnd (asks (\<lambda>w. profile_of_user (w_db w) uid)) (\<lambda>pr0.
     bnd (some_or (NotFound_pay No_profile_for_job) pr0) (\<lambda>pr.
     bnd (asks (\<lambda>w. find (\<lambda>p. p_jobId p = jid \<and> p_artisanProfileId p = pr_id pr
              \<and> p_status p \<in> {Pay_PENDING_TRANSFER, Pay_TRANSFER_FAILED}) (t_payments (w_db w)))) (\<lambda>p0.
     bnd (some_or (NotFound_pay No_retryable_transfer) p0) (\<lambda>p.
     andthen (capture_payment env (p_reference p) jid)
     (bnd (asks (\<lambda>w. find_payment (w_db w) (p_id p))) (\<lambda>after. case after of None \<Rightarrow> ret ()
      | Some a \<Rightarrow>
        if p_status a \<noteq> Pay_PENDING_TRANSFER then ret ()
        else (case p_payoutHoldReason a of
                Some PAYOUT_NAME_MISMATCH \<Rightarrow> throw (Unprocessable Name_mismatch_422)
              | Some PAYOUT_ACCOUNT_NOT_FOUND \<Rightarrow> throw (Unprocessable Account_not_found_422)
              | Some PAYOUT_CHECK_PENDING \<Rightarrow> throw (Unavailable Check_pending_503)
              | None \<Rightarrow> ret ())))))))"

section \<open>What the payments service leaves alone\<close>

text \<open>
  A condition on the tables that survives a write to the payments, the profiles' payout columns and the audit
  log survives every handler here. Each component with tables of its own interprets this on them.
\<close>

locale payment_frame = db_invariant I for I :: "world \<Rightarrow> bool" +
  assumes put_payment: "I w \<Longrightarrow> I (w\<lparr>w_db := put_payment p (w_db w)\<rparr>)"
    and put_profile: "I w \<Longrightarrow> I (w\<lparr>w_db := update_profiles q g (w_db w)\<rparr>)"
    and put_audit: "I w \<Longrightarrow> I (w\<lparr>w_db := (w_db w)\<lparr>t_audits := as\<rparr>\<rparr>)"
begin

lemma frame_puts: "keeps I (with_db (put_payment p))" "keeps I (with_db (update_profiles q g))"
  by (intro keeps_with_db put_payment put_profile; assumption)+

lemma frame_audit: "keeps I (record_audit a)"
  unfolding record_audit_def by (intro keeps_with_db put_audit)

lemma frame_outcomes:
  "\<lbrakk>\<And>n. keeps I (a n); keeps I b; keeps I c\<rbrakk> \<Longrightarrow>
     keeps I (case r of Resolved n \<Rightarrow> a n | Unresolvable \<Rightarrow> b | Lookup_unavailable \<Rightarrow> c)"
  "\<lbrakk>keeps I m; keeps I b; keeps I c; keeps I e\<rbrakk> \<Longrightarrow>
     keeps I (case q of Nm_match \<Rightarrow> m | Nm_mismatch \<Rightarrow> b | Nm_not_found \<Rightarrow> c | Nm_unavailable \<Rightarrow> e)"
  by (cases r; simp) (cases q; simp)

lemmas frame_rules = keeps_rules frame_puts frame_audit frame_outcomes

lemma frame_emitters:
  "keeps I (emit_payment_held p)" "keeps I (emit_payout_on_hold p why)" "keeps I (emit_transfer_failed p t)"
  "keeps I (emit_payment_refunded p a b)" "keeps I (emit_payout_released p)"
  unfolding emitter_defs by (intro frame_rules)+

lemma frame_hold: "keeps I (hold_payment env jid uid aid amt)"
  unfolding hold_payment_def by (intro frame_rules)

lemma frame_cancel: "keeps I (cancel_payment env ref)"
  unfolding cancel_payment_def by (intro frame_rules)

lemma frame_check_name: "keeps I (check_payout_name env pr)"
  unfolding check_payout_name_def by (intro frame_rules)

lemma frame_capture: "keeps I (capture_payment env ref jid)"
  unfolding capture_payment_def precheck_payout_name_def capture_tx_def park_no_method_def park_on_hold_def
    park_unavailable_def send_transfer_def capture_after_def
  by (intro frame_rules frame_check_name frame_emitters)

lemma frame_release: "keeps I (release_withheld_payment env pid)"
  unfolding release_withheld_payment_def by (intro frame_rules frame_capture)

lemma frame_refund: "keeps I (admin_refund env pid amt actor)"
  unfolding admin_refund_def admin_refund_tx_def by (intro frame_rules frame_emitters)

end

end
