(* ===== verification/Fixtures.thy ===== *)
theory Fixtures
  imports Payments
begin

text \<open>
  Concrete worlds in which the witnesses evaluate the theorems: a customer (id 1), an artisan (id 2,
  profile 20) with a mobile-money payout method, a service, one job and its payment of 200 GHS, and
  a Paystack that accepts every call. None of it models code.
\<close>

definition fx_provider :: provider where
  "fx_provider = \<lparr>pv_refund = (\<lambda>_ _ _. None), pv_refund_all = (\<lambda>_ _. Inr (None, True)),
     pv_transfer = (\<lambda>_ _ _ _. Inr ''TRF_1''), pv_resolve = (\<lambda>_ _ _. Resolved ''Kofi Mensah''),
     pv_verify = (\<lambda>_ _. Verify_unreachable), pv_recipient = (\<lambda>_ _ _ _ _. Inr ''RCP_1''),
     pv_init = (\<lambda>_ _ _. Inr (''url'', ''code'')), pv_charge = (\<lambda>_ _. Reply_unreachable)\<rparr>"

definition fx_cipher :: cipher where
  "fx_cipher = \<lparr>ci_enabled = True, ci_hashes = (\<lambda>s. [CHR ''h'' # s]), ci_encrypt = (\<lambda>_ s. s), ci_decrypt = Some\<rparr>"

definition fx_env :: env where
  "fx_env = \<lparr>e_pv = fx_provider, e_fee = 5, e_uc = ascii, e_cipher = fx_cipher\<rparr>"

definition fx_user :: "nat \<Rightarrow> role \<Rightarrow> user" where
  "fx_user k r = \<lparr>u_id = k, u_email = ''a@b.c'', u_firstname = ''Kofi'', u_lastname = ''Mensah'',
     u_role = r, u_isBanned = False, u_isSuspended = False, u_deletedAt = None, u_purgedAt = None, u_accountVerified = True,
     u_verifiedAt = None, u_password = None, u_username = None, u_middlename = None, u_phoneNumber = None,
     u_nationalId = None, u_dateOfBirth = None, u_gender = None, u_profilePicture = None, u_socialProvider = None,
     u_socialProviderId = None, u_isSocialLogin = False, u_bannedAt = None, u_bannedById = None, u_suspendedAt = None,
     u_suspendedById = None, u_suspensionReason = None\<rparr>"

definition fx_profile :: profile where
  "fx_profile = \<lparr>pr_id = 20, pr_userId = Some 2, pr_businessName = None, pr_availabilityStatus = AVAILABLE,
     pr_location = None, pr_isProfileComplete = True, pr_services = [5], pr_payoutType = Some MOBILE_MONEY,
     pr_recipientCode = Some ''RCP'', pr_payoutAccountName = Some ''Kofi Mensah'',
     pr_payoutNameVerified = Some True, pr_payoutAccountNumber = Some ''0241'',
     pr_payoutBankCode = Some ''MTN'', pr_averageRating = 0, pr_totalReviews = 0, pr_weightedRating = 0, pr_bio = None, pr_cancellationPolicy = None, pr_isVerified = False\<rparr>"

definition fx_service :: service where
  "fx_service = \<lparr>s_id = 5, s_name = ''Plumbing'', s_description = None, s_price = Some 20000,
     s_durationMins = 60, s_isActive = True\<rparr>"

definition fx_job :: "status \<Rightarrow> job" where
  "fx_job st = \<lparr>j_id = 7, j_customerId = 1, j_serviceId = 5, j_title = Some ''Fix tap'',
     j_description = None, j_location = ''Osu'', j_budgetMin = None, j_budgetMax = Some 20000,
     j_currency = ''GHS'', j_latitude = Some 5, j_longitude = Some 6, j_accuracyM = None,
     j_landmark = None, j_status = st, j_acceptedArtisanId = Some 2,
     j_paymentIntentId = Some ''ref'', j_deadline = None, j_completionRequestedAt = None,
     j_bookingId = None, j_createdAt = 0, j_deletedAt = None\<rparr>"

definition fx_payment :: "payment_status \<Rightarrow> payment" where
  "fx_payment st = (new_payment 9 7 1 20 20000 1000 19000 ''GHS'' ''ref'' 0)\<lparr>p_status := st\<rparr>"

definition fx_db :: "payment list \<Rightarrow> db" where
  "fx_db ps = \<lparr>t_users = [fx_user 1 CUSTOMER, fx_user 2 ARTISAN], t_profiles = [fx_profile],
     t_services = [fx_service], t_slots = [], t_blocks = [], t_jobs = [fx_job PENDING], t_applications = [],
     t_history = [], t_attachments = [], t_bookings = [], t_payments = ps, t_charges = [],
     t_audits = [], t_methods = [], t_security = [], t_disputes = [],
     t_reviews = [], t_photos = [], t_moderation = [], t_tokens = [], t_codes = [], t_codeRequests = [], t_keys = [],
     t_customerProfiles = [], t_verifications = [], t_devices = [], t_addresses = [], t_settings = []\<rparr>"

definition fx_world :: "payment list \<Rightarrow> world" where
  "fx_world ps = \<lparr>w_db = fx_db ps, ps_log = [], outbox = [], clock = 1000, next_id = (\<lambda>_. 100), w_files = []\<rparr>"

lemmas fx_defs = fx_provider_def fx_cipher_def fx_env_def fx_user_def fx_profile_def fx_service_def
  fx_job_def fx_payment_def new_payment_def fx_db_def fx_world_def

lemmas fx_finders = find_user_def find_profile_def find_service_def find_job_def find_booking_def
  find_payment_def find_charge_def find_row_def payment_by_reference_def charge_by_reference_def
  profile_of_user_def user_of_profile_def payment_by_transfer_def

end
