(* ===== verification/ChargeOutcome.thy ===== *)
theory ChargeOutcome
  imports PayoutChecks
begin

text \<open>
  \<open>src/payments/charge-outcome.ts\<close>: what a reply of Paystack to a direct charge means for the
  customer, with \<open>safeProviderText\<close> of \<open>src/payment-methods/payment-methods.constants.ts\<close>, which
  decides whether the provider's own words may be shown.
\<close>

section \<open>Messages\<close>

definition apos :: string where
  "apos = [CHR 0x27]"

definition MSG_APPROVE_ON_PHONE :: string where
  "MSG_APPROVE_ON_PHONE = ''Check your phone and approve the payment with your MoMo PIN.''"

definition MSG_CONFIRMING :: string where
  "MSG_CONFIRMING = ''We'' @ apos @ ''re confirming your payment.''"

definition MSG_ENTER_OTP :: string where
  "MSG_ENTER_OTP = ''Enter the one-time code Telecel sent you by text. It is not your PIN.''"

definition MSG_NEEDS_MORE :: string where
  "MSG_NEEDS_MORE = ''This payment needs a step we can'' @ apos @ ''t do here. Pay another way to finish.''"

definition MSG_FAILED :: string where
  "MSG_FAILED = ''The payment didn'' @ apos @ ''t go through. You can try again or pay another way.''"

definition MSG_OTP_FAILED :: string where
  "MSG_OTP_FAILED = ''That code didn'' @ apos @ ''t work. Try again to get a new code, or pay another way.''"

definition MSG_NOT_APPROVED :: string where
  "MSG_NOT_APPROVED = ''This payment wasn'' @ apos @ ''t approved. You can try again or pay another way.''"

definition MSG_DUPLICATE :: string where
  "MSG_DUPLICATE = ''This job is already paid. We'' @ apos @ ''re refunding the extra payment to you.''"

definition MSG_CANCELLED :: string where
  "MSG_CANCELLED = ''This payment was stopped because the account is being closed.''"

section \<open>Provider text\<close>

fun has_digit_run :: "nat \<Rightarrow> nat \<Rightarrow> string \<Rightarrow> bool" where
  "has_digit_run k n [] = False"
| "has_digit_run k n (c # cs) =
     (if 48 \<le> (of_char c :: nat) \<and> (of_char c :: nat) \<le> 57
      then (if k \<le> Suc n then True else has_digit_run k (Suc n) cs)
      else has_digit_run k 0 cs)"

fun starts_with :: "string \<Rightarrow> string \<Rightarrow> bool" where
  "starts_with [] s = True"
| "starts_with (p # ps) [] = False"
| "starts_with (p # ps) (c # cs) = (p = c \<and> starts_with ps cs)"

fun contains :: "string \<Rightarrow> string \<Rightarrow> bool" where
  "contains p [] = starts_with p []"
| "contains p (c # cs) = (starts_with p (c # cs) \<or> contains p cs)"

definition unsafe_chars :: "char list" where
  "unsafe_chars = [CHR ''<'', CHR ''>'', CHR ''{'', CHR ''}'', CHR ''['', CHR '']'', CHR 0x60, CHR ''$'', CHR 0x5C]"

definition unsafe_words :: "string list" where
  "unsafe_words = [''http:'', ''https:'', ''error'', ''exception'', ''stack'', ''undefined'', ''null'']"

definition text_char :: "unicode \<Rightarrow> char \<Rightarrow> bool" where
  "text_char uc c \<longleftrightarrow> uc_letter_or_number uc c \<or> is_ws c \<or> uc_curly_quote uc c
     \<or> c \<in> set ''.,!?()-:/&'' \<or> c = CHR 0x27"

definition collapse_ws :: "string \<Rightarrow> string" where
  "collapse_ws s = js_trim (squeeze (\<lambda>c. \<not> is_ws c) False s)"

definition safe_provider_text :: "unicode \<Rightarrow> string option \<Rightarrow> string option" where
  "safe_provider_text uc raw = (case raw of None \<Rightarrow> None | Some s \<Rightarrow>
     let text = collapse_ws s
     in if text = [] \<or> length text > 160 then None
        else if has_digit_run 6 0 text then None
        else if (\<exists>c \<in> set text. c \<in> set unsafe_chars)
             \<or> (\<exists>p \<in> set unsafe_words. contains p (map ascii_lower text)) then None
        else if \<not> list_all (text_char uc) text then None
        else Some text)"

section \<open>Mapping a reply\<close>

record outcome =
  oc_status :: charge_status
  oc_action :: "string option"
  oc_message :: "string option"

definition needs_hosted :: "string list" where
  "needs_hosted = [''send_pin'', ''send_phone'', ''send_birthday'', ''send_address'', ''open_url'']"

definition oc :: "charge_status \<Rightarrow> string option \<Rightarrow> string option \<Rightarrow> outcome" where
  "oc s a m = \<lparr>oc_status = s, oc_action = a, oc_message = m\<rparr>"

definition confirming :: outcome where
  "confirming = oc Ch_pending (Some ''wait'') (Some MSG_CONFIRMING)"

definition waiting :: "bool \<Rightarrow> outcome" where
  "waiting momo = (if momo then oc Ch_pending (Some ''approve_on_phone'') (Some MSG_APPROVE_ON_PHONE) else confirming)"

definition pay_another_way :: outcome where
  "pay_another_way = oc Ch_failed (Some ''pay_another_way'') (Some MSG_NEEDS_MORE)"

definition first_text :: "string option \<Rightarrow> string option \<Rightarrow> string option" where
  "first_text a b = (case a of Some t \<Rightarrow> Some t | None \<Rightarrow> b)"

definition map_charge_reply :: "unicode \<Rightarrow> charge_reply \<Rightarrow> bool \<Rightarrow> bool \<Rightarrow> outcome" where
  "map_charge_reply uc reply momo otp_step = (case reply of
     Reply_unreachable \<Rightarrow> if otp_step then confirming else waiting momo
   | Reply_refused msg \<Rightarrow> oc Ch_failed None
       (if otp_step then Some MSG_OTP_FAILED else first_text (safe_provider_text uc msg) (Some MSG_FAILED))
   | Reply_ok d \<Rightarrow>
       let status = (case rd_status d of Some s \<Rightarrow> s | None \<Rightarrow> '''')
       in if status = ''success'' then confirming
          else if status \<in> {''pay_offline'', ''pending'', ''ongoing''} then waiting momo
          else if status = ''send_otp''
            then (if \<not> momo then pay_another_way else oc Ch_needs_otp (Some ''enter_otp'') (Some MSG_ENTER_OTP))
          else if status \<in> {''failed'', ''abandoned'', ''reversed''}
            then oc Ch_failed None (first_text (safe_provider_text uc (rd_displayText d))
                   (first_text (safe_provider_text uc (rd_gatewayResponse d))
                      (Some (if otp_step then MSG_OTP_FAILED else MSG_FAILED))))
          else if status \<in> set needs_hosted then pay_another_way
          else waiting momo)"

section \<open>What it guarantees\<close>

definition digit :: "char \<Rightarrow> bool" where
  "digit c \<longleftrightarrow> 48 \<le> (of_char c :: nat) \<and> (of_char c :: nat) \<le> 57"

lemma has_digit_run_mono: "has_digit_run k n s \<Longrightarrow> n \<le> m \<Longrightarrow> has_digit_run k m s"
  by (induction k n s arbitrary: m rule: has_digit_run.induct) (auto split: if_splits)

lemma has_digit_run_digits:
  "list_all digit ds \<Longrightarrow> ds \<noteq> [] \<Longrightarrow> k \<le> n + length ds \<Longrightarrow> has_digit_run k n (ds @ post)"
proof (induction ds arbitrary: n)
  case (Cons c ds)
  then show ?case by (cases ds) (auto simp: digit_def)
qed simp

lemma has_digit_run_prefix: "has_digit_run k 0 s \<Longrightarrow> has_digit_run k n (pre @ s)"
proof (induction pre arbitrary: n)
  case Nil
  then show ?case using has_digit_run_mono by fastforce
next
  case (Cons c pre)
  then show ?case by simp
qed

lemma no_digit_run:
  assumes "\<not> has_digit_run k 0 (pre @ ds @ post)" and "length ds = k" and "0 < k"
  shows "\<not> list_all digit ds"
  using assms has_digit_run_prefix [of k "ds @ post" 0 pre] has_digit_run_digits [of ds k 0 post] by auto

definition shown_safely :: "unicode \<Rightarrow> string \<Rightarrow> bool" where
  "shown_safely uc t \<longleftrightarrow> 0 < length t \<and> length t \<le> 160 \<and> list_all (text_char uc) t
     \<and> set t \<inter> set unsafe_chars = {} \<and> (\<forall>p \<in> set unsafe_words. \<not> contains p (map ascii_lower t))
     \<and> (\<forall>pre ds post. t = pre @ ds @ post \<longrightarrow> length ds = 6 \<longrightarrow> \<not> list_all digit ds)"

lemma safe_provider_text_sound: "safe_provider_text uc raw = Some t \<Longrightarrow> shown_safely uc t"
  using no_digit_run [of 6]
  by (fastforce simp: safe_provider_text_def shown_safely_def Let_def split: option.splits if_splits)

definition fixed_messages :: "string set" where
  "fixed_messages = {MSG_APPROVE_ON_PHONE, MSG_CONFIRMING, MSG_ENTER_OTP, MSG_NEEDS_MORE, MSG_FAILED, MSG_OTP_FAILED}"

lemma first_text_cases:
  "first_text a b = Some t \<Longrightarrow> a = Some t \<or> (a = None \<and> b = Some t)"
  by (auto simp: first_text_def split: option.splits)

lemmas outcome_defs = map_charge_reply_def confirming_def waiting_def pay_another_way_def oc_def Let_def

lemma map_charge_reply_cases:
  fixes uc :: unicode and reply :: charge_reply and momo otp_step :: bool
  defines "r \<equiv> map_charge_reply uc reply momo otp_step"
  shows "oc_status r = Ch_failed \<or> (oc_status r = Ch_pending \<and> oc_message r \<in> {Some MSG_CONFIRMING, Some MSG_APPROVE_ON_PHONE})
      \<or> (oc_status r = Ch_needs_otp \<and> momo \<and> (\<exists>d. reply = Reply_ok d \<and> rd_status d = Some ''send_otp''))"
  unfolding r_def by (auto simp: outcome_defs split: charge_reply.splits option.splits)

section \<open>Properties\<close>

text \<open>
  What a direct charge's reply becomes. It is only ever reported pending, failed or waiting for
  a one-time code, never succeeded (only a verified charge pays a job); a code is asked for only for
  mobile money and only when Paystack said \<open>send_otp\<close>; an unreachable Paystack never fails the
  charge; and the message is one of the fixed ones or provider text that is short, made of plain
  characters, without a run of six digits and without any word that looks like an internal error.
\<close>

theorem charge_reply_safe:
  "(case map_charge_reply uc reply momo otp_step of r \<Rightarrow>
      oc_status r \<in> {Ch_pending, Ch_needs_otp, Ch_failed}
    \<and> (oc_status r = Ch_needs_otp \<longrightarrow> momo \<and> (\<exists>d. reply = Reply_ok d \<and> rd_status d = Some ''send_otp''))
    \<and> (reply = Reply_unreachable \<longrightarrow> oc_status r = Ch_pending)
    \<and> (\<exists>t. oc_message r = Some t \<and> (t \<in> fixed_messages \<or> shown_safely uc t)))"
proof -
  define r where "r = map_charge_reply uc reply momo otp_step"
  have "reply = Reply_unreachable \<longrightarrow> oc_status r = Ch_pending"
    by (simp add: r_def outcome_defs)
  moreover have "\<exists>t. oc_message r = Some t \<and> (t \<in> fixed_messages \<or> shown_safely uc t)"
    unfolding r_def
    by (cases reply)
       (auto simp: outcome_defs fixed_messages_def first_text_def safe_provider_text_sound split: option.splits)
  ultimately show ?thesis
    using map_charge_reply_cases [of uc reply momo otp_step] by (auto simp: r_def)
qed

theorem charge_reply_safe_witness:
  "oc_status (map_charge_reply ascii Reply_unreachable True False) = Ch_pending"
  using charge_reply_safe [of ascii Reply_unreachable True False] by auto

end
