(* ===== verification/Calendar.thy ===== *)
theory Calendar
  imports Prelude
begin

text \<open>
  The proleptic Gregorian calendar behind JavaScript's \<open>Date.UTC\<close>: days since the epoch of a civil
  date, by counting the days of the years and months before it. A month number beyond twelve rolls
  into the following years, as \<open>Date.UTC\<close> does.
\<close>

definition is_leap :: "int \<Rightarrow> bool" where
  "is_leap y \<longleftrightarrow> (4 dvd y \<and> \<not> 100 dvd y) \<or> 400 dvd y"

definition month_days :: "int \<Rightarrow> nat \<Rightarrow> int" where
  "month_days y m = (if m = 2 then (if is_leap y then 29 else 28)
     else if m \<in> {4, 6, 9, 11} then 30 else 31)"

definition days_before_year :: "int \<Rightarrow> int" where
  "days_before_year y = 365 * (y - 1) + (y - 1) div 4 - (y - 1) div 100 + (y - 1) div 400"

definition days_before_month :: "int \<Rightarrow> nat \<Rightarrow> int" where
  "days_before_month y m = sum_list (map (month_days y) [1..<m])"

definition epoch_days :: int where
  "epoch_days = 719162"

text \<open>Day number of \<open>y-m-d\<close> (\<open>m\<close> from 1), and \<open>Date.UTC(y, m0, d)\<close> in milliseconds (\<open>m0\<close> from 0).\<close>

definition civil_day :: "int \<Rightarrow> nat \<Rightarrow> int \<Rightarrow> int" where
  "civil_day y m d = days_before_year y + days_before_month y m + (d - 1) - epoch_days"

definition DAY_MS :: int where
  "DAY_MS = 86400000"

definition date_utc :: "int \<Rightarrow> nat \<Rightarrow> int \<Rightarrow> int" where
  "date_utc y m0 d = civil_day (y + int (m0 div 12)) (m0 mod 12 + 1) d * DAY_MS"

lemma epoch: "civil_day 1970 1 1 = 0"
  by (simp add: civil_day_def days_before_year_def days_before_month_def epoch_days_def)

lemma civil_day_known: "civil_day 2024 3 1 = 19783" "civil_day 2000 1 1 = 10957"
  by (simp_all add: civil_day_def days_before_year_def epoch_days_def days_before_month_def
      month_days_def is_leap_def upt_conv_Cons)

lemma div_step: "0 < k \<Longrightarrow> (y :: int) div k = (y - 1) div k + (if k dvd y then 1 else 0)"
proof -
  assume k: "0 < k"
  show ?thesis
  proof (cases "k dvd y")
    case True
    then obtain q where y: "y = k * q" by blast
    have "(y - 1) div k = q - 1"
      using k y by (intro int_div_pos_eq [of _ _ _ "k - 1"]) (simp_all add: algebra_simps)
    with True k y show ?thesis by simp
  next
    case False
    then have "0 < y mod k" using k by (simp add: dvd_eq_mod_eq_0 order_less_le)
    then have "(y - 1) div k = y div k"
      using k pos_mod_bound [OF k, of y]
      by (intro int_div_pos_eq [of _ _ _ "y mod k - 1"]) (simp_all add: mult_div_mod_eq)
    with False show ?thesis by simp
  qed
qed

lemma is_leap_step: "days_before_year (y + 1) - days_before_year y = (if is_leap y then 366 else 365)"
proof -
  define a b c where "a \<longleftrightarrow> 4 dvd y" and "b \<longleftrightarrow> 100 dvd y" and "c \<longleftrightarrow> 400 dvd y"
  have "(4 :: int) dvd 100" "(100 :: int) dvd 400" by simp_all
  then have ba: "b \<longrightarrow> a" and cb: "c \<longrightarrow> b" unfolding a_def b_def c_def by (blast intro: dvd_trans)+
  have steps: "y div 4 = (y - 1) div 4 + (if a then 1 else 0)" "y div 100 = (y - 1) div 100 + (if b then 1 else 0)"
      "y div 400 = (y - 1) div 400 + (if c then 1 else 0)"
    unfolding a_def b_def c_def by (rule div_step, simp)+
  have "days_before_year (y + 1) - days_before_year y
      = 365 + (if a then 1 else 0) - (if b then 1 else 0) + (if c then 1 else 0)"
    unfolding days_before_year_def add_diff_cancel_right' steps
    by (simp only: algebra_simps)
  moreover have "is_leap y \<longleftrightarrow> a \<and> \<not> b \<or> c" by (simp add: is_leap_def a_def b_def c_def)
  ultimately show ?thesis using ba cb by simp
qed

lemma month_days_pos: "28 \<le> month_days y m" "month_days y m \<le> 31"
  by (auto simp: month_days_def)

text \<open>The months of a year add up to it, so a date of December is followed by the first of January.\<close>

lemma days_of_year: "days_before_month y 12 + month_days y 12 = (if is_leap y then 366 else 365)"
  by (simp add: days_before_month_def month_days_def upt_conv_Cons)

lemma next_month_day: "1 \<le> m \<Longrightarrow> civil_day y (Suc m) 1 = civil_day y m (month_days y m) + 1"
  by (simp add: civil_day_def days_before_month_def)

lemma next_year_day: "civil_day (y + 1) 1 1 = civil_day y 12 31 + 1"
proof -
  have "days_before_year (y + 1) = days_before_year y + days_before_month y 12 + 31"
    using is_leap_step [of y] days_of_year [of y] by (simp add: month_days_def split: if_splits)
  then show ?thesis by (simp add: civil_day_def days_before_month_def)
qed

end
