(* ===== verification/PaymentMethods.thy ===== *)
theory PaymentMethods
  imports Fixtures ChargeOutcome Calendar
begin

text \<open>
  Saved payment methods of a customer: \<open>src/payment-methods/payment-methods.service.ts\<close> with the
  rules of \<open>payment-methods.constants.ts\<close>. The field cipher is a parameter (\<open>cipher\<close>): the keyed
  hashes of a value, newest key first, and encryption under a nonce (the row's id stands for it).
  The bullet of a masked number, which is not a single byte, is the byte 149.
\<close>

section \<open>Rules\<close>

definition MAX_SAVED_METHODS :: nat where
  "MAX_SAVED_METHODS = 5"

definition GHANA_MOBILE_PREFIXES :: "string list" where
  "GHANA_MOBILE_PREFIXES = [''020'', ''023'', ''024'', ''025'', ''026'', ''027'', ''028'', ''050'', ''053'',
     ''054'', ''055'', ''056'', ''057'', ''059'']"

definition is_ghana_mobile_number :: "string \<Rightarrow> bool" where
  "is_ghana_mobile_number v \<longleftrightarrow> length v = 10 \<and> list_all digit v \<and> take 1 v = ''0''
     \<and> take 3 v \<in> set GHANA_MOBILE_PREFIXES"

fun charge_provider :: "network \<Rightarrow> string" where
  "charge_provider MTN = ''mtn''"
| "charge_provider VOD = ''vod''"
| "charge_provider ATL = ''atl''"

fun network_label :: "network \<Rightarrow> string" where
  "network_label MTN = ''MTN MoMo''"
| "network_label VOD = ''Telecel Cash''"
| "network_label ATL = ''AirtelTigo Money''"

fun network_code :: "network \<Rightarrow> string" where
  "network_code MTN = ''MTN''"
| "network_code VOD = ''VOD''"
| "network_code ATL = ''ATL''"

definition bullets :: "nat \<Rightarrow> string" where
  "bullets n = replicate n (char_of (149 :: nat))"

definition mask_mobile_number :: "string option \<Rightarrow> string option \<Rightarrow> string" where
  "mask_mobile_number prefix last4 =
     (case prefix of Some p \<Rightarrow> p | None \<Rightarrow> ''0'' @ bullets 2) @ '' '' @ bullets 3 @ '' '' @
     (case last4 of Some l \<Rightarrow> l | None \<Rightarrow> bullets 4)"

definition normalise_card_brand :: "string option \<Rightarrow> string" where
  "normalise_card_brand raw = (case raw of None \<Rightarrow> ''card'' | Some s \<Rightarrow>
     let tidy = squeeze (\<lambda>c. \<not> is_ws c) False (map ascii_lower (js_trim s))
     in if tidy = [] then ''card'' else take 30 tidy)"

definition is_card_expired :: "int option \<Rightarrow> int option \<Rightarrow> int \<Rightarrow> bool" where
  "is_card_expired exp_month exp_year now =
     (case (exp_month, exp_year) of
        (Some m, Some y) \<Rightarrow>
          if m = 0 \<or> y = 0 then False
          else let year = (if y < 100 then 2000 + y else y) in now \<ge> date_utc year (nat m) 1
      | _ \<Rightarrow> False)"

section \<open>Views\<close>

record momo_view =
  mv_network :: network
  mv_numberMasked :: string
  mv_last4 :: string
  mv_accountName :: string
  mv_nameVerified :: bool

record card_view =
  cv_brand :: string
  cv_last4 :: string
  cv_expMonth :: int
  cv_expYear :: int
  cv_bank :: "string option"
  cv_expired :: bool

record method_view =
  vw_id :: nat
  vw_type :: method_type
  vw_isDefault :: bool
  vw_createdAt :: int
  vw_momo :: "momo_view option"
  vw_card :: "card_view option"

definition or_empty :: "string option \<Rightarrow> string" where
  "or_empty s = (case s of Some t \<Rightarrow> t | None \<Rightarrow> '''')"

definition to_dto :: "pay_method \<Rightarrow> int \<Rightarrow> method_view" where
  "to_dto r now =
     \<lparr>vw_id = m_id r, vw_type = m_type r, vw_isDefault = m_isDefault r, vw_createdAt = m_createdAt r,
      vw_momo = (if m_type r = M_mobile_money
        then Some \<lparr>mv_network = (case m_network r of Some n \<Rightarrow> n | None \<Rightarrow> MTN),
               mv_numberMasked = mask_mobile_number (m_numberPrefix r) (m_numberLast4 r),
               mv_last4 = or_empty (m_numberLast4 r), mv_accountName = or_empty (m_accountName r),
               mv_nameVerified = m_nameVerified r\<rparr> else None),
      vw_card = (if m_type r = M_mobile_money then None
        else Some \<lparr>cv_brand = (case m_cardBrand r of Some b \<Rightarrow> b | None \<Rightarrow> ''card''),
               cv_last4 = or_empty (m_cardLast4 r),
               cv_expMonth = (case m_expMonth r of Some m \<Rightarrow> m | None \<Rightarrow> 0),
               cv_expYear = (case m_expYear r of Some y \<Rightarrow> y | None \<Rightarrow> 0),
               cv_bank = m_cardBank r, cv_expired = is_card_expired (m_expMonth r) (m_expYear r) now\<rparr>)\<rparr>"

text \<open>\<open>order: { isDefault: 'DESC', createdAt: 'DESC', id: 'DESC' }\<close>.\<close>

definition list_rows :: "db \<Rightarrow> nat \<Rightarrow> pay_method list" where
  "list_rows d uid = rev (sort_key m_isDefault (sort_key m_createdAt (sort_key m_id
     (filter (\<lambda>r. m_userId r = uid) (t_methods d)))))"

record method_list =
  ml_methods :: "method_view list"
  ml_maxMethods :: nat
  ml_canSave :: bool

definition list_methods :: "env \<Rightarrow> nat \<Rightarrow> method_list act" where
  "list_methods env uid =
     bnd (asks clock) (\<lambda>now. bnd (asks (\<lambda>w. list_rows (w_db w) uid)) (\<lambda>rows.
     ret \<lparr>ml_methods = map (\<lambda>r. to_dto r now) rows, ml_maxMethods = MAX_SAVED_METHODS,
          ml_canSave = ci_enabled (e_cipher env)\<rparr>))"

section \<open>Operations\<close>

definition resolve_wallet :: "env \<Rightarrow> string \<Rightarrow> network \<Rightarrow> string act" where
  "resolve_wallet env number net =
     bnd (resolve_account (e_pv env) number (network_code net)) (\<lambda>r. case r of
        Resolved nm \<Rightarrow> ret nm
      | Unresolvable \<Rightarrow> throw (Unprocessable Momo_name_not_found)
      | Lookup_unavailable \<Rightarrow> throw (Unavailable Momo_lookup_unavailable))"

definition lock_owner :: "nat \<Rightarrow> unit act" where
  "lock_owner uid =
     bnd (asks (\<lambda>w. find_user (w_db w) uid)) (\<lambda>u. guard (u \<noteq> None) (NotFound_pay User_not_found))"

definition MAX_IP :: nat where "MAX_IP = 45"
definition MAX_USER_AGENT :: nat where "MAX_USER_AGENT = 256"

definition truncated :: "nat \<Rightarrow> string option \<Rightarrow> string option" where
  "truncated n v = (case v of None \<Rightarrow> None | Some s \<Rightarrow> if s = [] then None else Some (take n s))"

definition record_security :: "nat \<Rightarrow> security_kind \<Rightarrow> string option \<times> string option \<Rightarrow> unit act" where
  "record_security uid kind ctx = with_db (\<lambda>d. d\<lparr>t_security := t_security d @
     [\<lparr>se_userId = uid, se_kind = kind, se_ip = truncated MAX_IP (fst ctx),
       se_userAgent = truncated MAX_USER_AGENT (snd ctx)\<rparr>]\<rparr>)"

definition hash_saved :: "(pay_method \<Rightarrow> string option) \<Rightarrow> string list \<Rightarrow> pay_method list \<Rightarrow> bool" where
  "hash_saved h hashes rows \<longleftrightarrow> (\<exists>r \<in> set rows. truthy (h r) \<and> the (h r) \<in> set hashes)"

definition first_hash :: "string list \<Rightarrow> string option" where
  "first_hash hs = (case hs of [] \<Rightarrow> None | h # _ \<Rightarrow> Some h)"

definition insert_method :: "pay_method \<Rightarrow> db \<Rightarrow> db" where
  "insert_method r d = d\<lparr>t_methods := t_methods d @ [r]\<rparr>"

definition momo_row :: "env \<Rightarrow> nat \<Rightarrow> nat \<Rightarrow> bool \<Rightarrow> network \<Rightarrow> string \<Rightarrow> string \<Rightarrow> string list \<Rightarrow> int \<Rightarrow> pay_method" where
  "momo_row env mid uid def net number nm hashes now =
     \<lparr>m_id = mid, m_userId = uid, m_type = M_mobile_money, m_isDefault = def, m_network = Some net,
      m_numberPrefix = Some (take 3 number), m_numberLast4 = Some (drop (length number - 4) number),
      m_accountName = Some (take 120 nm), m_nameVerified = True,
      m_numberEncrypted = Some (ci_encrypt (e_cipher env) mid number), m_numberHash = first_hash hashes,
      m_cardBrand = None, m_cardLast4 = None, m_expMonth = None, m_expYear = None, m_cardBank = None,
      m_authorizationEncrypted = None, m_signatureHash = None, m_createdAt = now\<rparr>"

definition add_momo_tx :: "env \<Rightarrow> nat \<Rightarrow> network \<Rightarrow> string \<Rightarrow> string \<Rightarrow> string list \<Rightarrow> string option \<times> string option \<Rightarrow> pay_method act" where
  "add_momo_tx env uid net number nm hashes ctx =
     andthen (lock_owner uid)
     (bnd (asks (\<lambda>w. list_rows (w_db w) uid)) (\<lambda>rows.
      andthen (guard (\<not> hash_saved m_numberHash hashes rows) (Conflict_pay Method_already_saved))
      (andthen (guard (length rows < MAX_SAVED_METHODS) (Conflict_pay Method_limit_reached))
      (bnd (asks clock) (\<lambda>now. bnd (fresh T_methods) (\<lambda>mid.
       let row = momo_row env mid uid (rows = []) net number nm hashes now
       in andthen (with_db (insert_method row))
         (andthen (record_security uid (Method_added_momo net) ctx) (ret row))))))))"

definition add_mobile_money :: "env \<Rightarrow> nat \<Rightarrow> network \<Rightarrow> string \<Rightarrow> string option \<times> string option \<Rightarrow> method_view act" where
  "add_mobile_money env uid net number ctx =
     andthen (guard (ci_enabled (e_cipher env)) (Unavailable Saving_disabled))
     (let hashes = ci_hashes (e_cipher env) number in
      bnd (asks (\<lambda>w. list_rows (w_db w) uid)) (\<lambda>existing.
      andthen (guard (\<not> hash_saved m_numberHash hashes existing) (Conflict_pay Method_already_saved))
      (andthen (guard (length existing < MAX_SAVED_METHODS) (Conflict_pay Method_limit_reached))
      (bnd (resolve_wallet env number net) (\<lambda>nm.
       bnd (transaction (add_momo_tx env uid net number nm hashes ctx)) (\<lambda>row.
       bnd (asks clock) (\<lambda>now. ret (to_dto row now))))))))"

definition own_method :: "db \<Rightarrow> nat \<Rightarrow> nat \<Rightarrow> pay_method option" where
  "own_method d uid mid = find (\<lambda>r. m_id r = mid \<and> m_userId r = uid) (t_methods d)"

definition update_methods :: "(pay_method \<Rightarrow> bool) \<Rightarrow> (pay_method \<Rightarrow> pay_method) \<Rightarrow> db \<Rightarrow> db" where
  "update_methods q f d = d\<lparr>t_methods := update_where q f (t_methods d)\<rparr>"

definition set_default_tx :: "nat \<Rightarrow> nat \<Rightarrow> unit act" where
  "set_default_tx uid mid =
     andthen (lock_owner uid)
     (bnd (asks (\<lambda>w. own_method (w_db w) uid mid)) (\<lambda>r0.
      bnd (some_or (NotFound_pay Method_not_found) r0) (\<lambda>r.
      if m_isDefault r then ret ()
      else andthen (with_db (update_methods (\<lambda>x. m_userId x = uid \<and> m_isDefault x) (\<lambda>x. x\<lparr>m_isDefault := False\<rparr>)))
            (with_db (update_methods (\<lambda>x. m_id x = mid \<and> m_userId x = uid) (\<lambda>x. x\<lparr>m_isDefault := True\<rparr>))))))"

definition set_default :: "env \<Rightarrow> nat \<Rightarrow> nat \<Rightarrow> method_list act" where
  "set_default env uid mid = andthen (transaction (set_default_tx uid mid)) (list_methods env uid)"

text \<open>\<open>order: { createdAt: 'DESC', id: 'DESC' }\<close>: the newest of a list of rows.\<close>

definition newest_method :: "db \<Rightarrow> nat \<Rightarrow> pay_method option" where
  "newest_method d uid = (case rev (sort_key m_createdAt (sort_key m_id
     (filter (\<lambda>r. m_userId r = uid) (t_methods d)))) of [] \<Rightarrow> None | r # _ \<Rightarrow> Some r)"

definition delete_method :: "nat \<Rightarrow> nat \<Rightarrow> db \<Rightarrow> db" where
  "delete_method uid mid d = d\<lparr>t_methods := filter (\<lambda>r. \<not> (m_id r = mid \<and> m_userId r = uid)) (t_methods d)\<rparr>"

definition promote_newest :: "nat \<Rightarrow> unit act" where
  "promote_newest uid =
     bnd (asks (\<lambda>w. newest_method (w_db w) uid)) (\<lambda>n. case n of None \<Rightarrow> ret ()
     | Some x \<Rightarrow> with_db (update_methods (\<lambda>y. m_id y = m_id x) (\<lambda>y. y\<lparr>m_isDefault := True\<rparr>)))"

definition remove_tx :: "nat \<Rightarrow> nat \<Rightarrow> string option \<times> string option \<Rightarrow> unit act" where
  "remove_tx uid mid ctx =
     andthen (lock_owner uid)
     (bnd (asks (\<lambda>w. own_method (w_db w) uid mid)) (\<lambda>r0.
      bnd (some_or (NotFound_pay Method_not_found) r0) (\<lambda>r.
      andthen (with_db (delete_method uid mid))
      (andthen (only_if (m_isDefault r) (promote_newest uid))
        (record_security uid (Method_removed (m_type r)) ctx)))))"

definition remove_method :: "env \<Rightarrow> nat \<Rightarrow> nat \<Rightarrow> string option \<times> string option \<Rightarrow> method_list act" where
  "remove_method env uid mid ctx = andthen (transaction (remove_tx uid mid ctx)) (list_methods env uid)"

record authorization =
  az_code :: "string option"
  az_cardType :: "string option"
  az_brand :: "string option"
  az_last4 :: "string option"
  az_expMonth :: "int option"
  az_expYear :: "int option"
  az_bank :: "string option"
  az_channel :: "string option"
  az_signature :: "string option"
  az_reusable :: bool

datatype card_save = Card_saved | Card_duplicate | Card_not_reusable | Card_limit | Card_disabled | Card_invalid

definition auth_code_ok :: "string \<Rightarrow> bool" where
  "auth_code_ok code \<longleftrightarrow> take 5 code = ''AUTH_'' \<and> 4 \<le> length (drop 5 code) \<and> length (drop 5 code) \<le> 100
     \<and> list_all ascii_alnum (drop 5 code)"

definition authorization_ok :: "authorization \<Rightarrow> bool" where
  "authorization_ok a \<longleftrightarrow> auth_code_ok (or_empty (az_code a)) \<and> or_empty (az_signature a) \<noteq> []
     \<and> length (or_empty (az_last4 a)) = 4 \<and> list_all digit (or_empty (az_last4 a))
     \<and> (case az_expMonth a of Some m \<Rightarrow> 1 \<le> m \<and> m \<le> 12 | None \<Rightarrow> False)
     \<and> (case az_expYear a of Some y \<Rightarrow> 2000 \<le> y \<and> y \<le> 2100 | None \<Rightarrow> False)"

definition card_row :: "env \<Rightarrow> nat \<Rightarrow> nat \<Rightarrow> bool \<Rightarrow> authorization \<Rightarrow> string list \<Rightarrow> int \<Rightarrow> pay_method" where
  "card_row env mid uid def a hashes now =
     \<lparr>m_id = mid, m_userId = uid, m_type = M_card, m_isDefault = def, m_network = None,
      m_numberPrefix = None, m_numberLast4 = None, m_accountName = None, m_nameVerified = False,
      m_numberEncrypted = None, m_numberHash = None,
      m_cardBrand = Some (normalise_card_brand (first_text (az_cardType a) (az_brand a))),
      m_cardLast4 = Some (or_empty (az_last4 a)), m_expMonth = az_expMonth a, m_expYear = az_expYear a,
      m_cardBank = (if js_trim (or_empty (az_bank a)) \<noteq> [] then Some (take 100 (js_trim (or_empty (az_bank a)))) else None),
      m_authorizationEncrypted = Some (ci_encrypt (e_cipher env) mid (or_empty (az_code a))),
      m_signatureHash = first_hash hashes, m_createdAt = now\<rparr>"

definition save_card :: "env \<Rightarrow> nat \<Rightarrow> authorization option \<Rightarrow> card_save act" where
  "save_card env uid az =
     (if \<not> ci_enabled (e_cipher env) then ret Card_disabled
      else case az of None \<Rightarrow> ret Card_not_reusable
      | Some a \<Rightarrow>
        if \<not> az_reusable a \<or> az_channel a \<noteq> Some ''card'' then ret Card_not_reusable
        else if \<not> authorization_ok a then ret Card_invalid
        else let hashes = ci_hashes (e_cipher env) (or_empty (az_signature a)) in
          transaction (andthen (lock_owner uid)
            (bnd (asks (\<lambda>w. list_rows (w_db w) uid)) (\<lambda>rows.
             if hash_saved m_signatureHash hashes rows then ret Card_duplicate
             else if length rows \<ge> MAX_SAVED_METHODS then ret Card_limit
             else bnd (asks clock) (\<lambda>now. bnd (fresh T_methods) (\<lambda>mid.
               andthen (with_db (insert_method (card_row env mid uid (rows = []) a hashes now)))
                (andthen (record_security uid Method_added_card (None, None)) (ret Card_saved))))))))"

datatype chargeable = Chargeable_momo nat network string | Chargeable_card nat string bool

definition get_chargeable :: "env \<Rightarrow> nat \<Rightarrow> nat \<Rightarrow> chargeable act" where
  "get_chargeable env uid mid =
     andthen (guard (ci_enabled (e_cipher env)) (Unavailable Saving_disabled))
     (bnd (asks (\<lambda>w. own_method (w_db w) uid mid)) (\<lambda>r0.
      bnd (some_or (NotFound_pay Method_not_found) r0) (\<lambda>r.
      bnd (asks clock) (\<lambda>now.
      let dec = ci_decrypt (e_cipher env) in
      if m_type r = M_mobile_money
      then bnd (some_or DecryptError (dec (or_empty (m_numberEncrypted r)))) (\<lambda>phone.
        ret (Chargeable_momo (m_id r) (case m_network r of Some n \<Rightarrow> n | None \<Rightarrow> MTN) phone))
      else bnd (some_or DecryptError (dec (or_empty (m_authorizationEncrypted r)))) (\<lambda>code.
        ret (Chargeable_card (m_id r) code (is_card_expired (m_expMonth r) (m_expYear r) now)))))))"

section \<open>The invariant of saved methods\<close>

definition user_rows :: "pay_method list \<Rightarrow> nat \<Rightarrow> pay_method list" where
  "user_rows ms uid = filter (\<lambda>r. m_userId r = uid) ms"

definition no_clash :: "(pay_method \<Rightarrow> string option) \<Rightarrow> pay_method list \<Rightarrow> bool" where
  "no_clash h ms \<longleftrightarrow> (\<forall>r \<in> set ms. \<forall>s \<in> set ms.
     m_userId r = m_userId s \<and> h r = h s \<and> h r \<noteq> None \<longrightarrow> m_id r = m_id s)"

definition base_ok :: "pay_method list \<Rightarrow> nat \<Rightarrow> bool" where
  "base_ok ms n \<longleftrightarrow> distinct (map m_id ms) \<and> (\<forall>r \<in> set ms. m_id r < n)
     \<and> (\<forall>uid. length (user_rows ms uid) \<le> MAX_SAVED_METHODS)
     \<and> no_clash m_numberHash ms \<and> no_clash m_signatureHash ms"

definition one_default :: "pay_method list \<Rightarrow> bool" where
  "one_default ms \<longleftrightarrow> (\<forall>r \<in> set ms. \<exists>!x. x \<in> set ms \<and> m_userId x = m_userId r \<and> m_isDefault x)"

definition methods_ok :: "world \<Rightarrow> bool" where
  "methods_ok w \<longleftrightarrow> base_ok (t_methods (w_db w)) (next_id w T_methods) \<and> one_default (t_methods (w_db w))"

lemma set_list_rows [simp]: "set (list_rows d uid) = set (user_rows (t_methods d) uid)"
  by (simp add: list_rows_def user_rows_def)

lemma length_list_rows [simp]: "length (list_rows d uid) = length (user_rows (t_methods d) uid)"
  by (simp add: list_rows_def user_rows_def)

lemma list_rows_Nil [simp]: "list_rows d uid = [] \<longleftrightarrow> user_rows (t_methods d) uid = []"
  by (metis length_0_conv length_list_rows)

lemma user_rows_append [simp]:
  "user_rows (ms @ [r]) uid = user_rows ms uid @ (if m_userId r = uid then [r] else [])"
  by (simp add: user_rows_def)

lemma no_clash_insert:
  assumes "no_clash h ms" and "\<forall>s \<in> set (user_rows ms (m_userId r)). h r \<noteq> None \<longrightarrow> h s \<noteq> h r"
  shows "no_clash h (ms @ [r])"
  unfolding no_clash_def
proof (intro ballI impI)
  fix x y assume x: "x \<in> set (ms @ [r])" and y: "y \<in> set (ms @ [r])"
    and e: "m_userId x = m_userId y \<and> h x = h y \<and> h x \<noteq> None"
  have old: "z \<in> set ms \<Longrightarrow> m_userId z = m_userId r \<Longrightarrow> h r \<noteq> None \<Longrightarrow> h z \<noteq> h r" for z
    using assms(2) by (auto simp: user_rows_def)
  show "m_id x = m_id y"
  proof (cases "x \<in> set ms \<and> y \<in> set ms")
    case True
    then show ?thesis using assms(1) e unfolding no_clash_def by blast
  next
    case False
    then consider "x = r" "y = r" | "x = r" "y \<in> set ms" | "y = r" "x \<in> set ms" using x y by auto
    then show ?thesis using e old by cases metis+
  qed
qed

lemma no_clash_filter: "no_clash h ms \<Longrightarrow> no_clash h (filter P ms)"
  unfolding no_clash_def by (meson filter_is_subset subsetD)

lemma no_clash_map:
  "no_clash h ms \<Longrightarrow> (\<And>r. m_id (f r) = m_id r \<and> m_userId (f r) = m_userId r \<and> h (f r) = h r) \<Longrightarrow>
   no_clash h (map f ms)"
  unfolding no_clash_def by simp

lemma insert_keeps_base:
  assumes "base_ok ms n" and "m_id r = n" and "length (user_rows ms (m_userId r)) < MAX_SAVED_METHODS"
    and "\<forall>s \<in> set (user_rows ms (m_userId r)). m_numberHash r \<noteq> None \<longrightarrow> m_numberHash s \<noteq> m_numberHash r"
    and "\<forall>s \<in> set (user_rows ms (m_userId r)). m_signatureHash r \<noteq> None \<longrightarrow> m_signatureHash s \<noteq> m_signatureHash r"
  shows "base_ok (ms @ [r]) (Suc n)"
proof -
  have "distinct (map m_id (ms @ [r]))" "\<forall>x \<in> set (ms @ [r]). m_id x < Suc n"
    using assms(1,2) by (auto simp: base_ok_def less_Suc_eq)
  moreover have "length (user_rows (ms @ [r]) uid) \<le> MAX_SAVED_METHODS" for uid
    using assms(1,3) by (auto simp: base_ok_def)
  moreover have "no_clash m_numberHash (ms @ [r])" "no_clash m_signatureHash (ms @ [r])"
    using assms(1,4,5) by (auto simp: base_ok_def intro!: no_clash_insert)
  ultimately show ?thesis by (simp add: base_ok_def)
qed

lemma insert_keeps_default:
  assumes "one_default ms" and "m_isDefault r \<longleftrightarrow> user_rows ms (m_userId r) = []"
    and "\<forall>s \<in> set ms. m_id s < m_id r"
  shows "one_default (ms @ [r])"
  unfolding one_default_def
proof
  fix x assume x: "x \<in> set (ms @ [r])"
  show "\<exists>!y. y \<in> set (ms @ [r]) \<and> m_userId y = m_userId x \<and> m_isDefault y"
  proof (cases "user_rows ms (m_userId x) = []")
    case True
    then have none: "\<forall>s \<in> set ms. m_userId s \<noteq> m_userId x" by (auto simp: user_rows_def filter_empty_conv)
    with x have "x = r" by auto
    with none True assms(2) show ?thesis by auto
  next
    case False
    then obtain s where s: "s \<in> set ms" "m_userId s = m_userId x" by (auto simp: user_rows_def filter_empty_conv)
    then have ex: "\<exists>!y. y \<in> set ms \<and> m_userId y = m_userId x \<and> m_isDefault y"
      using assms(1) unfolding one_default_def by metis
    have "\<not> (m_userId r = m_userId x \<and> m_isDefault r)" using False assms(2) by auto
    with ex show ?thesis by auto
  qed
qed

lemma relabel_ok:
  assumes "base_ok ms n" and "\<And>r. f r = r\<lparr>m_isDefault := D r\<rparr>"
    and "\<forall>r \<in> set ms. \<exists>!x. x \<in> set ms \<and> m_userId x = m_userId r \<and> D x"
  shows "base_ok (map f ms) n" and "one_default (map f ms)"
proof -
  have sel: "m_id (f r) = m_id r" "m_userId (f r) = m_userId r" "m_numberHash (f r) = m_numberHash r"
    "m_signatureHash (f r) = m_signatureHash r" "m_isDefault (f r) = D r" for r
    by (simp_all add: assms(2))
  have "user_rows (map f ms) uid = map f (user_rows ms uid)" for uid
    by (induction ms) (auto simp: user_rows_def sel)
  then show "base_ok (map f ms) n"
    using assms(1) by (auto simp: base_ok_def sel comp_def intro!: no_clash_map)
  show "one_default (map f ms)"
    unfolding one_default_def
  proof
    fix y assume "y \<in> set (map f ms)"
    then obtain r where r: "r \<in> set ms" "y = f r" by auto
    then have "\<exists>!x. x \<in> set ms \<and> m_userId x = m_userId r \<and> D x" using assms(3) by metis
    then obtain x where x: "x \<in> set ms" "m_userId x = m_userId r" "D x"
      and uniq: "\<And>z. z \<in> set ms \<and> m_userId z = m_userId r \<and> D z \<Longrightarrow> z = x" by (elim ex1E) blast
    show "\<exists>!z. z \<in> set (map f ms) \<and> m_userId z = m_userId y \<and> m_isDefault z"
    proof (rule ex1I [of _ "f x"])
      show "f x \<in> set (map f ms) \<and> m_userId (f x) = m_userId y \<and> m_isDefault (f x)"
        using x r by (simp add: sel)
      fix z assume z: "z \<in> set (map f ms) \<and> m_userId z = m_userId y \<and> m_isDefault z"
      then obtain u where "u \<in> set ms" "z = f u" by auto
      with z r uniq [of u] show "z = f x" by (simp add: sel)
    qed
  qed
qed

lemma delete_keeps_base: "base_ok ms n \<Longrightarrow> base_ok (filter P ms) n"
proof -
  assume b: "base_ok ms n"
  have "user_rows (filter P ms) uid = filter P (user_rows ms uid)" for uid
    by (induction ms) (auto simp: user_rows_def)
  then have "length (user_rows (filter P ms) uid) \<le> MAX_SAVED_METHODS" for uid
    using b by (auto simp: base_ok_def intro: order_trans [OF length_filter_le])
  then show ?thesis
    using b by (auto simp: base_ok_def distinct_map_filter intro: no_clash_filter)
qed

subsection \<open>Every operation keeps it\<close>

definition cipher_ok :: "cipher \<Rightarrow> bool" where
  "cipher_ok ci \<longleftrightarrow> (\<forall>v. ci_hashes ci v \<noteq> [] \<and> [] \<notin> set (ci_hashes ci v))"

lemma insert_method_ok:
  assumes "methods_ok w" and "m_id r = next_id w T_methods" and "m_userId r = uid"
    and "m_isDefault r \<longleftrightarrow> user_rows (t_methods (w_db w)) uid = []"
    and "length (user_rows (t_methods (w_db w)) uid) < MAX_SAVED_METHODS"
    and "\<forall>s \<in> set (user_rows (t_methods (w_db w)) uid). m_numberHash r \<noteq> None \<longrightarrow> m_numberHash s \<noteq> m_numberHash r"
    and "\<forall>s \<in> set (user_rows (t_methods (w_db w)) uid). m_signatureHash r \<noteq> None \<longrightarrow> m_signatureHash s \<noteq> m_signatureHash r"
  shows "base_ok (t_methods (w_db w) @ [r]) (Suc (next_id w T_methods))"
    and "one_default (t_methods (w_db w) @ [r])"
proof -
  have b: "base_ok (t_methods (w_db w)) (next_id w T_methods)" and d: "one_default (t_methods (w_db w))"
    using assms(1) by (simp_all add: methods_ok_def)
  show "base_ok (t_methods (w_db w) @ [r]) (Suc (next_id w T_methods))"
    using insert_keeps_base [OF b assms(2)] assms(3,5,6,7) by simp
  show "one_default (t_methods (w_db w) @ [r])"
    by (rule insert_keeps_default [OF d]) (use b assms in \<open>simp_all add: base_ok_def\<close>)
qed

lemma fresh_hash:
  assumes "cipher_ok ci" and "\<not> hash_saved h (ci_hashes ci v) rows"
  shows "\<forall>s \<in> set rows. h s \<noteq> first_hash (ci_hashes ci v)"
proof -
  obtain x xs where x: "ci_hashes ci v = x # xs" "x \<noteq> []"
    using assms(1) by (metis cipher_ok_def list.exhaust list.set_intros(1))
  then have "hash_saved h (ci_hashes ci v) rows" if "s \<in> set rows" "h s = Some x" for s
    using that by (auto simp: hash_saved_def intro!: bexI [of _ s])
  with assms(2) x show ?thesis by (auto simp: first_hash_def)
qed

lemma hash_saved_cong: "set rows = set rows' \<Longrightarrow> hash_saved h hs rows = hash_saved h hs rows'"
  by (simp add: hash_saved_def)

lemma add_momo_tx_ok:
  assumes "methods_ok w" and "cipher_ok (e_cipher env)"
    and "add_momo_tx env uid net number nm (ci_hashes (e_cipher env) number) ctx w = (r, w')"
  shows "(\<exists>e. r = Inl e) \<and> w' = w \<or> methods_ok w'"
proof (cases "find_user (w_db w) uid = None
    \<or> hash_saved m_numberHash (ci_hashes (e_cipher env) number) (list_rows (w_db w) uid)
    \<or> \<not> length (list_rows (w_db w) uid) < MAX_SAVED_METHODS")
  case True
  with assms(3) show ?thesis
    by (auto simp: add_momo_tx_def lock_owner_def run_simps split: if_splits)
next
  case False
  define row where "row = momo_row env (next_id w T_methods) uid (list_rows (w_db w) uid = []) net number nm
      (ci_hashes (e_cipher env) number) (clock w)"
  have fresh: "\<forall>s \<in> set (user_rows (t_methods (w_db w)) uid). m_numberHash s \<noteq> m_numberHash row"
    using False fresh_hash [OF assms(2), of m_numberHash number "list_rows (w_db w) uid"]
    by (simp add: row_def momo_row_def)
  have ok: "base_ok (t_methods (w_db w) @ [row]) (Suc (next_id w T_methods))" "one_default (t_methods (w_db w) @ [row])"
    by (rule insert_method_ok [OF assms(1), where uid = uid];
        use False fresh in \<open>simp add: row_def momo_row_def\<close>)+
  with False assms(3) show ?thesis
    by (auto simp: add_momo_tx_def lock_owner_def run_simps Let_def row_def insert_method_def record_security_def methods_ok_def)
qed

lemma save_card_ok:
  assumes "methods_ok w" and "cipher_ok (e_cipher env)" and "save_card env uid az w = (r, w')"
  shows "methods_ok w'"
proof (cases "\<exists>a. az = Some a \<and> ci_enabled (e_cipher env) \<and> az_reusable a \<and> az_channel a = Some ''card'' \<and> authorization_ok a
     \<and> find_user (w_db w) uid \<noteq> None
     \<and> \<not> hash_saved m_signatureHash (ci_hashes (e_cipher env) (or_empty (az_signature a))) (list_rows (w_db w) uid)
     \<and> length (list_rows (w_db w) uid) < MAX_SAVED_METHODS")
  case False
  with assms show ?thesis
    by (auto simp: save_card_def lock_owner_def run_simps Let_def split: option.splits if_splits)
next
  case True
  then obtain a where a: "az = Some a" and ok: "ci_enabled (e_cipher env)" "az_reusable a"
      "az_channel a = Some ''card''" "authorization_ok a" "find_user (w_db w) uid \<noteq> None"
    and new: "\<not> hash_saved m_signatureHash (ci_hashes (e_cipher env) (or_empty (az_signature a))) (list_rows (w_db w) uid)"
    and room: "length (list_rows (w_db w) uid) < MAX_SAVED_METHODS" by blast
  define row where "row = card_row env (next_id w T_methods) uid (list_rows (w_db w) uid = []) a
      (ci_hashes (e_cipher env) (or_empty (az_signature a))) (clock w)"
  have fresh: "\<forall>s \<in> set (user_rows (t_methods (w_db w)) uid). m_signatureHash s \<noteq> m_signatureHash row"
    using fresh_hash [OF assms(2) new] by (simp add: row_def card_row_def)
  have "base_ok (t_methods (w_db w) @ [row]) (Suc (next_id w T_methods))" "one_default (t_methods (w_db w) @ [row])"
    by (rule insert_method_ok [OF assms(1), where uid = uid];
        use room fresh in \<open>simp add: row_def card_row_def\<close>)+
  with a ok new room assms(3) show ?thesis
    by (auto simp: save_card_def lock_owner_def run_simps Let_def row_def insert_method_def record_security_def methods_ok_def)
qed

lemma own_methodD: "own_method d uid mid = Some r \<Longrightarrow> r \<in> set (t_methods d) \<and> m_id r = mid \<and> m_userId r = uid"
  by (auto simp: own_method_def find_Some_iff)

lemma base_ok_inj: "base_ok ms n \<Longrightarrow> r \<in> set ms \<Longrightarrow> s \<in> set ms \<Longrightarrow> m_id r = m_id s \<Longrightarrow> r = s"
  by (auto simp: base_ok_def distinct_map inj_on_def)

lemma update_methods_sel [simp]: "t_methods (update_methods q f d) = map (\<lambda>r. if q r then f r else r) (t_methods d)"
  by (simp add: update_methods_def update_where_def)

lemma default_update_same: "m_isDefault r = b \<Longrightarrow> r\<lparr>m_isDefault := b\<rparr> = r"
  by (cases r) simp

lemma set_default_rows:
  "map (\<lambda>r. if m_id r = mid \<and> m_userId r = uid then r\<lparr>m_isDefault := True\<rparr> else r)
     (map (\<lambda>r. if m_userId r = uid \<and> m_isDefault r then r\<lparr>m_isDefault := False\<rparr> else r) ms)
   = map (\<lambda>r. r\<lparr>m_isDefault := (if m_userId r = uid then m_id r = mid else m_isDefault r)\<rparr>) ms"
  by (auto simp: default_update_same)

lemma set_default_tx_ok:
  assumes "methods_ok w" and "set_default_tx uid mid w = (r, w')"
  shows "methods_ok w'"
proof (cases "find_user (w_db w) uid = None \<or> own_method (w_db w) uid mid = None")
  case True
  with assms show ?thesis by (auto simp: set_default_tx_def lock_owner_def run_simps split: if_splits)
next
  case False
  then obtain x where x: "own_method (w_db w) uid mid = Some x" by auto
  define ms where "ms = t_methods (w_db w)"
  have b: "base_ok ms (next_id w T_methods)" and d: "one_default ms"
    using assms(1) by (simp_all add: methods_ok_def ms_def)
  have xm: "x \<in> set ms" "m_id x = mid" "m_userId x = uid" using own_methodD [OF x] by (simp_all add: ms_def)
  define D where "D r = (if m_userId r = uid then m_id r = mid else m_isDefault r)" for r :: pay_method
  have "\<forall>r \<in> set ms. \<exists>!y. y \<in> set ms \<and> m_userId y = m_userId r \<and> D y"
  proof
    fix r assume r: "r \<in> set ms"
    show "\<exists>!y. y \<in> set ms \<and> m_userId y = m_userId r \<and> D y"
    proof (cases "m_userId r = uid")
      case True
      then show ?thesis using xm base_ok_inj [OF b] by (intro ex1I [of _ x]) (auto simp: D_def)
    next
      case False
      with d r show ?thesis unfolding one_default_def D_def by (metis (mono_tags, lifting))
    qed
  qed
  from relabel_ok [OF b refl this]
  have "base_ok (map (\<lambda>r. r\<lparr>m_isDefault := D r\<rparr>) ms) (next_id w T_methods)"
    "one_default (map (\<lambda>r. r\<lparr>m_isDefault := D r\<rparr>) ms)" by auto
  with False x assms show ?thesis
    by (auto simp: set_default_tx_def lock_owner_def run_simps methods_ok_def ms_def D_def
        simp flip: set_default_rows split: if_splits simp del: map_map)
qed

lemma newest_method_cases:
  "newest_method d uid = None \<and> user_rows (t_methods d) uid = []
   \<or> (\<exists>x. newest_method d uid = Some x \<and> x \<in> set (user_rows (t_methods d) uid))"
proof (cases "user_rows (t_methods d) uid")
  case Nil
  then show ?thesis by (simp add: newest_method_def user_rows_def)
next
  case (Cons a xs)
  define ys where "ys = rev (sort_key m_createdAt (sort_key m_id (user_rows (t_methods d) uid)))"
  have "set ys = set (user_rows (t_methods d) uid)" by (simp add: ys_def)
  moreover from this Cons obtain y zs where "ys = y # zs" by (cases ys) auto
  moreover have "newest_method d uid = (case ys of [] \<Rightarrow> None | r # _ \<Rightarrow> Some r)"
    by (simp add: newest_method_def user_rows_def ys_def)
  ultimately show ?thesis by auto
qed

lemma delete_default:
  assumes b: "base_ok ms n" and d: "one_default ms" and r: "r \<in> set ms" "\<not> m_isDefault r"
  shows "one_default (filter (\<lambda>x. \<not> (m_id x = m_id r \<and> m_userId x = m_userId r)) ms)"
  unfolding one_default_def
proof
  fix y assume y: "y \<in> set (filter (\<lambda>x. \<not> (m_id x = m_id r \<and> m_userId x = m_userId r)) ms)"
  then have "\<exists>!x. x \<in> set ms \<and> m_userId x = m_userId y \<and> m_isDefault x"
    using d unfolding one_default_def by auto
  moreover have "x \<in> set ms \<Longrightarrow> m_isDefault x \<Longrightarrow> m_id x \<noteq> m_id r" for x
    using base_ok_inj [OF b _ r(1)] r(2) by blast
  ultimately show "\<exists>!x. x \<in> set (filter (\<lambda>x. \<not> (m_id x = m_id r \<and> m_userId x = m_userId r)) ms)
      \<and> m_userId x = m_userId y \<and> m_isDefault x"
    by (auto 0 3)
qed

lemma promote_default:
  assumes b: "base_ok ms n" and d: "one_default ms" and r: "r \<in> set ms" "m_isDefault r"
    and x: "x \<in> set ms" "m_userId x = m_userId r" "m_id x \<noteq> m_id r"
    and y: "y \<in> set ms" "m_id y \<noteq> m_id r"
  shows "\<exists>!z. z \<in> set (filter (\<lambda>x. \<not> (m_id x = m_id r \<and> m_userId x = m_userId r)) ms)
      \<and> m_userId z = m_userId y \<and> (m_id z = m_id x \<or> m_isDefault z)"
proof (cases "m_userId y = m_userId r")
  case True
  have only: "z \<in> set ms \<Longrightarrow> m_userId z = m_userId r \<Longrightarrow> m_isDefault z \<Longrightarrow> z = r" for z
    using d r unfolding one_default_def by blast
  have same: "z \<in> set ms \<Longrightarrow> m_id z = m_id x \<Longrightarrow> z = x" for z using base_ok_inj [OF b] x(1) by blast
  show ?thesis
  proof (rule ex1I [of _ x])
    show "x \<in> set (filter (\<lambda>x. \<not> (m_id x = m_id r \<and> m_userId x = m_userId r)) ms)
      \<and> m_userId x = m_userId y \<and> (m_id x = m_id x \<or> m_isDefault x)" using x True by simp
    fix z assume z: "z \<in> set (filter (\<lambda>x. \<not> (m_id x = m_id r \<and> m_userId x = m_userId r)) ms)
      \<and> m_userId z = m_userId y \<and> (m_id z = m_id x \<or> m_isDefault z)"
    then have "z \<in> set ms" "z \<noteq> r" "m_userId z = m_userId r" using True by auto
    with only [of z] same [of z] z show "z = x" by blast
  qed
next
  case False
  have "\<exists>!z. z \<in> set ms \<and> m_userId z = m_userId y \<and> m_isDefault z"
    using d y unfolding one_default_def by blast
  then obtain z where z: "z \<in> set ms" "m_userId z = m_userId y" "m_isDefault z"
    and only: "\<And>v. v \<in> set ms \<and> m_userId v = m_userId y \<and> m_isDefault v \<Longrightarrow> v = z" by (elim ex1E) blast
  have same: "v \<in> set ms \<Longrightarrow> m_id v = m_id x \<Longrightarrow> v = x" for v using base_ok_inj [OF b] x(1) by blast
  show ?thesis
  proof (rule ex1I [of _ z])
    show "z \<in> set (filter (\<lambda>x. \<not> (m_id x = m_id r \<and> m_userId x = m_userId r)) ms)
      \<and> m_userId z = m_userId y \<and> (m_id z = m_id x \<or> m_isDefault z)" using z False by simp
    fix v assume v: "v \<in> set (filter (\<lambda>x. \<not> (m_id x = m_id r \<and> m_userId x = m_userId r)) ms)
      \<and> m_userId v = m_userId y \<and> (m_id v = m_id x \<or> m_isDefault v)"
    then have "v \<in> set ms" "m_userId v \<noteq> m_userId r" using False by auto
    with only [of v] same [of v] v x show "v = z" by auto
  qed
qed

lemma remove_tx_ok:
  assumes "methods_ok w" and "remove_tx uid mid ctx w = (r, w')"
  shows "methods_ok w'"
proof (cases "find_user (w_db w) uid = None \<or> own_method (w_db w) uid mid = None")
  case True
  with assms show ?thesis by (auto simp: remove_tx_def lock_owner_def run_simps split: if_splits)
next
  case False
  then obtain x where x: "own_method (w_db w) uid mid = Some x" by auto
  define ms where "ms = t_methods (w_db w)"
  define rest where "rest = filter (\<lambda>y. \<not> (m_id y = m_id x \<and> m_userId y = m_userId x)) ms"
  have b: "base_ok ms (next_id w T_methods)" and d: "one_default ms"
    using assms(1) by (simp_all add: methods_ok_def ms_def)
  have xm: "x \<in> set ms" "m_id x = mid" "m_userId x = uid" using own_methodD [OF x] by (simp_all add: ms_def)
  have b': "base_ok rest (next_id w T_methods)" unfolding rest_def by (rule delete_keeps_base [OF b])
  have tab: "t_methods (delete_method uid mid (w_db w)) = rest"
    using xm by (simp add: delete_method_def rest_def ms_def)
  show ?thesis
  proof (cases "m_isDefault x")
    case False
    have "one_default rest" unfolding rest_def by (rule delete_default [OF b d xm(1) False])
    with b' tab False x \<open>\<not> (find_user (w_db w) uid = None \<or> _)\<close> assms(2) show ?thesis
      by (auto simp: remove_tx_def lock_owner_def run_simps record_security_def methods_ok_def)
  next
    case True
    have run: "w' = snd (andthen (promote_newest uid) (record_security uid (Method_removed (m_type x)) ctx)
        (w\<lparr>w_db := delete_method uid mid (w_db w)\<rparr>))"
      using True x \<open>\<not> (find_user (w_db w) uid = None \<or> _)\<close> assms(2)
      by (auto simp: remove_tx_def lock_owner_def run_simps)
    from newest_method_cases [of "delete_method uid mid (w_db w)" uid, unfolded tab]
    show ?thesis
    proof (elim disjE exE conjE)
      assume none: "newest_method (delete_method uid mid (w_db w)) uid = None" and nil: "user_rows rest uid = []"
      have "one_default rest"
        unfolding one_default_def
      proof
        fix y assume y: "y \<in> set rest"
        then have "m_userId y \<noteq> uid" using nil by (auto simp: user_rows_def filter_empty_conv)
        moreover have "\<exists>!z. z \<in> set ms \<and> m_userId z = m_userId y \<and> m_isDefault z"
          using d y unfolding one_default_def rest_def by auto
        ultimately show "\<exists>!z. z \<in> set rest \<and> m_userId z = m_userId y \<and> m_isDefault z"
          using xm unfolding rest_def by auto
      qed
      with run none b' tab show ?thesis
        by (simp add: promote_newest_def run_simps record_security_def methods_ok_def)
    next
      fix z assume z: "newest_method (delete_method uid mid (w_db w)) uid = Some z" "z \<in> set (user_rows rest uid)"
      then have zr: "z \<in> set rest" "m_userId z = uid" by (auto simp: user_rows_def)
      then have zm: "z \<in> set ms" "m_id z \<noteq> m_id x" using xm by (auto simp: rest_def)
      have ids: "y \<in> set rest \<Longrightarrow> y \<in> set ms \<and> m_id y \<noteq> m_id x" for y
        using base_ok_inj [OF b _ xm(1)] by (auto simp: rest_def)
      have "\<forall>y \<in> set rest. \<exists>!v. v \<in> set rest \<and> m_userId v = m_userId y \<and> (m_id v = m_id z \<or> m_isDefault v)"
      proof
        fix y assume "y \<in> set rest"
        then have "y \<in> set ms" "m_id y \<noteq> m_id x" using ids by auto
        then show "\<exists>!v. v \<in> set rest \<and> m_userId v = m_userId y \<and> (m_id v = m_id z \<or> m_isDefault v)"
          unfolding rest_def
          by (rule promote_default [OF b d xm(1) True zm(1) trans [OF zr(2) sym [OF xm(3)]] zm(2)])
      qed
      from relabel_ok [OF b' refl this]
      have ok: "base_ok (map (\<lambda>y. y\<lparr>m_isDefault := (m_id y = m_id z \<or> m_isDefault y)\<rparr>) rest) (next_id w T_methods)"
          "one_default (map (\<lambda>y. y\<lparr>m_isDefault := (m_id y = m_id z \<or> m_isDefault y)\<rparr>) rest)" by auto
      have "map (\<lambda>y. y\<lparr>m_isDefault := (m_id y = m_id z \<or> m_isDefault y)\<rparr>) rest
          = map (\<lambda>y. if m_id y = m_id z then y\<lparr>m_isDefault := True\<rparr> else y) rest"
        by (auto simp: default_update_same)
      with ok run z(1) tab show ?thesis
        by (simp add: promote_newest_def run_simps record_security_def methods_ok_def)
    qed
  qed
qed

text \<open>
  The steps of the component, at the grain of its transactions, so that the lookups made outside of
  them can interleave with anything: a save whose name came from any earlier lookup, a card kept
  from a checkout, a change of default, a removal, and any step of the rest of the system, which
  leaves the table alone.
\<close>

inductive method_step :: "env \<Rightarrow> world \<Rightarrow> world \<Rightarrow> bool" for env where
  add: "method_step env w (snd (transaction
     (add_momo_tx env uid net number nm (ci_hashes (e_cipher env) number) ctx) w))"
| card: "method_step env w (snd (save_card env uid az w))"
| default: "method_step env w (snd (transaction (set_default_tx uid mid) w))"
| remove: "method_step env w (snd (transaction (remove_tx uid mid ctx) w))"
| other: "t_methods (w_db w') = t_methods (w_db w) \<Longrightarrow> next_id w' T_methods = next_id w T_methods \<Longrightarrow>
    method_step env w w'"

lemma rollback_ok:
  assumes "methods_ok w" and "\<And>r w'. m w = (r, w') \<Longrightarrow> (\<exists>e. r = Inl e) \<and> w' = w \<or> methods_ok w'"
    and "\<And>e w'. m w = (Inl e, w') \<Longrightarrow> next_id w' T_methods = next_id w T_methods"
  shows "methods_ok (snd (transaction m w))"
  using assms by (cases "m w") (auto simp: run_simps methods_ok_def split: sum.splits)

lemma method_tx_throw_keeps_ids:
  "add_momo_tx env uid net number nm hs ctx w = (Inl e, w') \<Longrightarrow> next_id w' = next_id w"
  "set_default_tx uid mid w = (Inl e, w') \<Longrightarrow> next_id w' = next_id w"
  "remove_tx uid mid ctx w = (Inl e, w') \<Longrightarrow> next_id w' = next_id w"
  by (auto simp: add_momo_tx_def set_default_tx_def remove_tx_def lock_owner_def promote_newest_def
      record_security_def run_simps Let_def split: if_splits option.splits)

lemma method_step_ok:
  assumes "cipher_ok (e_cipher env)" and "method_step env w w'" and "methods_ok w"
  shows "methods_ok w'"
  using assms(2)
proof (cases rule: method_step.cases)
  case (add uid net number nm ctx)
  show ?thesis unfolding add
    by (rule rollback_ok [OF assms(3)]) (erule add_momo_tx_ok [OF assms(3,1)], drule method_tx_throw_keeps_ids(1), simp)
next
  case (card uid az)
  then show ?thesis using save_card_ok [OF assms(3,1)] by (metis prod.collapse)
next
  case (default uid mid)
  show ?thesis unfolding default
    by (rule rollback_ok [OF assms(3)]) (erule disjI2 [OF set_default_tx_ok [OF assms(3)]], drule method_tx_throw_keeps_ids(2), simp)
next
  case (remove uid mid ctx)
  show ?thesis unfolding remove
    by (rule rollback_ok [OF assms(3)]) (erule disjI2 [OF remove_tx_ok [OF assms(3)]], drule method_tx_throw_keeps_ids(3), simp)
next
  case other
  then show ?thesis using assms(3) by (simp add: methods_ok_def)
qed

section \<open>Properties\<close>

text \<open>
  C30. Saved payment methods, in every reachable state and under any interleaving of saves, removals,
  changes of default and cards kept from checkouts: no customer has more than five; a customer with
  any has exactly one default; and no customer has the same number or the same card twice (by keyed
  hash). The cipher's only assumed behaviour is that a value has a hash and no hash is empty.
\<close>

theorem saved_methods_invariant:
  assumes "cipher_ok (e_cipher env)" and "(method_step env)\<^sup>*\<^sup>* w w'" and "methods_ok w"
  shows "methods_ok w'"
  using assms(2,3) by (induction rule: rtranclp_induct) (auto intro: method_step_ok [OF assms(1)])

definition fx_saved :: world where
  "fx_saved = snd (transaction (add_momo_tx fx_env 1 MTN ''0241234567'' ''Ama''
     (ci_hashes (e_cipher fx_env) ''0241234567'') (None, None)) (fx_world []))"

theorem saved_methods_invariant_witness:
  "methods_ok (snd (transaction (remove_tx 1 100 (None, None)) fx_saved))
   \<and> map m_id (t_methods (w_db fx_saved)) = [100]"
proof -
  have ok: "cipher_ok (e_cipher fx_env)" by (simp add: fx_defs cipher_ok_def)
  have "methods_ok (fx_world [])"
    by (simp add: methods_ok_def fx_defs base_ok_def one_default_def user_rows_def no_clash_def)
  moreover have "(method_step fx_env)\<^sup>*\<^sup>* (fx_world []) (snd (transaction (remove_tx 1 100 (None, None)) fx_saved))"
    unfolding fx_saved_def
    by (rule rtranclp.rtrancl_into_rtrancl [OF rtranclp.rtrancl_into_rtrancl [OF rtranclp.rtrancl_refl]])
       (rule method_step.add method_step.remove)+
  moreover have "map m_id (t_methods (w_db fx_saved)) = [100]"
    by (simp add: fx_saved_def add_momo_tx_def lock_owner_def run_simps Let_def fx_defs fx_finders list_rows_def
        hash_saved_def MAX_SAVED_METHODS_def insert_method_def record_security_def momo_row_def)
  ultimately show ?thesis using saved_methods_invariant [OF ok] by blast
qed

text \<open>
  A saved method answers to its owner only. For any id that is not one of the caller's methods,
  making it the default, removing it and charging it all end in the same 404, and leave every table
  and Paystack untouched.
\<close>

theorem foreign_method_not_found:
  assumes "\<forall>r \<in> set (t_methods (w_db w)). m_id r = mid \<longrightarrow> m_userId r \<noteq> uid" and "find_user (w_db w) uid \<noteq> None"
    and "ci_enabled (e_cipher env)"
  shows "set_default env uid mid w = (Inl (NotFound_pay Method_not_found), w)
    \<and> remove_method env uid mid ctx w = (Inl (NotFound_pay Method_not_found), w)
    \<and> get_chargeable env uid mid w = (Inl (NotFound_pay Method_not_found), w)"
proof -
  have "own_method (w_db w) uid mid = None" using assms(1) by (auto simp: own_method_def find_None_iff)
  with assms(2,3) show ?thesis
    by (simp add: set_default_def remove_method_def get_chargeable_def set_default_tx_def remove_tx_def
        lock_owner_def andthen_def run_simps)
       (simp add: run_simps flip: andthen_def)
qed

theorem foreign_method_not_found_witness:
  "remove_method fx_env 2 100 (None, None) fx_saved = (Inl (NotFound_pay Method_not_found), fx_saved)"
proof -
  have "\<forall>r \<in> set (t_methods (w_db fx_saved)). m_id r = 100 \<longrightarrow> m_userId r \<noteq> 2"
    and "find_user (w_db fx_saved) 2 \<noteq> None" and "ci_enabled (e_cipher fx_env)"
    by (simp_all add: fx_saved_def add_momo_tx_def lock_owner_def run_simps Let_def fx_defs fx_finders list_rows_def
        hash_saved_def MAX_SAVED_METHODS_def insert_method_def record_security_def momo_row_def)
  then show ?thesis using foreign_method_not_found by blast
qed

text \<open>
  A card is good through the last millisecond of its expiry month (UTC): it has expired exactly
  from midnight after that month's last day on. Two-digit years are of this century.
\<close>

theorem card_expiry:
  assumes "1 \<le> m" and "m \<le> 12" and "0 < y"
  shows "is_card_expired (Some (int m)) (Some y) now \<longleftrightarrow>
     (let year = (if y < 100 then 2000 + y else y)
      in (civil_day year m (month_days year m) + 1) * DAY_MS \<le> now)"
proof -
  define year where "year = (if y < 100 then 2000 + y else y)"
  have "date_utc year m 1 = (civil_day year m (month_days year m) + 1) * DAY_MS"
  proof (cases "m = 12")
    case True
    then show ?thesis using next_year_day [of year] by (simp add: date_utc_def month_days_def)
  next
    case False
    then have "m div 12 = 0" "m mod 12 = m" using assms by auto
    then show ?thesis using next_month_day [of m year] assms by (simp add: date_utc_def)
  qed
  then show ?thesis using assms by (simp add: is_card_expired_def year_def Let_def)
qed

theorem card_expiry_witness:
  "is_card_expired (Some (int 12)) (Some 23) ((civil_day 2023 12 31 + 1) * DAY_MS)
   \<and> \<not> is_card_expired (Some (int 12)) (Some 23) ((civil_day 2023 12 31 + 1) * DAY_MS - 1)"
  using card_expiry [of 12 23 "(civil_day 2023 12 31 + 1) * DAY_MS"]
    card_expiry [of 12 23 "(civil_day 2023 12 31 + 1) * DAY_MS - 1"]
  by (simp add: month_days_def)

end
