(* ===== verification/Attempts.thy ===== *)
theory Attempts
  imports PaymentMethods
begin

text \<open>
  \<open>src/payments/payment-attempts.service.ts\<close>: one active payment attempt per job. An attempt is a
  row of \<open>payment_charges\<close>; \<open>claim\<close> starts one or returns the active one, \<open>reconcile\<close> asks Paystack
  about it and settles, releases or keeps it. Settling is the money path of \<open>PaymentsService\<close> and a
  parameter here (\<open>settle\<close>), as in the code. The random suffix of a reference is a parameter too.

  The partial unique index \<open>uq_payment_charges_one_active\<close> and the unique reference are checked by
  \<open>insert_charge\<close>, the only way a row is added.
\<close>

section \<open>Windows and states\<close>

fun ATTEMPT_WINDOW_MS :: "method_type \<Rightarrow> int" where
  "ATTEMPT_WINDOW_MS M_mobile_money = 10 * 60000"
| "ATTEMPT_WINDOW_MS M_card = 10 * 60000"
| "ATTEMPT_WINDOW_MS M_hosted = 30 * 60000"

definition ATTEMPT_VERIFY_INTERVAL_MS :: int where
  "ATTEMPT_VERIFY_INTERVAL_MS = 15000"

definition is_active :: "charge_status \<Rightarrow> bool" where
  "is_active s \<longleftrightarrow> s \<in> {Ch_pending, Ch_needs_otp, Ch_hosted_open}"

definition is_paid :: "payment_status \<Rightarrow> bool" where
  "is_paid s \<longleftrightarrow> s \<in> {Pay_HELD, Pay_PENDING_TRANSFER, Pay_TRANSFER_FAILED, Pay_RELEASED, Pay_REFUNDED}"

definition expires_at :: "charge \<Rightarrow> int" where
  "expires_at c = (case c_expiresAt c of Some t \<Rightarrow> t
     | None \<Rightarrow> c_createdAt c + ATTEMPT_WINDOW_MS (c_methodType c))"

definition is_past_window :: "charge \<Rightarrow> int \<Rightarrow> bool" where
  "is_past_window c now \<longleftrightarrow> now \<ge> expires_at c"

datatype attempt_spec = Spec_hosted | Spec_momo nat | Spec_card nat

fun spec_kind :: "attempt_spec \<Rightarrow> method_type" where
  "spec_kind Spec_hosted = M_hosted"
| "spec_kind (Spec_momo _) = M_mobile_money"
| "spec_kind (Spec_card _) = M_card"

fun spec_method :: "attempt_spec \<Rightarrow> nat option" where
  "spec_method Spec_hosted = None"
| "spec_method (Spec_momo k) = Some k"
| "spec_method (Spec_card k) = Some k"

definition same_kind :: "charge \<Rightarrow> attempt_spec \<Rightarrow> bool" where
  "same_kind c spec \<longleftrightarrow> (case spec of Spec_hosted \<Rightarrow> c_methodType c = M_hosted
     | _ \<Rightarrow> c_methodType c \<noteq> M_hosted \<and> c_paymentMethodId c = spec_method spec)"

definition new_reference :: "method_type \<Rightarrow> nat \<Rightarrow> int \<Rightarrow> string \<Rightarrow> string" where
  "new_reference kind pid now hex =
     ''jinva-'' @ (if kind = M_hosted then ''ho'' else ''ch'') @ ''-'' @ show_nat pid @ ''-'' @ show_nat (nat now) @ ''-'' @ hex"

definition new_charge :: "nat \<Rightarrow> nat \<Rightarrow> nat \<Rightarrow> string \<Rightarrow> method_type \<Rightarrow> nat option \<Rightarrow> charge_status \<Rightarrow> int \<Rightarrow> charge" where
  "new_charge cid pid uid ref kind meth st now =
     \<lparr>c_id = cid, c_paymentId = pid, c_customerId = uid, c_reference = ref, c_methodType = kind,
      c_paymentMethodId = meth, c_status = st, c_action = None, c_message = None, c_lastVerifiedAt = None,
      c_authorizationUrl = None, c_accessCode = None, c_expiresAt = None, c_channel = None,
      c_refundStatus = None, c_refundId = None, c_refundAmount = None, c_refundAttempts = 0,
      c_refundNextAt = None, c_refundedAt = None, c_createdAt = now\<rparr>"

definition insert_charge :: "(nat \<Rightarrow> charge) \<Rightarrow> charge act" where
  "insert_charge mk =
     bnd (fresh T_charges) (\<lambda>cid. let c = mk cid in
     bnd (asks (\<lambda>w. t_charges (w_db w))) (\<lambda>cs.
     andthen (guard (\<forall>x \<in> set cs. c_reference x \<noteq> c_reference c) UniqueViolation)
     (andthen (guard (is_active (c_status c) \<longrightarrow> (\<forall>x \<in> set cs. is_active (c_status x) \<longrightarrow> c_paymentId x \<noteq> c_paymentId c))
                ActiveIndexViolation)
     (andthen (with_db (put_charge c)) (ret c)))))"

section \<open>Views\<close>

record attempt_view =
  av_reference :: string
  av_jobId :: nat
  av_kind :: method_type
  av_status :: charge_status
  av_action :: "string option"
  av_message :: "string option"
  av_paymentMethodId :: "nat option"
  av_startedAt :: int
  av_expiresAt :: int
  av_authorizationUrl :: "string option"

definition view_attempt :: "charge \<Rightarrow> nat \<Rightarrow> attempt_view" where
  "view_attempt c jid =
     \<lparr>av_reference = c_reference c, av_jobId = jid, av_kind = c_methodType c, av_status = c_status c,
      av_action = c_action c, av_message = c_message c, av_paymentMethodId = c_paymentMethodId c,
      av_startedAt = c_createdAt c, av_expiresAt = expires_at c,
      av_authorizationUrl = (if c_methodType c = M_hosted then c_authorizationUrl c else None)\<rparr>"

definition method_of :: "db \<Rightarrow> nat option \<Rightarrow> pay_method option" where
  "method_of d k = (case k of None \<Rightarrow> None | Some i \<Rightarrow> find (\<lambda>m. m_id m = i) (t_methods d))"

definition upper_first :: "string \<Rightarrow> string" where
  "upper_first s = (case s of [] \<Rightarrow> [] | c # cs \<Rightarrow>
     (let n = (of_char c :: nat) in (if 97 \<le> n \<and> n \<le> 122 then char_of (n - 32) else c)) # cs)"

definition label_for :: "charge \<Rightarrow> pay_method option \<Rightarrow> string" where
  "label_for c m =
     (let channel = (if c_methodType c = M_hosted then c_channel c
                     else if c_methodType c = M_mobile_money then Some ''mobile_money'' else Some ''card'');
          other = (if channel = Some ''mobile_money'' then ''mobile money''
                   else if channel = Some ''card'' then ''card'' else ''original payment method'')
      in case m of None \<Rightarrow> other
      | Some x \<Rightarrow>
          if m_type x = M_mobile_money \<and> m_network x \<noteq> None then network_label (the (m_network x))
          else if m_type x = M_card \<and> truthy (m_cardLast4 x)
            then upper_first (normalise_card_brand (m_cardBrand x)) @ '' card ending '' @ the (m_cardLast4 x)
          else other)"

definition method_label :: "db \<Rightarrow> charge \<Rightarrow> string" where
  "method_label d c = label_for c (method_of d (c_paymentMethodId c))"

section \<open>Starting an attempt\<close>

definition latest_payment :: "db \<Rightarrow> nat \<Rightarrow> nat \<Rightarrow> payment option" where
  "latest_payment d uid jid = (case rev (sort_key p_id
     (filter (\<lambda>p. p_jobId p = jid \<and> p_customerId p = uid) (t_payments d))) of [] \<Rightarrow> None | p # _ \<Rightarrow> Some p)"

definition lock_payable :: "nat \<Rightarrow> nat \<Rightarrow> pay_msg \<Rightarrow> payment act" where
  "lock_payable uid jid msg =
     bnd (asks (\<lambda>w. find (\<lambda>p. p_jobId p = jid \<and> p_customerId p = uid \<and> p_status p = Pay_PENDING)
                      (t_payments (w_db w)))) (\<lambda>p0. case p0 of Some p \<Rightarrow> ret p
     | None \<Rightarrow> bnd (asks (\<lambda>w. latest_payment (w_db w) uid jid)) (\<lambda>latest.
         if (case latest of Some p \<Rightarrow> is_paid (p_status p) | None \<Rightarrow> False)
         then throw (Conflict_pay Already_paid) else throw (NotFound_pay msg)))"

text \<open>\<open>order: { createdAt: 'DESC', id: 'DESC' }\<close>.\<close>

definition active_for :: "db \<Rightarrow> nat \<Rightarrow> charge option" where
  "active_for d pid = (case rev (sort_key c_createdAt (sort_key c_id
     (filter (\<lambda>c. c_paymentId c = pid \<and> is_active (c_status c)) (t_charges d)))) of [] \<Rightarrow> None | c # _ \<Rightarrow> Some c)"

datatype claim_result = Created payment charge | Existing payment charge

datatype claim_try = Claimed claim_result | Stale payment charge | Raced

definition first_charge :: "attempt_spec \<Rightarrow> payment \<Rightarrow> nat \<Rightarrow> bool \<Rightarrow> string \<Rightarrow> int \<Rightarrow> nat \<Rightarrow> charge" where
  "first_charge spec p uid own_taken hex now cid =
     (new_charge cid (p_id p) uid
        (if own_taken then new_reference (spec_kind spec) (p_id p) now hex else p_reference p)
        (spec_kind spec) (spec_method spec)
        (if spec_kind spec = M_hosted then Ch_hosted_open else Ch_pending) now)
     \<lparr>c_action := Some (if spec_kind spec = M_hosted then ''continue_checkout'' else ''wait''),
      c_message := (if spec_kind spec = M_hosted then None else Some MSG_CONFIRMING),
      c_expiresAt := Some (now + ATTEMPT_WINDOW_MS (spec_kind spec))\<rparr>"

definition claim_tx :: "nat \<Rightarrow> nat \<Rightarrow> attempt_spec \<Rightarrow> pay_msg \<Rightarrow> string \<Rightarrow> claim_try act" where
  "claim_tx uid jid spec msg hex =
     bnd (lock_payable uid jid msg) (\<lambda>p.
     bnd (asks clock) (\<lambda>now.
     bnd (asks (\<lambda>w. active_for (w_db w) (p_id p))) (\<lambda>a0. case a0 of
       Some a \<Rightarrow>
         if is_past_window a now then ret (Stale p a)
         else if same_kind a spec then ret (Claimed (Existing p a))
         else throw (Conflict_pay (Attempt_active (c_methodType a)))
     | None \<Rightarrow>
         bnd (asks (\<lambda>w. charge_by_reference (w_db w) (p_reference p))) (\<lambda>own.
         let own_taken = (spec_kind spec \<noteq> M_hosted \<or> own \<noteq> None)
         in bnd (insert_charge (first_charge spec p uid own_taken hex now)) (\<lambda>c.
            ret (Claimed (Created p c)))))))"

definition try_claim :: "nat \<Rightarrow> nat \<Rightarrow> attempt_spec \<Rightarrow> pay_msg \<Rightarrow> string \<Rightarrow> claim_try act" where
  "try_claim uid jid spec msg hex =
     bnd (attempt (transaction (claim_tx uid jid spec msg hex))) (\<lambda>r. case r of
       Inr t \<Rightarrow> ret t
     | Inl e \<Rightarrow> if e = ActiveIndexViolation then ret Raced else throw e)"

section \<open>Checking with Paystack\<close>

record charge_data =
  cd_reference :: "string option"
  cd_amount :: "int option"
  cd_currency :: "string option"
  cd_channel :: "string option"
  cd_paidAt :: "int option"
  cd_authorization :: "authorization option"

definition remote_data :: "string \<Rightarrow> remote_charge \<Rightarrow> charge_data" where
  "remote_data ref rc = \<lparr>cd_reference = Some ref, cd_amount = Some (rc_amount rc), cd_currency = rc_currency rc,
     cd_channel = rc_channel rc, cd_paidAt = rc_paid_at rc, cd_authorization = None\<rparr>"

datatype reconciled = Settled | Released | Still_active

definition still_active :: "nat \<Rightarrow> charge \<Rightarrow> bool" where
  "still_active cid c \<longleftrightarrow> c_id c = cid \<and> is_active (c_status c)"

definition release :: "charge \<Rightarrow> charge_status \<Rightarrow> bool act" where
  "release c to =
     (let msg = (if c_methodType c = M_hosted then None
                 else if to = Ch_failed then Some MSG_FAILED else Some MSG_NOT_APPROVED)
      in bnd (asks (\<lambda>w. \<exists>x \<in> set (t_charges (w_db w)). still_active (c_id c) x)) (\<lambda>affected.
         andthen (with_db (update_charges (still_active (c_id c))
            (\<lambda>x. x\<lparr>c_status := to, c_action := None, c_message := msg\<rparr>))) (ret affected)))"

definition RELEASE_ON_REMOTE :: "string list" where
  "RELEASE_ON_REMOTE = [''failed'', ''abandoned'', ''reversed'']"

definition judge_remote :: "charge \<Rightarrow> string \<Rightarrow> int \<Rightarrow> reconciled act" where
  "judge_remote c remote now =
     (let past = is_past_window c now;
          saved_failed = (c_methodType c \<noteq> M_hosted \<and> remote \<in> set RELEASE_ON_REMOTE)
      in if \<not> past \<and> \<not> saved_failed then ret Still_active
         else bnd (release c (if saved_failed then Ch_failed else Ch_expired)) (\<lambda>done.
           ret (if done then Released else Still_active)))"

definition reconcile :: "env \<Rightarrow> (nat \<Rightarrow> charge_data \<Rightarrow> unit act) \<Rightarrow> charge \<Rightarrow> bool \<Rightarrow> reconciled act" where
  "reconcile env settle c force =
     (if \<not> is_active (c_status c) then ret Released
      else bnd (asks clock) (\<lambda>now.
        let last = (case c_lastVerifiedAt c of Some t \<Rightarrow> t | None \<Rightarrow> c_createdAt c)
        in if \<not> force \<and> now - last < ATTEMPT_VERIFY_INTERVAL_MS then ret Still_active
           else andthen (with_db (update_charges (\<lambda>x. c_id x = c_id c) (\<lambda>x. x\<lparr>c_lastVerifiedAt := Some now\<rparr>)))
             (bnd (verify_transaction (e_pv env) (c_reference c)) (\<lambda>v. case v of
                Verified rc \<Rightarrow> (case rc_status rc of None \<Rightarrow> ret Still_active
                  | Some s \<Rightarrow> if s = ''success''
                      then andthen (settle (c_id c) (remote_data (c_reference c) rc)) (ret Settled)
                      else judge_remote c s now)
              | Verify_refused \<Rightarrow> judge_remote c ''not_found'' now
              | Verify_unreachable \<Rightarrow> ret Still_active))))"

fun claim_rounds :: "nat \<Rightarrow> env \<Rightarrow> (nat \<Rightarrow> charge_data \<Rightarrow> unit act) \<Rightarrow> nat \<Rightarrow> nat \<Rightarrow> attempt_spec \<Rightarrow> pay_msg \<Rightarrow> string \<Rightarrow> claim_result act" where
  "claim_rounds 0 env settle uid jid spec msg hex = throw (Conflict_pay Attempt_starting)"
| "claim_rounds (Suc n) env settle uid jid spec msg hex =
     bnd (try_claim uid jid spec msg hex) (\<lambda>t. case t of
       Raced \<Rightarrow> claim_rounds n env settle uid jid spec msg hex
     | Claimed r \<Rightarrow> ret r
     | Stale p c \<Rightarrow>
         bnd (reconcile env settle c True) (\<lambda>o'.
         if o' = Still_active
         then (if same_kind c spec then ret (Existing p c)
               else throw (Conflict_pay (Attempt_active (c_methodType c))))
         else claim_rounds n env settle uid jid spec msg hex))"

definition claim :: "env \<Rightarrow> (nat \<Rightarrow> charge_data \<Rightarrow> unit act) \<Rightarrow> nat \<Rightarrow> nat \<Rightarrow> attempt_spec \<Rightarrow> pay_msg \<Rightarrow> string \<Rightarrow> claim_result act" where
  "claim = claim_rounds 4"

section \<open>Reading a job's payment state\<close>

record refund_view =
  rv_reference :: string
  rv_amount :: money
  rv_method :: method_type
  rv_methodLabel :: string
  rv_status :: refund_status
  rv_createdAt :: int

record payment_brief =
  pb_id :: nat
  pb_status :: payment_status
  pb_amount :: money
  pb_currency :: string
  pb_paidAt :: "int option"

record job_payment_state =
  jp_jobId :: nat
  jp_paid :: bool
  jp_payment :: payment_brief
  jp_active :: "attempt_view option"
  jp_refunds :: "refund_view list"

definition duplicate_refunds :: "db \<Rightarrow> payment \<Rightarrow> refund_view list" where
  "duplicate_refunds d p =
     map (\<lambda>c. \<lparr>rv_reference = c_reference c,
                rv_amount = (case c_refundAmount c of Some a \<Rightarrow> a | None \<Rightarrow> p_amount p),
                rv_method = c_methodType c, rv_methodLabel = method_label d c,
                rv_status = (if c_refundStatus c = Some Rf_processing then Rf_pending else the (c_refundStatus c)),
                rv_createdAt = c_createdAt c\<rparr>)
      (filter (\<lambda>c. c_refundStatus c \<noteq> None)
        (sort_key c_createdAt (sort_key c_id
          (filter (\<lambda>c. c_paymentId c = p_id p \<and> c_status c = Ch_duplicate) (t_charges d)))))"

definition state_of :: "db \<Rightarrow> nat \<Rightarrow> payment \<Rightarrow> charge option \<Rightarrow> job_payment_state" where
  "state_of d jid p active =
     \<lparr>jp_jobId = jid, jp_paid = is_paid (p_status p),
      jp_payment = \<lparr>pb_id = p_id p, pb_status = p_status p, pb_amount = p_amount p,
        pb_currency = p_currency p, pb_paidAt = p_paidAt p\<rparr>,
      jp_active = map_option (\<lambda>c. view_attempt c (p_jobId p)) active,
      jp_refunds = duplicate_refunds d p\<rparr>"

definition job_state :: "env \<Rightarrow> (nat \<Rightarrow> charge_data \<Rightarrow> unit act) \<Rightarrow> nat \<Rightarrow> nat \<Rightarrow> job_payment_state act" where
  "job_state env settle uid jid =
     bnd (asks (\<lambda>w. latest_payment (w_db w) uid jid)) (\<lambda>p0.
     bnd (some_or (NotFound_pay Payment_missing) p0) (\<lambda>p.
     bnd (asks (\<lambda>w. active_for (w_db w) (p_id p))) (\<lambda>a0. case a0 of
       None \<Rightarrow> asks (\<lambda>w. state_of (w_db w) jid p None)
     | Some a \<Rightarrow>
        bnd (reconcile env settle a False) (\<lambda>o'.
        if o' = Still_active then asks (\<lambda>w. state_of (w_db w) jid p (Some a))
        else bnd (asks (\<lambda>w. case latest_payment (w_db w) uid jid of Some q \<Rightarrow> q | None \<Rightarrow> p)) (\<lambda>q.
             asks (\<lambda>w. state_of (w_db w) jid q (active_for (w_db w) (p_id q))))))))"

section \<open>Account deletion\<close>

definition update_payments :: "(payment \<Rightarrow> bool) \<Rightarrow> (payment \<Rightarrow> payment) \<Rightarrow> db \<Rightarrow> db" where
  "update_payments q f d = d\<lparr>t_payments := update_where q f (t_payments d)\<rparr>"

definition cancel_for_account_deletion :: "nat \<Rightarrow> nat act" where
  "cancel_for_account_deletion uid =
     bnd (asks (\<lambda>w. length (filter (\<lambda>c. c_customerId c = uid \<and> is_active (c_status c)) (t_charges (w_db w))))) (\<lambda>n.
     andthen (with_db (update_charges (\<lambda>c. c_customerId c = uid \<and> is_active (c_status c))
        (\<lambda>c. c\<lparr>c_status := Ch_cancelled, c_action := None, c_message := Some MSG_CANCELLED\<rparr>)))
     (andthen (with_db (update_payments (\<lambda>p. p_customerId p = uid \<and> p_saveCardRequested p)
        (\<lambda>p. p\<lparr>p_saveCardRequested := False\<rparr>)))
      (ret n)))"

end
