(* ===== verification/DuplicateRefund.thy ===== *)
theory DuplicateRefund
  imports Attempts
begin

text \<open>
  \<open>src/payments/duplicate-refund.service.ts\<close>: the automatic refund of a duplicate payment. \<open>process\<close>
  is a locked claim of the refund (\<open>claim_refund\<close>), the call to Paystack outside of any lock, and a
  guarded update with its result (\<open>finish_refund\<close>, \<open>on_call_failed\<close>); the three are separate
  definitions so that webhooks can be placed between them.
\<close>

definition REFUND_BACKOFF_MS :: "int list" where
  "REFUND_BACKOFF_MS = [60000, 5 * 60000, 30 * 60000, 2 * 60 * 60000, 6 * 60 * 60000]"

definition REFUND_MAX_ATTEMPTS :: nat where
  "REFUND_MAX_ATTEMPTS = 6"

definition REFUND_LEASE_MS :: int where
  "REFUND_LEASE_MS = 10 * 60000"

definition REFUND_BATCH :: nat where
  "REFUND_BATCH = 20"

definition already_refunded :: "string \<Rightarrow> bool" where
  "already_refunded text = (\<exists>p \<in> set [''already been refunded'', ''already been reversed'',
     ''already been fully refunded'', ''already been fully reversed'', ''fully reversed'', ''already refunded''].
     contains p (map ascii_lower text))"

datatype refund_run = Run_requested | Run_retry | Run_gave_up | Run_skipped

definition holds_money :: "payment \<Rightarrow> string \<Rightarrow> bool" where
  "holds_money p ref = (if truthy (p_paidReference p) then p_paidReference p = Some ref
     else is_paid (p_status p) \<and> p_reference p = ref)"

section \<open>Notices\<close>

definition refund_amount :: "charge \<Rightarrow> payment \<Rightarrow> money" where
  "refund_amount c p = (case c_refundAmount c of Some a \<Rightarrow> a | None \<Rightarrow> p_amount p)"

definition payment_job_title :: "db \<Rightarrow> payment \<Rightarrow> string" where
  "payment_job_title d p = (case find_job d (p_jobId p) of
      Some j \<Rightarrow> (case j_title j of Some t \<Rightarrow> t | None \<Rightarrow> default_title (p_jobId p))
    | None \<Rightarrow> default_title (p_jobId p))"

definition notify_customer :: "charge \<Rightarrow> payment \<Rightarrow> unit act" where
  "notify_customer c p =
     bnd (asks w_db) (\<lambda>d. emit (PAYMENT_DUPLICATE_REFUNDED (p_customerId p) (p_jobId p) (payment_job_title d p)
       (refund_amount c p) (method_label d c)))"

definition alert_admins :: "charge \<Rightarrow> payment \<Rightarrow> fail_text \<Rightarrow> unit act" where
  "alert_admins c p why =
     bnd (asks w_db) (\<lambda>d. emit (PAYMENT_REFUND_NEEDS_ATTENTION (p_id p) (p_jobId p) (payment_job_title d p)
       (refund_amount c p) (c_reference c) why))"

section \<open>Making the refund call\<close>

definition update_charge :: "nat \<Rightarrow> (charge \<Rightarrow> charge) \<Rightarrow> unit act" where
  "update_charge cid f = with_db (update_charges (\<lambda>x. c_id x = cid) f)"

definition refund_due :: "charge \<Rightarrow> int \<Rightarrow> bool" where
  "refund_due c now \<longleftrightarrow> c_status c = Ch_duplicate \<and> c_refundStatus c \<in> {Some Rf_pending, Some Rf_processing}
     \<and> \<not> (case c_refundNextAt c of Some t \<Rightarrow> t > now | None \<Rightarrow> False)"

definition claim_refund :: "nat \<Rightarrow> (charge \<times> payment) option act" where
  "claim_refund cid =
     transaction (bnd (asks clock) (\<lambda>now.
      bnd (asks (\<lambda>w. find_charge (w_db w) cid)) (\<lambda>c0. case c0 of None \<Rightarrow> ret None
      | Some c \<Rightarrow>
        if \<not> refund_due c now then ret None
        else bnd (asks (\<lambda>w. find_payment (w_db w) (c_paymentId c))) (\<lambda>p0. case p0 of None \<Rightarrow> ret None
        | Some p \<Rightarrow>
          if holds_money p (c_reference c)
          then andthen (update_charge cid (\<lambda>x. x\<lparr>c_refundStatus := Some Rf_failed, c_refundNextAt := None\<rparr>)) (ret None)
          else let n = c_refundAttempts c + 1 in
            andthen (update_charge cid (\<lambda>x. x\<lparr>c_refundStatus := Some Rf_processing, c_refundAttempts := n,
                        c_refundNextAt := Some (now + REFUND_LEASE_MS)\<rparr>))
              (ret (Some (c\<lparr>c_refundAttempts := n\<rparr>, p)))))))"

definition in_processing :: "nat \<Rightarrow> charge \<Rightarrow> bool" where
  "in_processing cid c \<longleftrightarrow> c_id c = cid \<and> c_refundStatus c = Some Rf_processing"

definition on_call_failed :: "charge \<Rightarrow> payment \<Rightarrow> string \<Rightarrow> refund_run act" where
  "on_call_failed c p text =
     (let n = c_refundAttempts c; give_up = (n \<ge> REFUND_MAX_ATTEMPTS);
          wait = REFUND_BACKOFF_MS ! min (n - 1) (length REFUND_BACKOFF_MS - 1);
          shown = (if take 160 text = [] then ''none'' else take 160 text)
      in bnd (asks clock) (\<lambda>now.
         andthen (with_db (update_charges (in_processing (c_id c))
            (\<lambda>x. if give_up then x\<lparr>c_refundStatus := Some Rf_failed, c_refundNextAt := None\<rparr>
                 else x\<lparr>c_refundStatus := Some Rf_pending, c_refundNextAt := Some (now + wait)\<rparr>)))
         (andthen (only_if (n = 1 \<or> give_up)
            (alert_admins c p (if give_up then Refund_given_up n shown else First_refund_try_failed shown)))
          (ret (if give_up then Run_gave_up else Run_retry)))))"

definition finish_refund :: "charge \<Rightarrow> payment \<Rightarrow> string option \<Rightarrow> bool \<Rightarrow> refund_run act" where
  "finish_refund c p rid processed =
     bnd (asks clock) (\<lambda>now.
     bnd (asks (\<lambda>w. \<exists>x \<in> set (t_charges (w_db w)). in_processing (c_id c) x)) (\<lambda>affected.
     andthen (with_db (update_charges (in_processing (c_id c))
        (\<lambda>x. (if processed then x\<lparr>c_refundedAt := Some now\<rparr> else x)
              \<lparr>c_refundStatus := Some (if processed then Rf_processed else Rf_requested),
               c_refundId := (case rid of Some r \<Rightarrow> Some r | None \<Rightarrow> c_refundId c), c_refundNextAt := None\<rparr>)))
     (if \<not> affected then ret Run_skipped
      else andthen (notify_customer c p) (ret Run_requested))))"

definition process_refund :: "env \<Rightarrow> nat \<Rightarrow> refund_run act" where
  "process_refund env cid =
     bnd (claim_refund cid) (\<lambda>claimed. case claimed of None \<Rightarrow> ret Run_skipped
     | Some (c, p) \<Rightarrow>
        bnd (attempt (refund_all (e_pv env) (c_reference c))) (\<lambda>r. case r of
          Inr (rid, processed) \<Rightarrow> finish_refund c p rid processed
        | Inl e \<Rightarrow> let text = error_text e in
            if already_refunded text then finish_refund c p (c_refundId c) False
            else on_call_failed c p text))"

definition due_refunds :: "db \<Rightarrow> int \<Rightarrow> nat list" where
  "due_refunds d now = map c_id (take REFUND_BATCH (sort_key (\<lambda>c. the (c_refundNextAt c))
     (filter (\<lambda>c. c_status c = Ch_duplicate \<and> c_refundStatus c \<in> {Some Rf_pending, Some Rf_processing}
          \<and> (case c_refundNextAt c of Some t \<Rightarrow> t \<le> now | None \<Rightarrow> False)) (t_charges d))))"

fun process_each :: "env \<Rightarrow> nat list \<Rightarrow> nat act" where
  "process_each env [] = ret 0"
| "process_each env (cid # cs) =
     bnd (attempt (process_refund env cid)) (\<lambda>r.
     bnd (process_each env cs) (\<lambda>n. ret ((if r = Inr Run_requested then 1 else 0) + n)))"

definition retry_due_refunds :: "env \<Rightarrow> (nat \<times> nat) act" where
  "retry_due_refunds env =
     bnd (asks (\<lambda>w. due_refunds (w_db w) (clock w))) (\<lambda>due.
     bnd (process_each env due) (\<lambda>n. ret (length due, n)))"

section \<open>Refund webhooks\<close>

definition duplicate_for :: "db \<Rightarrow> string option \<Rightarrow> string option \<Rightarrow> charge option" where
  "duplicate_for d ref rid =
     (if truthy ref then find (\<lambda>c. Some (c_reference c) = ref \<and> c_status c = Ch_duplicate) (t_charges d)
      else find (\<lambda>c. c_refundId c = rid \<and> c_status c = Ch_duplicate) (t_charges d))"

definition some_other :: "string option \<Rightarrow> string option \<Rightarrow> string option" where
  "some_other a b = (case a of Some x \<Rightarrow> Some x | None \<Rightarrow> b)"

definition refund_accepted :: "charge \<Rightarrow> string option \<Rightarrow> unit act" where
  "refund_accepted c rid =
     (let q = (\<lambda>x. c_id x = c_id c \<and> c_refundStatus x \<in> {Some Rf_pending, Some Rf_processing})
      in bnd (asks (\<lambda>w. \<exists>x \<in> set (t_charges (w_db w)). q x)) (\<lambda>affected.
         andthen (with_db (update_charges q (\<lambda>x. x\<lparr>c_refundStatus := Some Rf_requested,
             c_refundId := some_other rid (c_refundId c), c_refundNextAt := None\<rparr>)))
         (only_if affected (bnd (asks (\<lambda>w. find_payment (w_db w) (c_paymentId c))) (\<lambda>p0. case p0 of
            None \<Rightarrow> ret () | Some p \<Rightarrow> notify_customer c p)))))"

definition on_refund_webhook :: "string \<Rightarrow> string option \<Rightarrow> string option \<Rightarrow> unit act" where
  "on_refund_webhook ev ref rid =
     (if \<not> truthy ref \<and> \<not> truthy rid then ret ()
      else bnd (asks (\<lambda>w. duplicate_for (w_db w) ref rid)) (\<lambda>c0. case c0 of None \<Rightarrow> ret ()
      | Some c \<Rightarrow>
        if c_refundStatus c = None then ret ()
        else if ev = ''refund.processed'' then
          (if c_refundStatus c = Some Rf_processed then ret ()
           else bnd (asks clock) (\<lambda>now. update_charge (c_id c) (\<lambda>x. x\<lparr>c_refundStatus := Some Rf_processed,
                  c_refundId := some_other rid (c_refundId c), c_refundNextAt := None, c_refundedAt := Some now\<rparr>)))
        else if ev = ''refund.failed'' then
          (if c_refundStatus c = Some Rf_failed then ret ()
           else andthen (update_charge (c_id c) (\<lambda>x. x\<lparr>c_refundStatus := Some Rf_failed,
                  c_refundId := some_other rid (c_refundId c), c_refundNextAt := None\<rparr>))
             (bnd (asks (\<lambda>w. find_payment (w_db w) (c_paymentId c))) (\<lambda>p0. case p0 of None \<Rightarrow> ret ()
              | Some p \<Rightarrow> alert_admins c p Refund_reported_failed)))
        else if c_refundStatus c \<in> {Some Rf_pending, Some Rf_processing} then refund_accepted c rid
        else ret ()))"

end
