(* ===== verification/ChargeSuccess.thy ===== *)
theory ChargeSuccess
  imports DuplicateRefund
begin

text \<open>
  The money path of \<open>src/payments/payments.service.ts\<close>: a successful charge, however it was paid and
  however often it is reported, goes through \<open>apply_charge_success\<close>, which holds the payment, or
  marks the charge a duplicate and refunds it. With it the webhook, the verification by the customer,
  the hosted checkout and the saved-method charges of \<open>src/payments/saved-method-charge.service.ts\<close>.
\<close>

section \<open>Applying a success\<close>

datatype applied = Held_now payment charge | Duplicate_now payment charge

definition method_name :: "method_type \<Rightarrow> string" where
  "method_name m = (case m of M_mobile_money \<Rightarrow> ''mobile_money'' | M_card \<Rightarrow> ''card'' | M_hosted \<Rightarrow> ''hosted'')"

definition success_channel :: "charge_data \<Rightarrow> charge \<Rightarrow> string option" where
  "success_channel data c = (case cd_channel data of Some ch \<Rightarrow> Some ch
     | None \<Rightarrow> if c_methodType c = M_hosted then None else Some (method_name (c_methodType c)))"

definition amount_matches :: "charge_data \<Rightarrow> payment \<Rightarrow> bool" where
  "amount_matches data p \<longleftrightarrow> cd_amount data = Some (js_round (cedis (p_amount p) * 100))
     \<and> (cd_currency data = None \<or> cd_currency data = Some ''GHS'')"

definition mark_succeeded :: "charge \<Rightarrow> string option \<Rightarrow> unit act" where
  "mark_succeeded c channel = update_charge (c_id c)
     (\<lambda>x. x\<lparr>c_status := Ch_succeeded, c_action := None, c_message := None, c_channel := channel\<rparr>)"

definition mark_duplicate :: "charge \<Rightarrow> string option \<Rightarrow> money \<Rightarrow> int \<Rightarrow> unit act" where
  "mark_duplicate c channel amt now = update_charge (c_id c)
     (\<lambda>x. x\<lparr>c_status := Ch_duplicate, c_action := None, c_message := Some MSG_DUPLICATE, c_channel := channel,
           c_refundStatus := Some Rf_pending, c_refundAmount := Some amt, c_refundNextAt := Some now\<rparr>)"

definition settle_tx :: "nat \<Rightarrow> charge_data \<Rightarrow> applied option act" where
  "settle_tx cid data =
     bnd (asks (\<lambda>w. find_charge (w_db w) cid)) (\<lambda>c0. case c0 of None \<Rightarrow> ret None | Some c \<Rightarrow>
     bnd (asks (\<lambda>w. find_payment (w_db w) (c_paymentId c))) (\<lambda>p0. case p0 of None \<Rightarrow> ret None | Some p \<Rightarrow>
     if c_status c = Ch_succeeded \<or> c_status c = Ch_duplicate then ret None
     else if \<not> amount_matches data p then ret None
     else bnd (asks clock) (\<lambda>now.
       let channel = success_channel data c in
       if p_status p \<noteq> Pay_PENDING then
         (if holds_money p (c_reference c) then andthen (mark_succeeded c channel) (ret None)
          else andthen (mark_duplicate c channel (to_fixed2 (cedis (the (cd_amount data)))) now)
                 (ret (Some (Duplicate_now p c))))
       else
         let p1 = p\<lparr>p_status := Pay_HELD,
                    p_channel := (case channel of Some ch \<Rightarrow> Some ch | None \<Rightarrow> p_channel p),
                    p_paidAt := (case cd_paidAt data of Some t \<Rightarrow> Some t | None \<Rightarrow> Some now),
                    p_paidReference := Some (c_reference c)\<rparr>
         in andthen (with_db (put_payment p1))
              (andthen (mark_succeeded c channel) (ret (Some (Held_now p1 c)))))))"

definition save_card_best_effort :: "env \<Rightarrow> payment \<Rightarrow> authorization option \<Rightarrow> unit act" where
  "save_card_best_effort env p az = bnd (attempt (save_card env (p_customerId p) az)) (\<lambda>_. ret ())"

definition apply_charge_success :: "env \<Rightarrow> nat \<Rightarrow> charge_data \<Rightarrow> unit act" where
  "apply_charge_success env cid data =
     bnd (transaction (settle_tx cid data)) (\<lambda>r. case r of
       None \<Rightarrow> ret ()
     | Some (Duplicate_now p c) \<Rightarrow> bnd (attempt (process_refund env (c_id c))) (\<lambda>_. ret ())
     | Some (Held_now p c) \<Rightarrow>
         andthen (emit_payment_held p)
           (only_if (c_methodType c = M_hosted \<and> p_saveCardRequested p)
              (save_card_best_effort env p (cd_authorization data))))"

section \<open>Webhook and verification\<close>

definition legacy_charge :: "payment \<Rightarrow> int \<Rightarrow> nat \<Rightarrow> charge" where
  "legacy_charge p now cid =
     (new_charge cid (p_id p) (p_customerId p) (p_reference p) M_hosted None Ch_expired now)
     \<lparr>c_authorizationUrl := p_authorizationUrl p, c_accessCode := p_accessCode p\<rparr>"

definition link_payment_reference :: "payment \<Rightarrow> charge act" where
  "link_payment_reference p =
     bnd (asks (\<lambda>w. charge_by_reference (w_db w) (p_reference p))) (\<lambda>c0. case c0 of Some c \<Rightarrow> ret c
     | None \<Rightarrow>
        bnd (asks clock) (\<lambda>now.
        bnd (attempt (insert_charge (legacy_charge p now))) (\<lambda>_.
        bnd (asks (\<lambda>w. charge_by_reference (w_db w) (p_reference p))) (\<lambda>c1.
        some_or (NotFound_pay Charge_not_found) c1))))"

definition on_charge_success :: "env \<Rightarrow> charge_data \<Rightarrow> unit act" where
  "on_charge_success env data =
     (let ref = or_empty (cd_reference data) in
      bnd (asks (\<lambda>w. if ref \<noteq> [] then charge_by_reference (w_db w) ref else None)) (\<lambda>c0. case c0 of
        Some c \<Rightarrow> apply_charge_success env (c_id c) data
      | None \<Rightarrow>
         bnd (asks (\<lambda>w. if ref \<noteq> [] then payment_by_reference (w_db w) ref else None)) (\<lambda>p0. case p0 of
           None \<Rightarrow> ret ()
         | Some p \<Rightarrow> bnd (link_payment_reference p) (\<lambda>c. apply_charge_success env (c_id c) data))))"

record verify_view =
  vv_reference :: string
  vv_jobId :: nat
  vv_status :: payment_status
  vv_remoteStatus :: "string option"
  vv_amount :: money
  vv_currency :: string

definition verify_view_of :: "string \<Rightarrow> payment \<Rightarrow> string option \<Rightarrow> verify_view" where
  "verify_view_of ref p st = \<lparr>vv_reference = ref, vv_jobId = p_jobId p, vv_status = p_status p,
     vv_remoteStatus = st, vv_amount = p_amount p, vv_currency = p_currency p\<rparr>"

definition verify_payment :: "env \<Rightarrow> nat \<Rightarrow> string \<Rightarrow> verify_view act" where
  "verify_payment env uid ref =
     bnd (asks (\<lambda>w. charge_by_reference (w_db w) ref)) (\<lambda>c0.
     bnd (asks (\<lambda>w. case c0 of Some c \<Rightarrow> find_payment (w_db w) (c_paymentId c)
                   | None \<Rightarrow> payment_by_reference (w_db w) ref)) (\<lambda>p0.
     andthen (guard (case p0 of Some p \<Rightarrow> p_customerId p = uid | None \<Rightarrow> False) (NotFound_pay Payment_missing))
     (let p = the p0 in
      bnd (verify_transaction (e_pv env) ref) (\<lambda>v. case v of
        Verified rc \<Rightarrow>
          if rc_status rc = Some ''success'' then
            bnd (case c0 of Some c \<Rightarrow> ret c | None \<Rightarrow> link_payment_reference p) (\<lambda>c.
            andthen (apply_charge_success env (c_id c) (remote_data ref rc))
            (bnd (asks (\<lambda>w. case find_payment (w_db w) (p_id p) of Some q \<Rightarrow> q | None \<Rightarrow> p)) (\<lambda>q.
             ret (verify_view_of ref q (rc_status rc)))))
          else ret (verify_view_of ref p (rc_status rc))
      | _ \<Rightarrow> throw (ProviderError '''')))))"

datatype webhook = Charge_success charge_data | Transfer_success string
  | Transfer_failed string "string option" "string option"
  | Refund_event string "string option" "string option" | Unknown_event

definition process_webhook :: "env \<Rightarrow> bool \<Rightarrow> webhook \<Rightarrow> unit act" where
  "process_webhook env signed ev =
     (if \<not> signed then ret ()
      else case ev of
        Charge_success data \<Rightarrow> on_charge_success env data
      | Transfer_success ref \<Rightarrow> on_transfer_success ref
      | Transfer_failed name ref why \<Rightarrow> on_transfer_failed name ref why
      | Refund_event name ref rid \<Rightarrow> on_refund_webhook name ref rid
      | Unknown_event \<Rightarrow> ret ())"

section \<open>The hosted checkout\<close>

record session =
  ss_again :: bool
  ss_reference :: string
  ss_authorizationUrl :: "string option"
  ss_accessCode :: "string option"
  ss_amount :: money
  ss_currency :: string

definition session_of :: "payment \<Rightarrow> charge \<Rightarrow> bool \<Rightarrow> session" where
  "session_of p c again = \<lparr>ss_again = again, ss_reference = c_reference c,
     ss_authorizationUrl = c_authorizationUrl c, ss_accessCode = c_accessCode c,
     ss_amount = p_amount p, ss_currency = p_currency p\<rparr>"

text \<open>Waiting for a concurrent initialise: \<open>sleep\<close> is what the rest of the system does in 300 ms.\<close>

fun wait_for_session :: "nat \<Rightarrow> unit act \<Rightarrow> charge \<Rightarrow> charge act" where
  "wait_for_session 0 sleep c = ret c"
| "wait_for_session (Suc n) sleep c =
     (if truthy (c_authorizationUrl c) then ret c
      else andthen sleep (bnd (asks (\<lambda>w. case find_charge (w_db w) (c_id c) of Some x \<Rightarrow> x | None \<Rightarrow> c))
        (wait_for_session n sleep)))"

definition duplicate_reference :: "string \<Rightarrow> bool" where
  "duplicate_reference text = contains ''duplicate transaction reference'' (map ascii_lower text)"

definition open_session :: "env \<Rightarrow> payment \<Rightarrow> charge \<Rightarrow> (string \<times> string) act" where
  "open_session env p c =
     bnd (attempt (initialize_transaction (e_pv env) (c_reference c) (p_amount p))) (\<lambda>r. case r of
       Inr s \<Rightarrow> ret s
     | Inl e \<Rightarrow>
         if duplicate_reference (error_text e) \<and> c_reference c = p_reference p
            \<and> truthy (p_authorizationUrl p) \<and> truthy (p_accessCode p)
         then ret (the (p_authorizationUrl p), the (p_accessCode p))
         else andthen (with_db (update_charges (\<lambda>x. c_id x = c_id c \<and> c_status x = Ch_hosted_open)
                (\<lambda>x. x\<lparr>c_status := Ch_failed, c_action := None\<rparr>))) (throw e))"

definition initialize_payment :: "env \<Rightarrow> unit act \<Rightarrow> nat \<Rightarrow> nat \<Rightarrow> bool \<Rightarrow> string \<Rightarrow> session act" where
  "initialize_payment env sleep uid jid want_save hex =
     bnd (claim env (apply_charge_success env) uid jid Spec_hosted No_pending_hosted_payment hex) (\<lambda>cl.
     let (p, c, fresh_one) = (case cl of Created p c \<Rightarrow> (p, c, True) | Existing p c \<Rightarrow> (p, c, False))
     in andthen (only_if (want_save \<noteq> p_saveCardRequested p)
          (with_db (update_payments (\<lambda>x. p_id x = p_id p) (\<lambda>x. x\<lparr>p_saveCardRequested := want_save\<rparr>))))
       (if \<not> fresh_one then
          bnd (wait_for_session 10 sleep c) (\<lambda>c'.
          if truthy (c_authorizationUrl c') \<and> truthy (c_accessCode c') then ret (session_of p c' True)
          else throw (Conflict_pay (Attempt_active (c_methodType c'))))
        else
          bnd (asks (\<lambda>w. find_user (w_db w) uid)) (\<lambda>u.
          andthen (guard (u \<noteq> None) (NotFound_pay User_not_found))
          (bnd (open_session env p c) (\<lambda>(url, code).
           andthen (update_charge (c_id c) (\<lambda>x. x\<lparr>c_authorizationUrl := Some url, c_accessCode := Some code\<rparr>))
           (andthen (only_if (c_reference c = p_reference p)
              (with_db (update_payments (\<lambda>x. p_id x = p_id p)
                 (\<lambda>x. x\<lparr>p_authorizationUrl := Some url, p_accessCode := Some code\<rparr>))))
            (ret (session_of p (c\<lparr>c_authorizationUrl := Some url, c_accessCode := Some code\<rparr>) False))))))))"

section \<open>Saved-method charges\<close>

datatype api_status = Api_pending | Api_needs_otp | Api_succeeded | Api_failed

record charge_result =
  cr_reference :: string
  cr_jobId :: nat
  cr_method :: method_type
  cr_status :: api_status
  cr_action :: "string option"
  cr_message :: "string option"

fun api_status_of :: "charge_status \<Rightarrow> api_status" where
  "api_status_of Ch_pending = Api_pending"
| "api_status_of Ch_needs_otp = Api_needs_otp"
| "api_status_of Ch_hosted_open = Api_pending"
| "api_status_of Ch_succeeded = Api_succeeded"
| "api_status_of Ch_failed = Api_failed"
| "api_status_of Ch_expired = Api_failed"
| "api_status_of Ch_cancelled = Api_failed"
| "api_status_of Ch_duplicate = Api_succeeded"

definition to_result :: "charge \<Rightarrow> nat \<Rightarrow> charge_result" where
  "to_result c jid =
     (let r = (\<lambda>a m. \<lparr>cr_reference = c_reference c, cr_jobId = jid, cr_method = c_methodType c,
                 cr_status = api_status_of (c_status c), cr_action = a, cr_message = m\<rparr>)
      in if c_status c = Ch_duplicate then r None (Some MSG_DUPLICATE)
         else if c_status c \<in> {Ch_expired, Ch_cancelled} then r None (first_text (c_message c) (Some MSG_NOT_APPROVED))
         else if c_status c = Ch_hosted_open then r None None
         else r (c_action c) (c_message c))"

definition apply_reply :: "env \<Rightarrow> charge \<Rightarrow> nat \<Rightarrow> charge_reply \<Rightarrow> bool \<Rightarrow> charge_result act" where
  "apply_reply env c jid reply otp_step =
     (let o' = map_charge_reply (e_uc env) reply (c_methodType c \<noteq> M_card) otp_step
      in bnd (asks (\<lambda>w. \<exists>x \<in> set (t_charges (w_db w)). still_active (c_id c) x)) (\<lambda>affected.
         andthen (with_db (update_charges (still_active (c_id c))
           (\<lambda>x. x\<lparr>c_status := oc_status o', c_action := oc_action o', c_message := oc_message o'\<rparr>)))
         (if \<not> affected
          then asks (\<lambda>w. to_result (case find_charge (w_db w) (c_id c) of Some x \<Rightarrow> x | None \<Rightarrow> c) jid)
          else ret (to_result (c\<lparr>c_status := oc_status o', c_action := oc_action o', c_message := oc_message o'\<rparr>) jid))))"

definition chargeable_spec :: "chargeable \<Rightarrow> attempt_spec" where
  "chargeable_spec m = (case m of Chargeable_momo k _ _ \<Rightarrow> Spec_momo k | Chargeable_card k _ _ \<Rightarrow> Spec_card k)"

definition charge_saved :: "env \<Rightarrow> nat \<Rightarrow> nat \<Rightarrow> nat \<Rightarrow> string \<Rightarrow> charge_result act" where
  "charge_saved env uid jid mid hex =
     bnd (get_chargeable env uid mid) (\<lambda>m.
     andthen (guard (case m of Chargeable_card _ _ expired \<Rightarrow> \<not> expired | _ \<Rightarrow> True) (Unprocessable Card_expired))
     (bnd (claim env (apply_charge_success env) uid jid (chargeable_spec m) No_pending_payment hex) (\<lambda>cl.
      case cl of Existing p c \<Rightarrow> ret (to_result c jid)
      | Created p c \<Rightarrow>
         bnd (post_charge (e_pv env) (case m of
             Chargeable_momo _ net phone \<Rightarrow> Charge_momo (c_reference c) (p_amount p) phone (charge_provider net)
           | Chargeable_card _ code _ \<Rightarrow> Charge_card (c_reference c) (p_amount p) code)) (\<lambda>reply.
         apply_reply env c jid reply False))))"

definition owned_charge :: "nat \<Rightarrow> string \<Rightarrow> (charge \<times> payment option \<times> nat) act" where
  "owned_charge uid ref =
     bnd (asks (\<lambda>w. charge_by_reference (w_db w) ref)) (\<lambda>c0.
     andthen (guard (case c0 of Some c \<Rightarrow> c_customerId c = uid | None \<Rightarrow> False) (NotFound_pay Charge_not_found))
     (bnd (asks (\<lambda>w. find_payment (w_db w) (c_paymentId (the c0)))) (\<lambda>p0.
      ret (the c0, p0, (case p0 of Some p \<Rightarrow> p_jobId p | None \<Rightarrow> 0)))))"

definition submit_otp :: "env \<Rightarrow> nat \<Rightarrow> string \<Rightarrow> string \<Rightarrow> charge_result act" where
  "submit_otp env uid ref otp =
     bnd (owned_charge uid ref) (\<lambda>(c, p0, jid).
     andthen (guard (case p0 of Some p \<Rightarrow> \<not> is_paid (p_status p) | None \<Rightarrow> True) (Conflict_pay Already_paid))
     (andthen (guard (c_status c = Ch_needs_otp) (Conflict_pay Not_waiting_for_otp))
     (bnd (post_charge (e_pv env) (Submit_otp ref otp)) (\<lambda>reply. apply_reply env c jid reply True))))"

definition charge_status_of :: "env \<Rightarrow> nat \<Rightarrow> string \<Rightarrow> charge_result act" where
  "charge_status_of env uid ref =
     bnd (owned_charge uid ref) (\<lambda>(c, p0, jid).
     if \<not> is_active (c_status c) then ret (to_result c jid)
     else bnd (reconcile env (apply_charge_success env) c False) (\<lambda>o'.
       if o' = Still_active then ret (to_result c jid)
       else asks (\<lambda>w. to_result (case find_charge (w_db w) (c_id c) of Some x \<Rightarrow> x | None \<Rightarrow> c) jid)))"

end
