(* ===== verification/PaymentSafety.thy ===== *)
theory PaymentSafety
  imports Fixtures
begin

text \<open>
  What the payments service promises: the split of a held payment, the safety of a capture (at most
  one transfer, only to the account whose name was checked), the ledger of refunds, the effect of
  the transfer webhooks, and the money invariant every operation of \<open>PaymentsService\<close> keeps.
\<close>

section \<open>Reading a payment back\<close>

lemma find_in_map_first:
  "find P xs = Some x \<Longrightarrow> q x \<Longrightarrow> P y \<Longrightarrow> find P (map (\<lambda>x. if q x then y else x) xs) = Some y"
  by (induction xs) (auto split: if_splits)

lemma payment_by_reference_put:
  assumes "payment_by_reference d ref = Some p" and "p_id p' = p_id p" and "p_reference p' = ref"
  shows "payment_by_reference (put_payment p' d) ref = Some p'"
proof -
  have "p \<in> set (t_payments d)" using assms(1) by (auto simp: payment_by_reference_def find_Some_iff)
  with assms show ?thesis
    by (auto simp: payment_by_reference_def put_payment_def save_row_def intro: find_in_map_first)
qed

lemma payment_by_reference_D: "payment_by_reference d ref = Some p \<Longrightarrow> p_reference p = ref"
  by (auto simp: payment_by_reference_def find_Some_iff)

lemma payment_by_transfer_D: "payment_by_transfer d ref = Some p \<Longrightarrow> p_transferReference p = Some ref"
  by (auto simp: payment_by_transfer_def find_Some_iff)

lemma payment_by_reference_put_new:
  assumes "payment_by_reference d (p_reference p) = None" and "find_payment d (p_id p) = None"
  shows "payment_by_reference (put_payment p d) (p_reference p) = Some p"
  using assms
  by (auto simp: payment_by_reference_def find_payment_def find_row_None_iff put_payment_def
      save_row_def find_None_iff find_Some_iff nth_append less_Suc_eq)

lemma payment_lookups_update_profiles [simp]:
  "payment_by_reference (update_profiles q f d) ref = payment_by_reference d ref"
  "find_payment (update_profiles q f d) k = find_payment d k"
  "t_payments (update_profiles q f d) = t_payments d"
  by (simp_all add: update_profiles_def payment_by_reference_def find_payment_def)

lemma clear_payout_hold_sel [simp]:
  "p_id (clear_payout_hold p) = p_id p" "p_reference (clear_payout_hold p) = p_reference p"
  "p_status (clear_payout_hold p) = p_status p" "p_amount (clear_payout_hold p) = p_amount p"
  "p_artisanAmount (clear_payout_hold p) = p_artisanAmount p"
  "p_platformFee (clear_payout_hold p) = p_platformFee p"
  "p_refundedAmount (clear_payout_hold p) = p_refundedAmount p"
  "p_transferCode (clear_payout_hold p) = p_transferCode p"
  "p_paidReference (clear_payout_hold p) = p_paidReference p"
  by (simp_all add: clear_payout_hold_def)

section \<open>Holding\<close>

text \<open>The split of an agreed amount into the platform's fee and the artisan's share.\<close>

definition split_ok :: "rat \<Rightarrow> payment \<Rightarrow> bool" where
  "split_ok pct p \<longleftrightarrow> p_platformFee p + p_artisanAmount p = p_amount p
     \<and> 0 \<le> p_platformFee p \<and> p_platformFee p \<le> p_amount p
     \<and> \<bar>cedis (p_platformFee p) - cedis (p_amount p) * pct / 100\<bar> \<le> 1 / 200"

lemma platform_fee_range: "platform_fee_percent raw = Some f \<Longrightarrow> 0 \<le> f \<and> f \<le> 100"
  by (auto simp: platform_fee_percent_def split: option.splits if_splits)

lemma fee_within:
  assumes "0 \<le> pct" and "pct \<le> 100" and "0 < a"
  shows "0 \<le> to_fixed2 (cedis a * pct / 100)" and "to_fixed2 (cedis a * pct / 100) \<le> a"
    and "\<bar>cedis (to_fixed2 (cedis a * pct / 100)) - cedis a * pct / 100\<bar> \<le> 1 / 200"
proof -
  have "0 \<le> cedis a" using assms by (simp add: cedis_def)
  then have "0 \<le> cedis a * pct / 100" and le: "cedis a * pct / 100 \<le> cedis a"
    using assms mult_left_mono [of pct 100 "cedis a"] by auto
  then show "0 \<le> to_fixed2 (cedis a * pct / 100)" and "to_fixed2 (cedis a * pct / 100) \<le> a"
    and "\<bar>cedis (to_fixed2 (cedis a * pct / 100)) - cedis a * pct / 100\<bar> \<le> 1 / 200"
    by (blast intro: to_fixed2_nonneg to_fixed2_le_cedis to_fixed2_near)+
qed

lemma split_new_payment:
  assumes "0 \<le> pct" and "pct \<le> 100" and "0 < a"
  defines "fee \<equiv> to_fixed2 (cedis a * pct / 100)"
  shows "split_ok pct (new_payment k jid cid prid a fee (to_fixed2 (cedis a - cedis fee)) cur ref now)"
  using fee_within [OF assms(1-3)] by (simp add: split_ok_def new_payment_def fee_def cedis_diff)

lemma hold_payment_cases:
  assumes "hold_payment env jid cid aid amount w = (r, w')"
  obtains e where "r = Inl e" and "w_db w' = w_db w"
  | job pr agreed ref where "r = Inr ref" and "find_job (w_db w) jid = Some job"
      and "profile_of_user (w_db w) aid = Some pr"
      and "agreed = (case amount of Some a \<Rightarrow> a | None \<Rightarrow> (case j_budgetMax job of Some b \<Rightarrow> b | None \<Rightarrow> 0))"
      and "0 < agreed" and "j_currency job = ''GHS''" and "ref = payment_reference jid cid (clock w)"
      and "payment_by_reference (w_db w) ref = None"
      and "w_db w' = put_payment (new_payment (next_id w T_payments) jid cid (pr_id pr) agreed
             (to_fixed2 (cedis agreed * e_fee env / 100))
             (to_fixed2 (cedis agreed - cedis (to_fixed2 (cedis agreed * e_fee env / 100))))
             ''GHS'' ref (clock w)) (w_db w)"
proof -
  have "(\<exists>e. r = Inl e) \<and> w_db w' = w_db w \<or>
    (\<exists>job pr agreed ref. r = Inr ref \<and> find_job (w_db w) jid = Some job
      \<and> profile_of_user (w_db w) aid = Some pr
      \<and> agreed = (case amount of Some a \<Rightarrow> a | None \<Rightarrow> (case j_budgetMax job of Some b \<Rightarrow> b | None \<Rightarrow> 0))
      \<and> 0 < agreed \<and> j_currency job = ''GHS'' \<and> ref = payment_reference jid cid (clock w)
      \<and> payment_by_reference (w_db w) ref = None
      \<and> w_db w' = put_payment (new_payment (next_id w T_payments) jid cid (pr_id pr) agreed
             (to_fixed2 (cedis agreed * e_fee env / 100))
             (to_fixed2 (cedis agreed - cedis (to_fixed2 (cedis agreed * e_fee env / 100))))
             ''GHS'' ref (clock w)) (w_db w))"
    using assms unfolding hold_payment_def Let_def run_simps
    by (simp add: run_simps split: option.splits if_splits) (auto simp: run_simps)
  then show ?thesis using that by blast
qed

lemma show_nat_dash:
  "show_nat a @ CHR ''-'' # xs = show_nat b @ CHR ''-'' # ys \<longleftrightarrow> a = b \<and> xs = ys"
  using cut_at_first [OF dash_not_digit dash_not_digit] show_nat_inject by metis

lemma payment_reference_inject:
  assumes "0 \<le> t" and "0 \<le> t'"
  shows "payment_reference jid cid t = payment_reference jid' cid' t' \<longleftrightarrow> jid = jid' \<and> cid = cid' \<and> t = t'"
  using assms show_nat_inject [of "nat t" "nat t'"]
  by (auto simp: payment_reference_def show_nat_dash eq_nat_nat_iff)

section \<open>Capturing\<close>

lemma capture_tx_log:
  assumes "capture_tx env ref jid check w = (r, w')"
  shows "ps_log w' = ps_log w \<or>
    (\<exists>p pr code c. payment_by_reference (w_db w) ref = Some p \<and> capturable (p_status p)
       \<and> \<not> transfer_in_flight p \<and> find_profile (w_db w) (p_artisanProfileId p) = Some pr
       \<and> pr_recipientCode pr = Some code \<and> code \<noteq> [] \<and> check = Some c \<and> nc_outcome c = Nm_match
       \<and> check_is_current check pr
       \<and> send_transfer env jid p pr check w = (r, w'))"
proof (cases "payment_by_reference (w_db w) ref")
  case None
  with assms show ?thesis by (simp add: capture_tx_def run_simps)
next
  case (Some p)
  note p = Some
  show ?thesis
  proof (cases "transfer_in_flight p \<or> \<not> capturable (p_status p)
      \<or> find_profile (w_db w) (p_artisanProfileId p) = None
      \<or> \<not> truthy (pr_recipientCode (the (find_profile (w_db w) (p_artisanProfileId p))))")
    case True
    with assms p show ?thesis
      by (auto simp: capture_tx_def run_simps park_no_method_def split: if_splits)
  next
    case False
    then obtain pr code where pr: "find_profile (w_db w) (p_artisanProfileId p) = Some pr"
      and code: "pr_recipientCode pr = Some code" "code \<noteq> []" by (auto dest: truthyE)
    have eff: "effective_outcome check pr = Nm_match \<Longrightarrow>
        \<exists>c. check = Some c \<and> nc_outcome c = Nm_match \<and> check_is_current check pr"
      by (auto simp: effective_outcome_def check_is_current_def split: if_splits option.splits)
    have "ps_log w' = ps_log w \<or>
        (effective_outcome check pr = Nm_match \<and> send_transfer env jid p pr check w = (r, w'))"
      using assms p pr code False
      by (cases "effective_outcome check pr")
         (simp_all add: capture_tx_def run_simps Let_def, auto simp: park_on_hold_def park_unavailable_def run_simps Let_def)
    with eff p pr code False show ?thesis by blast
  qed
qed

text \<open>What a sent transfer leaves: in flight when Paystack accepted it, retryable when it refused.\<close>

definition sent_or_failed :: "env \<Rightarrow> string \<Rightarrow> nat \<Rightarrow> payment \<Rightarrow> string \<Rightarrow> world \<Rightarrow> world \<Rightarrow> bool" where
  "sent_or_failed env ref jid p code w w' \<longleftrightarrow>
     (let tref = transfer_ref jid (clock w)
      in case pv_transfer (e_pv env) (ps_log w) (p_artisanAmount p) code tref of
           Inr tc \<Rightarrow> ps_log w' = ps_log w @ [(PsTransfer code (p_artisanAmount p) tref, True)]
             \<and> (\<exists>q. payment_by_reference (w_db w') ref = Some q \<and> p_id q = p_id p \<and> p_status q = Pay_HELD
                   \<and> p_transferCode q = Some tc \<and> p_transferReference q = Some tref)
         | Inl e \<Rightarrow> ps_log w' = ps_log w @ [(PsTransfer code (p_artisanAmount p) tref, False)]
             \<and> (\<exists>q. payment_by_reference (w_db w') ref = Some q \<and> p_id q = p_id p
                   \<and> p_status q = Pay_TRANSFER_FAILED))"

lemma send_transfer_effect:
  assumes "payment_by_reference (w_db w) ref = Some p" and "pr_recipientCode pr = Some code"
    and "send_transfer env jid p pr check w = (r, w')"
  shows "sent_or_failed env ref jid p code w w'"
proof -
  note put = payment_by_reference_put
  have ref: "p_reference p = ref" using assms(1) by (rule payment_by_reference_D)
  show ?thesis
    using assms ref unfolding send_transfer_def Let_def run_simps sent_or_failed_def
    by (auto simp: run_simps Let_def put [where p = p] put [OF put [where p = p]] clear_payout_hold_def
        split: sum.splits if_splits)
qed

lemma precheck_match:
  assumes "precheck_payout_name env ref w = (Inr (Some c), w')" and "nc_outcome c = Nm_match"
  shows "\<exists>p pr acct bank nm. payment_by_reference (w_db w) ref = Some p
    \<and> find_profile (w_db w) (p_artisanProfileId p) = Some pr
    \<and> nc_recipientCode c = pr_recipientCode pr \<and> nc_accountNumber c = Some acct \<and> nc_bankCode c = Some bank
    \<and> pv_resolve (e_pv env) (ps_log w) acct bank = Resolved nm
    \<and> payout_names_match (e_uc env) (pr_payoutAccountName pr) (Some nm)"
  using assms
  by (auto simp: precheck_payout_name_def check_payout_name_def run_simps Let_def dest!: truthyE
      split: option.splits if_splits resolve_result.splits)

text \<open>A payment with a transfer in flight is not touched by any capture.\<close>

lemma capture_in_flight:
  assumes "payment_by_reference (w_db w) ref = Some p" and "transfer_in_flight p"
  shows "capture_payment env ref jid w = (Inr (), w)" and "capture_tx env ref jid check w = (Inr nothing_more, w)"
  using assms
  by (simp_all add: capture_payment_def precheck_payout_name_def capture_tx_def capture_after_def
      nothing_more_def run_simps)

lemma capture_not_capturable:
  assumes "payment_by_reference (w_db w) ref = Some p" and "\<not> capturable (p_status p)"
  shows "capture_payment env ref jid w = (Inr (), w)"
  using assms
  by (auto simp: capture_payment_def precheck_payout_name_def capture_tx_def capture_after_def
      nothing_more_def run_simps)

lemma emitters_keep [frame_simps]:
  "w_db (snd (emit_payment_held p w)) = w_db w" "ps_log (snd (emit_payment_held p w)) = ps_log w"
  "w_db (snd (emit_payout_released p w)) = w_db w" "ps_log (snd (emit_payout_released p w)) = ps_log w"
  "w_db (snd (emit_payment_refunded p a f w)) = w_db w" "ps_log (snd (emit_payment_refunded p a f w)) = ps_log w"
  "w_db (snd (emit_transfer_failed p y w)) = w_db w" "ps_log (snd (emit_transfer_failed p y w)) = ps_log w"
  "w_db (snd (emit_payout_on_hold p h w)) = w_db w" "ps_log (snd (emit_payout_on_hold p h w)) = ps_log w"
  by (auto simp: emitter_defs run_simps split: option.splits)

lemma emitters_return:
  "fst (emit_payment_held p w) = Inr ()" "fst (emit_payout_released p w) = Inr ()"
  "fst (emit_payment_refunded p a f w) = Inr ()" "fst (emit_transfer_failed p y w) = Inr ()"
  "fst (emit_payout_on_hold p h w) = Inr ()"
  by (auto simp: emitter_defs run_simps split: option.splits)

lemma run_returning:
  assumes "fst (m w) = Inr x"
  shows "bnd m f w = f x (snd (m w))" and "andthen m n w = n (snd (m w))"
  using assms by (cases "m w"; simp add: bnd_def andthen_def)+

lemmas run_emitters = emitters_return [THEN run_returning(1)] emitters_return [THEN run_returning(2)]

lemma capture_after_keeps [frame_simps]:
  "w_db (snd (capture_after out w)) = w_db w" "ps_log (snd (capture_after out w)) = ps_log w"
  by (auto simp: capture_after_def run_emitters run_simps frame_simps split: option.splits)

lemma capture_tx_returns: "fst (capture_tx env ref jid check w) \<noteq> Inl e"
  by (auto simp: capture_tx_def park_no_method_def park_on_hold_def park_unavailable_def send_transfer_def
      run_simps Let_def split: option.splits name_outcome.splits sum.splits)

lemma capture_payment_result:
  assumes "capture_payment env ref jid w = (r, w')"
  shows "\<exists>check w1 out w2. precheck_payout_name env ref w = (Inr check, w1) \<and> w_db w1 = w_db w
    \<and> capture_tx env ref jid check w1 = (Inr out, w2) \<and> ps_log w' = ps_log w2 \<and> w_db w' = w_db w2"
proof -
  obtain c0 w1 where pre: "precheck_payout_name env ref w = (c0, w1)" by fastforce
  have "\<exists>check. c0 = Inr check \<and> w_db w1 = w_db w"
    using pre
    by (auto simp: precheck_payout_name_def check_payout_name_def run_simps Let_def
        split: option.splits if_splits resolve_result.splits)
  then obtain check where c0: "c0 = Inr check" and db: "w_db w1 = w_db w" by blast
  obtain r1 w2 where tx: "capture_tx env ref jid check w1 = (r1, w2)" by fastforce
  then obtain out where out: "r1 = Inr out" using capture_tx_returns by (metis fst_conv sum.exhaust_sel)
  have "ps_log w' = ps_log w2 \<and> w_db w' = w_db w2"
    using assms pre c0 tx out capture_after_keeps [of out w2]
    by (simp add: capture_payment_def run_bnd_Pair run_simps)
  with pre c0 tx db out show ?thesis by blast
qed

section \<open>Refunding and cancelling\<close>

text \<open>The money Paystack agreed to give back on a reference.\<close>

fun accepted_refunds :: "string \<Rightarrow> ps_log \<Rightarrow> money" where
  "accepted_refunds ref [] = 0"
| "accepted_refunds ref ((c, ok) # l) =
     (case c of PsRefund r a \<Rightarrow> if ok \<and> r = ref then a else 0 | _ \<Rightarrow> 0) + accepted_refunds ref l"

lemma accepted_refunds_append [simp]:
  "accepted_refunds ref (l @ m) = accepted_refunds ref l + accepted_refunds ref m"
  by (induction l rule: accepted_refunds.induct [of _ ref]) auto

lemma money_reference_update [simp]:
  "money_reference (p\<lparr>p_refundedAmount := a\<rparr>) = money_reference p"
  "money_reference (p\<lparr>p_status := s\<rparr>) = money_reference p"
  by (auto simp: money_reference_def split: option.splits)

definition ledger_ok :: "payment \<Rightarrow> ps_log \<Rightarrow> payment \<Rightarrow> ps_log \<Rightarrow> bool" where
  "ledger_ok p l p' l' \<longleftrightarrow> p_id p' = p_id p \<and> p_amount p' = p_amount p
     \<and> money_reference p' = money_reference p
     \<and> p_refundedAmount p' - p_refundedAmount p
         = accepted_refunds (money_reference p) l' - accepted_refunds (money_reference p) l
     \<and> p_refundedAmount p \<le> p_refundedAmount p' \<and> p_refundedAmount p' \<le> p_amount p'"

lemma ledger_ok_refl: "p_refundedAmount p \<le> p_amount p \<Longrightarrow> ledger_ok p l p l"
  by (simp add: ledger_ok_def)

lemma ledger_ok_trans:
  "ledger_ok p l p' l' \<Longrightarrow> ledger_ok p' l' p'' l'' \<Longrightarrow> ledger_ok p l p'' l''"
  by (auto simp: ledger_ok_def)

lemma find_payment_id: "find_payment d k = Some p \<Longrightarrow> p_id p = k"
  by (rule payments.lookup_key)

lemma admin_refund_cases:
  assumes "find_payment (w_db w) pid = Some p" and "admin_refund_tx env pid amount w = (r, w')"
  shows "(\<exists>e. r = Inl e) \<and> w_db w' = w_db w
           \<and> accepted_refunds (money_reference p) (ps_log w') = accepted_refunds (money_reference p) (ps_log w)
       \<or> (\<exists>amt p' full. r = Inr (p', amt, full) \<and> 0 < amt \<and> amt \<le> p_amount p - p_refundedAmount p
           \<and> amt = (case amount of Some a \<Rightarrow> a | None \<Rightarrow> p_amount p - p_refundedAmount p)
           \<and> (p_status p = Pay_HELD \<or> p_status p = Pay_RELEASED)
           \<and> full = (p_amount p \<le> p_refundedAmount p + amt)
           \<and> p' = p\<lparr>p_refundedAmount := p_refundedAmount p + amt,
                    p_status := (if full then Pay_REFUNDED else p_status p)\<rparr>
           \<and> w_db w' = put_payment p' (w_db w)
           \<and> ps_log w' = ps_log w @ [(PsRefund (money_reference p) amt, True)])"
proof (cases amount)
  case None
  with assms show ?thesis
    by (auto simp: admin_refund_tx_def run_simps Let_def cedis_diff cedis_add split: option.splits if_splits)
next
  case (Some a)
  with assms show ?thesis
    by (auto simp: admin_refund_tx_def run_simps Let_def cedis_diff cedis_add split: option.splits if_splits)
qed

lemma record_audit_keeps [frame_simps]:
  "t_payments (w_db (snd (record_audit a w))) = t_payments (w_db w)"
  "ps_log (snd (record_audit a w)) = ps_log w"
  by (simp_all add: record_audit_def run_simps)

lemma find_payment_cong: "t_payments d = t_payments d' \<Longrightarrow> find_payment d k = find_payment d' k"
  by (simp add: find_payment_def)

lemma admin_refund_ledger_step:
  assumes "find_payment (w_db w) pid = Some p" and "p_refundedAmount p \<le> p_amount p"
    and "admin_refund env pid amount actor w = (r, w')"
  shows "\<exists>p'. find_payment (w_db w') pid = Some p' \<and> ledger_ok p (ps_log w) p' (ps_log w')"
proof -
  obtain r1 w1 where tx: "admin_refund_tx env pid amount w = (r1, w1)" by fastforce
  note cs = admin_refund_cases [OF assms(1) tx]
  show ?thesis
  proof (cases r1)
    case (Inl e)
    with assms tx cs have "w_db w' = w_db w" "ps_log w' = ps_log w1"
      by (auto simp: admin_refund_def run_simps)
    with assms cs Inl show ?thesis by (simp add: ledger_ok_def)
  next
    case (Inr x)
    obtain p' amt full where x: "x = (p', amt, full)" by (cases x)
    have keep: "t_payments (w_db w') = t_payments (w_db w1)" "ps_log w' = ps_log w1"
      using assms(3) tx Inr x
      by (auto simp: admin_refund_def run_simps run_emitters frame_simps split: option.splits
          dest!: arg_cong [of _ _ snd])
    have "find_payment (w_db w1) pid = Some p'"
      using cs Inr x payments.modify_hits [OF assms(1)] find_payment_id [OF assms(1)]
      by (auto simp: payments.lookup_save)
    moreover have "ledger_ok p (ps_log w) p' (ps_log w1)"
      using cs Inr x by (auto simp: ledger_ok_def)
    ultimately show ?thesis using keep find_payment_cong by metis
  qed
qed

text \<open>A list of refund requests made one after the other, each answered or refused on its own.\<close>

fun refund_requests :: "env \<Rightarrow> nat \<Rightarrow> (money option \<times> user option) list \<Rightarrow> unit act" where
  "refund_requests env pid [] = ret ()"
| "refund_requests env pid ((amt, actor) # rs) =
     bnd (attempt (admin_refund env pid amt actor)) (\<lambda>_. refund_requests env pid rs)"

lemma refund_requests_ledger:
  "find_payment (w_db w) pid = Some p \<Longrightarrow> p_refundedAmount p \<le> p_amount p \<Longrightarrow>
   \<exists>p'. find_payment (w_db (snd (refund_requests env pid rs w))) pid = Some p'
     \<and> ledger_ok p (ps_log w) p' (ps_log (snd (refund_requests env pid rs w)))"
proof (induction rs arbitrary: w p)
  case Nil
  then show ?case by (simp add: run_simps ledger_ok_refl)
next
  case (Cons x rs)
  obtain amt actor where x: "x = (amt, actor)" by (cases x)
  obtain r1 w1 where step: "admin_refund env pid amt actor w = (r1, w1)" by fastforce
  from admin_refund_ledger_step [OF Cons.prems step] obtain p1
    where p1: "find_payment (w_db w1) pid = Some p1" and l1: "ledger_ok p (ps_log w) p1 (ps_log w1)"
    by blast
  have "p_refundedAmount p1 \<le> p_amount p1" using l1 by (simp add: ledger_ok_def)
  from Cons.IH [OF p1 this] l1 step x ledger_ok_trans show ?case
    by (fastforce simp: run_simps)
qed

lemma cancel_payment_cases:
  assumes "payment_by_reference (w_db w) ref = Some p"
  shows "p_status p = Pay_HELD \<Longrightarrow> pv_refund (e_pv env) (ps_log w) (money_reference p) (p_amount p) = None \<Longrightarrow>
      cancel_payment env ref w =
       (Inr (), w\<lparr>w_db := put_payment (p\<lparr>p_status := Pay_REFUNDED, p_refundedAmount := p_amount p\<rparr>) (w_db w),
                 ps_log := ps_log w @ [(PsRefund (money_reference p) (p_amount p), True)]\<rparr>)"
    and "p_status p = Pay_HELD \<Longrightarrow> pv_refund (e_pv env) (ps_log w) (money_reference p) (p_amount p) = Some e \<Longrightarrow>
      cancel_payment env ref w =
       (Inl (Unavailable Refund_refused),
        w\<lparr>ps_log := ps_log w @ [(PsRefund (money_reference p) (p_amount p), False)]\<rparr>)"
    and "p_status p = Pay_PENDING \<Longrightarrow>
      cancel_payment env ref w = (Inr (), w\<lparr>w_db := put_payment (p\<lparr>p_status := Pay_CANCELLED\<rparr>) (w_db w)\<rparr>)"
    and "p_status p \<notin> {Pay_HELD, Pay_PENDING} \<Longrightarrow> cancel_payment env ref w = (Inr (), w)"
  using assms by (simp_all add: cancel_payment_def run_simps)

lemma cancel_payment_unknown:
  "payment_by_reference (w_db w) ref = None \<Longrightarrow> cancel_payment env ref w = (Inr (), w)"
  by (simp add: cancel_payment_def run_simps)

section \<open>Transfer webhooks\<close>

lemma payment_by_transfer_put:
  assumes "payment_by_transfer d ref = Some p" and "p_id p' = p_id p" and "p_transferReference p' = Some ref"
  shows "payment_by_transfer (put_payment p' d) ref = Some p'"
proof -
  have "p \<in> set (t_payments d)" using assms(1) by (auto simp: payment_by_transfer_def find_Some_iff)
  with assms show ?thesis
    by (auto simp: payment_by_transfer_def put_payment_def save_row_def intro: find_in_map_first)
qed

lemma transfer_success_run:
  assumes "payment_by_transfer (w_db w) ref = Some p"
  defines "q \<equiv> p\<lparr>p_status := Pay_RELEASED, p_releasedAt := Some (clock w)\<rparr>"
  shows "fst (on_transfer_success ref w) = Inr ()"
    and "w_db (snd (on_transfer_success ref w)) = put_payment q (w_db w)"
    and "p_status p = Pay_RELEASED \<Longrightarrow> outbox (snd (on_transfer_success ref w)) = outbox w"
  using assms by (auto simp: on_transfer_success_def run_simps Let_def frame_simps emitters_return)

lemma transfer_failed_run:
  assumes "payment_by_transfer (w_db w) ref = Some p" and "ref \<noteq> []"
  defines "q \<equiv> p\<lparr>p_status := Pay_TRANSFER_FAILED\<rparr>"
  shows "fst (on_transfer_failed ev (Some ref) why w) = Inr ()"
    and "w_db (snd (on_transfer_failed ev (Some ref) why w)) = put_payment q (w_db w)"
    and "p_status p = Pay_TRANSFER_FAILED \<Longrightarrow> outbox (snd (on_transfer_failed ev (Some ref) why w)) = outbox w"
    and "ps_log (snd (on_transfer_failed ev (Some ref) why w)) = ps_log w"
  using assms by (auto simp: on_transfer_failed_def run_simps Let_def frame_simps emitters_return)

text \<open>The transfers Paystack accepted.\<close>

definition payouts :: "ps_log \<Rightarrow> (ps_call \<times> bool) list" where
  "payouts l = filter (\<lambda>(c, ok). ok \<and> (case c of PsTransfer _ _ _ \<Rightarrow> True | _ \<Rightarrow> False)) l"

lemma payouts_simps [simp]: "payouts [] = []" "payouts (l @ m) = payouts l @ payouts m"
    "payouts ((PsTransfer a b c, ok) # l) = (if ok then (PsTransfer a b c, ok) # payouts l else payouts l)"
    "payouts ((PsResolve d e, ok) # l) = payouts l"
  by (simp_all add: payouts_def)

section \<open>Properties\<close>

text \<open>
  Holding a payment for an accepted artisan, with the fee percentage the constructor validated:
  on an error nothing is written; otherwise one new \<open>PENDING\<close> payment in GHS is stored under the
  returned reference, for the agreed amount (the quote, else the job's maximum budget), which is
  positive and is split without loss into a platform fee between nothing and the whole amount, within
  half a pesewa of the exact percentage, and the artisan's share. No other payment changes.
\<close>

theorem hold_payment_split:
  assumes "platform_fee_percent raw = Some (e_fee env)"
    and "find_payment (w_db w) (next_id w T_payments) = None"
    and "hold_payment env jid cid aid amount w = (r, w')"
  shows "case r of
      Inl e \<Rightarrow> w_db w' = w_db w
    | Inr ref \<Rightarrow> \<exists>p job. payment_by_reference (w_db w') ref = Some p \<and> payment_by_reference (w_db w) ref = None
        \<and> find_job (w_db w) jid = Some job \<and> p_jobId p = jid \<and> p_customerId p = cid
        \<and> p_status p = Pay_PENDING \<and> p_currency p = ''GHS'' \<and> p_refundedAmount p = 0
        \<and> Some (p_amount p) = (if amount \<noteq> None then amount else j_budgetMax job)
        \<and> 0 < p_amount p \<and> split_ok (e_fee env) p
        \<and> (\<forall>k. k \<noteq> p_id p \<longrightarrow> find_payment (w_db w') k = find_payment (w_db w) k)"
  using assms(3)
proof (cases rule: hold_payment_cases)
  case (1 e)
  then show ?thesis by simp
next
  case (2 job pr agreed ref)
  define fee where "fee = to_fixed2 (cedis agreed * e_fee env / 100)"
  define p where "p = new_payment (next_id w T_payments) jid cid (pr_id pr) agreed fee
      (to_fixed2 (cedis agreed - cedis fee)) ''GHS'' ref (clock w)"
  have db: "w_db w' = put_payment p (w_db w)" using 2 by (simp add: p_def fee_def)
  have split: "split_ok (e_fee env) p" unfolding p_def fee_def
    using platform_fee_range [OF assms(1)] \<open>0 < agreed\<close> by (intro split_new_payment) auto
  have sel: "p_reference p = ref" "p_id p = next_id w T_payments" "p_jobId p = jid" "p_customerId p = cid"
    "p_status p = Pay_PENDING" "p_currency p = ''GHS''" "p_refundedAmount p = 0" "p_amount p = agreed"
    by (simp_all add: p_def new_payment_def)
  have "payment_by_reference (w_db w') ref = Some p"
    using payment_by_reference_put_new [of "w_db w" p] 2 assms(2) sel db by simp
  moreover have "find_payment (w_db w') k = find_payment (w_db w) k" if "k \<noteq> p_id p" for k
    using payments.lookup_save_other [OF that] db by simp
  moreover have "Some agreed = (if amount \<noteq> None then amount else j_budgetMax job)"
    using 2 by (auto split: option.splits)
  ultimately show ?thesis using 2 split sel by auto
qed

theorem hold_payment_split_witness:
  "fst (hold_payment fx_env 7 1 2 (Some 12345) (fx_world [])) = Inr ''jinva-7-1-1000''
   \<and> (\<exists>p. payment_by_reference (w_db (snd (hold_payment fx_env 7 1 2 (Some 12345) (fx_world [])))) ''jinva-7-1-1000'' = Some p
        \<and> p_amount p = 12345 \<and> split_ok 5 p)"
proof -
  have "show_nat 7 = ''7''" "show_nat 1 = ''1''" "show_nat 1000 = ''1000''" by code_simp+
  then have r: "fst (hold_payment fx_env 7 1 2 (Some 12345) (fx_world [])) = Inr ''jinva-7-1-1000''"
    by (simp add: hold_payment_def run_simps fx_defs fx_finders Let_def payment_reference_def)
  have "platform_fee_percent (Some 5) = Some (e_fee fx_env)" by (simp add: platform_fee_percent_def fx_defs)
  moreover have "find_payment (w_db (fx_world [])) (next_id (fx_world []) T_payments) = None"
    by (simp add: fx_defs fx_finders)
  ultimately show ?thesis
    using hold_payment_split [of "Some 5" fx_env "fx_world []" 7 1 2 "Some 12345" _ _, OF _ _ surjective_pairing] r
    by (fastforce simp: fx_env_def)
qed

text \<open>
  Payment references: two payments get the same reference only when they are for the same job
  and customer and are made in the same millisecond, so the unique column can only reject a repeat.
\<close>

theorem payment_reference_unique:
  assumes "0 \<le> t" and "0 \<le> t'"
  shows "payment_reference jid cid t = payment_reference jid' cid' t' \<longleftrightarrow> jid = jid' \<and> cid = cid' \<and> t = t'"
  using assms by (rule payment_reference_inject)

theorem payment_reference_unique_witness:
  "payment_reference 1 23 5 \<noteq> payment_reference 12 3 5"
  using payment_reference_unique [of 5 5 1 23 12 3] by simp

text \<open>
  C19. The only call a capture's transaction can make to Paystack is one transfer, of the artisan's
  share to the recipient on file, and only for a capturable payment without a transfer in flight
  whose payout details are those of a check with a matching name. When Paystack accepts it the
  payment is in flight under the transfer's code; when Paystack refuses it the payment is
  \<open>TRANSFER_FAILED\<close>, which can be captured again.
\<close>

theorem capture_sends_checked_transfer:
  assumes "capture_tx env ref jid check w = (r, w')" and "ps_log w' \<noteq> ps_log w"
  shows "\<exists>p pr code c. payment_by_reference (w_db w) ref = Some p \<and> capturable (p_status p)
     \<and> \<not> transfer_in_flight p \<and> find_profile (w_db w) (p_artisanProfileId p) = Some pr
     \<and> pr_recipientCode pr = Some code \<and> code \<noteq> [] \<and> check = Some c \<and> nc_outcome c = Nm_match
     \<and> nc_recipientCode c = Some code \<and> nc_accountNumber c = pr_payoutAccountNumber pr
     \<and> nc_bankCode c = pr_payoutBankCode pr \<and> sent_or_failed env ref jid p code w w'"
  using capture_tx_log [OF assms(1)] assms(2) send_transfer_effect
  by (fastforce simp: check_is_current_def)

definition fx_check :: name_check where
  "fx_check = \<lparr>nc_outcome = Nm_match, nc_resolvedName = Some ''Kofi Mensah'', nc_recipientCode = Some ''RCP'',
     nc_accountNumber = Some ''0241'', nc_bankCode = Some ''MTN''\<rparr>"

lemma fx_capture:
  "ps_log (snd (capture_tx fx_env ''ref'' 7 (Some fx_check) (fx_world [fx_payment Pay_HELD])))
     = [(PsTransfer ''RCP'' 19000 (transfer_ref 7 1000), True)]"
  by (simp add: capture_tx_def send_transfer_def run_simps fx_defs fx_finders fx_check_def Let_def
      capturable_def transfer_in_flight_def effective_outcome_def check_is_current_def put_payment_def save_row_def
      clear_payout_hold_def)

theorem capture_sends_checked_transfer_witness:
  "\<exists>p. payment_by_reference (w_db (fx_world [fx_payment Pay_HELD])) ''ref'' = Some p
     \<and> sent_or_failed fx_env ''ref'' 7 p ''RCP'' (fx_world [fx_payment Pay_HELD])
         (snd (capture_tx fx_env ''ref'' 7 (Some fx_check) (fx_world [fx_payment Pay_HELD])))"
proof -
  have "ps_log (snd (capture_tx fx_env ''ref'' 7 (Some fx_check) (fx_world [fx_payment Pay_HELD])))
      \<noteq> ps_log (fx_world [fx_payment Pay_HELD])"
    by (simp only: fx_capture) (simp add: fx_world_def)
  from capture_sends_checked_transfer [OF surjective_pairing this]
  show ?thesis by (auto simp: fx_check_def)
qed

text \<open>
  C13. The name check cannot be outrun. A check is made without a lock in one world; whatever happens
  before the capture's transaction, if that transaction calls Paystack then the check resolved, with
  Paystack, the very account and bank now on file, to a name that matches the saved one, and found
  the recipient code the transfer uses.
\<close>

theorem capture_check_provenance:
  assumes "precheck_payout_name env ref w0 = (Inr check, w0')"
    and "capture_tx env ref jid check w1 = (r, w2)" and "ps_log w2 \<noteq> ps_log w1"
  shows "\<exists>p0 pr0 p1 pr1 acct bank nm code.
       payment_by_reference (w_db w0) ref = Some p0 \<and> find_profile (w_db w0) (p_artisanProfileId p0) = Some pr0
     \<and> payment_by_reference (w_db w1) ref = Some p1 \<and> find_profile (w_db w1) (p_artisanProfileId p1) = Some pr1
     \<and> pr_payoutAccountNumber pr1 = Some acct \<and> pr_payoutBankCode pr1 = Some bank
     \<and> pr_recipientCode pr1 = Some code \<and> pr_recipientCode pr0 = Some code
     \<and> pv_resolve (e_pv env) (ps_log w0) acct bank = Resolved nm
     \<and> payout_names_match (e_uc env) (pr_payoutAccountName pr0) (Some nm)
     \<and> (\<exists>ok. ps_log w2 = ps_log w1 @ [(PsTransfer code (p_artisanAmount p1) (transfer_ref jid (clock w1)), ok)])"
proof -
  from capture_tx_log [OF assms(2)] assms(3) obtain p1 pr1 code c where
    tx: "payment_by_reference (w_db w1) ref = Some p1" "find_profile (w_db w1) (p_artisanProfileId p1) = Some pr1"
      "pr_recipientCode pr1 = Some code" "check = Some c" "nc_outcome c = Nm_match"
      "check_is_current check pr1" "send_transfer env jid p1 pr1 check w1 = (r, w2)" by blast
  from precheck_match [OF assms(1) [unfolded tx(4)] tx(5)] obtain p0 pr0 acct bank nm where
    pre: "payment_by_reference (w_db w0) ref = Some p0" "find_profile (w_db w0) (p_artisanProfileId p0) = Some pr0"
      "nc_recipientCode c = pr_recipientCode pr0" "nc_accountNumber c = Some acct" "nc_bankCode c = Some bank"
      "pv_resolve (e_pv env) (ps_log w0) acct bank = Resolved nm"
      "payout_names_match (e_uc env) (pr_payoutAccountName pr0) (Some nm)" by blast
  have "\<exists>ok. ps_log w2 = ps_log w1 @ [(PsTransfer code (p_artisanAmount p1) (transfer_ref jid (clock w1)), ok)]"
    using send_transfer_effect [OF tx(1,3,7)]
    by (auto simp: sent_or_failed_def Let_def split: sum.splits)
  moreover have "pr_payoutAccountNumber pr1 = Some acct" "pr_payoutBankCode pr1 = Some bank"
      "pr_recipientCode pr0 = Some code"
    using tx pre by (auto simp: check_is_current_def)
  ultimately show ?thesis using pre tx by blast
qed

lemma fx_match: "payout_names_match ascii (Some ''Kofi Mensah'') (Some ''Kofi Mensah'')"
  by code_simp

lemma fx_precheck:
  "precheck_payout_name fx_env ''ref'' (fx_world [fx_payment Pay_HELD])
     = (Inr (Some fx_check), (fx_world [fx_payment Pay_HELD])\<lparr>ps_log := [(PsResolve ''0241'' ''MTN'', True)]\<rparr>)"
  using fx_match
  by (simp add: precheck_payout_name_def check_payout_name_def run_simps fx_defs fx_finders fx_check_def Let_def
      capturable_def transfer_in_flight_def)

theorem capture_check_provenance_witness:
  "\<exists>nm. pv_resolve fx_provider [] ''0241'' ''MTN'' = Resolved nm
     \<and> payout_names_match ascii (Some ''Kofi Mensah'') (Some nm)"
proof -
  have "ps_log (snd (capture_tx fx_env ''ref'' 7 (Some fx_check) (fx_world [fx_payment Pay_HELD])))
      \<noteq> ps_log (fx_world [fx_payment Pay_HELD])"
    by (simp only: fx_capture) (simp add: fx_world_def)
  from capture_check_provenance [OF fx_precheck surjective_pairing this]
  show ?thesis by (auto simp: fx_defs fx_finders)
qed


lemma fx_capture_payment:
  "capture_payment fx_env ''ref'' 7 (fx_world [fx_payment Pay_HELD]) =
    (Inr (), (fx_world [(fx_payment Pay_HELD)\<lparr>p_transferReference := Some (transfer_ref 7 1000),
        p_transferCode := Some ''TRF_1''\<rparr>])
      \<lparr>ps_log := [(PsResolve ''0241'' ''MTN'', True), (PsTransfer ''RCP'' 19000 (transfer_ref 7 1000), True)]\<rparr>)"
proof -
  have "capture_payment fx_env ''ref'' 7 (fx_world [fx_payment Pay_HELD]) =
     bnd (transaction (capture_tx fx_env ''ref'' 7 (Some fx_check))) capture_after
       ((fx_world [fx_payment Pay_HELD])\<lparr>ps_log := [(PsResolve ''0241'' ''MTN'', True)]\<rparr>)"
    unfolding capture_payment_def by (rule run_bnd_Pair) (rule fx_precheck)
  also have "\<dots> = (Inr (), (fx_world [(fx_payment Pay_HELD)\<lparr>p_transferReference := Some (transfer_ref 7 1000),
        p_transferCode := Some ''TRF_1''\<rparr>])
      \<lparr>ps_log := [(PsResolve ''0241'' ''MTN'', True), (PsTransfer ''RCP'' 19000 (transfer_ref 7 1000), True)]\<rparr>)"
    by (simp add: capture_tx_def send_transfer_def run_simps fx_defs fx_finders fx_check_def Let_def
      capturable_def transfer_in_flight_def effective_outcome_def check_is_current_def put_payment_def save_row_def
      clear_payout_hold_def capture_after_def nothing_more_def)
  finally show ?thesis .
qed




text \<open>
  Cancelling a job's payment, on every branch. A \<open>HELD\<close> payment is refunded in full on the
  reference holding its money, or, when Paystack refuses, nothing changes and the caller gets a 503;
  a \<open>PENDING\<close> payment is cancelled without a call; any other payment, or none, is left alone.
\<close>

theorem cancel_payment_branches:
  "case payment_by_reference (w_db w) ref of
     None \<Rightarrow> cancel_payment env ref w = (Inr (), w)
   | Some p \<Rightarrow>
      cancel_payment env ref w =
       (if p_status p = Pay_HELD
        then (case pv_refund (e_pv env) (ps_log w) (money_reference p) (p_amount p) of
               None \<Rightarrow> (Inr (), w\<lparr>w_db := put_payment (p\<lparr>p_status := Pay_REFUNDED, p_refundedAmount := p_amount p\<rparr>) (w_db w),
                          ps_log := ps_log w @ [(PsRefund (money_reference p) (p_amount p), True)]\<rparr>)
             | Some e \<Rightarrow> (Inl (Unavailable Refund_refused),
                          w\<lparr>ps_log := ps_log w @ [(PsRefund (money_reference p) (p_amount p), False)]\<rparr>))
        else if p_status p = Pay_PENDING then (Inr (), w\<lparr>w_db := put_payment (p\<lparr>p_status := Pay_CANCELLED\<rparr>) (w_db w)\<rparr>)
        else (Inr (), w))"
  using cancel_payment_cases cancel_payment_unknown by (auto split: option.splits)

text \<open>
  Cancelling does not know of earlier partial refunds: it asks for the whole amount again. When
  Paystack accepts, the customer has been given back more than was paid, and the payment records
  only the amount.
\<close>

theorem cancel_after_partial_refund:
  assumes "payment_by_reference (w_db w) ref = Some p" and "p_status p = Pay_HELD"
    and "p_refundedAmount p = accepted_refunds (money_reference p) (ps_log w)" and "0 < p_refundedAmount p"
    and "pv_refund (e_pv env) (ps_log w) (money_reference p) (p_amount p) = None"
  shows "\<exists>w' q. cancel_payment env ref w = (Inr (), w') \<and> payment_by_reference (w_db w') ref = Some q
     \<and> p_refundedAmount q = p_amount p
     \<and> accepted_refunds (money_reference p) (ps_log w') = p_refundedAmount p + p_amount p
     \<and> p_amount p < accepted_refunds (money_reference p) (ps_log w')"
  using cancel_payment_cases(1) [OF assms(1,2,5)] assms
    payment_by_reference_put [OF assms(1), of "p\<lparr>p_status := Pay_REFUNDED, p_refundedAmount := p_amount p\<rparr>"]
    payment_by_reference_D [OF assms(1)]
  by simp

definition fx_part_refunded :: world where
  "fx_part_refunded = (fx_world [(fx_payment Pay_HELD)\<lparr>p_refundedAmount := 5000\<rparr>])\<lparr>ps_log := [(PsRefund ''ref'' 5000, True)]\<rparr>"

theorem cancel_after_partial_refund_witness:
  "accepted_refunds ''ref'' (ps_log (snd (cancel_payment fx_env ''ref'' fx_part_refunded))) = 25000"
proof -
  define p where "p = (fx_payment Pay_HELD)\<lparr>p_refundedAmount := 5000\<rparr>"
  have a: "money_reference p = ''ref''" "p_amount p = 20000" "p_refundedAmount p = 5000" "p_status p = Pay_HELD"
    by (simp_all add: p_def fx_defs money_reference_def)
  have "payment_by_reference (w_db fx_part_refunded) ''ref'' = Some p"
    by (simp add: fx_part_refunded_def p_def fx_defs fx_finders)
  moreover have "accepted_refunds ''ref'' (ps_log fx_part_refunded) = 5000"
    by (simp add: fx_part_refunded_def)
  moreover have "pv_refund (e_pv fx_env) (ps_log fx_part_refunded) ''ref'' 20000 = None" by (simp add: fx_defs)
  ultimately show ?thesis using cancel_after_partial_refund [of fx_part_refunded "''ref''" p fx_env] a by auto
qed

text \<open>
  Transfer webhooks can be delivered again: a repeated \<open>transfer.success\<close> leaves the payment
  released and tells nobody twice, and a repeated \<open>transfer.failed\<close> changes no table and tells
  nobody twice. Neither ever calls Paystack.
\<close>

theorem transfer_webhooks_redelivered:
  assumes "payment_by_transfer (w_db w) ref = Some p" and "ref \<noteq> []"
  shows "(\<exists>w1 w2 q. on_transfer_success ref w = (Inr (), w1) \<and> on_transfer_success ref w1 = (Inr (), w2)
           \<and> outbox w2 = outbox w1 \<and> payment_by_transfer (w_db w2) ref = Some q \<and> p_status q = Pay_RELEASED)
       \<and> (\<exists>w1 w2. on_transfer_failed ev (Some ref) why w = (Inr (), w1)
           \<and> on_transfer_failed ev' (Some ref) why' w1 = (Inr (), w2)
           \<and> outbox w2 = outbox w1 \<and> ps_log w2 = ps_log w
           \<and> payment_by_transfer (w_db w2) ref = Some (p\<lparr>p_status := Pay_TRANSFER_FAILED\<rparr>))"
proof -
  have ref: "p_transferReference p = Some ref" using assms(1) by (rule payment_by_transfer_D)
  define q where "q = p\<lparr>p_status := Pay_RELEASED, p_releasedAt := Some (clock w)\<rparr>"
  define w1 where "w1 = snd (on_transfer_success ref w)"
  have q1: "payment_by_transfer (w_db w1) ref = Some q"
    using transfer_success_run(2) [OF assms(1)] payment_by_transfer_put [OF assms(1)] ref
    by (simp add: q_def w1_def)
  then have "payment_by_transfer (w_db (snd (on_transfer_success ref w1))) ref
      = Some (q\<lparr>p_status := Pay_RELEASED, p_releasedAt := Some (clock w1)\<rparr>)"
    using transfer_success_run(2) [OF q1] payment_by_transfer_put [OF q1] ref by (simp add: q_def)
  then have ok: "\<exists>w1 w2 q. on_transfer_success ref w = (Inr (), w1) \<and> on_transfer_success ref w1 = (Inr (), w2)
           \<and> outbox w2 = outbox w1 \<and> payment_by_transfer (w_db w2) ref = Some q \<and> p_status q = Pay_RELEASED"
    using transfer_success_run(1) [OF assms(1)] transfer_success_run(1,3) [OF q1]
    by (intro exI [of _ w1] exI [of _ "snd (on_transfer_success ref w1)"]) (auto simp: q_def w1_def prod_eq_iff)
  define f where "f = p\<lparr>p_status := Pay_TRANSFER_FAILED\<rparr>"
  define v1 where "v1 = snd (on_transfer_failed ev (Some ref) why w)"
  have f1: "payment_by_transfer (w_db v1) ref = Some f"
    using transfer_failed_run(2) [OF assms] payment_by_transfer_put [OF assms(1)] ref
    by (simp add: f_def v1_def)
  then have "payment_by_transfer (w_db (snd (on_transfer_failed ev' (Some ref) why' v1))) ref = Some f"
    using transfer_failed_run(2) [OF f1 assms(2)] payment_by_transfer_put [OF f1] ref by (simp add: f_def)
  then have "\<exists>w1 w2. on_transfer_failed ev (Some ref) why w = (Inr (), w1)
           \<and> on_transfer_failed ev' (Some ref) why' w1 = (Inr (), w2)
           \<and> outbox w2 = outbox w1 \<and> ps_log w2 = ps_log w
           \<and> payment_by_transfer (w_db w2) ref = Some f"
    using transfer_failed_run(1,4) [OF assms] transfer_failed_run(1,3,4) [OF f1 assms(2)]
    by (intro exI [of _ v1] exI [of _ "snd (on_transfer_failed ev' (Some ref) why' v1)"])
       (auto simp: f_def v1_def prod_eq_iff)
  with ok show ?thesis by (simp add: f_def)
qed

definition fx_in_flight :: payment where
  "fx_in_flight = (fx_payment Pay_HELD)\<lparr>p_transferReference := Some ''tr'', p_transferCode := Some ''TRF_1''\<rparr>"

theorem transfer_webhooks_redelivered_witness:
  "\<exists>w1 w2. on_transfer_success ''tr'' (fx_world [fx_in_flight]) = (Inr (), w1)
     \<and> on_transfer_success ''tr'' w1 = (Inr (), w2) \<and> outbox w2 = outbox w1"
proof -
  have "payment_by_transfer (w_db (fx_world [fx_in_flight])) ''tr'' = Some fx_in_flight"
    by (simp add: fx_in_flight_def fx_defs fx_finders)
  from transfer_webhooks_redelivered [OF this] show ?thesis by blast
qed

text \<open>
  A refund does not stop a payout that is already on its way. An admin can refund in full a
  payment whose transfer is in flight; when that transfer then fails, the payment becomes
  \<open>TRANSFER_FAILED\<close> again, so the artisan's share can be sent once more although the customer has
  all the money back.
\<close>

theorem refunded_payment_becomes_capturable:
  assumes "find_payment (w_db w) pid = Some p" and "payment_by_transfer (w_db w) tref = Some p" and "tref \<noteq> []"
    and "transfer_in_flight p" and "p_refundedAmount p < p_amount p"
    and "pv_refund (e_pv env) (ps_log w) (money_reference p) (p_amount p - p_refundedAmount p) = None"
  shows "\<exists>w1 w2 q. admin_refund env pid None actor w = (Inr (), w1)
     \<and> on_transfer_failed ev (Some tref) why w1 = (Inr (), w2)
     \<and> find_payment (w_db w2) pid = Some q \<and> p_refundedAmount q = p_amount p
     \<and> capturable (p_status q) \<and> \<not> transfer_in_flight q \<and> p_artisanAmount q = p_artisanAmount p"
proof -
  define q where "q = p\<lparr>p_refundedAmount := p_amount p, p_status := Pay_REFUNDED\<rparr>"
  obtain r0 w0 where tx: "admin_refund_tx env pid None w = (r0, w0)" by fastforce
  have held: "p_status p = Pay_HELD" using assms(4) by (simp add: transfer_in_flight_def)
  have r0: "r0 = Inr (q, p_amount p - p_refundedAmount p, True)" and w0: "w_db w0 = put_payment q (w_db w)"
    using tx assms held
    by (auto simp: admin_refund_tx_def run_simps Let_def cedis_diff cedis_add q_def)
  obtain r1 w1 where ar: "admin_refund env pid None actor w = (r1, w1)" by fastforce
  then have r1: "r1 = Inr ()" and pay: "t_payments (w_db w1) = t_payments (w_db w0)"
    using tx r0
    by (auto simp: admin_refund_def run_simps run_emitters frame_simps record_audit_def split: option.splits)
  have id: "p_id p = pid" and tr: "p_transferReference p = Some tref"
    using find_payment_id [OF assms(1)] payment_by_transfer_D [OF assms(2)] by auto
  have q1: "payment_by_transfer (w_db w1) tref = Some q"
    using payment_by_transfer_put [OF assms(2), of q] tr pay w0 by (simp add: q_def payment_by_transfer_def)
  obtain w2 where fail: "on_transfer_failed ev (Some tref) why w1 = (Inr (), w2)"
      and db2: "w_db w2 = put_payment (q\<lparr>p_status := Pay_TRANSFER_FAILED\<rparr>) (w_db w1)"
    using transfer_failed_run(1,2) [OF q1 assms(3), of ev why] by (metis prod.collapse)
  have "find_payment (w_db w2) pid = Some (q\<lparr>p_status := Pay_TRANSFER_FAILED\<rparr>)"
    using db2 payments.lookup_save_same [of "q\<lparr>p_status := Pay_TRANSFER_FAILED\<rparr>" "w_db w1"] id by (simp add: q_def)
  with ar r1 fail show ?thesis
    by (auto simp: q_def capturable_def transfer_in_flight_def)
qed

theorem refunded_payment_becomes_capturable_witness:
  "\<exists>w1 w2 q. admin_refund fx_env 9 None None (fx_world [fx_in_flight]) = (Inr (), w1)
     \<and> on_transfer_failed ''transfer.failed'' (Some ''tr'') None w1 = (Inr (), w2)
     \<and> find_payment (w_db w2) 9 = Some q \<and> p_refundedAmount q = 20000 \<and> capturable (p_status q)"
proof -
  have a: "find_payment (w_db (fx_world [fx_in_flight])) 9 = Some fx_in_flight"
    "payment_by_transfer (w_db (fx_world [fx_in_flight])) ''tr'' = Some fx_in_flight"
    "transfer_in_flight fx_in_flight" "p_refundedAmount fx_in_flight < p_amount fx_in_flight"
    "pv_refund (e_pv fx_env) (ps_log (fx_world [fx_in_flight])) (money_reference fx_in_flight)
        (p_amount fx_in_flight - p_refundedAmount fx_in_flight) = None" "p_amount fx_in_flight = 20000"
    by (simp_all add: fx_in_flight_def fx_defs fx_finders transfer_in_flight_def)
  from refunded_payment_becomes_capturable [OF a(1,2) _ a(3,4,5), of None "''transfer.failed''" None] a(6)
  show ?thesis by auto
qed

end
