(* ===== verification/MoneyFlow.thy ===== *)
theory MoneyFlow
  imports ChargeSuccess PaymentSafety
begin

text \<open>
  What the payment attempts, the money path and the duplicate refunds promise: one active attempt per
  payment, a payment held once however often its charge is reported, no release without an answer
  from Paystack, and a duplicate that is refunded while the reference holding the money never is.
\<close>

section \<open>The attempts invariant\<close>

definition one_active :: "charge list \<Rightarrow> bool" where
  "one_active cs \<longleftrightarrow> (\<forall>c \<in> set cs. \<forall>x \<in> set cs. is_active (c_status c) \<and> is_active (c_status x)
     \<and> c_paymentId c = c_paymentId x \<longrightarrow> c_id c = c_id x)"

definition charges_ok :: "db \<Rightarrow> bool" where
  "charges_ok d \<longleftrightarrow> wf_charges d \<and> distinct (map c_reference (t_charges d)) \<and> one_active (t_charges d)"

definition charge_inv :: "world \<Rightarrow> bool" where
  "charge_inv w \<longleftrightarrow> charges_ok (w_db w)"

interpretation ci: db_invariant charge_inv
  by unfold_locales (simp add: charge_inv_def)

definition only_closes :: "(charge \<Rightarrow> charge) \<Rightarrow> bool" where
  "only_closes f \<longleftrightarrow> (\<forall>c. c_id (f c) = c_id c \<and> c_reference (f c) = c_reference c
     \<and> c_paymentId (f c) = c_paymentId c)"

lemma charges_ok_update:
  assumes "charges_ok d" and "only_closes f" and "\<And>c. q c \<Longrightarrow> is_active (c_status (f c)) \<Longrightarrow> is_active (c_status c)"
  shows "charges_ok (update_charges q f d)"
proof -
  have keys: "map c_id (update_where q f cs) = map c_id cs" "map c_reference (update_where q f cs) = map c_reference cs" for cs
    using assms(2) by (simp_all add: only_closes_def update_where_keys)
  have "one_active (update_where q f (t_charges d))"
    unfolding one_active_def
  proof (intro ballI impI)
    fix c x assume c: "c \<in> set (update_where q f (t_charges d))" and x: "x \<in> set (update_where q f (t_charges d))"
      and act: "is_active (c_status c) \<and> is_active (c_status x) \<and> c_paymentId c = c_paymentId x"
    obtain a b where ab: "a \<in> set (t_charges d)" "c = (if q a then f a else a)" "b \<in> set (t_charges d)" "x = (if q b then f b else b)"
      using c x by (auto simp: in_update_where)
    have "c_id c = c_id a" "c_id x = c_id b" "c_paymentId c = c_paymentId a" "c_paymentId x = c_paymentId b"
      "is_active (c_status a)" "is_active (c_status b)"
      using ab(2,4) assms(2,3) act by (auto simp: only_closes_def split: if_splits)
    with assms(1) ab(1,3) act show "c_id c = c_id x" unfolding charges_ok_def one_active_def by metis
  qed
  then show ?thesis
    using assms(1) by (simp add: charges_ok_def wf_charges_def update_charges_def keys)
qed

lemma keeps_update_charges:
  assumes "only_closes f" and "\<And>c. q c \<Longrightarrow> is_active (c_status (f c)) \<Longrightarrow> is_active (c_status c)"
  shows "keeps charge_inv (with_db (update_charges q f))"
  by (rule ci.keeps_with_db) (use assms charges_ok_update in \<open>auto simp: charge_inv_def\<close>)

lemma keeps_other_table:
  "(\<And>d. t_charges (f d) = t_charges d) \<Longrightarrow> keeps charge_inv (with_db f)"
  by (rule ci.keeps_with_db) (simp add: charge_inv_def charges_ok_def wf_charges_def)

lemma keeps_update_charge:
  "only_closes f \<Longrightarrow> (\<And>c. is_active (c_status (f c)) \<Longrightarrow> is_active (c_status c)) \<Longrightarrow> keeps charge_inv (update_charge k f)"
  unfolding update_charge_def by (rule keeps_update_charges)

lemma keeps_insert_charge: "keeps charge_inv (insert_charge mk)"
proof -
  have "charges_ok (put_charge c d)"
    if "charges_ok d" "\<forall>x \<in> set (t_charges d). c_reference x \<noteq> c_reference c"
      "is_active (c_status c) \<longrightarrow> (\<forall>x \<in> set (t_charges d). is_active (c_status x) \<longrightarrow> c_paymentId x \<noteq> c_paymentId c)" for c d
  proof -
    have dist: "distinct (map c_id (t_charges d))" using that(1) by (simp add: charges_ok_def wf_charges_def)
    have "distinct (map c_reference (save_row c_id c (t_charges d)))"
    proof (cases "\<exists>x \<in> set (t_charges d). c_id x = c_id c")
      case True
      then obtain x pre post where x: "t_charges d = pre @ x # post" "c_id x = c_id c" by (metis split_list)
      have "map (\<lambda>y. if c_id y = c_id c then c else y) (t_charges d) = pre @ c # post"
        using dist x by (auto intro!: map_idI) (metis image_eqI)+
      with True x that(1,2) show ?thesis by (auto simp: save_row_def charges_ok_def)
    next
      case False
      with that(1,2) show ?thesis by (auto simp: save_row_def charges_ok_def)
    qed
    moreover have "one_active (save_row c_id c (t_charges d))"
      unfolding one_active_def set_save_row [OF dist]
    proof (intro ballI impI)
      fix a b assume a: "a \<in> insert c {x \<in> set (t_charges d). c_id x \<noteq> c_id c}"
        and b: "b \<in> insert c {x \<in> set (t_charges d). c_id x \<noteq> c_id c}"
        and act: "is_active (c_status a) \<and> is_active (c_status b) \<and> c_paymentId a = c_paymentId b"
      from a b consider "a = c" "b = c" | "a = c" "b \<in> set (t_charges d)" | "b = c" "a \<in> set (t_charges d)"
        | "a \<in> set (t_charges d)" "b \<in> set (t_charges d)" by auto
      then show "c_id a = c_id b"
        using act that(1,3) unfolding charges_ok_def one_active_def by cases metis+
    qed
    ultimately show ?thesis
      using save_row_distinct [OF dist] by (simp add: charges_ok_def wf_charges_def put_charge_def)
  qed
  then show ?thesis
    by (auto simp: keeps_def insert_charge_def run_simps Let_def charge_inv_def)
qed

lemma active_closed [simp]:
  "\<not> is_active Ch_succeeded" "\<not> is_active Ch_failed" "\<not> is_active Ch_expired"
  "\<not> is_active Ch_cancelled" "\<not> is_active Ch_duplicate"
  "is_active Ch_pending" "is_active Ch_needs_otp" "is_active Ch_hosted_open"
  by (simp_all add: is_active_def)

lemmas ci_rules = ci.keeps_rules keeps_insert_charge keeps_update_charge keeps_update_charges

lemma keeps_put_payment: "keeps charge_inv (with_db (put_payment p))"
  by (rule keeps_other_table) (simp add: put_payment_def)

lemma keeps_update_payments: "keeps charge_inv (with_db (update_payments q f))"
  by (rule keeps_other_table) (simp add: update_payments_def)

lemma keeps_update_methods: "keeps charge_inv (with_db (update_methods q f))"
  by (rule keeps_other_table) (simp add: update_methods_def)

lemma keeps_insert_method: "keeps charge_inv (with_db (insert_method r))"
  by (rule keeps_other_table) (simp add: insert_method_def)

lemma keeps_record_security: "keeps charge_inv (record_security u k c)"
  unfolding record_security_def by (rule keeps_other_table) simp

lemmas ci_tables = keeps_put_payment keeps_update_payments keeps_update_methods keeps_insert_method keeps_record_security

lemma ci_emitters:
  "keeps charge_inv (emit_payment_held p)" "keeps charge_inv (emit_payout_released p)"
  "keeps charge_inv (emit_transfer_failed p y)" "keeps charge_inv (notify_customer c p)"
  "keeps charge_inv (alert_admins c p t)"
  unfolding emitter_defs notify_customer_def alert_admins_def by (intro ci_rules)+

lemma ci_save_card: "keeps charge_inv (save_card env u az)"
  unfolding save_card_def lock_owner_def by (intro ci_rules ci_tables)

lemma ci_process_refund: "keeps charge_inv (process_refund env k)"
  unfolding process_refund_def claim_refund_def finish_refund_def on_call_failed_def
  by (intro ci_rules ci_emitters; simp add: only_closes_def in_processing_def split: if_splits)

lemma keeps_applied:
  "(\<And>p c. keeps I (f p c)) \<Longrightarrow> (\<And>p c. keeps I (g p c)) \<Longrightarrow>
   keeps I (case x of Held_now p c \<Rightarrow> f p c | Duplicate_now p c \<Rightarrow> g p c)"
  by (cases x) simp_all

lemma keeps_claim:
  "(\<And>p c. keeps I (f p c)) \<Longrightarrow> (\<And>p c. keeps I (g p c)) \<Longrightarrow>
   keeps I (case x of Created p c \<Rightarrow> f p c | Existing p c \<Rightarrow> g p c)"
  by (cases x) simp_all

lemma keeps_try_claim:
  "(\<And>r. keeps I (f r)) \<Longrightarrow> (\<And>p c. keeps I (g p c)) \<Longrightarrow> keeps I m \<Longrightarrow>
   keeps I (case x of Claimed r \<Rightarrow> f r | Stale p c \<Rightarrow> g p c | Raced \<Rightarrow> m)"
  by (cases x) simp_all

lemma keeps_verify:
  "(\<And>r. keeps I (f r)) \<Longrightarrow> keeps I m \<Longrightarrow> keeps I n \<Longrightarrow>
   keeps I (case x of Verified r \<Rightarrow> f r | Verify_refused \<Rightarrow> m | Verify_unreachable \<Rightarrow> n)"
  by (cases x) simp_all

lemma keeps_webhook:
  "(\<And>d. keeps I (f d)) \<Longrightarrow> (\<And>r. keeps I (g r)) \<Longrightarrow> (\<And>n r y. keeps I (h n r y)) \<Longrightarrow>
   (\<And>n r y. keeps I (k n r y)) \<Longrightarrow> keeps I m \<Longrightarrow>
   keeps I (case x of Charge_success d \<Rightarrow> f d | Transfer_success r \<Rightarrow> g r | Transfer_failed n r y \<Rightarrow> h n r y
     | Refund_event n r y \<Rightarrow> k n r y | Unknown_event \<Rightarrow> m)"
  by (cases x) simp_all

lemmas keeps_cases = keeps_applied keeps_claim keeps_try_claim keeps_verify keeps_webhook

lemma ci_apply: "keeps charge_inv (apply_charge_success env k data)"
  unfolding apply_charge_success_def settle_tx_def save_card_best_effort_def mark_succeeded_def mark_duplicate_def
  by (intro ci_rules ci_tables ci_emitters ci_save_card ci_process_refund keeps_cases; simp add: only_closes_def)

lemma ci_refund_webhook: "keeps charge_inv (on_refund_webhook ev ref rid)"
  unfolding on_refund_webhook_def refund_accepted_def
  by (intro ci_rules ci_emitters; simp add: only_closes_def)

lemma ci_reconcile:
  assumes "\<And>k data. keeps charge_inv (settle k data)"
  shows "keeps charge_inv (reconcile env settle c force)"
  unfolding reconcile_def judge_remote_def release_def
  by (intro ci_rules keeps_cases assms; simp add: only_closes_def split: if_splits)

lemma ci_claim_rounds:
  assumes "\<And>k data. keeps charge_inv (settle k data)"
  shows "keeps charge_inv (claim_rounds n env settle uid jid spec msg hex)"
proof (induction n)
  case 0
  show ?case by (simp add: ci.keeps_throw)
next
  case (Suc n)
  show ?case
    unfolding claim_rounds.simps try_claim_def claim_tx_def lock_payable_def
    by (intro ci_rules keeps_cases ci_reconcile [OF assms] Suc)
qed

lemma ci_claim: "keeps charge_inv (claim env (apply_charge_success env) uid jid spec msg hex)"
  unfolding claim_def by (rule ci_claim_rounds) (rule ci_apply)

lemma ci_link: "keeps charge_inv (link_payment_reference p)"
  unfolding link_payment_reference_def by (intro ci_rules)

lemma ci_webhook: "keeps charge_inv (process_webhook env signed ev)"
  unfolding process_webhook_def on_charge_success_def on_transfer_success_def on_transfer_failed_def
  by (intro ci_rules ci_tables ci_emitters ci_link ci_apply ci_refund_webhook keeps_cases)

lemma ci_verify: "keeps charge_inv (verify_payment env uid ref)"
  unfolding verify_payment_def by (intro ci_rules keeps_cases ci_link ci_apply)

lemma ci_apply_reply: "keeps charge_inv (apply_reply env c jid reply otp)"
  unfolding apply_reply_def
  by (intro ci_rules; simp add: only_closes_def still_active_def)

lemma ci_charge_saved: "keeps charge_inv (charge_saved env uid jid mid hex)"
  unfolding charge_saved_def get_chargeable_def
  by (intro ci_rules keeps_cases ci_claim ci_apply_reply)

lemma ci_submit_otp: "keeps charge_inv (submit_otp env uid ref otp)"
  unfolding submit_otp_def owned_charge_def by (intro ci_rules ci_apply_reply)

lemma ci_charge_status: "keeps charge_inv (charge_status_of env uid ref)"
  unfolding charge_status_of_def owned_charge_def by (intro ci_rules ci_reconcile ci_apply)

lemma ci_job_state: "keeps charge_inv (job_state env (apply_charge_success env) uid jid)"
  unfolding job_state_def by (intro ci_rules ci_reconcile ci_apply)

lemma ci_cancel_deletion: "keeps charge_inv (cancel_for_account_deletion uid)"
  unfolding cancel_for_account_deletion_def by (intro ci_rules ci_tables; simp add: only_closes_def)

lemma ci_retry_refunds: "keeps charge_inv (retry_due_refunds env)"
proof -
  have "keeps charge_inv (process_each env ks)" for ks
    by (induction ks) (simp_all add: ci.keeps_ret, intro ci_rules ci_process_refund)
  then show ?thesis unfolding retry_due_refunds_def by (intro ci_rules)
qed

lemma ci_wait:
  assumes "keeps charge_inv sleep"
  shows "keeps charge_inv (wait_for_session n sleep c)"
proof (induction n arbitrary: c)
  case 0
  show ?case by (simp add: ci.keeps_ret)
next
  case (Suc n)
  show ?case unfolding wait_for_session.simps by (intro ci_rules assms Suc)
qed

lemma ci_initialize:
  assumes "keeps charge_inv sleep"
  shows "keeps charge_inv (initialize_payment env sleep uid jid want hex)"
  unfolding initialize_payment_def open_session_def
  by (intro ci_rules ci_tables ci_claim ci_wait assms; simp add: only_closes_def)

section \<open>Steps\<close>

text \<open>
  The handlers that touch an attempt, run one after the other in any order with any arguments, and
  any step of the rest of the system, which leaves the attempts alone. What happens while an
  initialise waits for another is any handler that keeps the invariant.
\<close>

inductive attempt_step :: "env \<Rightarrow> world \<Rightarrow> world \<Rightarrow> bool" for env where
  webhook: "attempt_step env w (snd (process_webhook env signed ev w))"
| verify: "attempt_step env w (snd (verify_payment env uid ref w))"
| initialize: "keeps charge_inv sleep \<Longrightarrow> attempt_step env w (snd (initialize_payment env sleep uid jid want hex w))"
| charge_saved: "attempt_step env w (snd (charge_saved env uid jid mid hex w))"
| submit_otp: "attempt_step env w (snd (submit_otp env uid ref otp w))"
| status: "attempt_step env w (snd (charge_status_of env uid ref w))"
| job_state: "attempt_step env w (snd (job_state env (apply_charge_success env) uid jid w))"
| refunds: "attempt_step env w (snd (retry_due_refunds env w))"
| deletion: "attempt_step env w (snd (cancel_for_account_deletion uid w))"
| other: "t_charges (w_db w') = t_charges (w_db w) \<Longrightarrow> attempt_step env w w'"

lemma keepsD: "keeps I m \<Longrightarrow> I w \<Longrightarrow> I (snd (m w))"
  by (simp add: keeps_def)

lemma attempt_step_keeps: "attempt_step env w w' \<Longrightarrow> charge_inv w \<Longrightarrow> charge_inv w'"
  by (induction rule: attempt_step.induct)
     (blast intro: keepsD [OF ci_webhook] keepsD [OF ci_verify] keepsD [OF ci_initialize] keepsD [OF ci_charge_saved]
        keepsD [OF ci_submit_otp] keepsD [OF ci_charge_status] keepsD [OF ci_job_state] keepsD [OF ci_retry_refunds]
        keepsD [OF ci_cancel_deletion]
      | simp add: charge_inv_def charges_ok_def wf_charges_def)+

section \<open>What a success does\<close>

lemma update_charge_run [run_simps]:
  "update_charge k f w = (Inr (), w\<lparr>w_db := update_charges (\<lambda>x. c_id x = k) f (w_db w)\<rparr>)"
  "andthen (update_charge k f) m w = m (w\<lparr>w_db := update_charges (\<lambda>x. c_id x = k) f (w_db w)\<rparr>)"
  by (simp_all add: update_charge_def run_simps)

lemma find_charge_update:
  "(\<And>c. c_id (f c) = c_id c) \<Longrightarrow>
   find_charge (update_charges q f d) k = map_option (\<lambda>c. if q c then f c else c) (find_charge d k)"
  by (simp add: find_charge_def update_charges_def find_row_update_where)

lemma find_charge_id: "find_charge d k = Some c \<Longrightarrow> c_id c = k"
  by (rule charges.lookup_key)

lemma update_charges_frame [simp]:
  "t_payments (update_charges q f d) = t_payments d" "find_payment (update_charges q f d) k = find_payment d k"
  "t_jobs (update_charges q f d) = t_jobs d" "find_job (update_charges q f d) k = find_job d k"
  by (simp_all add: update_charges_def find_payment_def find_job_def)

lemma put_payment_frame [simp]:
  "t_charges (put_payment p d) = t_charges d" "find_charge (put_payment p d) k = find_charge d k"
  by (simp_all add: put_payment_def find_charge_def)

lemma save_card_frame [frame_simps]:
  "t_payments (w_db (snd (save_card env u az w))) = t_payments (w_db w)"
  "t_charges (w_db (snd (save_card env u az w))) = t_charges (w_db w)"
  "outbox (snd (save_card env u az w)) = outbox w" "ps_log (snd (save_card env u az w)) = ps_log w"
  by (auto simp: save_card_def lock_owner_def run_simps Let_def insert_method_def record_security_def split: option.splits)

lemma settle_tx_first:
  assumes "find_charge (w_db w) cid = Some c" and "find_payment (w_db w) (c_paymentId c) = Some p"
    and "c_status c \<notin> {Ch_succeeded, Ch_duplicate}" and "amount_matches data p"
  defines "ch \<equiv> success_channel data c"
  shows "p_status p = Pay_PENDING \<Longrightarrow> settle_tx cid data w =
      (let q = p\<lparr>p_status := Pay_HELD, p_channel := (case ch of Some x \<Rightarrow> Some x | None \<Rightarrow> p_channel p),
                 p_paidAt := (case cd_paidAt data of Some t \<Rightarrow> Some t | None \<Rightarrow> Some (clock w)),
                 p_paidReference := Some (c_reference c)\<rparr>
       in (Inr (Some (Held_now q c)), w\<lparr>w_db := update_charges (\<lambda>x. c_id x = cid)
            (\<lambda>x. x\<lparr>c_status := Ch_succeeded, c_action := None, c_message := None, c_channel := ch\<rparr>)
            (put_payment q (w_db w))\<rparr>))"
    and "p_status p \<noteq> Pay_PENDING \<Longrightarrow> \<not> holds_money p (c_reference c) \<Longrightarrow> settle_tx cid data w =
      (Inr (Some (Duplicate_now p c)), w\<lparr>w_db := update_charges (\<lambda>x. c_id x = cid)
         (\<lambda>x. x\<lparr>c_status := Ch_duplicate, c_action := None, c_message := Some MSG_DUPLICATE, c_channel := ch,
               c_refundStatus := Some Rf_pending, c_refundAmount := Some (to_fixed2 (cedis (the (cd_amount data)))),
               c_refundNextAt := Some (clock w)\<rparr>) (w_db w)\<rparr>)"
  using assms(1-4) find_charge_id [OF assms(1)] unfolding ch_def
  by (simp_all add: settle_tx_def run_simps Let_def mark_succeeded_def mark_duplicate_def)

lemma settle_tx_again:
  assumes "find_charge (w_db w) cid = Some c" and "c_status c \<in> {Ch_succeeded, Ch_duplicate}"
  shows "settle_tx cid data w = (Inr None, w)"
  using assms by (auto simp: settle_tx_def run_simps split: option.splits)

lemma apply_again:
  assumes "find_charge (w_db w) cid = Some c" and "c_status c \<in> {Ch_succeeded, Ch_duplicate}"
  shows "apply_charge_success env cid data w = (Inr (), w)"
  using settle_tx_again [OF assms] by (simp add: apply_charge_success_def run_simps)

definition receipts :: "event list \<Rightarrow> event list" where
  "receipts es = filter (\<lambda>e. case e of PAYMENT_RECEIPT _ _ _ _ _ \<Rightarrow> True | _ \<Rightarrow> False) es"

lemma receipts_append [simp]: "receipts (xs @ ys) = receipts xs @ receipts ys"
  by (simp add: receipts_def)

lemma emit_held_receipt:
  "receipts (outbox (snd (emit_payment_held p w))) = receipts (outbox w) @
     [PAYMENT_RECEIPT (p_customerId p) (p_jobId p) (pc_jobTitle (resolve_payment_context (w_db w) p)) (p_amount p) (p_reference p)]"
  by (simp add: emit_payment_held_def run_simps receipts_def)

lemma apply_first_held:
  assumes "find_charge (w_db w) cid = Some c" and "find_payment (w_db w) (c_paymentId c) = Some p"
    and "c_status c \<notin> {Ch_succeeded, Ch_duplicate}" and "amount_matches data p" and "p_status p = Pay_PENDING"
    and "apply_charge_success env cid data w = (r, w')"
  shows "r = Inr ()"
    and "\<exists>q. find_payment (w_db w') (p_id p) = Some q \<and> p_status q = Pay_HELD \<and> p_paidReference q = Some (c_reference c)
      \<and> p_amount q = p_amount p \<and> p_reference q = p_reference p"
    and "\<exists>x. find_charge (w_db w') cid = Some x \<and> c_status x = Ch_succeeded \<and> c_reference x = c_reference c"
    and "ps_log w' = ps_log w" and "length (receipts (outbox w')) = Suc (length (receipts (outbox w)))"
proof -
  define ch where "ch = success_channel data c"
  define q where "q = p\<lparr>p_status := Pay_HELD, p_channel := (case ch of Some x \<Rightarrow> Some x | None \<Rightarrow> p_channel p),
                 p_paidAt := (case cd_paidAt data of Some t \<Rightarrow> Some t | None \<Rightarrow> Some (clock w)),
                 p_paidReference := Some (c_reference c)\<rparr>"
  define w1 where "w1 = w\<lparr>w_db := update_charges (\<lambda>x. c_id x = cid)
            (\<lambda>x. x\<lparr>c_status := Ch_succeeded, c_action := None, c_message := None, c_channel := ch\<rparr>)
            (put_payment q (w_db w))\<rparr>"
  define w2 where "w2 = snd (emit_payment_held q w1)"
  have tx: "settle_tx cid data w = (Inr (Some (Held_now q c)), w1)"
    using settle_tx_first(1) [OF assms(1-5)] by (simp add: Let_def w1_def q_def ch_def)
  have run: "apply_charge_success env cid data w =
      only_if (c_methodType c = M_hosted \<and> p_saveCardRequested q) (save_card_best_effort env q (cd_authorization data)) w2"
    using tx by (simp add: apply_charge_success_def run_simps run_emitters w2_def)
  have r: "r = Inr ()" and same: "t_payments (w_db w') = t_payments (w_db w2)" "t_charges (w_db w') = t_charges (w_db w2)"
      "ps_log w' = ps_log w2" "outbox w' = outbox w2"
    using assms(6) run
    by (auto simp: run_simps save_card_best_effort_def frame_simps split: if_splits prod.splits dest!: arg_cong [of _ _ snd])
       (metis frame_simps snd_conv)+
  show "r = Inr ()" by (rule r)
  show "ps_log w' = ps_log w" using same by (simp add: w2_def frame_simps w1_def)
  show "length (receipts (outbox w')) = Suc (length (receipts (outbox w)))"
    using same by (simp add: w2_def emit_held_receipt w1_def)
  have pid: "p_id q = p_id p" by (simp add: q_def)
  have "find_payment (w_db w') (p_id p) = find_payment (put_payment q (w_db w)) (p_id p)"
    using same by (simp add: find_payment_def w2_def frame_simps w1_def update_charges_def)
  then show "\<exists>q. find_payment (w_db w') (p_id p) = Some q \<and> p_status q = Pay_HELD \<and> p_paidReference q = Some (c_reference c)
      \<and> p_amount q = p_amount p \<and> p_reference q = p_reference p"
    using payments.lookup_save_same [of q "w_db w"] pid by (simp add: q_def)
  have "find_charge (w_db w') cid = find_charge (w_db w1) cid"
    using same by (simp add: find_charge_def w2_def frame_simps)
  then show "\<exists>x. find_charge (w_db w') cid = Some x \<and> c_status x = Ch_succeeded \<and> c_reference x = c_reference c"
    using assms(1) find_charge_id [OF assms(1)] by (simp add: w1_def find_charge_update)
qed

section \<open>What a refund does\<close>

lemma claim_refund_cases:
  assumes "claim_refund cid w = (r, w')"
  obtains "r = Inr None" and "ps_log w' = ps_log w" and "t_payments (w_db w') = t_payments (w_db w)" and "outbox w' = outbox w"
  | c p where "r = Inr (Some (c\<lparr>c_refundAttempts := c_refundAttempts c + 1\<rparr>, p))"
      and "find_charge (w_db w) cid = Some c" and "find_payment (w_db w) (c_paymentId c) = Some p"
      and "refund_due c (clock w)" and "\<not> holds_money p (c_reference c)"
      and "w' = w\<lparr>w_db := update_charges (\<lambda>x. c_id x = cid) (\<lambda>x. x\<lparr>c_refundStatus := Some Rf_processing,
              c_refundAttempts := c_refundAttempts c + 1, c_refundNextAt := Some (clock w + REFUND_LEASE_MS)\<rparr>) (w_db w)\<rparr>"
proof (cases "find_charge (w_db w) cid")
  case None
  with assms have "r = Inr None" "w' = w" by (auto simp: claim_refund_def run_simps)
  then show ?thesis by (intro that(1)) simp_all
next
  case (Some c)
  note c = Some
  show ?thesis
  proof (cases "refund_due c (clock w) \<and> find_payment (w_db w) (c_paymentId c) \<noteq> None
      \<and> \<not> holds_money (the (find_payment (w_db w) (c_paymentId c))) (c_reference c)")
    case False
    have "r = Inr None \<and> ps_log w' = ps_log w \<and> t_payments (w_db w') = t_payments (w_db w) \<and> outbox w' = outbox w"
      using assms c False
      by (cases "find_payment (w_db w) (c_paymentId c)")
         (auto simp: claim_refund_def run_simps update_charges_def split: if_splits)
    then show ?thesis by (intro that(1)) simp_all
  next
    case True
    then obtain p where p: "find_payment (w_db w) (c_paymentId c) = Some p" by auto
    with True assms c show ?thesis by (intro that(2) [of c p]) (simp_all add: claim_refund_def run_simps Let_def)
  qed
qed

lemma finish_refund_frame [frame_simps]:
  "ps_log (snd (finish_refund c p rid b w)) = ps_log w"
  "t_payments (w_db (snd (finish_refund c p rid b w))) = t_payments (w_db w)"
  by (auto simp: finish_refund_def run_simps notify_customer_def update_charges_def)

lemma on_call_failed_frame [frame_simps]:
  "ps_log (snd (on_call_failed c p t w)) = ps_log w"
  "t_payments (w_db (snd (on_call_failed c p t w))) = t_payments (w_db w)"
  by (auto simp: on_call_failed_def run_simps Let_def alert_admins_def update_charges_def)

lemma process_refund_run:
  assumes "claim_refund cid w = (Inr (Some (k, p)), w1)"
  shows "process_refund env cid w = (case pv_refund_all (e_pv env) (ps_log w1) (c_reference k) of
        Inr (rid, b) \<Rightarrow> finish_refund k p rid b (w1\<lparr>ps_log := ps_log w1 @ [(PsRefundAll (c_reference k), True)]\<rparr>)
      | Inl e \<Rightarrow> (if already_refunded e then finish_refund k p (c_refundId k) False
                  else on_call_failed k p e) (w1\<lparr>ps_log := ps_log w1 @ [(PsRefundAll (c_reference k), False)]\<rparr>))"
  using assms
  by (auto simp: process_refund_def run_bnd_Pair run_simps Let_def error_text_def split: sum.splits)

lemma process_refund_log:
  assumes "process_refund env cid w = (r, w')"
  shows "t_payments (w_db w') = t_payments (w_db w) \<and> (ps_log w' = ps_log w \<or>
    (\<exists>c p ok. find_charge (w_db w) cid = Some c \<and> find_payment (w_db w) (c_paymentId c) = Some p
       \<and> refund_due c (clock w) \<and> \<not> holds_money p (c_reference c)
       \<and> ps_log w' = ps_log w @ [(PsRefundAll (c_reference c), ok)]))"
proof -
  obtain cl w1 where cl: "claim_refund cid w = (cl, w1)" by fastforce
  then show ?thesis
  proof (cases rule: claim_refund_cases)
    case 1
    with assms cl show ?thesis by (simp add: process_refund_def run_bnd_Pair run_simps)
  next
    case (2 c p)
    define k where "k = c\<lparr>c_refundAttempts := c_refundAttempts c + 1\<rparr>"
    have ref: "c_reference k = c_reference c" by (simp add: k_def)
    have pays: "t_payments (w_db w1) = t_payments (w_db w)" "ps_log w1 = ps_log w" using 2 by (simp_all add: update_charges_def)
    note run = process_refund_run [OF cl [unfolded 2(1), folded k_def], of env]
    have "\<exists>ok. ps_log w' = ps_log w1 @ [(PsRefundAll (c_reference c), ok)]" "t_payments (w_db w') = t_payments (w_db w1)"
      using run assms ref frame_simps
      by (auto split: sum.splits prod.splits if_splits dest!: arg_cong [of _ _ snd] simp: frame_simps)
    with 2 pays show ?thesis by auto
  qed
qed

text \<open>The refund of one due duplicate, in full.\<close>

definition refund_step :: "env \<Rightarrow> charge \<Rightarrow> world \<Rightarrow> refund_run \<times> refund_status \<times> int option \<times> bool" where
  "refund_step env c w =
     (let n = Suc (c_refundAttempts c) in
      case pv_refund_all (e_pv env) (ps_log w) (c_reference c) of
        Inr (rid, done) \<Rightarrow> (Run_requested, if done then Rf_processed else Rf_requested, None, True)
      | Inl e \<Rightarrow>
          if already_refunded e then (Run_requested, Rf_requested, None, False)
          else if REFUND_MAX_ATTEMPTS \<le> n then (Run_gave_up, Rf_failed, None, False)
          else (Run_retry, Rf_pending, Some (clock w + REFUND_BACKOFF_MS ! min (n - 1) 4), False))"

lemma backoff_last: "length REFUND_BACKOFF_MS - 1 = 4" "length REFUND_BACKOFF_MS - Suc 0 = 4"
  by (simp_all add: REFUND_BACKOFF_MS_def)

lemma refund_outcome:
  assumes "find_charge (w_db w) cid = Some c" and "find_payment (w_db w) (c_paymentId c) = Some p"
    and "refund_due c (clock w)" and "\<not> holds_money p (c_reference c)"
    and "refund_step env c w = (res, st, next_at, ok)" and "process_refund env cid w = (r, w')"
  shows "r = Inr res" and "ps_log w' = ps_log w @ [(PsRefundAll (c_reference c), ok)]"
    and "\<exists>x. find_charge (w_db w') cid = Some x \<and> c_status x = c_status c \<and> c_reference x = c_reference c
      \<and> c_paymentId x = c_paymentId c \<and> c_refundAmount x = c_refundAmount c
      \<and> c_refundAttempts x = Suc (c_refundAttempts c) \<and> c_refundStatus x = Some st \<and> c_refundNextAt x = next_at"
proof -
  note id = find_charge_id [OF assms(1)]
  define k where "k = c\<lparr>c_refundAttempts := Suc (c_refundAttempts c)\<rparr>"
  define lease :: "charge \<Rightarrow> charge" where "lease = (\<lambda>x. x\<lparr>c_refundStatus := Some Rf_processing,
      c_refundAttempts := Suc (c_refundAttempts c), c_refundNextAt := Some (clock w + REFUND_LEASE_MS)\<rparr>)"
  define w1 where "w1 = w\<lparr>w_db := update_charges (\<lambda>x. c_id x = cid) lease (w_db w)\<rparr>"
  have cl: "claim_refund cid w = (Inr (Some (k, p)), w1)"
    using assms(1-4) by (simp add: claim_refund_def run_simps Let_def k_def w1_def lease_def)
  have leased: "find_charge (w_db w1) cid = Some (lease c)"
    using assms(1) id by (simp add: w1_def find_charge_update lease_def)
  have sel: "in_processing cid (lease c)" "c_id k = cid" "c_reference k = c_reference c"
      "c_refundAttempts k = Suc (c_refundAttempts c)"
    using id by (simp_all add: in_processing_def lease_def k_def)
  have ex: "\<exists>x \<in> set (t_charges (w_db w1)). in_processing cid x"
    using leased sel(1) by (auto simp: find_charge_def dest: find_row_SomeD)
  note run = process_refund_run [OF cl, of env]
  have logs: "ps_log w1 = ps_log w" "clock w1 = clock w" by (simp_all add: w1_def)
  show "r = Inr res" and "ps_log w' = ps_log w @ [(PsRefundAll (c_reference c), ok)]"
    and "\<exists>x. find_charge (w_db w') cid = Some x \<and> c_status x = c_status c \<and> c_reference x = c_reference c
      \<and> c_paymentId x = c_paymentId c \<and> c_refundAmount x = c_refundAmount c
      \<and> c_refundAttempts x = Suc (c_refundAttempts c) \<and> c_refundStatus x = Some st \<and> c_refundNextAt x = next_at"
    using assms(5,6) run ex leased sel logs
    by (auto simp: refund_step_def Let_def finish_refund_def on_call_failed_def run_simps find_charge_update
        notify_customer_def alert_admins_def backoff_last lease_def in_processing_def
        split: sum.splits if_splits)
qed

section \<open>Properties\<close>

text \<open>
  C18. One active attempt per payment. In every state reachable by webhooks, verifications, hosted
  checkouts, saved-method charges, one-time codes, status reads, refund runs and account deletions,
  in any order and with any arguments, no two active attempts belong to the same payment, and no two
  attempts share an id or a reference.
\<close>

theorem one_active_attempt:
  assumes "(attempt_step env)\<^sup>*\<^sup>* w w'" and "charges_ok (w_db w)"
  shows "charges_ok (w_db w')"
  using assms(1)
proof (induction rule: rtranclp_induct)
  case base
  show ?case by (rule assms(2))
next
  case (step y z)
  then show ?case using attempt_step_keeps unfolding charge_inv_def by blast
qed

definition fx_opened :: world where
  "fx_opened = snd (initialize_payment fx_env (ret ()) 1 7 False ''ab'' (fx_world [fx_payment Pay_PENDING]))"

theorem one_active_attempt_witness:
  "charges_ok (w_db (snd (charge_saved fx_env 1 7 100 ''cd'' fx_opened)))"
proof -
  have "(attempt_step fx_env)\<^sup>*\<^sup>* (fx_world [fx_payment Pay_PENDING]) (snd (charge_saved fx_env 1 7 100 ''cd'' fx_opened))"
    unfolding fx_opened_def
    by (rule rtranclp.rtrancl_into_rtrancl [OF rtranclp.rtrancl_into_rtrancl [OF rtranclp.rtrancl_refl]])
       (rule attempt_step.initialize attempt_step.charge_saved ci.keeps_ret)+
  moreover have "charges_ok (w_db (fx_world [fx_payment Pay_PENDING]))"
    by (simp add: charges_ok_def wf_charges_def one_active_def fx_defs)
  ultimately show ?thesis by (rule one_active_attempt)
qed

text \<open>
  C6. A payment is held exactly once. The first report of a charge that matches a due payment holds
  it, records that charge as the one with the money, and sends one receipt; every later report of the
  same charge, by the webhook or by a verification, with whatever data, changes nothing at all.
\<close>

theorem held_exactly_once:
  assumes "find_charge (w_db w) cid = Some c" and "find_payment (w_db w) (c_paymentId c) = Some p"
    and "c_status c \<notin> {Ch_succeeded, Ch_duplicate}" and "amount_matches data p" and "p_status p = Pay_PENDING"
  shows "\<exists>w1. apply_charge_success env cid data w = (Inr (), w1)
    \<and> (\<exists>q. find_payment (w_db w1) (p_id p) = Some q \<and> p_status q = Pay_HELD
          \<and> p_paidReference q = Some (c_reference c) \<and> p_amount q = p_amount p)
    \<and> length (receipts (outbox w1)) = Suc (length (receipts (outbox w))) \<and> ps_log w1 = ps_log w
    \<and> (\<forall>env' data'. apply_charge_success env' cid data' w1 = (Inr (), w1))"
proof -
  obtain r w1 where run: "apply_charge_success env cid data w = (r, w1)" by fastforce
  note first = apply_first_held [OF assms run]
  obtain x where "find_charge (w_db w1) cid = Some x" "c_status x = Ch_succeeded" using first(3) by blast
  then have "apply_charge_success env' cid data' w1 = (Inr (), w1)" for env' data' by (intro apply_again) auto
  with run first show ?thesis by blast
qed

definition fx_charge :: "string \<Rightarrow> nat \<Rightarrow> charge" where
  "fx_charge ref k = new_charge k 9 1 ref M_hosted None Ch_hosted_open 0"

definition fx_paying :: "payment \<Rightarrow> charge list \<Rightarrow> world" where
  "fx_paying p cs = (fx_world [p])\<lparr>w_db := (fx_db [p])\<lparr>t_charges := cs\<rparr>\<rparr>"

definition fx_data :: "string \<Rightarrow> charge_data" where
  "fx_data ref = \<lparr>cd_reference = Some ref, cd_amount = Some 20000, cd_currency = Some ''GHS'', cd_channel = Some ''card'',
     cd_paidAt = None, cd_authorization = None\<rparr>"

lemmas fx_pay_defs = fx_charge_def fx_paying_def fx_data_def new_charge_def fx_defs

lemma js_round_pesewas [simp]: "js_round (cedis p * 100) = p"
proof -
  have "cedis p * 100 = of_int p" by (simp add: cedis_def)
  then show ?thesis by (simp only: js_round_def floor_of_int_plus_half)
qed

lemma fx_amount: "amount_matches (fx_data ref) (fx_payment st)"
  by (simp add: amount_matches_def fx_pay_defs)

theorem held_exactly_once_witness:
  "\<exists>w1. apply_charge_success fx_env 50 (fx_data ''ref'') (fx_paying (fx_payment Pay_PENDING) [fx_charge ''ref'' 50]) = (Inr (), w1)
     \<and> apply_charge_success fx_env 50 (fx_data ''ref'') w1 = (Inr (), w1)"
proof -
  have "find_charge (w_db (fx_paying (fx_payment Pay_PENDING) [fx_charge ''ref'' 50])) 50 = Some (fx_charge ''ref'' 50)"
    "find_payment (w_db (fx_paying (fx_payment Pay_PENDING) [fx_charge ''ref'' 50])) (c_paymentId (fx_charge ''ref'' 50)) = Some (fx_payment Pay_PENDING)"
    "c_status (fx_charge ''ref'' 50) \<notin> {Ch_succeeded, Ch_duplicate}" "p_status (fx_payment Pay_PENDING) = Pay_PENDING"
    by (simp_all add: fx_pay_defs fx_finders)
  from held_exactly_once [OF this(1-3) fx_amount this(4)] show ?thesis by blast
qed


definition fx_dup :: charge where
  "fx_dup = (fx_charge ''other'' 51)\<lparr>c_status := Ch_duplicate, c_refundStatus := Some Rf_pending, c_refundNextAt := Some 0\<rparr>"


text \<open>
  A second success for a job that is already paid, or no longer due, is given back. The payment
  is not touched; the charge becomes a duplicate for the whole amount, and Paystack is asked, in the
  same breath, to refund exactly that charge and nothing else.
\<close>

theorem second_success_refunded:
  assumes "find_charge (w_db w) cid = Some c" and "find_payment (w_db w) (c_paymentId c) = Some p"
    and "c_status c \<notin> {Ch_succeeded, Ch_duplicate}" and "amount_matches data p"
    and "p_status p \<noteq> Pay_PENDING" and "\<not> holds_money p (c_reference c)"
    and "apply_charge_success env cid data w = (r, w')"
  shows "r = Inr () \<and> t_payments (w_db w') = t_payments (w_db w)
    \<and> (\<exists>x. find_charge (w_db w') cid = Some x \<and> c_status x = Ch_duplicate \<and> c_refundAmount x = Some (p_amount p)
         \<and> c_refundStatus x \<noteq> Some Rf_processing \<and> c_refundStatus x \<noteq> None)
    \<and> (\<exists>ok. ps_log w' = ps_log w @ [(PsRefundAll (c_reference c), ok)])"
proof -
  have amt: "to_fixed2 (cedis (the (cd_amount data))) = p_amount p" using assms(4) by (simp add: amount_matches_def)
  define dup :: "charge \<Rightarrow> charge" where "dup = (\<lambda>x. x\<lparr>c_status := Ch_duplicate, c_action := None,
      c_message := Some MSG_DUPLICATE, c_channel := success_channel data c, c_refundStatus := Some Rf_pending,
      c_refundAmount := Some (p_amount p), c_refundNextAt := Some (clock w)\<rparr>)"
  define w1 where "w1 = w\<lparr>w_db := update_charges (\<lambda>x. c_id x = cid) dup (w_db w)\<rparr>"
  have tx: "settle_tx cid data w = (Inr (Some (Duplicate_now p c)), w1)"
    using settle_tx_first(2) [OF assms(1-6)] amt by (simp add: w1_def dup_def)
  obtain r2 w2 where pr: "process_refund env cid w1 = (r2, w2)" by fastforce
  have out: "r = Inr ()" "w' = w2"
    using assms(7) tx find_charge_id [OF assms(1)] pr by (auto simp: apply_charge_success_def run_simps)
  have found: "find_charge (w_db w1) cid = Some (dup c)"
    using assms(1) find_charge_id [OF assms(1)] by (simp add: w1_def find_charge_update dup_def)
  have pay: "find_payment (w_db w1) (c_paymentId (dup c)) = Some p" using assms(2) by (simp add: w1_def dup_def)
  have due: "refund_due (dup c) (clock w1)" "\<not> holds_money p (c_reference (dup c))"
    using assms(6) by (simp_all add: refund_due_def dup_def w1_def)
  obtain res st nx ok where step: "refund_step env (dup c) w1 = (res, st, nx, ok)" by (cases "refund_step env (dup c) w1")
  have st: "st \<in> {Rf_requested, Rf_processed, Rf_pending, Rf_failed}" by (cases st) (use step in \<open>auto simp: refund_step_def Let_def split: sum.splits if_splits\<close>)
  note oc = refund_outcome [OF found pay due step pr]
  have "t_payments (w_db w2) = t_payments (w_db w)"
    using process_refund_log [OF pr] by (simp add: w1_def update_charges_def)
  with oc out st show ?thesis by (auto simp: dup_def w1_def)
qed

definition fx_paid :: payment where
  "fx_paid = (fx_payment Pay_HELD)\<lparr>p_paidReference := Some ''ref''\<rparr>"

theorem second_success_refunded_witness:
  "\<exists>ok. ps_log (snd (apply_charge_success fx_env 51 (fx_data ''other'') (fx_paying fx_paid [fx_charge ''other'' 51])))
      = [(PsRefundAll ''other'', ok)]"
proof -
  let ?w = "fx_paying fx_paid [fx_charge ''other'' 51]"
  have a: "find_charge (w_db ?w) 51 = Some (fx_charge ''other'' 51)"
    "find_payment (w_db ?w) (c_paymentId (fx_charge ''other'' 51)) = Some fx_paid"
    "c_status (fx_charge ''other'' 51) \<notin> {Ch_succeeded, Ch_duplicate}" "amount_matches (fx_data ''other'') fx_paid"
    "p_status fx_paid \<noteq> Pay_PENDING" "\<not> holds_money fx_paid (c_reference (fx_charge ''other'' 51))"
    "ps_log ?w = []" "c_reference (fx_charge ''other'' 51) = ''other''"
    by (simp_all add: fx_paid_def fx_pay_defs fx_finders amount_matches_def holds_money_def)
  from second_success_refunded [OF a(1-6) surjective_pairing, of fx_env] a(7,8) show ?thesis by auto
qed

text \<open>
  C32. The policy of a refund call that fails. Each failed call is counted; before the sixth the refund
  waits for the next retry, 1, 5, 30 minutes, 2 and 6 hours after the call; the sixth gives up and
  leaves it to an admin. A call Paystack accepts, or answers with "already refunded", ends it.
\<close>

theorem refund_retry_policy:
  assumes "find_charge (w_db w) cid = Some c" and "find_payment (w_db w) (c_paymentId c) = Some p"
    and "refund_due c (clock w)" and "\<not> holds_money p (c_reference c)"
  shows "\<exists>w' x res. process_refund env cid w = (Inr res, w') \<and> find_charge (w_db w') cid = Some x
    \<and> c_refundAttempts x = c_refundAttempts c + 1
    \<and> (case pv_refund_all (e_pv env) (ps_log w) (c_reference c) of
        Inr (rid, done) \<Rightarrow> res = Run_requested \<and> c_refundNextAt x = None
          \<and> c_refundStatus x = Some (if done then Rf_processed else Rf_requested)
      | Inl e \<Rightarrow>
          if already_refunded e then res = Run_requested \<and> c_refundStatus x = Some Rf_requested
          else if c_refundAttempts x < 6 then res = Run_retry \<and> c_refundStatus x = Some Rf_pending
            \<and> c_refundNextAt x = Some (clock w + [60000, 300000, 1800000, 7200000, 21600000] ! c_refundAttempts c)
          else res = Run_gave_up \<and> c_refundStatus x = Some Rf_failed \<and> c_refundNextAt x = None)"
proof -
  obtain res st nx ok where step: "refund_step env c w = (res, st, nx, ok)" by (cases "refund_step env c w")
  obtain r w' where run: "process_refund env cid w = (r, w')" by fastforce
  note oc = refund_outcome [OF assms step run]
  obtain x where x: "find_charge (w_db w') cid = Some x" "c_refundAttempts x = Suc (c_refundAttempts c)"
    "c_refundStatus x = Some st" "c_refundNextAt x = nx" using oc(3) by blast
  have "REFUND_BACKOFF_MS ! min n 4 = [60000, 300000, 1800000, 7200000, 21600000] ! n" if "n < 5" for n
    using that by (auto simp: REFUND_BACKOFF_MS_def min_def)
  with x step have "(case pv_refund_all (e_pv env) (ps_log w) (c_reference c) of
        Inr (rid, done) \<Rightarrow> res = Run_requested \<and> c_refundNextAt x = None
          \<and> c_refundStatus x = Some (if done then Rf_processed else Rf_requested)
      | Inl e \<Rightarrow>
          if already_refunded e then res = Run_requested \<and> c_refundStatus x = Some Rf_requested
          else if c_refundAttempts x < 6 then res = Run_retry \<and> c_refundStatus x = Some Rf_pending
            \<and> c_refundNextAt x = Some (clock w + [60000, 300000, 1800000, 7200000, 21600000] ! c_refundAttempts c)
          else res = Run_gave_up \<and> c_refundStatus x = Some Rf_failed \<and> c_refundNextAt x = None)"
    by (auto simp: refund_step_def Let_def REFUND_MAX_ATTEMPTS_def split: sum.splits if_splits)
  with run oc(1) x show ?thesis by auto
qed

theorem refund_retry_policy_witness:
  "\<exists>w' x. process_refund fx_env 51 (fx_paying fx_paid [fx_dup]) = (Inr Run_requested, w')
     \<and> find_charge (w_db w') 51 = Some x \<and> c_refundStatus x = Some Rf_processed"
proof -
  let ?w = "fx_paying fx_paid [fx_dup]"
  have a: "find_charge (w_db ?w) 51 = Some fx_dup" "find_payment (w_db ?w) (c_paymentId fx_dup) = Some fx_paid"
    "refund_due fx_dup (clock ?w)" "\<not> holds_money fx_paid (c_reference fx_dup)"
    "pv_refund_all (e_pv fx_env) (ps_log ?w) (c_reference fx_dup) = Inr (None, True)"
    by (simp_all add: fx_dup_def fx_paid_def fx_pay_defs fx_finders holds_money_def refund_due_def)
  from refund_retry_policy [OF a(1-4), of fx_env] a(5) show ?thesis by auto
qed

text \<open>
  A customer can miss the notice of a refund. When Paystack's \<open>refund.processed\<close> webhook lands
  between the claim of a refund and the update with the call's result, the webhook records the refund
  without a notice and the update, finding the row already moved, skips its own.
\<close>

theorem refund_notice_lost:
  assumes "claim_refund cid w0 = (Inr (Some (c, p)), w1)" and "charges_ok (w_db w0)" and "c_reference c \<noteq> []"
    and "on_refund_webhook ''refund.processed'' (Some (c_reference c)) rid w1 = (r2, w2)"
    and "finish_refund c p rid' done w2 = (r3, w3)"
  shows "r2 = Inr () \<and> r3 = Inr Run_skipped \<and> outbox w3 = outbox w0
    \<and> (\<exists>x. find_charge (w_db w3) cid = Some x \<and> c_refundStatus x = Some Rf_processed)"
proof -
  from assms(1) show ?thesis
  proof (cases rule: claim_refund_cases)
    case 1
    then show ?thesis by simp
  next
    case (2 c0 p0)
    have c: "c = c0\<lparr>c_refundAttempts := c_refundAttempts c0 + 1\<rparr>" "p = p0" using 2(1) by auto
    define lease :: "charge \<Rightarrow> charge" where "lease = (\<lambda>x. x\<lparr>c_refundStatus := Some Rf_processing,
        c_refundAttempts := c_refundAttempts c0 + 1, c_refundNextAt := Some (clock w0 + REFUND_LEASE_MS)\<rparr>)"
    have w1: "w1 = w0\<lparr>w_db := update_charges (\<lambda>x. c_id x = cid) lease (w_db w0)\<rparr>" using 2 by (simp add: lease_def)
    have id: "c_id c0 = cid" using 2(2) by (rule find_charge_id)
    have f1: "find_charge (w_db w1) cid = Some (lease c0)"
      using 2(2) id by (simp add: w1 find_charge_update lease_def)
    have ok1: "charges_ok (w_db w1)"
      unfolding w1 by (simp, rule charges_ok_update [OF assms(2)]) (auto simp: only_closes_def lease_def)
    have in1: "lease c0 \<in> set (t_charges (w_db w1))" using f1 by (auto simp: find_charge_def dest: find_row_SomeD)
    have dup: "c_status (lease c0) = Ch_duplicate" "c_reference (lease c0) = c_reference c" "c_id (lease c0) = cid"
        "c_refundStatus (lease c0) = Some Rf_processing"
      using 2(4) c id by (simp_all add: refund_due_def lease_def)
    have inj: "inj_on c_reference (set (t_charges (w_db w1)))" using ok1 by (simp add: charges_ok_def distinct_map)
    have found: "duplicate_for (w_db w1) (Some (c_reference c)) rid = Some (lease c0)"
      using find_by_key [OF inj in1, of "\<lambda>x. Some (c_reference x) = Some (c_reference c) \<and> c_status x = Ch_duplicate"]
        dup assms(3) by (simp add: duplicate_for_def)
    define done_row :: "charge \<Rightarrow> charge" where "done_row = (\<lambda>x. x\<lparr>c_refundStatus := Some Rf_processed,
        c_refundId := some_other rid (c_refundId (lease c0)), c_refundNextAt := None, c_refundedAt := Some (clock w1)\<rparr>)"
    have hook: "r2 = Inr ()" "w2 = w1\<lparr>w_db := update_charges (\<lambda>x. c_id x = cid) done_row (w_db w1)\<rparr>"
      using assms(4) found dup assms(3) by (auto simp: on_refund_webhook_def run_simps done_row_def)
    have none: "\<not> (\<exists>x \<in> set (t_charges (w_db w2)). in_processing cid x)"
    proof
      assume "\<exists>x \<in> set (t_charges (w_db w2)). in_processing cid x"
      then obtain x y where "x = (if c_id y = cid then done_row y else y)" "in_processing cid x"
        by (auto simp: hook update_charges_def in_update_where)
      then show False by (cases "c_id y = cid") (simp_all add: in_processing_def done_row_def)
    qed
    have cid: "c_id c = cid" using c id by simp
    have f2: "find_charge (w_db w2) cid = Some (done_row (lease c0))"
      using f1 dup by (simp add: hook find_charge_update done_row_def)
    have "r3 = Inr Run_skipped" "outbox w3 = outbox w2"
      and "find_charge (w_db w3) cid = Some (done_row (lease c0))"
      using assms(5) none cid f2
      by (auto simp: finish_refund_def run_simps find_charge_update in_processing_def done_row_def)
    then show ?thesis using hook by (simp add: done_row_def w1)
  qed
qed

theorem refund_notice_lost_witness:
  "\<exists>c p w1 w2. claim_refund 51 (fx_paying fx_paid [fx_dup]) = (Inr (Some (c, p)), w1)
     \<and> on_refund_webhook ''refund.processed'' (Some ''other'') None w1 = (Inr (), w2)
     \<and> fst (finish_refund c p None True w2) = Inr Run_skipped"
proof -
  let ?w = "fx_paying fx_paid [fx_dup]"
  obtain c p w1 where cl: "claim_refund 51 ?w = (Inr (Some (c, p)), w1)" and ref: "c_reference c = ''other''"
    by (simp add: claim_refund_def run_simps fx_dup_def fx_paid_def fx_pay_defs fx_finders holds_money_def refund_due_def Let_def)
  have ok: "charges_ok (w_db ?w)"
    by (simp add: charges_ok_def wf_charges_def one_active_def fx_pay_defs)
  obtain r2 w2 where hook: "on_refund_webhook ''refund.processed'' (Some (c_reference c)) None w1 = (r2, w2)" by fastforce
  from refund_notice_lost [OF cl ok _ hook surjective_pairing, of None True] cl hook ref show ?thesis by auto
qed

end
