(* ===== verification/Claims.thy ===== *)
theory Claims
  imports MoneyFlow
begin

text \<open>
  What starting and checking a payment attempt guarantees (payments/payment-attempts.service.ts):
  the outcomes of a claim, when an attempt may be released, and what a claim does with an attempt
  whose success at Paystack is not the amount due.
\<close>

section \<open>Claims and checks\<close>

lemma head_of_rev_sort:
  "(case rev (sort_key f (sort_key g xs)) of [] \<Rightarrow> None | x # _ \<Rightarrow> Some x) = Some y \<Longrightarrow> y \<in> set xs"
  "(case rev (sort_key f (sort_key g xs)) of [] \<Rightarrow> None | x # _ \<Rightarrow> Some x) = None \<longleftrightarrow> xs = []"
proof -
  have "set (rev (sort_key f (sort_key g xs))) = set xs" by simp
  then show "(case rev (sort_key f (sort_key g xs)) of [] \<Rightarrow> None | x # _ \<Rightarrow> Some x) = Some y \<Longrightarrow> y \<in> set xs"
    by (cases "rev (sort_key f (sort_key g xs))") auto
  have "length (rev (sort_key f (sort_key g xs))) = length xs" by simp
  then show "(case rev (sort_key f (sort_key g xs)) of [] \<Rightarrow> None | x # _ \<Rightarrow> Some x) = None \<longleftrightarrow> xs = []"
    by (cases "rev (sort_key f (sort_key g xs))") (simp_all del: length_rev length_sort, auto)
qed

lemma active_for_Some: "active_for d k = Some c \<Longrightarrow> c \<in> set (t_charges d) \<and> c_paymentId c = k \<and> is_active (c_status c)"
  unfolding active_for_def by (drule head_of_rev_sort(1)) simp

lemma active_for_None: "active_for d k = None \<Longrightarrow> c \<in> set (t_charges d) \<Longrightarrow> c_paymentId c = k \<Longrightarrow> \<not> is_active (c_status c)"
  unfolding active_for_def head_of_rev_sort(2) by (auto simp: filter_empty_conv)

lemma lock_payable_cases:
  "lock_payable uid jid msg w = (r, w') \<Longrightarrow> w' = w
   \<and> (\<forall>p. r = Inr p \<longrightarrow> p \<in> set (t_payments (w_db w)) \<and> p_jobId p = jid \<and> p_customerId p = uid \<and> p_status p = Pay_PENDING)
   \<and> (\<forall>e. r = Inl e \<longrightarrow> e \<in> {Conflict_pay Already_paid, NotFound_pay msg}
        \<and> (\<forall>p \<in> set (t_payments (w_db w)). p_jobId p = jid \<longrightarrow> p_customerId p = uid \<longrightarrow> p_status p \<noteq> Pay_PENDING))"
  by (auto simp: lock_payable_def run_simps find_Some_iff find_None_iff split: option.splits if_splits)

lemma claim_tx_cases:
  assumes "claim_tx uid jid spec msg hex w = (r, w')"
  shows "case r of
      Inr (Claimed (Created p c)) \<Rightarrow>
        p \<in> set (t_payments (w_db w)) \<and> p_jobId p = jid \<and> p_customerId p = uid \<and> p_status p = Pay_PENDING
        \<and> (\<forall>x \<in> set (t_charges (w_db w)). c_paymentId x = p_id p \<longrightarrow> \<not> is_active (c_status x))
        \<and> (\<forall>x \<in> set (t_charges (w_db w)). c_reference x \<noteq> c_reference c)
        \<and> w_db w' = put_charge c (w_db w) \<and> c_paymentId c = p_id p \<and> c_methodType c = spec_kind spec
        \<and> is_active (c_status c) \<and> same_kind c spec \<and> ps_log w' = ps_log w
    | Inr (Claimed (Existing p c)) \<Rightarrow> w' = w \<and> c \<in> set (t_charges (w_db w)) \<and> c_paymentId c = p_id p
        \<and> is_active (c_status c) \<and> same_kind c spec \<and> \<not> is_past_window c (clock w) \<and> p_status p = Pay_PENDING
        \<and> p_jobId p = jid \<and> p_customerId p = uid
    | Inr (Stale p c) \<Rightarrow> w' = w \<and> c \<in> set (t_charges (w_db w)) \<and> is_active (c_status c) \<and> is_past_window c (clock w)
        \<and> c_paymentId c = p_id p \<and> p_status p = Pay_PENDING \<and> p_jobId p = jid \<and> p_customerId p = uid
    | Inr Raced \<Rightarrow> False
    | Inl e \<Rightarrow> w_db w' = w_db w"
proof -
  obtain r1 w1 where lock: "lock_payable uid jid msg w = (r1, w1)" by fastforce
  note lc = lock_payable_cases [OF lock]
  show ?thesis
  proof (cases r1)
    case (Inl e)
    with assms lock lc show ?thesis by (auto simp: claim_tx_def run_bnd_throws)
  next
    case (Inr p)
    have run: "claim_tx uid jid spec msg hex w = (case active_for (w_db w) (p_id p) of
        Some a \<Rightarrow> (if is_past_window a (clock w) then (Inr (Stale p a), w)
          else if same_kind a spec then (Inr (Claimed (Existing p a)), w)
          else (Inl (Conflict_pay (Attempt_active (c_methodType a))), w))
      | None \<Rightarrow> bnd (insert_charge (first_charge spec p uid
            (spec_kind spec \<noteq> M_hosted \<or> charge_by_reference (w_db w) (p_reference p) \<noteq> None) hex (clock w)))
          (\<lambda>c. ret (Claimed (Created p c))) w)"
      using lock lc Inr by (simp add: claim_tx_def run_bnd_Pair run_simps Let_def split: option.splits)
    show ?thesis
    proof (cases "active_for (w_db w) (p_id p)")
      case None
      have "same_kind (first_charge spec p uid b hex t k) spec" "is_active (c_status (first_charge spec p uid b hex t k))"
        "c_paymentId (first_charge spec p uid b hex t k) = p_id p" "c_methodType (first_charge spec p uid b hex t k) = spec_kind spec" for b t k
        by (cases spec; simp add: same_kind_def first_charge_def new_charge_def)+
      with None run assms lc Inr active_for_None [OF None] show ?thesis
        by (auto simp: insert_charge_def run_simps Let_def split: if_splits)
    next
      case (Some a)
      with run assms lc Inr active_for_Some [OF Some] show ?thesis by (auto split: if_splits)
    qed
  qed
qed


section \<open>Checking an attempt\<close>

text \<open>What Paystack answers about a charge: no answer, or a status (\<open>not_found\<close> for a refusal).\<close>

definition paystack_says :: "env \<Rightarrow> charge \<Rightarrow> world \<Rightarrow> string option" where
  "paystack_says env c w = (case pv_verify (e_pv env) (ps_log w) (c_reference c) of
     Verified rc \<Rightarrow> rc_status rc | Verify_refused \<Rightarrow> Some ''not_found'' | Verify_unreachable \<Rightarrow> None)"

definition releasable_on :: "charge \<Rightarrow> string \<Rightarrow> int \<Rightarrow> bool" where
  "releasable_on c s now \<longleftrightarrow> s \<noteq> ''success''
     \<and> (is_past_window c now \<or> c_methodType c \<noteq> M_hosted \<and> s \<in> set RELEASE_ON_REMOTE)"

definition checked :: "charge \<Rightarrow> int \<Rightarrow> db \<Rightarrow> db" where
  "checked c now = update_charges (\<lambda>x. c_id x = c_id c) (\<lambda>x. x\<lparr>c_lastVerifiedAt := Some now\<rparr>)"

definition asked :: "env \<Rightarrow> charge \<Rightarrow> world \<Rightarrow> world" where
  "asked env c w = w\<lparr>w_db := checked c (clock w) (w_db w), ps_log := ps_log w @
     [(PsVerify (c_reference c), pv_verify (e_pv env) (ps_log w) (c_reference c) \<noteq> Verify_unreachable)]\<rparr>"

lemma update_charges_none: "\<forall>x \<in> set (t_charges d). \<not> q x \<Longrightarrow> update_charges q f d = d"
  by (simp add: update_charges_def update_where_def map_idI)

lemma judge_remote_run:
  assumes "judge_remote c s now w = (r, w')"
  shows "(\<exists>to \<in> {Ch_failed, Ch_expired}. r = Inr Released \<and> (s \<noteq> ''success'' \<longrightarrow> releasable_on c s now)
          \<and> (\<exists>x \<in> set (t_charges (w_db w)). still_active (c_id c) x)
          \<and> (\<exists>msg. w_db w' = update_charges (still_active (c_id c)) (\<lambda>x. x\<lparr>c_status := to, c_action := None, c_message := msg\<rparr>) (w_db w)))
       \<or> r = Inr Still_active \<and> w_db w' = w_db w"
  using assms by (auto simp: judge_remote_def release_def releasable_on_def run_simps Let_def update_charges_none split: if_splits)

lemma reconcile_forced:
  assumes "is_active (c_status c)"
  shows "paystack_says env c w = Some ''success'' \<Longrightarrow>
      \<exists>rc. pv_verify (e_pv env) (ps_log w) (c_reference c) = Verified rc \<and> rc_status rc = Some ''success''
        \<and> reconcile env settle c True w = andthen (settle (c_id c) (remote_data (c_reference c) rc)) (ret Settled) (asked env c w)"
    and "paystack_says env c w = Some s \<Longrightarrow> s \<noteq> ''success'' \<Longrightarrow>
      reconcile env settle c True w = judge_remote c s (clock w) (asked env c w)"
    and "paystack_says env c w = None \<Longrightarrow> reconcile env settle c True w = (Inr Still_active, asked env c w)"
  using assms by (simp_all add: paystack_says_def reconcile_def asked_def checked_def run_simps Let_def
      split: verify_result.splits option.splits)

lemma reconcile_throttled:
  "reconcile env settle c force w = (Inr Released, w) \<and> \<not> is_active (c_status c)
   \<or> reconcile env settle c force w = (Inr Still_active, w) \<and> \<not> force
   \<or> reconcile env settle c force w = reconcile env settle c True w \<and> is_active (c_status c)"
  by (simp add: reconcile_def run_simps Let_def)

definition same_but_released :: "charge \<Rightarrow> bool \<Rightarrow> db \<Rightarrow> db \<Rightarrow> bool" where
  "same_but_released c done d d' \<longleftrightarrow> t_payments d' = t_payments d
     \<and> (\<forall>k x. find_charge d k = Some x \<longrightarrow> (\<exists>x'. find_charge d' k = Some x' \<and> c_reference x' = c_reference x
          \<and> (c_status x' = c_status x
              \<or> done \<and> k = c_id c \<and> is_active (c_status x) \<and> c_status x' \<in> {Ch_failed, Ch_expired})))"

lemma find_charge_mem: "find_charge d k = Some x \<Longrightarrow> x \<in> set (t_charges d) \<and> c_id x = k"
  by (auto simp: find_charge_def dest: find_row_SomeD)

lemma find_charge_checked:
  "find_charge (checked c now d) k = map_option (\<lambda>x. if c_id x = c_id c then x\<lparr>c_lastVerifiedAt := Some now\<rparr> else x) (find_charge d k)"
  by (simp add: checked_def find_charge_update)

lemma same_but_released_checked: "same_but_released c done d (checked c now d)"
  by (simp add: same_but_released_def find_charge_checked) (simp add: checked_def)

lemma judge_remote_same:
  assumes "judge_remote c s now w = (r, w')"
  shows "same_but_released c (r = Inr Released) (w_db w) (w_db w')"
  using judge_remote_run [OF assms]
  by (auto simp: same_but_released_def find_charge_update still_active_def dest: find_charge_mem)

lemma asked_simps [simp]: "clock (asked env c w) = clock w" "w_db (asked env c w) = checked c (clock w) (w_db w)"
  by (simp_all add: asked_def)

lemma same_but_released_trans:
  "same_but_released c False d e \<Longrightarrow> same_but_released c done e e' \<Longrightarrow> same_but_released c done d e'"
  unfolding same_but_released_def by fastforce

lemma settled_answer: "andthen m (ret Settled) w = (r, w') \<Longrightarrow> r \<noteq> Inr Released \<and> r \<noteq> Inr Still_active"
  by (auto simp: act_defs split: prod.splits sum.splits)

lemma release_needs_answer_core:
  assumes "is_active (c_status c)" and "reconcile env settle c force w = (r, w')"
  shows "(r = Inr Released \<longrightarrow> (\<exists>s. paystack_says env c w = Some s \<and> releasable_on c s (clock w)))
    \<and> (r = Inr Settled \<longrightarrow> paystack_says env c w = Some ''success'')
    \<and> (paystack_says env c w = None \<longrightarrow> r = Inr Still_active)
    \<and> (paystack_says env c w \<noteq> Some ''success'' \<longrightarrow> same_but_released c (r = Inr Released) (w_db w) (w_db w'))"
proof -
  have same: "same_but_released c b d d" for b d by (simp add: same_but_released_def)
  from reconcile_throttled [of env settle c force w] assms
  consider (still) "r = Inr Still_active" "w' = w" | (asks) "reconcile env settle c True w = (r, w')" by auto
  then show ?thesis
  proof cases
    case still
    then show ?thesis using same by simp
  next
    case asks
    note forced = reconcile_forced [OF assms(1), where env = env and w = w and settle = settle]
    show ?thesis
    proof (cases "paystack_says env c w")
      case None
      then show ?thesis using forced(3) asks same_but_released_checked by simp
    next
      case (Some s)
      show ?thesis
      proof (cases "s = ''success''")
        case True
        then obtain d where "andthen (settle (c_id c) d) (ret Settled) (asked env c w) = (r, w')"
          using forced(1) asks Some by auto
        then show ?thesis using settled_answer True Some by force
      next
        case False
        then have j: "judge_remote c s (clock w) (asked env c w) = (r, w')" using forced(2) asks Some by simp
        from judge_remote_run [OF j] judge_remote_same [OF j] False Some show ?thesis
          by (auto intro: same_but_released_trans [OF same_but_released_checked])
      qed
    qed
  qed
qed

text \<open>
  No attempt is released without an answer. A check of an active attempt answers released only
  when Paystack answered that the charge did not succeed and the attempt is past its window or is a
  saved-method charge Paystack calls failed, abandoned or reversed; it answers settled only when
  Paystack reported a success; when Paystack gives no answer the attempt stays active. Without a
  reported success no payment changes and the only charge whose status may change is the released one.
\<close>

theorem release_needs_answer:
  assumes "is_active (c_status c)" and "reconcile env settle c force w = (r, w')"
  shows "(r = Inr Released \<longrightarrow> (\<exists>s. paystack_says env c w = Some s \<and> releasable_on c s (clock w)))
    \<and> (r = Inr Settled \<longrightarrow> paystack_says env c w = Some ''success'')
    \<and> (paystack_says env c w = None \<longrightarrow> r = Inr Still_active)
    \<and> (paystack_says env c w \<noteq> Some ''success'' \<longrightarrow> same_but_released c (r = Inr Released) (w_db w) (w_db w'))"
  by (rule release_needs_answer_core [OF assms])

text \<open>A saved-card charge that Paystack calls failed.\<close>

definition fx_card_charge :: charge where
  "fx_card_charge = new_charge 60 9 1 ''sv'' M_card (Some 100) Ch_pending 0"

definition fx_remote :: "verify_result \<Rightarrow> env" where
  "fx_remote v = fx_env\<lparr>e_pv := (e_pv fx_env)\<lparr>pv_verify := \<lambda>_ _. v\<rparr>\<rparr>"

definition fx_failed :: verify_result where
  "fx_failed = Verified \<lparr>rc_status = Some ''failed'', rc_amount = 20000, rc_currency = None, rc_channel = None, rc_paid_at = None\<rparr>"

lemmas fx_claim_defs = fx_card_charge_def fx_remote_def fx_failed_def fx_pay_defs

theorem release_needs_answer_witness:
  "\<exists>w'. reconcile (fx_remote fx_failed) (\<lambda>_ _. ret ()) fx_card_charge True (fx_paying (fx_payment Pay_PENDING) [fx_card_charge]) = (Inr Released, w')
     \<and> releasable_on fx_card_charge ''failed'' 1000
     \<and> same_but_released fx_card_charge True (w_db (fx_paying (fx_payment Pay_PENDING) [fx_card_charge])) (w_db w')"
proof -
  let ?w = "fx_paying (fx_payment Pay_PENDING) [fx_card_charge]"
  have a: "is_active (c_status fx_card_charge)" by (simp add: fx_claim_defs is_active_def)
  have says: "paystack_says (fx_remote fx_failed) fx_card_charge ?w = Some ''failed''" by (simp add: paystack_says_def fx_claim_defs)
  have cs: "t_charges (w_db ?w) = [fx_card_charge]" by (simp add: fx_pay_defs)
  have fs: "c_methodType fx_card_charge = M_card" "c_id fx_card_charge = 60" by (simp_all add: fx_claim_defs)
  have "\<exists>x \<in> set (t_charges (checked fx_card_charge (clock ?w) (w_db ?w))). still_active 60 x"
    using cs a by (simp add: checked_def update_charges_def update_where_def still_active_def fs)
  then have "fst (judge_remote fx_card_charge ''failed'' (clock ?w) (asked (fx_remote fx_failed) fx_card_charge ?w)) = Inr Released"
    by (simp add: judge_remote_def release_def run_simps RELEASE_ON_REMOTE_def fs)
  then obtain w' where run: "reconcile (fx_remote fx_failed) (\<lambda>_ _. ret ()) fx_card_charge True ?w = (Inr Released, w')"
    using reconcile_forced(2) [OF a says] by (cases "judge_remote fx_card_charge ''failed'' (clock ?w) (asked (fx_remote fx_failed) fx_card_charge ?w)") simp
  have "clock ?w = 1000" by (simp add: fx_pay_defs)
  with release_needs_answer [OF a run] says have "releasable_on fx_card_charge ''failed'' 1000"
    "same_but_released fx_card_charge True (w_db ?w) (w_db w')" by simp_all
  with run show ?thesis by blast
qed

section \<open>The outcomes of a claim\<close>

lemma try_claim_cases:
  assumes "try_claim uid jid spec msg hex w = (r, w')"
  shows "case r of Inr Raced \<Rightarrow> True | Inl e \<Rightarrow> True
    | Inr t \<Rightarrow> claim_tx uid jid spec msg hex w = (Inr t, w')"
  using assms by (auto simp: try_claim_def transaction_def attempt_def act_defs
      split: sum.splits prod.splits claim_try.splits if_splits)

definition outcome_ok :: "nat \<Rightarrow> nat \<Rightarrow> attempt_spec \<Rightarrow> claim_result \<Rightarrow> db \<Rightarrow> bool" where
  "outcome_ok uid jid spec cl d = (case cl of
     Created p c \<Rightarrow> p_jobId p = jid \<and> p_customerId p = uid \<and> p_status p = Pay_PENDING
       \<and> c \<in> set (t_charges d) \<and> c_paymentId c = p_id p \<and> is_active (c_status c) \<and> same_kind c spec
       \<and> (\<forall>x \<in> set (t_charges d). c_paymentId x = p_id p \<longrightarrow> is_active (c_status x) \<longrightarrow> x = c)
   | Existing p c \<Rightarrow> p_jobId p = jid \<and> p_customerId p = uid \<and> p_status p = Pay_PENDING
       \<and> c_paymentId c = p_id p \<and> is_active (c_status c) \<and> same_kind c spec
       \<and> (\<exists>x \<in> set (t_charges d). c_id x = c_id c))"

lemma in_put_charge: "x \<in> set (t_charges (put_charge c d)) \<longleftrightarrow> x = c \<or> x \<in> set (t_charges d) \<and> c_id x \<noteq> c_id c"
  by (auto simp: put_charge_def save_row_def image_iff)

lemma still_active_row:
  assumes "is_active (c_status c)" and "reconcile env settle c True w = (Inr Still_active, w')"
    and "c \<in> set (t_charges (w_db w))"
  shows "\<exists>x \<in> set (t_charges (w_db w')). c_id x = c_id c"
proof -
  have "paystack_says env c w \<noteq> Some ''success''"
    using reconcile_forced(1) [OF assms(1)] assms(2) settled_answer by metis
  moreover obtain x where "find_charge (w_db w) (c_id c) = Some x"
    using assms(3) find_None_iff [of "\<lambda>r. c_id r = c_id c" "t_charges (w_db w)"]
    by (cases "find_charge (w_db w) (c_id c)") (auto simp: find_charge_def find_row_def)
  ultimately show ?thesis
    using release_needs_answer_core [OF assms(1,2)] unfolding same_but_released_def
    by (metis find_charge_mem)
qed

lemma claim_rounds_ok:
  assumes "claim_rounds n env settle uid jid spec msg hex w = (Inr cl, w')"
  shows "outcome_ok uid jid spec cl (w_db w')"
  using assms
proof (induction n arbitrary: w)
  case 0
  then show ?case by (simp add: run_simps)
next
  case (Suc n)
  obtain r1 w1 where t: "try_claim uid jid spec msg hex w = (r1, w1)" by fastforce
  note tc = try_claim_cases [OF t]
  show ?case
  proof (cases r1)
    case (Inl e)
    with Suc.prems t show ?thesis by (simp add: act_defs)
  next
    case (Inr x)
    show ?thesis
    proof (cases x)
      case Raced
      with Suc Inr t show ?thesis by (simp add: act_defs)
    next
      case (Claimed c)
      with Inr tc have tx: "claim_tx uid jid spec msg hex w = (Inr (Claimed c), w1)" by simp
      from Suc.prems Inr t Claimed have "c = cl" "w' = w1" by (simp_all add: act_defs)
      with claim_tx_cases [OF tx] show ?thesis
        by (cases c) (auto simp: outcome_ok_def in_put_charge)
    next
      case (Stale p c)
      with Inr tc have tx: "claim_tx uid jid spec msg hex w = (Inr (Stale p c), w1)" by simp
      note st = claim_tx_cases [OF tx, simplified]
      obtain r2 w2 where rec: "reconcile env settle c True w1 = (r2, w2)" by fastforce
      show ?thesis
      proof (cases "r2 = Inr Still_active")
        case True
        with Suc.prems t Inr Stale rec have "cl = Existing p c" "w' = w2" "same_kind c spec"
          by (auto simp: act_defs split: if_splits)
        with st still_active_row [OF _ rec [unfolded True]] show ?thesis by (auto simp: outcome_ok_def)
      next
        case False
        with Suc t Inr Stale rec show ?thesis by (cases r2) (auto simp: act_defs)
      qed
    qed
  qed
qed

text \<open>
  What starting an attempt returns. When a claim succeeds, the attempt it returns is an active
  one of the requested kind, for a PENDING payment of the caller's own job; a newly created attempt is
  stored and is the only active attempt of its payment. This holds through all the rounds in which a
  stale attempt is checked with Paystack first, whatever Paystack answers.
\<close>

theorem claim_outcomes:
  assumes "claim env settle uid jid spec msg hex w = (Inr cl, w')"
  shows "outcome_ok uid jid spec cl (w_db w')"
  using assms unfolding claim_def by (rule claim_rounds_ok)

theorem claim_outcomes_witness:
  "\<exists>cl w'. claim fx_env (\<lambda>_ _. ret ()) 1 7 (Spec_card 100) Charge_not_found ''ab'' (fx_world [fx_payment Pay_PENDING]) = (Inr cl, w')
     \<and> outcome_ok 1 7 (Spec_card 100) cl (w_db w')"
proof -
  obtain cl w' where "claim fx_env (\<lambda>_ _. ret ()) 1 7 (Spec_card 100) Charge_not_found ''ab'' (fx_world [fx_payment Pay_PENDING]) = (Inr cl, w')"
    by (simp add: claim_def eval_nat_numeral try_claim_def claim_tx_def lock_payable_def run_simps Let_def fx_defs
        active_for_def insert_charge_def first_charge_def new_charge_def is_active_def)
  with claim_outcomes [OF this] show ?thesis by blast
qed

section \<open>An attempt that can never settle\<close>

lemma sort_key_map: "(\<And>x. f (g x) = f x) \<Longrightarrow> sort_key f (map g xs) = map g (sort_key f xs)"
proof (induction xs)
  case (Cons a xs)
  have "insort_key f (g a) (map g ys) = map g (insort_key f a ys)" for ys
    by (induction ys) (simp_all add: Cons.prems)
  with Cons show ?case by simp
qed simp

lemma filter_map_same: "(\<And>x. p (g x) = p x) \<Longrightarrow> filter p (map g xs) = map g (filter p xs)"
  by (induction xs) simp_all

lemma active_for_checked:
  "active_for (checked c now d) k
     = map_option (\<lambda>x. if c_id x = c_id c then x\<lparr>c_lastVerifiedAt := Some now\<rparr> else x) (active_for d k)"
proof -
  let ?g = "\<lambda>x. if c_id x = c_id c then x\<lparr>c_lastVerifiedAt := Some now\<rparr> else x"
  have g: "c_paymentId (?g x) = c_paymentId x" "c_status (?g x) = c_status x" "c_id (?g x) = c_id x"
    "c_createdAt (?g x) = c_createdAt x" for x by simp_all
  have "t_charges (checked c now d) = map ?g (t_charges d)"
    by (simp add: checked_def update_charges_def update_where_def)
  then have "sort_key c_createdAt (sort_key c_id (filter (\<lambda>c. c_paymentId c = k \<and> is_active (c_status c)) (t_charges (checked c now d))))
    = map ?g (sort_key c_createdAt (sort_key c_id (filter (\<lambda>c. c_paymentId c = k \<and> is_active (c_status c)) (t_charges d))))"
    by (simp only: filter_map_same sort_key_map g)
  then show ?thesis unfolding active_for_def by (simp only: rev_map split: list.split) simp
qed

definition stuck :: "nat \<Rightarrow> nat \<Rightarrow> payment \<Rightarrow> string \<Rightarrow> world \<Rightarrow> bool" where
  "stuck uid jid p ref w \<longleftrightarrow>
     find (\<lambda>p. p_jobId p = jid \<and> p_customerId p = uid \<and> p_status p = Pay_PENDING) (t_payments (w_db w)) = Some p
     \<and> find_payment (w_db w) (p_id p) = Some p
     \<and> (\<exists>a. active_for (w_db w) (p_id p) = Some a \<and> find_charge (w_db w) (c_id a) = Some a
          \<and> is_past_window a (clock w) \<and> c_reference a = ref)"

definition pays_wrong_amount :: "env \<Rightarrow> string \<Rightarrow> payment \<Rightarrow> bool" where
  "pays_wrong_amount env ref p \<longleftrightarrow> (\<exists>rc. (\<forall>calls. pv_verify (e_pv env) calls ref = Verified rc)
     \<and> rc_status rc = Some ''success'' \<and> \<not> amount_matches (remote_data ref rc) p)"

lemma checked_payments [simp]: "t_payments (checked c now d) = t_payments d" "find_payment (checked c now d) k = find_payment d k"
  by (simp_all add: checked_def)

lemma stuck_round:
  assumes "stuck uid jid p ref w" and "pays_wrong_amount env ref p"
  shows "\<exists>w1. stuck uid jid p ref w1 \<and> t_payments (w_db w1) = t_payments (w_db w) \<and> outbox w1 = outbox w
     \<and> ps_log w1 = ps_log w @ [(PsVerify ref, True)]
     \<and> claim_rounds (Suc n) env (apply_charge_success env) uid jid spec msg hex w
       = claim_rounds n env (apply_charge_success env) uid jid spec msg hex w1"
proof -
  obtain a where a: "active_for (w_db w) (p_id p) = Some a" "find_charge (w_db w) (c_id a) = Some a"
      "is_past_window a (clock w)" "c_reference a = ref"
    and p: "find (\<lambda>p. p_jobId p = jid \<and> p_customerId p = uid \<and> p_status p = Pay_PENDING) (t_payments (w_db w)) = Some p"
      "find_payment (w_db w) (p_id p) = Some p"
    using assms(1) unfolding stuck_def by blast
  obtain rc where rc: "\<And>calls. pv_verify (e_pv env) calls ref = Verified rc" "rc_status rc = Some ''success''"
      "\<not> amount_matches (remote_data ref rc) p"
    using assms(2) unfolding pays_wrong_amount_def by blast
  note act = active_for_Some [OF a(1)]
  have "claim_tx uid jid spec msg hex w = (Inr (Stale p a), w)"
    using a p by (simp add: claim_tx_def lock_payable_def run_simps)
  then have try_: "try_claim uid jid spec msg hex w = (Inr (Stale p a), w)"
    by (simp add: try_claim_def transaction_def attempt_def act_defs)
  let ?w1 = "asked env a w"
  have "settle_tx (c_id a) (remote_data ref rc) ?w1 = (Inr None, ?w1)"
    using act a(2) p rc(3) by (simp add: settle_tx_def run_simps find_charge_checked is_active_def)
  then have "apply_charge_success env (c_id a) (remote_data ref rc) ?w1 = (Inr (), ?w1)"
    by (simp add: apply_charge_success_def run_simps)
  then have "reconcile env (apply_charge_success env) a True w = (Inr Settled, ?w1)"
    using reconcile_forced(1) [of a env w] act rc a(4) by (force simp: paystack_says_def act_defs)
  then have "claim_rounds (Suc n) env (apply_charge_success env) uid jid spec msg hex w
       = claim_rounds n env (apply_charge_success env) uid jid spec msg hex ?w1"
    using try_ by (simp add: act_defs)
  moreover have "stuck uid jid p ref ?w1"
    using a p unfolding stuck_def by (simp add: active_for_checked find_charge_checked is_past_window_def expires_at_def
        split: option.splits)
  ultimately show ?thesis using a(4) rc(1) by (intro exI [of _ ?w1]) (simp add: asked_def)
qed

lemma stuck_rounds:
  assumes "stuck uid jid p ref w" and "pays_wrong_amount env ref p"
  shows "\<exists>w1. claim_rounds n env (apply_charge_success env) uid jid spec msg hex w = (Inl (Conflict_pay Attempt_starting), w1)
     \<and> stuck uid jid p ref w1 \<and> t_payments (w_db w1) = t_payments (w_db w) \<and> outbox w1 = outbox w
     \<and> ps_log w1 = ps_log w @ replicate n (PsVerify ref, True)"
  using assms(1)
proof (induction n arbitrary: w)
  case 0
  then show ?case by (auto simp: run_simps)
next
  case (Suc n)
  from stuck_round [OF Suc.prems assms(2)] obtain w1 where w1: "stuck uid jid p ref w1"
      "t_payments (w_db w1) = t_payments (w_db w)" "outbox w1 = outbox w" "ps_log w1 = ps_log w @ [(PsVerify ref, True)]"
      "claim_rounds (Suc n) env (apply_charge_success env) uid jid spec msg hex w
       = claim_rounds n env (apply_charge_success env) uid jid spec msg hex w1" by blast
  from Suc.IH [OF w1(1)] show ?case using w1 by (auto simp del: claim_rounds.simps)
qed

text \<open>
  An attempt past its window whose success at Paystack is not the amount due blocks the job. The
  check finds the success, the settlement refuses the amount and leaves the attempt active, and every
  further round of the claim finds it again: each claim, of any kind, asks Paystack four times and then
  ends in the refusal that the source reserves for repeated index races; nothing has changed for the
  next claim, and nobody is told.
\<close>

theorem wrong_amount_blocks_claims:
  assumes "stuck uid jid p ref w" and "pays_wrong_amount env ref p"
  shows "\<exists>w1. claim env (apply_charge_success env) uid jid spec msg hex w = (Inl (Conflict_pay Attempt_starting), w1)
     \<and> stuck uid jid p ref w1 \<and> t_payments (w_db w1) = t_payments (w_db w) \<and> outbox w1 = outbox w
     \<and> ps_log w1 = ps_log w @ replicate 4 (PsVerify ref, True)"
  unfolding claim_def by (rule stuck_rounds [OF assms])

definition fx_short :: verify_result where
  "fx_short = Verified \<lparr>rc_status = Some ''success'', rc_amount = 100, rc_currency = None, rc_channel = None, rc_paid_at = None\<rparr>"

definition fx_late :: world where
  "fx_late = (fx_paying (fx_payment Pay_PENDING) [fx_charge ''ref'' 50])\<lparr>clock := 2000000\<rparr>"

theorem wrong_amount_blocks_claims_witness:
  "\<exists>w1. claim (fx_remote fx_short) (apply_charge_success (fx_remote fx_short)) 1 7 Spec_hosted Charge_not_found ''ab'' fx_late
     = (Inl (Conflict_pay Attempt_starting), w1)"
proof -
  have "stuck 1 7 (fx_payment Pay_PENDING) ''ref'' fx_late"
    by (simp add: stuck_def fx_late_def fx_pay_defs fx_finders active_for_def is_active_def is_past_window_def
        expires_at_def)
  moreover have "pays_wrong_amount (fx_remote fx_short) ''ref'' (fx_payment Pay_PENDING)"
    by (simp add: pays_wrong_amount_def fx_remote_def fx_short_def amount_matches_def remote_data_def fx_defs)
  ultimately show ?thesis using wrong_amount_blocks_claims by blast
qed

end
