(* ===== verification/Jobs.thy ===== *)
theory Jobs
  imports Payments ChargeOutcome
begin

text \<open>
  The jobs service (jobs/jobs.service.ts), the exact-location helpers it uses
  (common/location/exact-location.ts), the search pattern of payments/like-escape.util.ts and the two
  nightly runs of scheduler/jobs-scheduler.service.ts. Numeric columns hold the values given (the
  rounding of the column types is the database's), and saving a job loaded with its relations writes
  the relations too, as TypeORM does: an accepted artisan whose account was soft-deleted is loaded as
  null and saved as null, and a job whose customer is gone cannot be saved.
\<close>

section \<open>Exact location\<close>

record pin =
  pin_latitude :: "rat sent"
  pin_longitude :: "rat sent"
  pin_accuracy :: "rat sent"
  pin_landmark :: "string sent"

record location_columns =
  lc_latitude :: "rat sent"
  lc_longitude :: "rat sent"
  lc_accuracyM :: "int sent"
  lc_landmark :: "string sent"

definition exact_location_columns :: "pin \<Rightarrow> location_columns" where
  "exact_location_columns i =
     (let point_sent = (pin_latitude i \<noteq> Absent \<or> pin_longitude i \<noteq> Absent);
          has = (pin_latitude i \<notin> {Absent, Null} \<and> pin_longitude i \<notin> {Absent, Null})
      in \<lparr>lc_latitude = (if point_sent then (if has then pin_latitude i else Null) else Absent),
          lc_longitude = (if point_sent then (if has then pin_longitude i else Null) else Absent),
          lc_accuracyM = (if point_sent
             then (case pin_accuracy i of Sent a \<Rightarrow> if has then Sent (js_round a) else Null | _ \<Rightarrow> Null)
             else Absent),
          lc_landmark = (case pin_landmark i of Absent \<Rightarrow> Absent | Null \<Rightarrow> Null
             | Sent t \<Rightarrow> if js_trim t = [] then Null else Sent (js_trim t))\<rparr>)"

section \<open>Search patterns\<close>

definition escape_like :: "string \<Rightarrow> string" where
  "escape_like s = concat (map (\<lambda>c. if c \<in> {CHR 0x5C, CHR ''%'', CHR ''_''} then [CHR 0x5C, c] else [c]) s)"

definition contains_pattern :: "string \<Rightarrow> string" where
  "contains_pattern s = CHR ''%'' # escape_like s @ ''%''"

text \<open>SQL \<open>LIKE\<close> with \<open>ESCAPE '\'\<close>: \<open>%\<close> is any text, \<open>_\<close> any one character.\<close>

fun like_match :: "string \<Rightarrow> string \<Rightarrow> bool" where
  "like_match [] t = (t = [])"
| "like_match (p # ps) t =
     (if p = CHR ''%'' then like_match ps t \<or> (case t of [] \<Rightarrow> False | c # cs \<Rightarrow> like_match (p # ps) cs)
      else if p = CHR 0x5C
      then (case ps of [] \<Rightarrow> False
            | q # qs \<Rightarrow> (case t of [] \<Rightarrow> False | c # cs \<Rightarrow> c = q \<and> like_match qs cs))
      else (case t of [] \<Rightarrow> False | c # cs \<Rightarrow> (p = CHR ''_'' \<or> p = c) \<and> like_match ps cs))"

section \<open>Loading and saving jobs\<close>

record loaded_job =
  lj_job :: job
  lj_customer :: "user option"
  lj_service :: "service option"
  lj_artisan :: "user option"
  lj_artisanProfile :: "profile option"

definition with_relations :: "db \<Rightarrow> job \<Rightarrow> loaded_job" where
  "with_relations d j =
     (let art = Option.bind (j_acceptedArtisanId j) (find_user d)
      in \<lparr>lj_job = j, lj_customer = find_user d (j_customerId j), lj_service = find_service d (j_serviceId j),
          lj_artisan = art, lj_artisanProfile = Option.bind art (\<lambda>u. profile_of_user d (u_id u))\<rparr>)"

definition load_job_or_fail :: "nat \<Rightarrow> loaded_job act" where
  "load_job_or_fail jid =
     bnd (asks (\<lambda>w. find_job (w_db w) jid)) (\<lambda>j0.
     bnd (some_or (NotFound_job (Job_not_found jid)) j0) (\<lambda>j.
     asks (\<lambda>w. with_relations (w_db w) j)))"

definition save_loaded :: "loaded_job \<Rightarrow> unit act" where
  "save_loaded l =
     andthen (guard (lj_customer l \<noteq> None \<and> lj_service l \<noteq> None) NotNullViolation)
       (with_db (put_job ((lj_job l)\<lparr>j_acceptedArtisanId := map_option u_id (lj_artisan l)\<rparr>)))"

text \<open>\<open>job.customer.id\<close>, which throws when the customer's account is gone.\<close>

definition customer_of :: "loaded_job \<Rightarrow> user act" where
  "customer_of l = some_or TypeError (lj_customer l)"

definition add_history :: "history \<Rightarrow> db \<Rightarrow> db" where
  "add_history h d = d\<lparr>t_history := t_history d @ [h]\<rparr>"

definition record_history :: "nat \<Rightarrow> status option \<Rightarrow> status \<Rightarrow> string \<Rightarrow> string option \<Rightarrow> unit act" where
  "record_history jid from to by reason =
     bnd (fresh T_history) (\<lambda>k. bnd (asks clock) (\<lambda>now.
     with_db (add_history \<lparr>h_id = k, h_jobId = jid, h_from = from, h_to = to, h_changedBy = by,
       h_reason = reason, h_createdAt = now\<rparr>)))"

definition transition_and_save :: "loaded_job \<Rightarrow> status \<Rightarrow> string \<Rightarrow> string option \<Rightarrow> unit act" where
  "transition_and_save l to by reason =
     transaction (andthen (save_loaded (l\<lparr>lj_job := (lj_job l)\<lparr>j_status := to\<rparr>\<rparr>))
       (record_history (j_id (lj_job l)) (Some (j_status (lj_job l))) to by reason))"

definition update_applications :: "(application \<Rightarrow> bool) \<Rightarrow> (application \<Rightarrow> application) \<Rightarrow> db \<Rightarrow> db" where
  "update_applications q f d = d\<lparr>t_applications := update_where q f (t_applications d)\<rparr>"

definition update_bookings :: "(booking \<Rightarrow> bool) \<Rightarrow> (booking \<Rightarrow> booking) \<Rightarrow> db \<Rightarrow> db" where
  "update_bookings q f d = d\<lparr>t_bookings := update_where q f (t_bookings d)\<rparr>"

definition sync_linked_booking :: "nat \<Rightarrow> booking_status \<Rightarrow> unit act" where
  "sync_linked_booking jid to =
     with_db (\<lambda>d. update_bookings
       (\<lambda>b. b_status b = Bk_CONFIRMED \<and> (\<exists>j \<in> set (t_jobs d). j_id j = jid \<and> j_bookingId j = Some (b_id b)))
       (\<lambda>b. b\<lparr>b_status := to\<rparr>) d)"

definition MIME_BY_EXT :: "(string \<times> string) list" where
  "MIME_BY_EXT = [(''.jpg'', ''image/jpeg''), (''.jpeg'', ''image/jpeg''), (''.png'', ''image/png''), (''.webp'', ''image/webp'')]"

text \<open>\<open>url.slice(url.lastIndexOf('.'))\<close>: without a dot, the last character.\<close>

definition last_dot_on :: "string \<Rightarrow> string" where
  "last_dot_on url = (if CHR ''.'' \<in> set url then CHR ''.'' # rev (takeWhile (\<lambda>c. c \<noteq> CHR ''.'') (rev url))
     else rev (take 1 (rev url)))"

definition guess_mime_from_url :: "string \<Rightarrow> string" where
  "guess_mime_from_url url = (case map_of MIME_BY_EXT (map ascii_lower (last_dot_on url)) of
     Some m \<Rightarrow> m | None \<Rightarrow> ''image/jpeg'')"

section \<open>Assertions\<close>

definition is_owner :: "job \<Rightarrow> nat \<Rightarrow> bool" where
  "is_owner j uid \<longleftrightarrow> j_customerId j = uid"

definition assert_owner :: "job \<Rightarrow> nat \<Rightarrow> unit act" where
  "assert_owner j uid = guard (j_customerId j = uid) (Forbidden_job Not_job_owner)"

definition assert_accepted_artisan :: "job \<Rightarrow> nat \<Rightarrow> unit act" where
  "assert_accepted_artisan j uid = guard (j_acceptedArtisanId j = Some uid) (Forbidden_job Not_accepted_artisan)"

definition assert_mutable :: "job \<Rightarrow> unit act" where
  "assert_mutable j =
     andthen (guard (j_status j \<notin> {COMPLETED, CANCELLED, EXPIRED}) (BadRequest_job (Immutable_status (j_status j))))
       (guard (j_status j = OPEN) (BadRequest_job Artisan_already_accepted))"

text \<open>\<open>Number(null)\<close> is 0.\<close>

fun js_number :: "money sent \<Rightarrow> money" where
  "js_number (Sent m) = m"
| "js_number _ = 0"

definition assert_budget :: "money sent \<Rightarrow> money sent \<Rightarrow> unit act" where
  "assert_budget mn mx =
     guard (\<not> (mn \<noteq> Absent \<and> mx \<noteq> Absent \<and> js_number mx < js_number mn)) (BadRequest_job Budget_max_below_min)"

definition assert_cancellable :: "job \<Rightarrow> unit act" where
  "assert_cancellable j =
     andthen (guard (j_status j \<notin> {COMPLETED, CANCELLED}) (BadRequest_job (Cannot_cancel_status (j_status j))))
      (andthen (guard (j_status j \<noteq> EXPIRED) (BadRequest_job Cannot_cancel_expired))
        (guard (j_completionRequestedAt j = None) (BadRequest_job Cannot_cancel_after_request)))"

section \<open>Views\<close>

record viewer =
  vw_id :: nat
  vw_role :: role

record job_view =
  jv_id :: nat
  jv_title :: "string option"
  jv_description :: "string option"
  jv_customer :: "(nat \<times> string \<times> string) option"
  jv_service :: "(nat \<times> string) option"
  jv_artisan :: "(nat \<times> string \<times> string \<times> nat option) option"
  jv_location :: string
  jv_budgetMin :: "money option"
  jv_budgetMax :: "money option"
  jv_currency :: string
  jv_exact :: "(rat option \<times> rat option \<times> int option \<times> string option) option"
  jv_status :: status
  jv_deadline :: "int option"
  jv_bookingId :: "nat option"
  jv_completionRequestedAt :: "int option"
  jv_hasApplied :: "bool option"
  jv_attachments :: "attachment list option"
  jv_history :: "history list option"
  jv_createdAt :: int

text \<open>\<open>plainToInstance(JobResponseDto, job, { excludeExtraneousValues: true })\<close>.\<close>

definition to_view :: "loaded_job \<Rightarrow> job_view" where
  "to_view l =
     (let j = lj_job l in
      \<lparr>jv_id = j_id j, jv_title = j_title j, jv_description = j_description j,
       jv_customer = map_option (\<lambda>u. (u_id u, u_firstname u, u_lastname u)) (lj_customer l),
       jv_service = map_option (\<lambda>s. (s_id s, s_name s)) (lj_service l),
       jv_artisan = map_option (\<lambda>u. (u_id u, u_firstname u, u_lastname u, map_option pr_id (lj_artisanProfile l))) (lj_artisan l),
       jv_location = j_location j, jv_budgetMin = j_budgetMin j, jv_budgetMax = j_budgetMax j, jv_currency = j_currency j,
       jv_exact = Some (j_latitude j, j_longitude j, j_accuracyM j, j_landmark j),
       jv_status = j_status j, jv_deadline = j_deadline j, jv_bookingId = j_bookingId j,
       jv_completionRequestedAt = j_completionRequestedAt j, jv_hasApplied = None, jv_attachments = None,
       jv_history = None, jv_createdAt = j_createdAt j\<rparr>)"

definition redact_exact_location :: "job_view \<Rightarrow> job_view" where
  "redact_exact_location v = v\<lparr>jv_exact := None\<rparr>"

definition can_see_exact_location :: "nat option \<Rightarrow> nat option \<Rightarrow> viewer \<Rightarrow> bool" where
  "can_see_exact_location customer artisan v \<longleftrightarrow>
     vw_role v = ADMIN \<or> customer = Some (vw_id v) \<or> artisan = Some (vw_id v)"

definition with_location_privacy :: "job_view \<Rightarrow> viewer \<Rightarrow> job_view" where
  "with_location_privacy dto v =
     (if can_see_exact_location (map_option fst (jv_customer dto)) (map_option fst (jv_artisan dto)) v
      then dto else redact_exact_location dto)"

definition history_of :: "db \<Rightarrow> nat \<Rightarrow> history list" where
  "history_of d jid = sort_key h_createdAt (sort_key h_id (filter (\<lambda>h. h_jobId h = jid) (t_history d)))"

definition load_job_dto :: "nat \<Rightarrow> viewer \<Rightarrow> bool \<Rightarrow> job_view act" where
  "load_job_dto jid v with_detail =
     bnd (load_job_or_fail jid) (\<lambda>l.
     asks (\<lambda>w. let dto = with_location_privacy (to_view l) v
        in if with_detail
           then dto\<lparr>jv_history := Some (history_of (w_db w) jid),
                    jv_attachments := Some (filter (\<lambda>a. at_jobId a = jid) (t_attachments (w_db w)))\<rparr>
           else dto))"

definition has_applied :: "db \<Rightarrow> nat \<Rightarrow> nat \<Rightarrow> bool" where
  "has_applied d uid jid \<longleftrightarrow> (\<exists>a \<in> set (t_applications d). a_artisanId a = uid \<and> a_jobId a = jid)"

definition attach_has_applied :: "db \<Rightarrow> viewer \<Rightarrow> job_view \<Rightarrow> job_view" where
  "attach_has_applied d v dto =
     (if vw_role v = ARTISAN then dto\<lparr>jv_hasApplied := Some (has_applied d (vw_id v) (jv_id dto))\<rparr> else dto)"

text \<open>
  Who may read a job, from the loaded job and, for lists, as a condition on the row. The join in
  \<open>exists\<close> leaves out an applicant whose account is gone.
\<close>

definition can_view_job :: "db \<Rightarrow> viewer \<Rightarrow> loaded_job \<Rightarrow> bool" where
  "can_view_job d v l \<longleftrightarrow>
     vw_role v = ADMIN \<or> map_option u_id (lj_customer l) = Some (vw_id v)
     \<or> vw_role v = ARTISAN \<and> (j_status (lj_job l) = OPEN \<or> map_option u_id (lj_artisan l) = Some (vw_id v)
          \<or> find_user d (vw_id v) \<noteq> None \<and> has_applied d (vw_id v) (j_id (lj_job l)))"

definition in_viewer_scope :: "db \<Rightarrow> viewer \<Rightarrow> job \<Rightarrow> bool" where
  "in_viewer_scope d v j \<longleftrightarrow>
     (if vw_role v = ADMIN then True
      else if vw_role v \<noteq> ARTISAN then j_customerId j = vw_id v
      else j_status j = OPEN \<or> j_acceptedArtisanId j = Some (vw_id v) \<or> has_applied d (vw_id v) (j_id j))"

definition find_one :: "nat \<Rightarrow> viewer \<Rightarrow> job_view act" where
  "find_one jid v =
     bnd (load_job_or_fail jid) (\<lambda>l.
     bnd (asks (\<lambda>w. can_view_job (w_db w) v l)) (\<lambda>ok.
     andthen (guard ok (NotFound_job (Job_not_found jid)))
     (bnd (load_job_dto jid v True) (\<lambda>dto. asks (\<lambda>w. attach_has_applied (w_db w) v dto)))))"

section \<open>Lists\<close>

record job_query =
  jq_statuses :: "status list"
  jq_serviceId :: "nat option"
  jq_location :: "string option"
  jq_page :: nat
  jq_limit :: nat

record pagination =
  pg_total :: nat
  pg_page :: nat
  pg_limit :: nat
  pg_totalPages :: int

definition paginate :: "nat \<Rightarrow> nat \<Rightarrow> nat \<Rightarrow> pagination" where
  "paginate n page limit = \<lparr>pg_total = n, pg_page = page, pg_limit = limit,
     pg_totalPages = \<lceil>of_nat n / of_nat limit :: rat\<rceil>\<rparr>"

text \<open>An empty \<open>location\<close> or a service id 0 is falsy and filters nothing.\<close>

definition passes_filters :: "unicode \<Rightarrow> job_query \<Rightarrow> job \<Rightarrow> bool" where
  "passes_filters uc q j \<longleftrightarrow>
     (jq_statuses q = [] \<or> j_status j \<in> set (jq_statuses q))
     \<and> (truthy_id (jq_serviceId q) \<longrightarrow> Some (j_serviceId j) = jq_serviceId q)
     \<and> (truthy (jq_location q) \<longrightarrow>
          like_match (contains_pattern (map (uc_lower uc) (the (jq_location q)))) (map (uc_lower uc) (j_location j)))"

definition page_of :: "nat \<Rightarrow> nat \<Rightarrow> 'a list \<Rightarrow> 'a list" where
  "page_of page limit xs = take limit (drop ((page - 1) * limit) xs)"

text \<open>\<open>ORDER BY created_at DESC\<close>; for the caller's own jobs also \<open>id DESC\<close>. Rows of one instant are otherwise in table order.\<close>

definition find_all :: "unicode \<Rightarrow> job_query \<Rightarrow> viewer \<Rightarrow> (job_view list \<times> pagination) act" where
  "find_all uc q v = asks (\<lambda>w.
     let d = w_db w;
         rows = filter (\<lambda>j. j_deletedAt j = None \<and> in_viewer_scope d v j \<and> passes_filters uc q j) (t_jobs d);
         ordered = sort_key (\<lambda>j. - j_createdAt j) rows
     in (map (\<lambda>j. attach_has_applied d v (with_location_privacy (to_view (with_relations d j)) v))
           (page_of (jq_page q) (jq_limit q) ordered),
         paginate (length rows) (jq_page q) (jq_limit q)))"

definition find_mine :: "unicode \<Rightarrow> nat \<Rightarrow> job_query \<Rightarrow> (job_view list \<times> pagination) act" where
  "find_mine uc uid q = asks (\<lambda>w.
     let d = w_db w;
         rows = filter (\<lambda>j. j_deletedAt j = None \<and> j_customerId j = uid \<and> passes_filters uc q j) (t_jobs d);
         ordered = sort_key (\<lambda>j. - j_createdAt j) (rev (sort_key j_id rows))
     in (map (\<lambda>j. with_location_privacy (to_view (with_relations d j)) \<lparr>vw_id = uid, vw_role = CUSTOMER\<rparr>)
           (page_of (jq_page q) (jq_limit q) ordered),
         paginate (length rows) (jq_page q) (jq_limit q)))"

record job_summary =
  js_byStatus :: "status \<Rightarrow> nat"
  js_open :: nat
  js_in_progress :: nat
  js_completed :: nat
  js_closed :: nat
  js_total :: nat

definition ALL_STATUSES :: "status list" where
  "ALL_STATUSES = [OPEN, PENDING, IN_PROGRESS, COMPLETED, CANCELLED, EXPIRED]"

definition get_my_summary :: "nat \<Rightarrow> job_summary act" where
  "get_my_summary uid = asks (\<lambda>w.
     let by = (\<lambda>st. length (filter (\<lambda>j. j_customerId j = uid \<and> j_deletedAt j = None \<and> j_status j = st) (t_jobs (w_db w))))
     in \<lparr>js_byStatus = by, js_open = by OPEN, js_in_progress = by PENDING + by IN_PROGRESS,
         js_completed = by COMPLETED, js_closed = by CANCELLED + by EXPIRED,
         js_total = sum_list (map by ALL_STATUSES)\<rparr>)"

section \<open>Posting and editing\<close>

record job_input =
  ji_title :: string
  ji_description :: "string option"
  ji_serviceId :: nat
  ji_location :: string
  ji_budgetMin :: "money sent"
  ji_budgetMax :: "money sent"
  ji_currency :: string
  ji_pin :: pin
  ji_deadline :: "int option"
  ji_attachmentUrls :: "string list"

definition new_job :: "nat \<Rightarrow> job_input \<Rightarrow> nat \<Rightarrow> int \<Rightarrow> job" where
  "new_job jid i uid now =
     (let ex = exact_location_columns (ji_pin i) in
      \<lparr>j_id = jid, j_customerId = uid, j_serviceId = ji_serviceId i, j_title = Some (ji_title i),
       j_description = ji_description i, j_location = ji_location i,
       j_budgetMin = assigned (ji_budgetMin i) None, j_budgetMax = assigned (ji_budgetMax i) None,
       j_currency = ji_currency i, j_latitude = assigned (lc_latitude ex) None,
       j_longitude = assigned (lc_longitude ex) None, j_accuracyM = assigned (lc_accuracyM ex) None,
       j_landmark = assigned (lc_landmark ex) None, j_status = OPEN, j_acceptedArtisanId = None,
       j_paymentIntentId = None, j_deadline = ji_deadline i, j_completionRequestedAt = None,
       j_bookingId = None, j_createdAt = now, j_deletedAt = None\<rparr>)"

definition insert_job :: "(nat \<Rightarrow> job) \<Rightarrow> job act" where
  "insert_job mk =
     bnd (fresh T_jobs) (\<lambda>k.
     bnd (asks (\<lambda>w. j_id (mk k) \<notin> j_id ` set (t_jobs (w_db w)))) (\<lambda>free.
     andthen (guard free UniqueViolation)
       (andthen (with_db (put_job (mk k))) (ret (mk k)))))"

definition add_attachment :: "nat \<Rightarrow> string \<Rightarrow> unit act" where
  "add_attachment jid url =
     bnd (fresh T_attachments) (\<lambda>k.
     with_db (\<lambda>d. d\<lparr>t_attachments := t_attachments d @
       [\<lparr>at_id = k, at_jobId = jid, at_url = url, at_fileType = guess_mime_from_url url\<rparr>]\<rparr>))"

definition create_tx :: "job_input \<Rightarrow> nat \<Rightarrow> job act" where
  "create_tx i uid =
     bnd (asks clock) (\<lambda>now.
     bnd (insert_job (\<lambda>k. new_job k i uid now)) (\<lambda>j.
     andthen (record_history (j_id j) None OPEN (show_nat uid) None)
     (andthen (for_each (ji_attachmentUrls i) (add_attachment (j_id j))) (ret j))))"

definition create_job :: "job_input \<Rightarrow> viewer \<Rightarrow> job_view act" where
  "create_job i v =
     andthen (guard (vw_role v = CUSTOMER) (Forbidden_job Only_customers_post))
     (andthen (assert_budget (ji_budgetMin i) (ji_budgetMax i))
     (bnd (asks (\<lambda>w. find_user (w_db w) (vw_id v))) (\<lambda>u.
     andthen (guard (u \<noteq> None) (NotFound_job Customer_not_found))
     (bnd (asks (\<lambda>w. find_service (w_db w) (ji_serviceId i))) (\<lambda>s0.
     bnd (some_or (NotFound_job (Service_not_found (ji_serviceId i))) s0) (\<lambda>s.
     andthen (guard (s_isActive s) (BadRequest_job Service_retired))
     (bnd (transaction (create_tx i (vw_id v))) (\<lambda>j. load_job_dto (j_id j) v True))))))))"

record job_update =
  jp_title :: "string sent"
  jp_description :: "string sent"
  jp_location :: "string sent"
  jp_budgetMin :: "money sent"
  jp_budgetMax :: "money sent"
  jp_currency :: "string sent"
  jp_pin :: pin
  jp_deadline :: "int sent"

definition apply_update :: "job_update \<Rightarrow> job \<Rightarrow> job" where
  "apply_update u j =
     (let ex = exact_location_columns (jp_pin u) in
      j\<lparr>j_title := assigned (jp_title u) (j_title j),
        j_description := assigned (jp_description u) (j_description j),
        j_location := the (assigned (jp_location u) (Some (j_location j))),
        j_budgetMin := assigned (jp_budgetMin u) (j_budgetMin j),
        j_budgetMax := assigned (jp_budgetMax u) (j_budgetMax j),
        j_currency := the (assigned (jp_currency u) (Some (j_currency j))),
        j_latitude := assigned (lc_latitude ex) (j_latitude j),
        j_longitude := assigned (lc_longitude ex) (j_longitude j),
        j_accuracyM := assigned (lc_accuracyM ex) (j_accuracyM j),
        j_landmark := assigned (lc_landmark ex) (j_landmark j),
        j_deadline := assigned (jp_deadline u) (j_deadline j)\<rparr>)"

definition update_job :: "nat \<Rightarrow> job_update \<Rightarrow> nat \<Rightarrow> job_view act" where
  "update_job jid u uid =
     bnd (load_job_or_fail jid) (\<lambda>l.
     andthen (assert_owner (lj_job l) uid)
     (andthen (assert_mutable (lj_job l))
     (andthen (assert_budget (or_else (jp_budgetMin u) (of_column (j_budgetMin (lj_job l))))
                             (or_else (jp_budgetMax u) (of_column (j_budgetMax (lj_job l)))))
     (andthen (guard (jp_location u \<noteq> Null \<and> jp_currency u \<noteq> Null) NotNullViolation)
     (andthen (save_loaded (l\<lparr>lj_job := apply_update u (lj_job l)\<rparr>))
       (load_job_dto jid \<lparr>vw_id = uid, vw_role = CUSTOMER\<rparr> False))))))"

definition remove_job :: "nat \<Rightarrow> nat \<Rightarrow> unit act" where
  "remove_job jid uid =
     bnd (load_job_or_fail jid) (\<lambda>l.
     andthen (assert_owner (lj_job l) uid)
     (andthen (guard (j_status (lj_job l) = OPEN) (BadRequest_job (Only_open_deleted (j_status (lj_job l)))))
     (bnd (asks clock) (\<lambda>now. with_db (put_job ((lj_job l)\<lparr>j_deletedAt := Some now\<rparr>))))))"

section \<open>Applications\<close>

definition pending_applications :: "db \<Rightarrow> nat \<Rightarrow> application list" where
  "pending_applications d jid = filter (\<lambda>a. a_jobId a = jid \<and> a_status a = App_PENDING) (t_applications d)"

definition apply_to_job :: "nat \<Rightarrow> nat \<Rightarrow> money option \<Rightarrow> string option \<Rightarrow> (application \<times> user option) act" where
  "apply_to_job jid uid quote message =
     bnd (load_job_or_fail jid) (\<lambda>l.
     andthen (guard (j_status (lj_job l) = OPEN) (BadRequest_job (Apply_only_open (j_status (lj_job l)))))
     (bnd (asks (\<lambda>w. find_user (w_db w) uid \<noteq> None \<and> has_applied (w_db w) uid jid)) (\<lambda>existing.
     andthen (guard (\<not> existing) (Conflict_job Already_applied))
     (bnd (asks (\<lambda>w. find_user (w_db w) uid)) (\<lambda>u0.
     bnd (some_or (NotFound_job Artisan_not_found) u0) (\<lambda>u.
     bnd (fresh T_applications) (\<lambda>k.
     bnd (asks clock) (\<lambda>now.
     let a = \<lparr>a_id = k, a_jobId = jid, a_artisanId = uid, a_quotePrice = quote, a_message = message,
              a_status = App_PENDING, a_createdAt = now\<rparr>
     in andthen (with_db (put_application a))
        (bnd (customer_of l) (\<lambda>c.
         andthen (emit (JOB_APPLICATION_RECEIVED (u_id c) (u_firstname u @ '' '' @ u_lastname u) (job_title (lj_job l)) jid))
           (ret (a, Some u))))))))))))"

definition get_applications :: "nat \<Rightarrow> nat \<Rightarrow> (application \<times> user option \<times> nat option) list act" where
  "get_applications jid uid =
     bnd (load_job_or_fail jid) (\<lambda>l.
     andthen (assert_owner (lj_job l) uid)
       (asks (\<lambda>w. map (\<lambda>a. (a, find_user (w_db w) (a_artisanId a),
            Option.bind (find_user (w_db w) (a_artisanId a)) (\<lambda>u. map_option pr_id (profile_of_user (w_db w) (u_id u)))))
          (sort_key a_createdAt (filter (\<lambda>a. a_jobId a = jid) (t_applications (w_db w)))))))"

text \<open>
  Accepting has a reading half and a writing half; no lock is held between them. The writing half
  uses what the reading half loaded.
\<close>

record accept_plan =
  ap_job :: loaded_job
  ap_application :: application
  ap_artisan :: user
  ap_rejected :: "user option list"

definition accept_load :: "nat \<Rightarrow> nat \<Rightarrow> nat \<Rightarrow> accept_plan act" where
  "accept_load jid aid uid =
     bnd (load_job_or_fail jid) (\<lambda>l.
     andthen (assert_owner (lj_job l) uid)
     (andthen (guard (j_status (lj_job l) = OPEN) (BadRequest_job (Accept_only_open (j_status (lj_job l)))))
     (bnd (asks (\<lambda>w. find (\<lambda>a. a_id a = aid \<and> a_jobId a = jid) (t_applications (w_db w)))) (\<lambda>a0.
     bnd (some_or (NotFound_job (Application_not_found aid jid)) a0) (\<lambda>a.
     andthen (guard (a_status a = App_PENDING) (BadRequest_job (Accept_only_pending (a_status a))))
     (bnd (asks (\<lambda>w. map (\<lambda>x. find_user (w_db w) (a_artisanId x))
             (filter (\<lambda>x. a_id x \<noteq> aid) (pending_applications (w_db w) jid)))) (\<lambda>others.
     bnd (asks (\<lambda>w. find_user (w_db w) (a_artisanId a))) (\<lambda>u0.
     bnd (some_or TypeError u0) (\<lambda>u.
     ret \<lparr>ap_job = l, ap_application = a, ap_artisan = u, ap_rejected = others\<rparr>)))))))))"

definition emit_rejected :: "string \<Rightarrow> nat \<Rightarrow> user option \<Rightarrow> unit act" where
  "emit_rejected title jid u0 = bnd (some_or TypeError u0) (\<lambda>u. emit (JOB_APPLICATION_REJECTED (u_id u) title jid))"

definition accepted_reason :: "nat \<Rightarrow> string" where
  "accepted_reason aid = ''Application '' @ show_nat aid @ '' accepted''"

definition accept_commit :: "env \<Rightarrow> nat \<Rightarrow> nat \<Rightarrow> nat \<Rightarrow> accept_plan \<Rightarrow> job_view act" where
  "accept_commit env jid aid uid pl =
     (let l = ap_job pl; j = lj_job l; u = ap_artisan pl in
      bnd (hold_payment env jid uid (u_id u) (a_quotePrice (ap_application pl))) (\<lambda>intent.
      andthen (with_db (put_application ((ap_application pl)\<lparr>a_status := App_ACCEPTED\<rparr>)))
      (andthen (with_db (update_applications
          (\<lambda>a. a_jobId a = jid \<and> a_id a \<noteq> aid \<and> a_status a = App_PENDING) (\<lambda>a. a\<lparr>a_status := App_REJECTED\<rparr>)))
      (andthen (save_loaded (l\<lparr>lj_job := j\<lparr>j_status := PENDING, j_paymentIntentId := Some intent\<rparr>, lj_artisan := Some u\<rparr>))
      (andthen (record_history (j_id j) (Some (j_status j)) PENDING (show_nat uid) (Some (accepted_reason aid)))
      (andthen (emit (JOB_APPLICATION_ACCEPTED (u_id u) (job_title j) (j_id j)))
      (andthen (for_each (ap_rejected pl) (emit_rejected (job_title j) (j_id j)))
        (load_job_dto jid \<lparr>vw_id = uid, vw_role = CUSTOMER\<rparr> False))))))))"

definition accept_application :: "env \<Rightarrow> nat \<Rightarrow> nat \<Rightarrow> nat \<Rightarrow> job_view act" where
  "accept_application env jid aid uid = bnd (accept_load jid aid uid) (accept_commit env jid aid uid)"

section \<open>Doing the work\<close>

definition start_job :: "nat \<Rightarrow> nat \<Rightarrow> job_view act" where
  "start_job jid uid =
     bnd (load_job_or_fail jid) (\<lambda>l.
     andthen (guard (j_status (lj_job l) = PENDING) (BadRequest_job (Start_only_pending (j_status (lj_job l)))))
     (andthen (assert_accepted_artisan (lj_job l) uid)
     (bnd (asks (\<lambda>w. truthy (j_paymentIntentId (lj_job l))
              \<and> \<not> is_payment_secured (the (j_paymentIntentId (lj_job l))) (w_db w))) (\<lambda>unpaid.
     andthen (guard (\<not> unpaid) (BadRequest_job Not_paid_yet))
     (andthen (transition_and_save l IN_PROGRESS (show_nat uid) None)
     (bnd (customer_of l) (\<lambda>c.
     andthen (emit (JOB_STARTED (u_id c) (job_title (lj_job l)) (j_id (lj_job l))))
       (load_job_dto jid \<lparr>vw_id = uid, vw_role = ARTISAN\<rparr> False))))))))"

definition request_completion :: "nat \<Rightarrow> nat \<Rightarrow> job_view act" where
  "request_completion jid uid =
     bnd (load_job_or_fail jid) (\<lambda>l.
     andthen (guard (j_status (lj_job l) = IN_PROGRESS) (BadRequest_job (Request_only_in_progress (j_status (lj_job l)))))
     (andthen (assert_accepted_artisan (lj_job l) uid)
     (andthen (guard (j_completionRequestedAt (lj_job l) = None) (BadRequest_job Completion_already_requested))
     (bnd (asks clock) (\<lambda>now.
     andthen (save_loaded (l\<lparr>lj_job := (lj_job l)\<lparr>j_completionRequestedAt := Some now\<rparr>\<rparr>))
     (bnd (customer_of l) (\<lambda>c.
     andthen (emit (JOB_COMPLETION_REQUESTED (u_id c) (job_title (lj_job l)) (j_id (lj_job l))))
       (load_job_dto jid \<lparr>vw_id = uid, vw_role = ARTISAN\<rparr> False))))))))"

text \<open>The locked step of both completions. The job is read without relations, so saving it writes the row alone.\<close>

definition complete_row :: "job \<Rightarrow> string \<Rightarrow> string option \<Rightarrow> unit act" where
  "complete_row j by reason =
     andthen (with_db (put_job (j\<lparr>j_status := COMPLETED\<rparr>)))
      (andthen (record_history (j_id j) (Some IN_PROGRESS) COMPLETED by reason)
        (sync_linked_booking (j_id j) Bk_COMPLETED))"

definition confirm_tx :: "nat \<Rightarrow> nat \<Rightarrow> string option act" where
  "confirm_tx jid uid =
     bnd (asks (\<lambda>w. find_job (w_db w) jid)) (\<lambda>j0.
     bnd (some_or (NotFound_job (Job_not_found jid)) j0) (\<lambda>j.
     andthen (assert_owner j uid)
     (andthen (guard (j_status j = IN_PROGRESS) (BadRequest_job (Confirm_only_in_progress (j_status j))))
     (andthen (guard (j_completionRequestedAt j \<noteq> None) (BadRequest_job Completion_not_requested))
     (andthen (complete_row j (show_nat uid) None) (ret (j_paymentIntentId j)))))))"

datatype confirm_message = Job_confirmed | Payment_releasing | Payment_delayed

text \<open>The capture after the commit: a failure is logged, never thrown.\<close>

definition capture_best_effort :: "env \<Rightarrow> string option \<Rightarrow> nat \<Rightarrow> confirm_message act" where
  "capture_best_effort env intent jid =
     (if truthy intent
      then bnd (attempt (capture_payment env (the intent) jid)) (\<lambda>r.
        ret (case r of Inr _ \<Rightarrow> Payment_releasing | Inl _ \<Rightarrow> Payment_delayed))
      else ret Job_confirmed)"

definition emit_completed :: "job \<Rightarrow> unit act" where
  "emit_completed j =
     only_if (truthy_id (j_acceptedArtisanId j))
       (emit (JOB_COMPLETED (the (j_acceptedArtisanId j)) (job_title j) (j_id j)))"

definition confirm_completion :: "env \<Rightarrow> nat \<Rightarrow> nat \<Rightarrow> (confirm_message \<times> job_view) act" where
  "confirm_completion env jid uid =
     bnd (transaction (confirm_tx jid uid)) (\<lambda>intent.
     bnd (capture_best_effort env intent jid) (\<lambda>msg.
     bnd (load_job_or_fail jid) (\<lambda>l.
     andthen (emit_completed (lj_job l))
     (bnd (load_job_dto jid \<lparr>vw_id = uid, vw_role = CUSTOMER\<rparr> False) (\<lambda>dto. ret (msg, dto))))))"

section \<open>Cancelling\<close>

text \<open>
  The row is saved without a change of the payment reference: \<open>job.paymentIntentId = undefined\<close> is a
  column that \<open>save\<close> skips.
\<close>

record cancelled =
  cn_artisan :: "nat option"
  cn_title :: "string option"
  cn_rejected :: "nat list"

definition cancel_tx :: "nat \<Rightarrow> nat \<Rightarrow> cancelled act" where
  "cancel_tx jid uid =
     bnd (asks (\<lambda>w. find_job (w_db w) jid)) (\<lambda>j0.
     bnd (some_or (NotFound_job (Job_not_found jid)) j0) (\<lambda>j.
     andthen (assert_owner j uid)
     (andthen (assert_cancellable j)
     (andthen (with_db (put_job (j\<lparr>j_status := CANCELLED\<rparr>)))
     (andthen (record_history (j_id j) (Some (j_status j)) CANCELLED (show_nat uid) None)
     (andthen (sync_linked_booking (j_id j) Bk_CANCELLED)
     (bnd (asks (\<lambda>w. pending_applications (w_db w) jid)) (\<lambda>pending.
     andthen (with_db (update_applications (\<lambda>a. a_id a \<in> a_id ` set pending) (\<lambda>a. a\<lparr>a_status := App_REJECTED\<rparr>)))
     (bnd (asks (\<lambda>w. map (\<lambda>a. find_user (w_db w) (a_artisanId a)) pending)) (\<lambda>us.
     andthen (guard (None \<notin> set us) TypeError)
       (ret \<lparr>cn_artisan = j_acceptedArtisanId j, cn_title = j_title j, cn_rejected = map (u_id \<circ> the) us\<rparr>)))))))))))"

definition cancel_job :: "env \<Rightarrow> nat \<Rightarrow> nat \<Rightarrow> unit act" where
  "cancel_job env jid uid =
     bnd (asks (\<lambda>w. find_job (w_db w) jid)) (\<lambda>c0.
     bnd (some_or (NotFound_job (Job_not_found jid)) c0) (\<lambda>current.
     andthen (assert_owner current uid)
     (andthen (assert_cancellable current)
     (andthen (only_if (truthy (j_paymentIntentId current)) (cancel_payment env (the (j_paymentIntentId current))))
     (bnd (transaction (cancel_tx jid uid)) (\<lambda>c.
      let title = (case cn_title c of Some t \<Rightarrow> t | None \<Rightarrow> default_title jid)
      in andthen (only_if (truthy_id (cn_artisan c)) (emit (JOB_CANCELLED (the (cn_artisan c)) title jid)))
           (for_each (cn_rejected c) (\<lambda>k. emit (JOB_APPLICATION_REJECTED k title jid)))))))))"

section \<open>Scheduled and admin actions\<close>

definition expire_job :: "nat \<Rightarrow> unit act" where
  "expire_job jid =
     bnd (load_job_or_fail jid) (\<lambda>l.
     if j_status (lj_job l) \<noteq> OPEN then ret ()
     else
       bnd (asks (\<lambda>w. map (\<lambda>a. find_user (w_db w) (a_artisanId a)) (pending_applications (w_db w) jid))) (\<lambda>us.
       andthen (only_if (us \<noteq> []) (with_db (update_applications
          (\<lambda>a. a_jobId a = jid \<and> a_status a = App_PENDING) (\<lambda>a. a\<lparr>a_status := App_REJECTED\<rparr>))))
       (andthen (transition_and_save l EXPIRED ''SYSTEM'' None)
       (bnd (customer_of l) (\<lambda>c.
        andthen (guard (None \<notin> set us) TypeError)
          (emit (JOB_EXPIRED (u_id c) (job_title (lj_job l)) (j_id (lj_job l)) (map (u_id \<circ> the) us))))))))"

definition JOB_AUTO_COMPLETE_MS :: int where
  "JOB_AUTO_COMPLETE_MS = 48 * 60 * 60 * 1000"

definition find_auto_complete_candidate_ids :: "world \<Rightarrow> nat list" where
  "find_auto_complete_candidate_ids w =
     map j_id (filter (\<lambda>j. j_deletedAt j = None \<and> j_status j = IN_PROGRESS
       \<and> (case j_completionRequestedAt j of None \<Rightarrow> False | Some t \<Rightarrow> t \<le> clock w - JOB_AUTO_COMPLETE_MS)) (t_jobs (w_db w)))"

definition auto_reason :: string where
  "auto_reason = ''auto-completed after 48h '' @ [CHR 0x97] @ '' customer did not respond''"

definition auto_complete_tx :: "nat \<Rightarrow> string option option act" where
  "auto_complete_tx jid =
     bnd (asks (\<lambda>w. find_job (w_db w) jid)) (\<lambda>j0. case j0 of None \<Rightarrow> ret None | Some j \<Rightarrow>
     if j_status j \<noteq> IN_PROGRESS then ret None
     else (case j_completionRequestedAt j of None \<Rightarrow> ret None | Some t \<Rightarrow>
       bnd (asks clock) (\<lambda>now.
       if now - t < JOB_AUTO_COMPLETE_MS then ret None
       else andthen (complete_row j ''SYSTEM'' (Some auto_reason)) (ret (Some (j_paymentIntentId j))))))"

definition auto_complete_job :: "env \<Rightarrow> nat \<Rightarrow> bool act" where
  "auto_complete_job env jid =
     bnd (transaction (auto_complete_tx jid)) (\<lambda>r. case r of None \<Rightarrow> ret False | Some intent \<Rightarrow>
       bnd (capture_best_effort env intent jid) (\<lambda>_.
       bnd (load_job_or_fail jid) (\<lambda>l.
       andthen (emit_completed (lj_job l)) (ret True))))"

text \<open>The nightly runs: one failure never stops the rest; the counters are those of the log line.\<close>

record run_summary =
  rs_candidates :: nat
  rs_processed :: nat
  rs_failed :: nat

fun run_each :: "('k \<Rightarrow> bool act) \<Rightarrow> 'k list \<Rightarrow> nat \<Rightarrow> nat \<Rightarrow> (nat \<times> nat) act" where
  "run_each f [] ok bad = ret (ok, bad)"
| "run_each f (k # ks) ok bad =
     bnd (attempt (f k)) (\<lambda>r. case r of
       Inr done \<Rightarrow> run_each f ks (if done then Suc ok else ok) bad
     | Inl _ \<Rightarrow> run_each f ks ok (Suc bad))"

definition expire_stale_jobs :: "run_summary act" where
  "expire_stale_jobs =
     bnd (asks (\<lambda>w. map j_id (filter (\<lambda>j. j_deletedAt j = None \<and> j_status j = OPEN
          \<and> (case j_deadline j of None \<Rightarrow> False | Some t \<Rightarrow> t < clock w)) (t_jobs (w_db w))))) (\<lambda>ids.
     bnd (run_each (\<lambda>k. andthen (expire_job k) (ret True)) ids 0 0) (\<lambda>(ok, bad).
     ret \<lparr>rs_candidates = length ids, rs_processed = ok, rs_failed = bad\<rparr>))"

definition auto_complete_overdue_jobs :: "env \<Rightarrow> run_summary act" where
  "auto_complete_overdue_jobs env =
     bnd (asks find_auto_complete_candidate_ids) (\<lambda>ids.
     bnd (run_each (auto_complete_job env) ids 0 0) (\<lambda>(ok, bad).
     ret \<lparr>rs_candidates = length ids, rs_processed = ok, rs_failed = bad\<rparr>))"

end
