(* ===== verification/JobSafety.thy ===== *)
theory JobSafety
  imports Jobs Fixtures
begin

text \<open>
  What the jobs service guarantees: the life of a job and its history, what accepting, starting,
  completing and cancelling do, who sees what, and where the service falls short.
\<close>

section \<open>What the payments service leaves alone\<close>

definition job_tables :: "db \<Rightarrow> job list \<times> history list \<times> application list \<times> booking list \<times> user list" where
  "job_tables d = (t_jobs d, t_history d, t_applications d, t_bookings d, t_users d)"

interpretation jt: payment_frame "\<lambda>w. job_tables (w_db w) = x" for x
  by unfold_locales (simp_all add: job_tables_def put_payment_def update_profiles_def)

lemma keeps_tables_with_db: "(\<And>d. job_tables (f d) = job_tables d) \<Longrightarrow> keeps (\<lambda>w. job_tables (w_db w) = x) (with_db f)"
  by (rule jt.keeps_with_db) simp

lemma job_tables_put [simp]: "job_tables (put_payment p d) = job_tables d" "job_tables (update_profiles q g d) = job_tables d"
  by (simp_all add: job_tables_def put_payment_def update_profiles_def)

lemmas jt_rules = jt.keeps_rules keeps_tables_with_db
lemmas keeps_emitters = jt.frame_emitters
lemmas keeps_hold = jt.frame_hold
lemmas keeps_cancel_payment = jt.frame_cancel
lemmas keeps_capture = jt.frame_capture

lemma keeps_tablesD: "(\<And>x. keeps (\<lambda>w. job_tables (w_db w) = x) m) \<Longrightarrow> m w = (r, w') \<Longrightarrow> job_tables (w_db w') = job_tables (w_db w)"
  unfolding keeps_def by (metis snd_conv)

section \<open>Running the handlers\<close>

lemma run_load_job [run_simps]:
  "bnd (load_job_or_fail jid) g w = (case find_job (w_db w) jid of
     None \<Rightarrow> (Inl (NotFound_job (Job_not_found jid)), w) | Some j \<Rightarrow> g (with_relations (w_db w) j) w)"
  by (simp add: load_job_or_fail_def act_defs split: option.splits)

lemma lj_job_with_relations [simp]: "lj_job (with_relations d j) = j"
  by (simp add: with_relations_def Let_def)

definition dto_of :: "db \<Rightarrow> job \<Rightarrow> viewer \<Rightarrow> bool \<Rightarrow> job_view" where
  "dto_of d j v with_detail =
     (let dto = with_location_privacy (to_view (with_relations d j)) v
      in if with_detail then dto\<lparr>jv_history := Some (history_of d (j_id j)),
            jv_attachments := Some (filter (\<lambda>a. at_jobId a = j_id j) (t_attachments d))\<rparr> else dto)"

lemma find_job_SomeD: "find_job d jid = Some j \<Longrightarrow> find_row j_id jid (t_jobs d) = Some j \<and> j_id j = jid \<and> j_deletedAt j = None"
  by (auto simp: find_job_def dest: find_row_SomeD split: option.splits if_splits)

lemma run_load_dto [run_simps]:
  "load_job_dto jid v b w = (case find_job (w_db w) jid of
     None \<Rightarrow> (Inl (NotFound_job (Job_not_found jid)), w) | Some j \<Rightarrow> (Inr (dto_of (w_db w) j v b), w))"
  by (auto simp: load_job_dto_def dto_of_def run_simps Let_def asks_def dest: find_job_SomeD split: option.splits)

lemma run_load_dto_bnd [run_simps]:
  "bnd (load_job_dto jid v b) g w = (case find_job (w_db w) jid of
     None \<Rightarrow> (Inl (NotFound_job (Job_not_found jid)), w) | Some j \<Rightarrow> g (dto_of (w_db w) j v b) w)"
  by (simp add: bnd_def run_load_dto split: option.splits)

lemma run_customer_of [run_simps]:
  "bnd (customer_of l) g w = (case lj_customer l of None \<Rightarrow> (Inl TypeError, w) | Some u \<Rightarrow> g u w)"
  by (simp add: customer_of_def run_simps split: option.splits)

definition history_row :: "world \<Rightarrow> nat \<Rightarrow> status option \<Rightarrow> status \<Rightarrow> string \<Rightarrow> string option \<Rightarrow> history" where
  "history_row w jid from to by reason = \<lparr>h_id = next_id w T_history, h_jobId = jid, h_from = from, h_to = to,
     h_changedBy = by, h_reason = reason, h_createdAt = clock w\<rparr>"

definition recorded :: "nat \<Rightarrow> status option \<Rightarrow> status \<Rightarrow> string \<Rightarrow> string option \<Rightarrow> world \<Rightarrow> world" where
  "recorded jid from to by reason w =
     w\<lparr>next_id := (next_id w)(T_history := Suc (next_id w T_history)),
       w_db := add_history (history_row w jid from to by reason) (w_db w)\<rparr>"

lemma run_record_history [run_simps]:
  "record_history jid from to by reason w = (Inr (), recorded jid from to by reason w)"
  "andthen (record_history jid from to by reason) m w = m (recorded jid from to by reason w)"
  by (simp_all add: record_history_def recorded_def history_row_def act_defs)

lemma recorded_simps [simp]:
  "w_db (recorded jid from to by reason w) = add_history (history_row w jid from to by reason) (w_db w)"
  "ps_log (recorded jid from to by reason w) = ps_log w" "outbox (recorded jid from to by reason w) = outbox w"
  "clock (recorded jid from to by reason w) = clock w"
  by (simp_all add: recorded_def)

lemma history_row_simps [simp]:
  "h_jobId (history_row w jid from to by reason) = jid" "h_from (history_row w jid from to by reason) = from"
  "h_to (history_row w jid from to by reason) = to"
  by (simp_all add: history_row_def)

definition savable :: "loaded_job \<Rightarrow> bool" where
  "savable l \<longleftrightarrow> lj_customer l \<noteq> None \<and> lj_service l \<noteq> None"

definition saved_row :: "loaded_job \<Rightarrow> job" where
  "saved_row l = (lj_job l)\<lparr>j_acceptedArtisanId := map_option u_id (lj_artisan l)\<rparr>"

lemma run_save_loaded [run_simps]:
  "andthen (save_loaded l) m w = (if savable l then m (w\<lparr>w_db := put_job (saved_row l) (w_db w)\<rparr>) else (Inl NotNullViolation, w))"
  "save_loaded l w = (if savable l then (Inr (), w\<lparr>w_db := put_job (saved_row l) (w_db w)\<rparr>) else (Inl NotNullViolation, w))"
  by (simp_all add: save_loaded_def savable_def saved_row_def act_defs)

lemma saved_row_simps [simp]:
  "j_id (saved_row l) = j_id (lj_job l)" "j_status (saved_row l) = j_status (lj_job l)"
  "j_paymentIntentId (saved_row l) = j_paymentIntentId (lj_job l)"
  "j_completionRequestedAt (saved_row l) = j_completionRequestedAt (lj_job l)"
  "j_acceptedArtisanId (saved_row l) = map_option u_id (lj_artisan l)"
  by (simp_all add: saved_row_def)

lemma savable_job [simp]: "savable (l\<lparr>lj_job := x\<rparr>) = savable l" "savable (l\<lparr>lj_artisan := y\<rparr>) = savable l"
  by (simp_all add: savable_def)

definition moved :: "loaded_job \<Rightarrow> status \<Rightarrow> string \<Rightarrow> string option \<Rightarrow> world \<Rightarrow> world" where
  "moved l to by reason w = recorded (j_id (lj_job l)) (Some (j_status (lj_job l))) to by reason
     (w\<lparr>w_db := put_job (saved_row (l\<lparr>lj_job := (lj_job l)\<lparr>j_status := to\<rparr>\<rparr>)) (w_db w)\<rparr>)"

lemma run_transition [run_simps]:
  "andthen (transition_and_save l to by reason) m w =
     (if savable l then m (moved l to by reason w) else (Inl NotNullViolation, w))"
  by (simp add: transition_and_save_def transaction_def bnd_def andthen_def [of "transaction _"] run_simps moved_def)

text \<open>The tables a step writes, as projections.\<close>

lemma table_frames [simp]:
  "t_jobs (add_history h d) = t_jobs d" "t_history (add_history h d) = t_history d @ [h]"
  "t_jobs (put_job j d) = save_row j_id j (t_jobs d)" "t_history (put_job j d) = t_history d"
  "t_applications (put_job j d) = t_applications d" "t_applications (add_history h d) = t_applications d"
  "t_jobs (put_application a d) = t_jobs d" "t_history (put_application a d) = t_history d"
  "t_jobs (update_applications q f d) = t_jobs d" "t_history (update_applications q f d) = t_history d"
  "t_jobs (update_bookings q2 g d) = t_jobs d" "t_history (update_bookings q2 g d) = t_history d"
  "t_applications (update_bookings q2 g d) = t_applications d"
  "t_payments (put_job j d) = t_payments d" "t_payments (add_history h d) = t_payments d"
  "t_payments (update_bookings q2 g d) = t_payments d" "t_payments (update_applications q f d) = t_payments d"
  "t_payments (put_application a d) = t_payments d"
  by (simp_all add: add_history_def put_job_def put_application_def update_applications_def update_bookings_def)

section \<open>The life of a job\<close>

fun allowed :: "status \<Rightarrow> status \<Rightarrow> bool" where
  "allowed OPEN s = (s \<in> {PENDING, CANCELLED, EXPIRED})"
| "allowed PENDING s = (s \<in> {IN_PROGRESS, CANCELLED})"
| "allowed IN_PROGRESS s = (s \<in> {COMPLETED, CANCELLED})"
| "allowed _ s = False"

text \<open>What one run of a handler may do to the jobs and their history.\<close>

inductive job_change :: "db \<Rightarrow> db \<Rightarrow> bool" where
  quiet: "t_jobs d' = t_jobs d \<Longrightarrow> t_history d' = t_history d \<Longrightarrow> job_change d d'"
| edit: "find_row j_id (j_id j) (t_jobs d) = Some j0 \<Longrightarrow> j_status j = j_status j0 \<Longrightarrow>
    t_jobs d' = save_row j_id j (t_jobs d) \<Longrightarrow> t_history d' = t_history d \<Longrightarrow> job_change d d'"
| move: "find_row j_id (j_id j) (t_jobs d) = Some j0 \<Longrightarrow> allowed (j_status j0) (j_status j) \<Longrightarrow>
    t_jobs d' = save_row j_id j (t_jobs d) \<Longrightarrow> t_history d' = t_history d @ [h] \<Longrightarrow>
    h_jobId h = j_id j \<Longrightarrow> h_from h = Some (j_status j0) \<Longrightarrow> h_to h = j_status j \<Longrightarrow> job_change d d'"
| post: "j_id j \<notin> j_id ` set (t_jobs d) \<Longrightarrow> j_status j = OPEN \<Longrightarrow>
    t_jobs d' = save_row j_id j (t_jobs d) \<Longrightarrow> t_history d' = t_history d @ [h] \<Longrightarrow>
    h_jobId h = j_id j \<Longrightarrow> h_from h = None \<Longrightarrow> h_to h = OPEN \<Longrightarrow> job_change d d'"

lemma change_tables: "job_tables d' = job_tables d \<Longrightarrow> job_change d d'"
  by (rule quiet) (simp_all add: job_tables_def)

lemma quiet_refl [simp, intro]: "job_change d d"
  by (rule quiet) simp_all

lemma job_change_cong: "job_change d d' \<Longrightarrow> t_jobs e = t_jobs d' \<Longrightarrow> t_history e = t_history d' \<Longrightarrow> job_change d e"
  by (erule job_change.cases) (auto intro: job_change.intros)

lemma change_moved_loaded:
  assumes "find_row j_id (j_id (lj_job l)) (t_jobs (w_db w)) = Some (lj_job l)" and "allowed (j_status (lj_job l)) to"
  shows "job_change (w_db w) (w_db (moved l to by reason w))"
  using assms
  by (intro move [of "saved_row (l\<lparr>lj_job := (lj_job l)\<lparr>j_status := to\<rparr>\<rparr>)" _ "lj_job l"]) (simp_all add: moved_def)+

lemma change_moved:
  assumes "find_job (w_db w) jid = Some j" and "allowed (j_status j) to"
  shows "job_change (w_db w) (w_db (moved (with_relations (w_db w) j) to by reason w))"
  using find_job_SomeD [OF assms(1)] assms(2) by (intro change_moved_loaded) auto

lemma change_saved:
  assumes "find_job (w_db w) jid = Some j" and "j_id (lj_job l) = j_id j" and "j_status (lj_job l) = j_status j"
  shows "job_change (w_db w) (put_job (saved_row l) (w_db w))"
  using find_job_SomeD [OF assms(1)] assms(2,3) by (intro edit [of "saved_row l" _ j]) simp_all

lemma change_update_job:
  assumes "update_job jid u uid w = (r, w')"
  shows "job_change (w_db w) (w_db w')"
  using assms
  by (auto simp: update_job_def assert_owner_def assert_mutable_def assert_budget_def run_simps apply_update_def Let_def
      split: option.splits if_splits intro!: change_saved)

lemma change_request:
  assumes "request_completion jid uid w = (r, w')"
  shows "job_change (w_db w) (w_db w')"
  using assms
  by (auto simp: request_completion_def assert_accepted_artisan_def run_simps split: option.splits if_splits
      intro!: change_saved)

lemma change_start:
  assumes "start_job jid uid w = (r, w')"
  shows "job_change (w_db w) (w_db w')"
  using assms
  by (auto simp: start_job_def assert_accepted_artisan_def run_simps split: option.splits if_splits
      intro!: change_moved)

text \<open>Handlers that end in a part that leaves the job tables alone.\<close>

lemma rest_keeps:
  assumes "bnd m g w = (r, w')" and "\<And>y x. keeps (\<lambda>w. job_tables (w_db w) = x) (g y)"
  shows "job_tables (w_db w') = job_tables (w_db (snd (m w)))"
  using assms(1) keeps_tablesD [OF assms(2)] by (auto simp: bnd_def split: prod.splits sum.splits)

lemma keeps_reads:
  "keeps (\<lambda>w. job_tables (w_db w) = x) (load_job_or_fail jid)"
  "keeps (\<lambda>w. job_tables (w_db w) = x) (load_job_dto jid v b)"
  "keeps (\<lambda>w. job_tables (w_db w) = x) (emit_completed j)"
  "keeps (\<lambda>w. job_tables (w_db w) = x) (capture_best_effort env intent jid)"
  "keeps (\<lambda>w. job_tables (w_db w) = x) (emit_rejected title jid u)"
  unfolding load_job_or_fail_def load_job_dto_def emit_completed_def capture_best_effort_def emit_rejected_def
  by (intro jt_rules keeps_capture)+

definition completed :: "job \<Rightarrow> string \<Rightarrow> string option \<Rightarrow> world \<Rightarrow> world" where
  "completed j by reason w = snd (complete_row j by reason w)"

lemma run_complete_row [run_simps]:
  "andthen (complete_row j by reason) m w = m (completed j by reason w)"
  by (simp add: completed_def complete_row_def sync_linked_booking_def act_defs record_history_def)

lemma completed_tables [simp]:
  "t_jobs (w_db (completed j by reason w)) = save_row j_id (j\<lparr>j_status := COMPLETED\<rparr>) (t_jobs (w_db w))"
  "\<exists>h. t_history (w_db (completed j by reason w)) = t_history (w_db w) @ [h]
     \<and> h_jobId h = j_id j \<and> h_from h = Some IN_PROGRESS \<and> h_to h = COMPLETED"
  "t_payments (w_db (completed j by reason w)) = t_payments (w_db w)" "ps_log (completed j by reason w) = ps_log w"
  "outbox (completed j by reason w) = outbox w" "clock (completed j by reason w) = clock w"
  by (simp_all add: completed_def complete_row_def sync_linked_booking_def run_simps)

lemma change_completed:
  assumes "find_job (w_db w) jid = Some j" and "j_status j = IN_PROGRESS"
  shows "job_change (w_db w) (w_db (completed j by reason w))"
  using find_job_SomeD [OF assms(1)] assms(2) completed_tables(2) [of j "by" reason w]
  by (elim exE) (rule move [of "j\<lparr>j_status := COMPLETED\<rparr>" _ j], simp_all, simp_all)

lemma change_confirm_tx: "job_change (w_db w) (w_db (snd (transaction (confirm_tx jid uid) w)))"
  by (auto simp: transaction_def confirm_tx_def assert_owner_def run_simps change_completed
      split: option.splits prod.splits sum.splits)

lemma change_auto_tx: "job_change (w_db w) (w_db (snd (transaction (auto_complete_tx jid) w)))"
  by (auto simp: transaction_def auto_complete_tx_def run_simps change_completed
      split: option.splits prod.splits sum.splits)

lemma change_then_keeps:
  assumes "bnd m g w = (r, w')" and "\<And>y x. keeps (\<lambda>w. job_tables (w_db w) = x) (g y)"
    and "job_change (w_db w) (w_db (snd (m w)))"
  shows "job_change (w_db w) (w_db w')"
  using rest_keeps [OF assms(1,2)] assms(3) by (auto simp: job_tables_def intro: job_change_cong)

lemma change_confirm: "confirm_completion env jid uid w = (r, w') \<Longrightarrow> job_change (w_db w) (w_db w')"
  unfolding confirm_completion_def
  by (erule change_then_keeps [OF _ _ change_confirm_tx]) (intro jt_rules keeps_reads)

lemma change_auto: "auto_complete_job env jid w = (r, w') \<Longrightarrow> job_change (w_db w) (w_db w')"
  unfolding auto_complete_job_def
  by (erule change_then_keeps [OF _ _ change_auto_tx]) (intro jt_rules keeps_reads)

lemma change_remove: "remove_job jid uid w = (r, w') \<Longrightarrow> job_change (w_db w) (w_db w')"
  by (auto simp: remove_job_def assert_owner_def run_simps dest!: find_job_SomeD split: option.splits if_splits
      intro!: edit [of "_\<lparr>j_deletedAt := _\<rparr>"])

definition cancelled_db :: "job \<Rightarrow> nat \<Rightarrow> world \<Rightarrow> db" where
  "cancelled_db j uid w =
     (let d1 = add_history (history_row w (j_id j) (Some (j_status j)) CANCELLED (show_nat uid) None)
                 (put_job (j\<lparr>j_status := CANCELLED\<rparr>) (w_db w));
          d2 = update_bookings (\<lambda>b. b_status b = Bk_CONFIRMED \<and> (\<exists>i \<in> set (t_jobs d1). j_id i = j_id j \<and> j_bookingId i = Some (b_id b)))
                 (\<lambda>b. b\<lparr>b_status := Bk_CANCELLED\<rparr>) d1
      in update_applications (\<lambda>a. a_id a \<in> a_id ` set (pending_applications d2 (j_id j))) (\<lambda>a. a\<lparr>a_status := App_REJECTED\<rparr>) d2)"

definition cancel_refusal :: "job \<Rightarrow> nat \<Rightarrow> exn option" where
  "cancel_refusal j uid =
     (if j_customerId j \<noteq> uid then Some (Forbidden_job Not_job_owner)
      else if j_status j \<in> {COMPLETED, CANCELLED} then Some (BadRequest_job (Cannot_cancel_status (j_status j)))
      else if j_status j = EXPIRED then Some (BadRequest_job Cannot_cancel_expired)
      else if j_completionRequestedAt j \<noteq> None then Some (BadRequest_job Cannot_cancel_after_request)
      else None)"

lemma run_cancel_guards [run_simps]:
  "andthen (assert_owner j uid) (andthen (assert_cancellable j) m) w =
     (case cancel_refusal j uid of Some e \<Rightarrow> (Inl e, w) | None \<Rightarrow> m w)"
  by (simp add: assert_owner_def assert_cancellable_def cancel_refusal_def run_simps)

lemma cancel_refusal_None:
  "cancel_refusal j uid = None \<longleftrightarrow>
     j_customerId j = uid \<and> j_status j \<in> {OPEN, PENDING, IN_PROGRESS} \<and> j_completionRequestedAt j = None"
  by (cases "j_status j") (simp_all add: cancel_refusal_def)

lemma transaction_cases:
  "transaction m w = (r, w') \<Longrightarrow> (\<exists>e w1. m w = (Inl e, w1) \<and> r = Inl e \<and> w' = w1\<lparr>w_db := w_db w\<rparr>) \<or> (\<exists>x. m w = (Inr x, w') \<and> r = Inr x)"
  by (cases "m w"; cases "fst (m w)") (auto simp: transaction_def)

lemma find_user_frames [simp]:
  "find_user (add_history h d) = find_user d" "find_user (put_job j d) = find_user d"
  "find_user (update_applications q f d) = find_user d" "find_user (update_bookings q2 g d) = find_user d"
  "find_user (put_application a d) = find_user d" "find_user (put_payment p d) = find_user d"
  by (simp_all add: fun_eq_iff find_user_def add_history_def put_job_def update_applications_def update_bookings_def
      put_application_def put_payment_def)

lemma pending_frames [simp]:
  "pending_applications (add_history h d) = pending_applications d" "pending_applications (put_job j d) = pending_applications d"
  "pending_applications (update_bookings q2 g d) = pending_applications d"
  by (simp_all add: fun_eq_iff pending_applications_def)

lemma history_row_db [simp]: "history_row (w\<lparr>w_db := d\<rparr>) = history_row w"
  by (simp add: fun_eq_iff history_row_def)

definition applicants :: "db \<Rightarrow> nat \<Rightarrow> user option list" where
  "applicants d jid = map (\<lambda>a. find_user d (a_artisanId a)) (pending_applications d jid)"

lemma cancel_tx_run:
  assumes "find_job (w_db w) jid = Some j" and "cancel_refusal j uid = None"
  shows "\<exists>w'. cancel_tx jid uid w =
     ((if None \<in> set (applicants (w_db w) jid) then Inl TypeError
       else Inr \<lparr>cn_artisan = j_acceptedArtisanId j, cn_title = j_title j,
                 cn_rejected = map (u_id \<circ> the) (applicants (w_db w) jid)\<rparr>), w')
     \<and> w_db w' = cancelled_db j uid w \<and> outbox w' = outbox w \<and> ps_log w' = ps_log w"
proof -
  have id: "j_id j = jid" using find_job_SomeD [OF assms(1)] by simp
  show ?thesis
    by (simp add: cancel_tx_def run_simps assms id sync_linked_booking_def cancelled_db_def Let_def applicants_def
        guard_def throw_def ret_def)
qed

lemma cancel_tx_refused:
  "find_job (w_db w) jid = None \<Longrightarrow> cancel_tx jid uid w = (Inl (NotFound_job (Job_not_found jid)), w)"
  "find_job (w_db w) jid = Some j \<Longrightarrow> cancel_refusal j uid = Some e \<Longrightarrow> cancel_tx jid uid w = (Inl e, w)"
  by (simp_all add: cancel_tx_def run_simps)

lemma cancelled_db_tables [simp]:
  "t_jobs (cancelled_db j uid w) = save_row j_id (j\<lparr>j_status := CANCELLED\<rparr>) (t_jobs (w_db w))"
  "t_history (cancelled_db j uid w) = t_history (w_db w) @ [history_row w (j_id j) (Some (j_status j)) CANCELLED (show_nat uid) None]"
  "t_payments (cancelled_db j uid w) = t_payments (w_db w)"
  by (simp_all add: cancelled_db_def Let_def)

lemma change_cancel_tx: "job_change (w_db w) (w_db (snd (transaction (cancel_tx jid uid) w)))"
proof (cases "find_job (w_db w) jid")
  case None
  then show ?thesis by (simp add: transaction_def cancel_tx_refused)
next
  case (Some j)
  show ?thesis
  proof (cases "cancel_refusal j uid")
    case None
    have al: "allowed (j_status j) CANCELLED" using None by (auto simp: cancel_refusal_None)
    obtain x w' where run: "cancel_tx jid uid w = (x, w')" "w_db w' = cancelled_db j uid w"
      using cancel_tx_run [OF Some None] by blast
    have "job_change (w_db w) (w_db w')"
      using find_job_SomeD [OF Some] al
      by (intro move [of "j\<lparr>j_status := CANCELLED\<rparr>" _ j]) (simp_all add: run(2))+
    then show ?thesis using run(1) by (cases x) (simp_all add: transaction_def)
  next
    case (Some e)
    with \<open>find_job (w_db w) jid = Some j\<close> show ?thesis by (simp add: transaction_def cancel_tx_refused)
  qed
qed

lemma job_change_from:
  assumes same: "t_jobs d = t_jobs e" "t_history d = t_history e" and "job_change e d'"
  shows "job_change d d'"
proof -
  from assms(3) show ?thesis
  proof cases
    case quiet
    then show ?thesis using same by (intro job_change.quiet) simp_all
  next
    case (edit j j0)
    then show ?thesis using same by (intro job_change.edit [of j _ j0]) simp_all
  next
    case (move j j0 h)
    then show ?thesis using same by (intro job_change.move [of j _ j0 _ h]) simp_all
  next
    case (post j h)
    then show ?thesis using same by (intro job_change.post [of j _ _ h]) simp_all
  qed
qed

lemma change_after_keeps:
  assumes "andthen m n w = (r, w')" and "\<And>x. keeps (\<lambda>w. job_tables (w_db w) = x) m"
    and "\<And>w r w'. n w = (r, w') \<Longrightarrow> job_change (w_db w) (w_db w')"
  shows "job_change (w_db w) (w_db w')"
proof (cases "m w")
  case (Pair a w1)
  have "t_jobs (w_db w) = t_jobs (w_db w1)" "t_history (w_db w) = t_history (w_db w1)" "job_change (w_db w) (w_db w1)"
    using keeps_tablesD [OF assms(2) Pair] by (simp_all add: job_tables_def change_tables)
  with assms(1,3) Pair show ?thesis
    by (cases a) (auto simp: andthen_def bnd_def intro: job_change_from)
qed

lemma change_cancel: "cancel_job env jid uid w = (r, w') \<Longrightarrow> job_change (w_db w) (w_db w')"
proof -
  assume run: "cancel_job env jid uid w = (r, w')"
  have tail: "job_change (w_db v) (w_db v')" if "bnd (transaction (cancel_tx jid uid)) g v = (q, v')"
    "\<And>y x. keeps (\<lambda>w. job_tables (w_db w) = x) (g y)" for g :: "cancelled \<Rightarrow> unit act" and v v' q
    using that by (rule change_then_keeps [OF _ _ change_cancel_tx])
  show ?thesis
  proof (cases "find_job (w_db w) jid")
    case None
    with run show ?thesis by (simp add: cancel_job_def run_simps)
  next
    case (Some j)
    show ?thesis
    proof (cases "cancel_refusal j uid")
      case None
      with run Some have "andthen (only_if (truthy (j_paymentIntentId j)) (cancel_payment env (the (j_paymentIntentId j))))
        (bnd (transaction (cancel_tx jid uid)) (\<lambda>c.
          let title = (case cn_title c of Some t \<Rightarrow> t | None \<Rightarrow> default_title jid)
          in andthen (only_if (truthy_id (cn_artisan c)) (emit (JOB_CANCELLED (the (cn_artisan c)) title jid)))
            (for_each (cn_rejected c) (\<lambda>k. emit (JOB_APPLICATION_REJECTED k title jid))))) w = (r, w')"
        by (simp add: cancel_job_def run_asks run_some_or run_cancel_guards)
      then show ?thesis
        by (rule change_after_keeps) (intro jt_rules keeps_cancel_payment, erule tail, intro jt_rules)
    next
      case (Some e)
      with run \<open>find_job (w_db w) jid = Some j\<close> show ?thesis by (simp add: cancel_job_def run_simps)
    qed
  qed
qed

definition closed_applications :: "nat \<Rightarrow> world \<Rightarrow> world" where
  "closed_applications jid w = (if pending_applications (w_db w) jid = [] then w
     else w\<lparr>w_db := update_applications (\<lambda>a. a_jobId a = jid \<and> a_status a = App_PENDING) (\<lambda>a. a\<lparr>a_status := App_REJECTED\<rparr>) (w_db w)\<rparr>)"

lemma closed_applications_tables [simp]:
  "t_jobs (w_db (closed_applications jid w)) = t_jobs (w_db w)" "t_history (w_db (closed_applications jid w)) = t_history (w_db w)"
  by (simp_all add: closed_applications_def)

lemma expire_job_run:
  assumes "find_job (w_db w) jid = Some j" and "j_status j = OPEN"
  defines "l \<equiv> with_relations (w_db w) j" and "w1 \<equiv> closed_applications jid w"
  shows "expire_job jid w = (case lj_customer l of None \<Rightarrow> (Inl NotNullViolation, w1) | Some c \<Rightarrow>
     if \<not> savable l then (Inl NotNullViolation, w1)
     else let w2 = moved l EXPIRED ''SYSTEM'' None w1; us = applicants (w_db w) jid
       in if None \<in> set us then (Inl TypeError, w2)
          else (Inr (), w2\<lparr>outbox := outbox w2 @ [JOB_EXPIRED (u_id c) (job_title j) jid (map (u_id \<circ> the) us)]\<rparr>))"
  using assms(1,2) find_job_SomeD [OF assms(1)]
  by (auto simp: expire_job_def run_simps l_def w1_def applicants_def closed_applications_def Let_def savable_def
      split: option.splits)

lemma change_expire: "expire_job jid w = (r, w') \<Longrightarrow> job_change (w_db w) (w_db w')"
proof (cases "find_job (w_db w) jid")
  case (Some j)
  assume run: "expire_job jid w = (r, w')"
  show ?thesis
  proof (cases "j_status j = OPEN")
    case True
    define w1 where "w1 = closed_applications jid w"
    have "job_change (w_db w1) (w_db (moved (with_relations (w_db w) j) EXPIRED ''SYSTEM'' None w1))"
      using find_job_SomeD [OF Some] True by (intro change_moved_loaded) (auto simp: w1_def)
    then have "job_change (w_db w) (w_db (moved (with_relations (w_db w) j) EXPIRED ''SYSTEM'' None w1))"
      by (rule job_change_from [rotated 2]) (simp_all add: w1_def)
    moreover have "job_change (w_db w) (w_db w1)" by (rule quiet) (simp_all add: w1_def)
    ultimately show ?thesis
      using run expire_job_run [OF Some True] by (auto simp: w1_def Let_def split: option.splits if_splits)
  next
    case False
    with run Some show ?thesis by (simp add: expire_job_def run_simps)
  qed
qed (simp add: expire_job_def run_simps)

text \<open>Accepting: what the reading half loads, and the state after a successful writing half.\<close>

definition plan_of :: "db \<Rightarrow> job \<Rightarrow> application \<Rightarrow> user \<Rightarrow> accept_plan" where
  "plan_of d j a u = \<lparr>ap_job = with_relations d j, ap_application = a, ap_artisan = u,
     ap_rejected = map (\<lambda>x. find_user d (a_artisanId x)) (filter (\<lambda>x. a_id x \<noteq> a_id a) (pending_applications d (j_id j)))\<rparr>"

lemma accept_load_cases:
  assumes "accept_load jid aid uid w = (r, w')"
  shows "w' = w \<and> ((\<exists>e. r = Inl e) \<or> (\<exists>j a u. find_job (w_db w) jid = Some j \<and> j_customerId j = uid \<and> j_status j = OPEN
     \<and> a \<in> set (t_applications (w_db w)) \<and> a_id a = aid \<and> a_jobId a = jid \<and> a_status a = App_PENDING
     \<and> find_user (w_db w) (a_artisanId a) = Some u \<and> r = Inr (plan_of (w_db w) j a u)))"
  using assms find_job_SomeD [of "w_db w" jid]
  by (auto simp: accept_load_def assert_owner_def run_simps plan_of_def find_Some_iff ret_def split: option.splits if_splits)

definition accepted_apps :: "application \<Rightarrow> db \<Rightarrow> db" where
  "accepted_apps a d = update_applications (\<lambda>x. a_jobId x = a_jobId a \<and> a_id x \<noteq> a_id a \<and> a_status x = App_PENDING)
     (\<lambda>x. x\<lparr>a_status := App_REJECTED\<rparr>) (put_application (a\<lparr>a_status := App_ACCEPTED\<rparr>) d)"

definition accepted_job :: "loaded_job \<Rightarrow> user \<Rightarrow> string \<Rightarrow> loaded_job" where
  "accepted_job l u intent = l\<lparr>lj_job := (lj_job l)\<lparr>j_status := PENDING, j_paymentIntentId := Some intent\<rparr>, lj_artisan := Some u\<rparr>"

definition accepted_world :: "accept_plan \<Rightarrow> nat \<Rightarrow> string \<Rightarrow> world \<Rightarrow> world" where
  "accepted_world pl uid intent w =
     recorded (j_id (lj_job (ap_job pl))) (Some (j_status (lj_job (ap_job pl)))) PENDING (show_nat uid)
        (Some (accepted_reason (a_id (ap_application pl))))
      (w\<lparr>w_db := put_job (saved_row (accepted_job (ap_job pl) (ap_artisan pl) intent)) (accepted_apps (ap_application pl) (w_db w))\<rparr>)"

definition accept_tail :: "nat \<Rightarrow> nat \<Rightarrow> accept_plan \<Rightarrow> job_view act" where
  "accept_tail jid uid pl =
     (let j = lj_job (ap_job pl) in
      andthen (emit (JOB_APPLICATION_ACCEPTED (u_id (ap_artisan pl)) (job_title j) (j_id j)))
      (andthen (for_each (ap_rejected pl) (emit_rejected (job_title j) (j_id j)))
        (load_job_dto jid \<lparr>vw_id = uid, vw_role = CUSTOMER\<rparr> False)))"

lemma accept_commit_run:
  assumes "hold_payment env jid uid (u_id (ap_artisan pl)) (a_quotePrice (ap_application pl)) w = (r1, w1)"
    and "aid = a_id (ap_application pl)" and "jid = a_jobId (ap_application pl)"
  shows "accept_commit env jid aid uid pl w = (case r1 of Inl e \<Rightarrow> (Inl e, w1) | Inr intent \<Rightarrow>
     if savable (ap_job pl) then accept_tail jid uid pl (accepted_world pl uid intent w1)
     else (Inl NotNullViolation, w1\<lparr>w_db := accepted_apps (ap_application pl) (w_db w1)\<rparr>))"
  using assms by (cases r1) (simp_all add: accept_commit_def accept_tail_def bnd_def [of "hold_payment _ _ _ _ _"] run_simps
      accepted_world_def accepted_apps_def accepted_job_def Let_def)

lemma accepted_world_tables [simp]:
  "t_jobs (w_db (accepted_world pl uid intent w)) = save_row j_id (saved_row (accepted_job (ap_job pl) (ap_artisan pl) intent)) (t_jobs (w_db w))"
  "\<exists>h. t_history (w_db (accepted_world pl uid intent w)) = t_history (w_db w) @ [h] \<and> h_jobId h = j_id (lj_job (ap_job pl))
     \<and> h_from h = Some (j_status (lj_job (ap_job pl))) \<and> h_to h = PENDING"
  "t_applications (w_db (accepted_world pl uid intent w)) = t_applications (accepted_apps (ap_application pl) (w_db w))"
  "t_payments (w_db (accepted_world pl uid intent w)) = t_payments (w_db w)"
  by (simp_all add: accepted_world_def accepted_apps_def)

lemma accepted_apps_tables [simp]: "t_jobs (accepted_apps a d) = t_jobs d" "t_history (accepted_apps a d) = t_history d"
  by (simp_all add: accepted_apps_def)

lemma keeps_accept_tail: "keeps (\<lambda>w. job_tables (w_db w) = x) (accept_tail jid uid pl)"
  unfolding accept_tail_def Let_def by (intro jt_rules keeps_reads)

lemma change_accept: "accept_application env jid aid uid w = (r, w') \<Longrightarrow> job_change (w_db w) (w_db w')"
proof -
  assume run: "accept_application env jid aid uid w = (r, w')"
  obtain q v where load: "accept_load jid aid uid w = (q, v)" by fastforce
  from accept_load_cases [OF load] consider (no) e where "q = Inl e" "v = w"
    | (go) j a u where "find_job (w_db w) jid = Some j" "j_status j = OPEN" "a_id a = aid" "a_jobId a = jid"
        "q = Inr (plan_of (w_db w) j a u)" "v = w" by blast
  then show ?thesis
  proof cases
    case no
    with run load show ?thesis by (simp add: accept_application_def bnd_def)
  next
    case (go j a u)
    let ?pl = "plan_of (w_db w) j a u"
    obtain r1 w1 where hold: "hold_payment env jid uid (u_id (ap_artisan ?pl)) (a_quotePrice (ap_application ?pl)) w = (r1, w1)" by fastforce
    have same: "t_jobs (w_db w1) = t_jobs (w_db w)" "t_history (w_db w1) = t_history (w_db w)"
      using keeps_tablesD [OF keeps_hold hold] by (simp_all add: job_tables_def)
    have com: "accept_commit env jid aid uid ?pl w = (r, w')" using run load go by (simp add: accept_application_def bnd_def)
    note commit = accept_commit_run [OF hold, of aid] 
    have ids: "aid = a_id (ap_application ?pl)" "jid = a_jobId (ap_application ?pl)" using go by (simp_all add: plan_of_def)
    note jd = find_job_SomeD [OF go(1)]
    show ?thesis
    proof (cases "\<exists>intent. r1 = Inr intent \<and> savable (ap_job ?pl)")
      case True
      then obtain intent where it: "r1 = Inr intent" "savable (ap_job ?pl)" by blast
      have "job_tables (w_db w') = job_tables (w_db (accepted_world ?pl uid intent w1))"
        using commit ids com it keeps_tablesD [OF keeps_accept_tail] by simp
      moreover have "job_change (w_db w) (w_db (accepted_world ?pl uid intent w1))"
        using accepted_world_tables(2) [of ?pl uid intent w1] same jd go
        by (elim exE) (rule move [of "saved_row (accepted_job (ap_job ?pl) (ap_artisan ?pl) intent)" _ j],
          simp_all add: plan_of_def accepted_job_def, simp_all)
      ultimately show ?thesis by (auto simp: job_tables_def intro: job_change_cong)
    next
      case False
      then show ?thesis using commit ids com same by (intro quiet) (auto split: sum.splits if_splits)
    qed
  qed
qed

text \<open>Posting and applying.\<close>

lemma keeps_attachments: "keeps (\<lambda>w. job_tables (w_db w) = x) (andthen (for_each urls (add_attachment jid)) (ret j))"
  unfolding add_attachment_def by (intro jt_rules) (simp add: job_tables_def)

lemma change_create_tx: "job_change (w_db w) (w_db (snd (transaction (create_tx i uid) w)))"
proof -
  let ?k = "next_id w T_jobs"
  let ?j = "new_job ?k i uid (clock w)"
  let ?w1 = "recorded (j_id ?j) None OPEN (show_nat uid) None
    (w\<lparr>next_id := (next_id w)(T_jobs := Suc ?k), w_db := put_job ?j (w_db w)\<rparr>)"
  have run: "create_tx i uid w = (if j_id ?j \<in> j_id ` set (t_jobs (w_db w))
      then (Inl UniqueViolation, w\<lparr>next_id := (next_id w)(T_jobs := Suc ?k)\<rparr>)
      else andthen (for_each (ji_attachmentUrls i) (add_attachment (j_id ?j))) (ret ?j) ?w1)"
    by (simp add: create_tx_def insert_job_def run_simps)
  have post: "job_change (w_db w) (w_db ?w1)" if "j_id ?j \<notin> j_id ` set (t_jobs (w_db w))"
    using that by (intro post [of ?j]) (simp_all add: new_job_def Let_def, simp_all)
  obtain r w2 where att: "andthen (for_each (ji_attachmentUrls i) (add_attachment (j_id ?j))) (ret ?j) ?w1 = (r, w2)" by fastforce
  have "job_tables (w_db w2) = job_tables (w_db ?w1)" by (rule keeps_tablesD [OF keeps_attachments att])
  then have "job_change (w_db w) (w_db w2)" if "j_id ?j \<notin> j_id ` set (t_jobs (w_db w))"
    using post [OF that] by (auto simp: job_tables_def intro: job_change_cong)
  then show ?thesis using run att by (cases r) (auto simp: transaction_def)
qed

lemma keeps_dto: "keeps (\<lambda>w. job_tables (w_db w) = x) (load_job_dto jid v b)"
  by (rule keeps_reads)

lemma change_create: "create_job i v w = (r, w') \<Longrightarrow> job_change (w_db w) (w_db w')"
  by (auto simp: create_job_def assert_budget_def run_guard run_asks run_some_or split: option.splits if_splits
      dest!: change_then_keeps [OF _ keeps_dto change_create_tx])

lemma change_apply: "apply_to_job jid uid quote msg w = (r, w') \<Longrightarrow> job_change (w_db w) (w_db w')"
  by (rule quiet) (auto simp: apply_to_job_def run_simps Let_def split: option.splits if_splits)

lemma run_each_change:
  assumes "\<And>k w r w'. f k w = (r, w') \<Longrightarrow> job_change (w_db w) (w_db w')"
  shows "run_each f ks ok bad w = (r, w') \<Longrightarrow> job_change\<^sup>*\<^sup>* (w_db w) (w_db w')"
proof (induction ks arbitrary: ok bad w)
  case Nil
  then show ?case by (simp add: ret_def)
next
  case (Cons k ks)
  obtain q w1 where k: "f k w = (q, w1)" by fastforce
  have "\<exists>ok bad. run_each f ks ok bad w1 = (r, w')"
    using Cons.prems k by (cases q) (auto simp: attempt_def bnd_def split: if_splits)
  with Cons.IH have "job_change\<^sup>*\<^sup>* (w_db w1) (w_db w')" by blast
  with assms [OF k] show ?case by (rule converse_rtranclp_into_rtranclp)
qed

lemma change_expire_stale: "expire_stale_jobs w = (r, w') \<Longrightarrow> job_change\<^sup>*\<^sup>* (w_db w) (w_db w')"
proof -
  assume run: "expire_stale_jobs w = (r, w')"
  have each: "andthen (expire_job k) (ret True) v = (q, v') \<Longrightarrow> job_change (w_db v) (w_db v')" for k v q v'
    by (auto simp: andthen_def bnd_def ret_def change_expire split: prod.splits sum.splits)
  from run obtain ids q where "run_each (\<lambda>k. andthen (expire_job k) (ret True)) ids 0 0 w = (q, w')"
    by (auto simp: expire_stale_jobs_def bnd_def asks_def ret_def split: prod.splits sum.splits)
  then show ?thesis by (rule run_each_change [rotated]) (erule each)
qed

lemma change_auto_overdue: "auto_complete_overdue_jobs env w = (r, w') \<Longrightarrow> job_change\<^sup>*\<^sup>* (w_db w) (w_db w')"
proof -
  assume "auto_complete_overdue_jobs env w = (r, w')"
  then obtain ids q where "run_each (auto_complete_job env) ids 0 0 w = (q, w')"
    by (auto simp: auto_complete_overdue_jobs_def bnd_def asks_def ret_def split: prod.splits sum.splits)
  then show ?thesis by (rule run_each_change [rotated]) (erule change_auto)
qed

section \<open>Reachable states\<close>

text \<open>Any request of the jobs service, with any caller and arguments, a nightly run, or time passing.\<close>

inductive job_step :: "world \<Rightarrow> world \<Rightarrow> bool" where
  "create_job i v w = (r, w') \<Longrightarrow> job_step w w'"
| "update_job jid u uid w = (r, w') \<Longrightarrow> job_step w w'"
| "remove_job jid uid w = (r, w') \<Longrightarrow> job_step w w'"
| "apply_to_job jid uid quote msg w = (r, w') \<Longrightarrow> job_step w w'"
| "accept_application env jid aid uid w = (r, w') \<Longrightarrow> job_step w w'"
| "start_job jid uid w = (r, w') \<Longrightarrow> job_step w w'"
| "request_completion jid uid w = (r, w') \<Longrightarrow> job_step w w'"
| "confirm_completion env jid uid w = (r, w') \<Longrightarrow> job_step w w'"
| "cancel_job env jid uid w = (r, w') \<Longrightarrow> job_step w w'"
| "expire_job jid w = (r, w') \<Longrightarrow> job_step w w'"
| "expire_stale_jobs w = (r, w') \<Longrightarrow> job_step w w'"
| "auto_complete_job env jid w = (r, w') \<Longrightarrow> job_step w w'"
| "auto_complete_overdue_jobs env w = (r, w') \<Longrightarrow> job_step w w'"
| "job_step w (w\<lparr>clock := t\<rparr>)"

lemmas change_rules = change_create change_update_job change_remove change_apply change_accept change_start change_request
  change_confirm change_cancel change_expire change_auto

lemmas change_steps = change_rules [THEN r_into_rtranclp [where r = job_change]] change_expire_stale change_auto_overdue

lemma job_step_change: "job_step w w' \<Longrightarrow> job_change\<^sup>*\<^sup>* (w_db w) (w_db w')"
  by (induction rule: job_step.induct)
    (erule change_steps | simp)+

lemma job_steps_change: "job_step\<^sup>*\<^sup>* w w' \<Longrightarrow> job_change\<^sup>*\<^sup>* (w_db w) (w_db w')"
  by (induction rule: rtranclp_induct) (auto intro: rtranclp_trans dest: job_step_change)

fun timeline_ok :: "status option \<Rightarrow> history list \<Rightarrow> status \<Rightarrow> bool" where
  "timeline_ok cur [] s = (cur = Some s)"
| "timeline_ok cur (h # hs) s = (h_from h = cur \<and> (case cur of None \<Rightarrow> h_to h = OPEN | Some c \<Rightarrow> allowed c (h_to h))
     \<and> timeline_ok (Some (h_to h)) hs s)"

definition timeline :: "db \<Rightarrow> nat \<Rightarrow> history list" where
  "timeline d jid = filter (\<lambda>h. h_jobId h = jid) (t_history d)"

definition jobs_ok :: "db \<Rightarrow> bool" where
  "jobs_ok d \<longleftrightarrow> distinct (map j_id (t_jobs d)) \<and> h_jobId ` set (t_history d) \<subseteq> j_id ` set (t_jobs d)
     \<and> (\<forall>j \<in> set (t_jobs d). timeline_ok None (timeline d (j_id j)) (j_status j))"

lemma timeline_ok_snoc:
  "timeline_ok cur hs c \<Longrightarrow> h_from h = Some c \<Longrightarrow> allowed c (h_to h) \<Longrightarrow> timeline_ok cur (hs @ [h]) (h_to h)"
  by (induction cur hs c rule: timeline_ok.induct) auto

lemma find_row_mem: "find_row key k rows = Some r \<Longrightarrow> r \<in> set rows \<and> key r = k"
  by (rule find_row_SomeD)

lemma save_row_ids: "j_id ` set (save_row j_id j rows) = insert (j_id j) (j_id ` set rows)"
  by (auto simp: save_row_def image_iff)

lemma jobs_ok_save:
  assumes ok: "jobs_ok d" and jobs: "t_jobs d' = save_row j_id j (t_jobs d)"
    and hist: "h_jobId ` set (t_history d') \<subseteq> insert (j_id j) (h_jobId ` set (t_history d))"
    and new: "timeline_ok None (timeline d' (j_id j)) (j_status j)" and old: "\<And>k. k \<noteq> j_id j \<Longrightarrow> timeline d' k = timeline d k"
  shows "jobs_ok d'"
proof -
  note dist = ok [unfolded jobs_ok_def, THEN conjunct1]
  have "h_jobId ` set (t_history d') \<subseteq> j_id ` set (t_jobs d')"
    using ok hist unfolding jobs save_row_ids jobs_ok_def by blast
  moreover have "\<forall>x \<in> set (t_jobs d'). timeline_ok None (timeline d' (j_id x)) (j_status x)"
    using ok new old by (auto simp: jobs_ok_def jobs set_save_row [OF dist])
  ultimately show ?thesis using save_row_distinct [OF dist] by (simp add: jobs_ok_def jobs)
qed

lemma jobs_ok_row: "jobs_ok d \<Longrightarrow> find_row j_id k (t_jobs d) = Some j \<Longrightarrow> timeline_ok None (timeline d k) (j_status j)"
  using find_row_mem by (fastforce simp: jobs_ok_def)

lemma job_change_ok:
  assumes "job_change d d'" and "jobs_ok d"
  shows "jobs_ok d'"
  using assms(1)
proof cases
  case quiet
  with assms(2) show ?thesis by (simp add: jobs_ok_def timeline_def)
next
  case (edit j j0)
  have "timeline d' = timeline d" by (simp add: timeline_def fun_eq_iff edit(4))
  then show ?thesis
    using jobs_ok_row [OF assms(2) edit(1)] edit(2) by (intro jobs_ok_save [OF assms(2) edit(3)]) (auto simp: edit(4))
next
  case (move j j0 h)
  have "timeline_ok None (timeline d' (j_id j)) (j_status j)"
    using timeline_ok_snoc [OF jobs_ok_row [OF assms(2) move(1)], of h] move by (simp add: timeline_def)
  then show ?thesis using move by (intro jobs_ok_save [OF assms(2) move(3)]) (auto simp: timeline_def)
next
  case (post j h)
  have "j_id j \<notin> h_jobId ` set (t_history d)" using assms(2) post(1) unfolding jobs_ok_def by blast
  then have "\<forall>x \<in> set (t_history d). h_jobId x \<noteq> j_id j" by (metis imageI)
  then have "timeline d (j_id j) = []" by (simp add: timeline_def filter_empty_conv)
  then show ?thesis using post by (intro jobs_ok_save [OF assms(2) post(3)]) (auto simp: timeline_def)
qed

lemma job_change_status:
  assumes "job_change d d'" and "jobs_ok d" and "j \<in> set (t_jobs d)"
  shows "\<exists>j' \<in> set (t_jobs d'). j_id j' = j_id j \<and> allowed\<^sup>*\<^sup>* (j_status j) (j_status j')"
proof -
  note dist = assms(2) [unfolded jobs_ok_def, THEN conjunct1]
  have uniq: "j0 = j" if "find_row j_id (j_id x) (t_jobs d) = Some j0" "j_id x = j_id j" for x j0
    using that find_row_mem [OF that(1)] assms(3) dist by (auto simp: distinct_map dest: inj_onD)
  from assms(1) show ?thesis
  proof cases
    case quiet
    with assms(3) show ?thesis by auto
  next
    case (edit x j0)
    then show ?thesis using assms(3) uniq [OF edit(1)] by (cases "j_id x = j_id j") (auto simp: set_save_row [OF dist])
  next
    case (move x j0 h)
    then show ?thesis using assms(3) uniq [OF move(1)] by (cases "j_id x = j_id j") (auto simp: set_save_row [OF dist])
  next
    case (post x h)
    then have "j_id x \<noteq> j_id j" using assms(3) by auto
    with post assms(3) show ?thesis by (auto simp: set_save_row [OF dist])
  qed
qed

lemma job_changes_status:
  assumes "job_change\<^sup>*\<^sup>* d d'" and "jobs_ok d" and "j \<in> set (t_jobs d)"
  shows "jobs_ok d' \<and> (\<exists>j' \<in> set (t_jobs d'). j_id j' = j_id j \<and> allowed\<^sup>*\<^sup>* (j_status j) (j_status j'))"
  using assms(1)
proof (induction rule: rtranclp_induct)
  case base
  then show ?case using assms(2,3) by blast
next
  case (step y z)
  then obtain y' where "y' \<in> set (t_jobs y)" "j_id y' = j_id j" "allowed\<^sup>*\<^sup>* (j_status j) (j_status y')" by blast
  with job_change_status [OF step.hyps(2), of y'] job_change_ok [OF step.hyps(2)] step.IH show ?case
    by (metis rtranclp_trans)
qed

lemma job_changes_ok: "job_change\<^sup>*\<^sup>* d d' \<Longrightarrow> jobs_ok d \<Longrightarrow> jobs_ok d'"
  by (induction rule: rtranclp_induct) (auto intro: job_change_ok)

end
