(* ===== verification/JobRules.thy ===== *)
theory JobRules
  imports JobSafety PaymentSafety
begin

text \<open>
  The properties of a job's life in the jobs service: its history, accepting an application and the
  race of two accepts, starting, completing and cancelling.
\<close>

section \<open>Worlds for the witnesses\<close>

definition fx_app :: "nat \<Rightarrow> nat \<Rightarrow> application" where
  "fx_app k uid = \<lparr>a_id = k, a_jobId = 7, a_artisanId = uid, a_quotePrice = Some 15000, a_message = None,
     a_status = App_PENDING, a_createdAt = 0\<rparr>"

definition fx_open :: job where
  "fx_open = (fx_job OPEN)\<lparr>j_acceptedArtisanId := None, j_paymentIntentId := None\<rparr>"

definition fx_jobs :: "job list \<Rightarrow> application list \<Rightarrow> payment list \<Rightarrow> world" where
  "fx_jobs js as ps = (fx_world ps)\<lparr>w_db := (fx_db ps)\<lparr>t_jobs := js, t_applications := as,
     t_users := [fx_user 1 CUSTOMER, fx_user 2 ARTISAN, fx_user 3 ARTISAN],
     t_profiles := [fx_profile, fx_profile\<lparr>pr_id := 30, pr_userId := Some 3\<rparr>],
     t_history := map (\<lambda>j. \<lparr>h_id = 1, h_jobId = j_id j, h_from = None, h_to = OPEN, h_changedBy = ''1'', h_reason = None,
        h_createdAt = 0\<rparr>) js\<rparr>\<rparr>"

lemmas fx_job_defs = fx_app_def fx_open_def fx_jobs_def fx_defs

section \<open>Accepting an application\<close>

lemma in_save_row: "r \<in> set (save_row key r rows)"
  by (auto simp: save_row_def image_iff)

lemma run_emit_rejected:
  "andthen (emit_rejected title jid u) m w = (case u of None \<Rightarrow> (Inl TypeError, w)
     | Some x \<Rightarrow> m (w\<lparr>outbox := outbox w @ [JOB_APPLICATION_REJECTED (u_id x) title jid]\<rparr>))"
  by (simp add: emit_rejected_def act_defs split: option.splits)

lemma each_rejected_events:
  "for_each us (emit_rejected title jid) w = (Inr (), w') \<Longrightarrow>
   w' = w\<lparr>outbox := outbox w @ map (\<lambda>u. JOB_APPLICATION_REJECTED (u_id (the u)) title jid) us\<rparr> \<and> None \<notin> set us"
proof (induction us arbitrary: w)
  case (Cons u us)
  from Cons.prems show ?case
    by (cases u) (auto simp: run_emit_rejected dest!: Cons.IH)
qed (simp add: ret_def)

lemma find_user_id: "find_user d k = Some u \<Longrightarrow> u_id u = k"
  using find_row_mem [of u_id k "t_users d" u] by (auto simp: find_user_def split: option.splits if_splits)

text \<open>A payment that was held: the new row, and nothing else.\<close>

definition agreed_price :: "application \<Rightarrow> job \<Rightarrow> money" where
  "agreed_price a j = (case a_quotePrice a of Some q \<Rightarrow> q | None \<Rightarrow> (case j_budgetMax j of Some b \<Rightarrow> b | None \<Rightarrow> 0))"

lemma hold_payment_held:
  assumes "hold_payment env jid uid aid (a_quotePrice a) w = (Inr ref, w')" and "find_job (w_db w) jid = Some j"
  shows "0 < agreed_price a j \<and> outbox w' = outbox w \<and> next_id w' = (next_id w)(T_payments := Suc (next_id w T_payments))
     \<and> (\<exists>prid fee art. w_db w' = put_payment (new_payment (next_id w T_payments) jid uid prid (agreed_price a j) fee art
          ''GHS'' ref (clock w)) (w_db w))"
proof -
  have "outbox w' = outbox w" "next_id w' = (next_id w)(T_payments := Suc (next_id w T_payments))"
    using assms(1) by (auto simp: hold_payment_def run_simps Let_def split: option.splits if_splits)
  with assms show ?thesis
    by (elim hold_payment_cases) (simp, auto simp: agreed_price_def)
qed

lemma accept_tail_result:
  assumes "accept_tail jid uid pl w = (Inr v, w')"
  shows "w_db w' = w_db w \<and> ps_log w' = ps_log w \<and> next_id w' = next_id w \<and> None \<notin> set (ap_rejected pl) \<and> outbox w' = outbox w @
     JOB_APPLICATION_ACCEPTED (u_id (ap_artisan pl)) (job_title (lj_job (ap_job pl))) (j_id (lj_job (ap_job pl)))
     # map (\<lambda>u. JOB_APPLICATION_REJECTED (u_id (the u)) (job_title (lj_job (ap_job pl))) (j_id (lj_job (ap_job pl)))) (ap_rejected pl)"
proof -
  let ?w1 = "w\<lparr>outbox := outbox w @ [JOB_APPLICATION_ACCEPTED (u_id (ap_artisan pl)) (job_title (lj_job (ap_job pl))) (j_id (lj_job (ap_job pl)))]\<rparr>"
  obtain q w2 where each: "for_each (ap_rejected pl) (emit_rejected (job_title (lj_job (ap_job pl))) (j_id (lj_job (ap_job pl)))) ?w1 = (q, w2)"
    by fastforce
  with assms show ?thesis
    by (cases q) (auto simp: accept_tail_def run_emit Let_def andthen_def [of "for_each _ _"] bnd_def run_load_dto
        dest!: each_rejected_events split: option.splits)
qed

lemma accepted_apps_map:
  assumes "a \<in> set (t_applications d)" and "distinct (map a_id (t_applications d))"
  shows "t_applications (accepted_apps a d) = map (\<lambda>x. if a_id x = a_id a then x\<lparr>a_status := App_ACCEPTED\<rparr>
     else if a_jobId x = a_jobId a \<and> a_status x = App_PENDING then x\<lparr>a_status := App_REJECTED\<rparr> else x) (t_applications d)"
proof -
  have "\<exists>x \<in> set (t_applications d). a_id x = a_id a" using assms(1) by blast
  moreover have "x = a" if "x \<in> set (t_applications d)" "a_id x = a_id a" for x
    using that assms by (auto simp: distinct_map dest: inj_onD)
  ultimately show ?thesis
    by (auto simp: accepted_apps_def update_applications_def put_application_def save_row_def update_where_def)
qed

lemma accept_application_run:
  assumes "accept_application env jid aid uid w = (r, w')"
  shows "(\<exists>e. r = Inl e \<and> w' = w)
    \<or> (\<exists>j a u r1 w1. find_job (w_db w) jid = Some j \<and> j_customerId j = uid \<and> j_status j = OPEN
         \<and> a \<in> set (t_applications (w_db w)) \<and> a_id a = aid \<and> a_jobId a = jid \<and> a_status a = App_PENDING
         \<and> find_user (w_db w) (a_artisanId a) = Some u
         \<and> hold_payment env jid uid (u_id u) (a_quotePrice a) w = (r1, w1)
         \<and> (case r1 of Inl e \<Rightarrow> r = Inl e \<and> w' = w1 | Inr intent \<Rightarrow>
              if savable (with_relations (w_db w) j)
              then accept_tail jid uid (plan_of (w_db w) j a u) (accepted_world (plan_of (w_db w) j a u) uid intent w1) = (r, w')
              else r = Inl NotNullViolation))"
proof -
  obtain q v where load: "accept_load jid aid uid w = (q, v)" by fastforce
  from accept_load_cases [OF load] consider (no) e where "q = Inl e" "v = w"
    | (go) j a u where "find_job (w_db w) jid = Some j" "j_customerId j = uid" "j_status j = OPEN"
        "a \<in> set (t_applications (w_db w))" "a_id a = aid" "a_jobId a = jid" "a_status a = App_PENDING"
        "find_user (w_db w) (a_artisanId a) = Some u" "q = Inr (plan_of (w_db w) j a u)" "v = w" by blast
  then show ?thesis
  proof cases
    case no
    with assms load have "r = Inl e \<and> w' = w" by (auto simp: accept_application_def bnd_def)
    then show ?thesis by blast
  next
    case (go j a u)
    let ?pl = "plan_of (w_db w) j a u"
    obtain r1 w1 where hold: "hold_payment env jid uid (u_id (ap_artisan ?pl)) (a_quotePrice (ap_application ?pl)) w = (r1, w1)" by fastforce
    have com: "accept_commit env jid aid uid ?pl w = (r, w')" using assms load go by (simp add: accept_application_def bnd_def)
    have "aid = a_id (ap_application ?pl)" "jid = a_jobId (ap_application ?pl)" "ap_job ?pl = with_relations (w_db w) j"
      using go by (simp_all add: plan_of_def)
    with accept_commit_run [OF hold, of aid] com have
      "case r1 of Inl e \<Rightarrow> r = Inl e \<and> w' = w1 | Inr intent \<Rightarrow>
         if savable (with_relations (w_db w) j) then accept_tail jid uid ?pl (accepted_world ?pl uid intent w1) = (r, w')
         else r = Inl NotNullViolation"
      by (auto split: sum.splits if_splits)
    moreover have "hold_payment env jid uid (u_id u) (a_quotePrice a) w = (r1, w1)" using hold by (simp add: plan_of_def)
    ultimately show ?thesis using go by blast
  qed
qed

section \<open>Properties\<close>


lemma fx_open_ok: "jobs_ok (w_db (fx_jobs [fx_open] as ps))"
  by (simp add: jobs_ok_def timeline_def fx_job_defs)


text \<open>
  Accepting an application. When it succeeds, the caller owns the job, the job was OPEN and the
  application one of its PENDING ones; that application is ACCEPTED, every other PENDING application of
  the job is REJECTED, no other application changes; the job is PENDING with that artisan and with the
  reference of a new PENDING payment of the quoted price (else the maximum budget); and the accepted
  artisan and every rejected one are told.
\<close>

theorem accept_application_effect:
  assumes "accept_application env jid aid uid w = (Inr v, w')"
    and "distinct (map a_id (t_applications (w_db w)))"
  shows "\<exists>j a p. find_job (w_db w) jid = Some j \<and> j_customerId j = uid \<and> j_status j = OPEN
     \<and> a \<in> set (t_applications (w_db w)) \<and> a_id a = aid \<and> a_jobId a = jid \<and> a_status a = App_PENDING
     \<and> t_applications (w_db w') = map (\<lambda>x. if a_id x = aid then x\<lparr>a_status := App_ACCEPTED\<rparr>
          else if a_jobId x = jid \<and> a_status x = App_PENDING then x\<lparr>a_status := App_REJECTED\<rparr> else x) (t_applications (w_db w))
     \<and> find_row j_id jid (t_jobs (w_db w')) = Some (j\<lparr>j_status := PENDING, j_acceptedArtisanId := Some (a_artisanId a),
          j_paymentIntentId := Some (p_reference p)\<rparr>)
     \<and> p \<in> set (t_payments (w_db w')) \<and> p_jobId p = jid \<and> p_customerId p = uid \<and> p_status p = Pay_PENDING
     \<and> p_amount p = agreed_price a j \<and> 0 < agreed_price a j
     \<and> outbox w' = outbox w @ JOB_APPLICATION_ACCEPTED (a_artisanId a) (job_title j) jid
          # map (\<lambda>x. JOB_APPLICATION_REJECTED (a_artisanId x) (job_title j) jid)
              (filter (\<lambda>x. a_id x \<noteq> aid) (pending_applications (w_db w) jid))"
proof -
  from accept_application_run [OF assms(1)] obtain j a u r1 w1 where
    j: "find_job (w_db w) jid = Some j" "j_customerId j = uid" "j_status j = OPEN" and
    a: "a \<in> set (t_applications (w_db w))" "a_id a = aid" "a_jobId a = jid" "a_status a = App_PENDING" and
    u: "find_user (w_db w) (a_artisanId a) = Some u" and
    hold: "hold_payment env jid uid (u_id u) (a_quotePrice a) w = (r1, w1)" and
    rest: "case r1 of Inl e \<Rightarrow> Inr v = (Inl e :: exn + job_view) \<and> w' = w1 | Inr intent \<Rightarrow>
       if savable (with_relations (w_db w) j)
       then accept_tail jid uid (plan_of (w_db w) j a u) (accepted_world (plan_of (w_db w) j a u) uid intent w1) = (Inr v, w')
       else Inr v = (Inl NotNullViolation :: exn + job_view)" by auto
  let ?pl = "plan_of (w_db w) j a u"
  from rest obtain intent where intent: "r1 = Inr intent"
    and tail: "accept_tail jid uid ?pl (accepted_world ?pl uid intent w1) = (Inr v, w')"
    by (cases r1) (auto split: if_splits)
  have uid: "u_id u = a_artisanId a" using find_user_id [OF u] .
  have jid: "j_id j = jid" using find_job_SomeD [OF j(1)] by simp
  from hold_payment_held [OF hold [unfolded intent] j(1)] obtain prid fee art where pay: "0 < agreed_price a j"
      "w_db w1 = put_payment (new_payment (next_id w T_payments) jid uid prid (agreed_price a j) fee art ''GHS'' intent (clock w)) (w_db w)"
    and out1: "outbox w1 = outbox w" by blast
  define p where "p = new_payment (next_id w T_payments) jid uid prid (agreed_price a j) fee art ''GHS'' intent (clock w)"
  have p: "p_reference p = intent" "p_jobId p = jid" "p_customerId p = uid" "p_status p = Pay_PENDING" "p_amount p = agreed_price a j"
    by (simp_all add: p_def new_payment_def)
  note tables = accept_tail_result [OF tail]
  have "p \<in> set (t_payments (w_db w'))" using tables in_save_row [of p p_id] by (simp add: pay(2) put_payment_def p_def)
  moreover have "t_applications (w_db w') = map (\<lambda>x. if a_id x = aid then x\<lparr>a_status := App_ACCEPTED\<rparr>
          else if a_jobId x = jid \<and> a_status x = App_PENDING then x\<lparr>a_status := App_REJECTED\<rparr> else x) (t_applications (w_db w))"
    using tables accepted_apps_map [of a "w_db w1"] a assms(2)
    by (simp add: plan_of_def pay(2)) (simp add: put_payment_def)
  moreover have "find_row j_id jid (t_jobs (w_db w')) = Some (j\<lparr>j_status := PENDING, j_acceptedArtisanId := Some (a_artisanId a),
          j_paymentIntentId := Some (p_reference p)\<rparr>)"
    using tables find_row_save_same [of j_id "saved_row (accepted_job (ap_job ?pl) (ap_artisan ?pl) intent)"]
    by (simp add: p plan_of_def accepted_job_def jid) (simp add: saved_row_def uid)
  moreover have "outbox w' = outbox w @ JOB_APPLICATION_ACCEPTED (a_artisanId a) (job_title j) jid
          # map (\<lambda>x. JOB_APPLICATION_REJECTED (a_artisanId x) (job_title j) jid)
              (filter (\<lambda>x. a_id x \<noteq> aid) (pending_applications (w_db w) jid))"
  proof -
    have "u_id (the (find_user (w_db w) (a_artisanId x))) = a_artisanId x"
      if "x \<in> set (filter (\<lambda>x. a_id x \<noteq> aid) (pending_applications (w_db w) jid))" for x
      using that tables find_user_id by (fastforce simp: plan_of_def jid a(2) image_iff)
    then show ?thesis using tables by (simp add: plan_of_def accepted_world_def out1 uid jid a(2))
  qed
  ultimately show ?thesis
    using j a p pay(1) by (intro exI [of _ j] exI [of _ a] exI [of _ p] conjI) assumption+
qed

lemma succeeds: "\<not> isl (fst x) \<Longrightarrow> \<exists>v. x = (Inr v, snd x)"
  by (cases x; cases "fst x") auto

section \<open>Two accepts at once\<close>

lemma timeline_ok_last2:
  "timeline_ok cur (hs @ [h1, h2]) s \<Longrightarrow> h_from h2 = Some (h_to h1)"
  by (induction hs arbitrary: cur) auto

lemma plan_of_simps [simp]:
  "ap_application (plan_of d j a u) = a" "ap_artisan (plan_of d j a u) = u" "ap_job (plan_of d j a u) = with_relations d j"
  by (simp_all add: plan_of_def)

lemma accept_commit_effect:
  assumes "accept_commit env jid (a_id a) uid (plan_of d j a u) w = (Inr v, w')" and "a_jobId a = jid" and "j_id j = jid"
    and "find_job (w_db w) jid \<noteq> None" and "j_status j = OPEN"
  shows "\<exists>p h. p_id p = next_id w T_payments \<and> next_id w' T_payments = Suc (next_id w T_payments)
     \<and> p_jobId p = jid \<and> p_status p = Pay_PENDING \<and> p_reference p = payment_reference jid uid (clock w)
     \<and> h_jobId h = jid \<and> h_from h = Some OPEN \<and> h_to h = PENDING
     \<and> w_db w' = add_history h (put_job (j\<lparr>j_status := PENDING, j_acceptedArtisanId := Some (u_id u), j_paymentIntentId := Some (p_reference p)\<rparr>)
          (accepted_apps a (put_payment p (w_db w))))"
proof -
  let ?pl = "plan_of d j a u"
  obtain r1 w1 where hold: "hold_payment env jid uid (u_id u) (a_quotePrice a) w = (r1, w1)" by fastforce
  obtain j1 where j1: "find_job (w_db w) jid = Some j1" using assms(4) by blast
  have com: "(Inr v, w') = (case r1 of Inl e \<Rightarrow> (Inl e, w1) | Inr intent \<Rightarrow>
     if savable (with_relations d j) then accept_tail jid uid ?pl (accepted_world ?pl uid intent w1)
     else (Inl NotNullViolation, w1\<lparr>w_db := accepted_apps a (w_db w1)\<rparr>))"
    using accept_commit_run [of env jid uid ?pl w r1 w1 "a_id a", unfolded plan_of_simps, OF hold refl assms(2) [symmetric]] assms(1) by (rule HOL.trans [OF sym, rotated])
  then obtain intent where intent: "r1 = Inr intent" and tail: "accept_tail jid uid ?pl (accepted_world ?pl uid intent w1) = (Inr v, w')"
    by (cases r1; cases "savable (with_relations d j)") simp_all
  from hold_payment_held [OF hold [unfolded intent] j1] obtain prid fee art where
    db: "w_db w1 = put_payment (new_payment (next_id w T_payments) jid uid prid (agreed_price a j1) fee art ''GHS'' intent (clock w)) (w_db w)"
    and ids: "next_id w1 = (next_id w)(T_payments := Suc (next_id w T_payments))" by blast
  note tl = accept_tail_result [OF tail]
  have nid: "next_id w' T_payments = Suc (next_id w T_payments)" using tl ids by (simp add: accepted_world_def recorded_def)
  let ?p = "new_payment (next_id w T_payments) jid uid prid (agreed_price a j1) fee art ''GHS'' intent (clock w)"
  let ?h = "history_row w1 jid (Some OPEN) PENDING (show_nat uid) (Some (accepted_reason (a_id a)))"
  have "saved_row (accepted_job (with_relations d j) u intent) = j\<lparr>j_status := PENDING, j_acceptedArtisanId := Some (u_id u), j_paymentIntentId := Some intent\<rparr>"
    by (simp add: saved_row_def accepted_job_def)
  then have "w_db w' = add_history ?h (put_job (j\<lparr>j_status := PENDING, j_acceptedArtisanId := Some (u_id u), j_paymentIntentId := Some intent\<rparr>)
     (accepted_apps a (put_payment ?p (w_db w))))"
    using tl db assms(3,5) by (simp add: accepted_world_def)
  moreover have "p_id ?p = next_id w T_payments" "p_jobId ?p = jid" "p_status ?p = Pay_PENDING" "p_reference ?p = intent"
    by (simp_all add: new_payment_def)
  moreover have "intent = payment_reference jid uid (clock w)" using hold intent by (auto elim: hold_payment_cases)
  ultimately show ?thesis using nid by (intro exI [of _ ?p] exI [of _ ?h]) simp
qed

text \<open>The written row is ACCEPTED, whatever the table held; an ACCEPTED row stays so.\<close>

lemma accepted_apps_status:
  assumes "x \<in> set (t_applications (accepted_apps b d))"
  shows "(a_id x = a_id b \<longrightarrow> a_status x = App_ACCEPTED)
     \<and> (a_id x \<noteq> a_id b \<longrightarrow> (\<exists>y \<in> set (t_applications d). a_id y = a_id x \<and> (a_status y = App_ACCEPTED \<longrightarrow> a_status x = App_ACCEPTED)))"
  using assms
  by (auto simp: accepted_apps_def update_applications_def put_application_def in_update_where save_row_def
      dest: arg_cong [where f = a_status] split: if_splits)

lemma accepted_payments: "t_payments (accepted_apps a (put_payment p d)) = save_row p_id p (t_payments d)"
  by (simp add: accepted_apps_def put_payment_def)

lemma put_payment_apps [simp]: "t_applications (put_payment p d) = t_applications d" "t_jobs (put_payment p d) = t_jobs d"
    "t_history (put_payment p d) = t_history d"
  by (simp_all add: put_payment_def)

lemma accepted_apps_ids:
  "a_id ` set (t_applications (accepted_apps b d)) = insert (a_id b) (a_id ` set (t_applications d))"
proof -
  have "a_id ` set (update_where q (\<lambda>x. x\<lparr>a_status := st\<rparr>) rows) = a_id ` set rows" for q st and rows :: "application list"
    using update_where_keys [of a_id "\<lambda>x. x\<lparr>a_status := st\<rparr>" q rows] by (simp flip: set_map)
  moreover have "a_id ` set (save_row a_id r rows) = insert (a_id r) (a_id ` set rows)" for r and rows :: "application list"
    by (auto simp: save_row_def image_iff)
  ultimately show ?thesis by (simp add: accepted_apps_def update_applications_def put_application_def)
qed

lemma find_job_of_row: "find_row j_id jid (t_jobs d) = Some j \<Longrightarrow> j_deletedAt j = None \<Longrightarrow> find_job d jid = Some j"
  by (simp add: find_job_def)

text \<open>
  Two accepts at once. Nothing is locked between the moment an accept reads the job and the moment
  it writes, and the writes are not one transaction: when the customer accepts two applications and the
  second request reads the job before the first one writes, both succeed. Afterwards both applications
  are ACCEPTED, the job belongs to the second artisan, it has two PENDING payments of which it
  references only the later one, and its history no longer is a coherent chain.
\<close>

theorem accept_race:
  assumes "accept_load jid a1 uid w = (Inr p1, w)" and "accept_load jid a2 uid w = (Inr p2, w)" and "a1 \<noteq> a2"
    and "accept_commit env jid a1 uid p1 w = (Inr v1, w1)"
    and "accept_commit env jid a2 uid p2 (w1\<lparr>clock := t\<rparr>) = (Inr v2, w2)"
  shows "(\<forall>x \<in> set (t_applications (w_db w2)). a_id x \<in> {a1, a2} \<longrightarrow> a_status x = App_ACCEPTED)
     \<and> {a1, a2} \<subseteq> a_id ` set (t_applications (w_db w2))
     \<and> (\<exists>p q j. {p, q} \<subseteq> set (t_payments (w_db w2)) \<and> p_id p \<noteq> p_id q \<and> p_jobId p = jid \<and> p_jobId q = jid
          \<and> p_status p = Pay_PENDING \<and> p_status q = Pay_PENDING
          \<and> find_row j_id jid (t_jobs (w_db w2)) = Some j \<and> j_acceptedArtisanId j = Some (u_id (ap_artisan p2))
          \<and> j_paymentIntentId j = Some (p_reference q))
     \<and> \<not> jobs_ok (w_db w2)"
proof -
  from accept_load_cases [OF assms(1)] obtain j a u where
    j: "find_job (w_db w) jid = Some j" "j_status j = OPEN" and
    a: "a \<in> set (t_applications (w_db w))" "a_id a = a1" "a_jobId a = jid" "a_status a = App_PENDING" and
    p1: "p1 = plan_of (w_db w) j a u" by auto
  from accept_load_cases [OF assms(2)] j obtain b u' where
    b: "b \<in> set (t_applications (w_db w))" "a_id b = a2" "a_jobId b = jid" "a_status b = App_PENDING" and
    p2: "p2 = plan_of (w_db w) j b u'" by auto
  have jid: "j_id j = jid" using find_job_SomeD [OF j(1)] by simp
  from accept_commit_effect [OF assms(4) [unfolded p1, folded a(2)] a(3) jid _ j(2)] j(1) obtain p h1 where
    p: "p_id p = next_id w T_payments" "next_id w1 T_payments = Suc (next_id w T_payments)" "p_jobId p = jid" "p_status p = Pay_PENDING" and
    h1: "h_jobId h1 = jid" "h_to h1 = PENDING" and
    db1: "w_db w1 = add_history h1 (put_job (j\<lparr>j_status := PENDING, j_acceptedArtisanId := Some (u_id u), j_paymentIntentId := Some (p_reference p)\<rparr>)
       (accepted_apps a (put_payment p (w_db w))))"
    by blast
  have row1: "find_job (w_db (w1\<lparr>clock := t\<rparr>)) jid \<noteq> None"
    using find_row_save_same [of j_id "j\<lparr>j_status := PENDING, j_acceptedArtisanId := Some (u_id u), j_paymentIntentId := Some (p_reference p)\<rparr>"]
      find_job_SomeD [OF j(1)] by (simp add: find_job_def db1 jid)
  from accept_commit_effect [OF assms(5) [unfolded p2, folded b(2)] b(3) jid row1 j(2)] obtain q h2 where
    q: "p_id q = next_id w1 T_payments" "p_jobId q = jid" "p_status q = Pay_PENDING" and
    h2: "h_jobId h2 = jid" "h_from h2 = Some OPEN" and
    db2: "w_db w2 = add_history h2 (put_job (j\<lparr>j_status := PENDING, j_acceptedArtisanId := Some (u_id u'), j_paymentIntentId := Some (p_reference q)\<rparr>)
       (accepted_apps b (put_payment q (w_db w1))))"
    by auto
  have apps1: "t_applications (w_db w1) = t_applications (accepted_apps a (put_payment p (w_db w)))" by (simp add: db1)
  have apps2: "t_applications (w_db w2) = t_applications (accepted_apps b (put_payment q (w_db w1)))" by (simp add: db2)
  have row2: "find_row j_id jid (t_jobs (w_db w2)) = Some (j\<lparr>j_status := PENDING, j_acceptedArtisanId := Some (u_id u'), j_paymentIntentId := Some (p_reference q)\<rparr>)"
    using find_row_save_same [of j_id "j\<lparr>j_status := PENDING, j_acceptedArtisanId := Some (u_id u'), j_paymentIntentId := Some (p_reference q)\<rparr>"]
    by (simp add: db2 jid)
  have first: "a_status y = App_ACCEPTED" if "y \<in> set (t_applications (w_db w1))" "a_id y = a1" for y
    using that accepted_apps_status [of y a "put_payment p (w_db w)"] a(2) by (simp add: apps1)
  have apps: "\<forall>x \<in> set (t_applications (w_db w2)). a_id x \<in> {a1, a2} \<longrightarrow> a_status x = App_ACCEPTED"
  proof (intro ballI impI)
    fix x assume "x \<in> set (t_applications (w_db w2))" "a_id x \<in> {a1, a2}"
    with accepted_apps_status [of x b "put_payment q (w_db w1)"] first b(2) show "a_status x = App_ACCEPTED"
      by (cases "a_id x = a2") (auto simp: apps2)
  qed
  have ids: "{a1, a2} \<subseteq> a_id ` set (t_applications (w_db w2))"
    by (simp add: apps2 apps1 accepted_apps_ids a(2) b(2))
  have pq: "{p, q} \<subseteq> set (t_payments (w_db w2))" "p_id p \<noteq> p_id q"
    using p(1,2) q(1) in_save_row [of q p_id] in_save_row [of p p_id "t_payments (w_db w)"]
    by (auto simp: db2 db1 accepted_payments save_row_def)
  have broken: "\<not> jobs_ok (w_db w2)"
  proof
    assume ok: "jobs_ok (w_db w2)"
    have "timeline (w_db w2) jid = timeline (w_db w) jid @ [h1, h2]" using h1 h2 by (simp add: timeline_def db1 db2)
    with jobs_ok_row [OF ok row2] timeline_ok_last2 [of None _ h1 h2] h1(2) h2(2) show False by simp
  qed
  show ?thesis
    by (intro conjI exI [of _ p] exI [of _ q] exI, rule apps, rule ids, rule pq, rule pq, rule p, rule q, rule p, rule q,
        rule row2, simp add: p2, simp, rule broken)
qed

definition fx_race :: world where
  "fx_race = fx_jobs [fx_open] [fx_app 50 2, fx_app 51 3] []"

definition fx_plan :: "nat \<Rightarrow> nat \<Rightarrow> accept_plan" where
  "fx_plan k uid = plan_of (w_db fx_race) fx_open (fx_app k uid) (fx_user uid ARTISAN)"

lemma fx_race_loads:
  "accept_load 7 50 1 fx_race = (Inr (fx_plan 50 2), fx_race)" "accept_load 7 51 1 fx_race = (Inr (fx_plan 51 3), fx_race)"
  by (simp_all add: accept_load_def assert_owner_def fx_plan_def plan_of_def run_simps ret_def fx_race_def fx_job_defs fx_finders
      pending_applications_def)

lemma hold_payment_ok:
  assumes "find_job (w_db w) jid = Some j" and "j_currency j = ''GHS''" and "aid \<noteq> 0" and "profile_of_user (w_db w) aid = Some pr"
    and "payment_by_reference (w_db w) (payment_reference jid uid (clock w)) = None" and "0 < q"
  shows "fst (hold_payment env jid uid aid (Some q) w) = Inr (payment_reference jid uid (clock w))"
  using assms by (simp add: hold_payment_def run_simps Let_def)

lemma each_rejected_ok: "None \<notin> set us \<Longrightarrow> \<exists>w'. for_each us (emit_rejected title jid) w = (Inr (), w') \<and> w_db w' = w_db w"
proof (induction us arbitrary: w)
  case (Cons u us)
  then obtain x where u: "u = Some x" by (cases u) auto
  obtain w' where "for_each us (emit_rejected title jid) (w\<lparr>outbox := outbox w @ [JOB_APPLICATION_REJECTED (u_id x) title jid]\<rparr>) = (Inr (), w')
     \<and> w_db w' = w_db w"
    using Cons.IH [of "w\<lparr>outbox := outbox w @ [JOB_APPLICATION_REJECTED (u_id x) title jid]\<rparr>"] Cons.prems by auto
  then show ?case by (simp add: run_emit_rejected u)
qed (simp add: ret_def)

lemma accept_tail_ok:
  assumes "None \<notin> set (ap_rejected pl)" and "find_job (w_db w) jid \<noteq> None"
  shows "\<not> isl (fst (accept_tail jid uid pl w))"
proof -
  let ?j = "lj_job (ap_job pl)"
  let ?w = "w\<lparr>outbox := outbox w @ [JOB_APPLICATION_ACCEPTED (u_id (ap_artisan pl)) (job_title ?j) (j_id ?j)]\<rparr>"
  obtain w' where "for_each (ap_rejected pl) (emit_rejected (job_title ?j) (j_id ?j)) ?w = (Inr (), w')" "w_db w' = w_db ?w"
    using each_rejected_ok [OF assms(1)] by blast
  with assms(2) show ?thesis
    by (auto simp: accept_tail_def Let_def run_emit andthen_def [of "for_each _ _"] bnd_def run_load_dto split: option.splits)
qed

lemma accept_commit_ok:
  assumes "find_job (w_db w) (a_jobId a) = Some j0" and "j_currency j0 = ''GHS''" and "u_id u \<noteq> 0"
    and "profile_of_user (w_db w) (u_id u) = Some pr"
    and "payment_by_reference (w_db w) (payment_reference (a_jobId a) uid (clock w)) = None" and "a_quotePrice a = Some q" and "0 < q"
    and "savable (with_relations d j)" and "None \<notin> set (ap_rejected (plan_of d j a u))" and "j_id j = a_jobId a" and "j_deletedAt j = None"
  shows "\<not> isl (fst (accept_commit env (a_jobId a) (a_id a) uid (plan_of d j a u) w))"
proof -
  let ?pl = "plan_of d j a u"
  obtain ref w1 where hold: "hold_payment env (a_jobId a) uid (u_id u) (a_quotePrice a) w = (Inr ref, w1)"
    using hold_payment_ok [OF assms(1-5,7), of env] assms(6) by (metis prod.collapse)
  have "find_job (w_db (accepted_world ?pl uid ref w1)) (a_jobId a) \<noteq> None"
    using find_row_save_same [of j_id "saved_row (accepted_job (ap_job ?pl) u ref)"] assms(10,11)
    by (simp add: find_job_def accepted_job_def) (simp add: saved_row_def)
  then show ?thesis
    using accept_commit_run [of env "a_jobId a" uid ?pl w "Inr ref" w1 "a_id a", unfolded plan_of_simps, OF hold refl refl]
      accept_tail_ok [OF assms(9)] assms(8) by simp
qed

lemma fx_race_world:
  "find_job (w_db fx_race) 7 = Some fx_open" "profile_of_user (w_db fx_race) 2 = Some fx_profile"
  "profile_of_user (w_db fx_race) 3 = Some (fx_profile\<lparr>pr_id := 30, pr_userId := Some 3\<rparr>)" "t_payments (w_db fx_race) = []" "clock fx_race = 1000"
  by (simp_all add: fx_race_def fx_job_defs fx_finders)

lemma fx_plan_ok:
  "savable (with_relations (w_db fx_race) fx_open)" "k \<in> {50, 51} \<Longrightarrow> None \<notin> set (ap_rejected (fx_plan k uid))"
  by (auto simp: savable_def with_relations_def fx_plan_def plan_of_def pending_applications_def fx_race_def fx_job_defs fx_finders)

lemma fx_sel [simp]:
  "j_currency fx_open = ''GHS''" "j_id fx_open = 7" "j_deletedAt fx_open = None" "j_status fx_open = OPEN" "u_id (fx_user k r) = k"
  "a_quotePrice (fx_app k uid) = Some 15000" "a_jobId (fx_app k uid) = 7" "a_id (fx_app k uid) = k" "a_status (fx_app k uid) = App_PENDING"
  by (simp_all add: fx_job_defs)

lemma fx_race_commit1: "\<not> isl (fst (accept_commit fx_env 7 50 1 (fx_plan 50 2) fx_race))"
  using accept_commit_ok [where w = fx_race and a = "fx_app 50 2" and u = "fx_user 2 ARTISAN" and uid = 1 and d = "w_db fx_race" and j = fx_open
       and env = fx_env] fx_race_world fx_plan_ok(1) fx_plan_ok(2) [of 50 2] by (simp add: fx_plan_def payment_by_reference_def)

definition fx_race2 :: world where
  "fx_race2 = (snd (accept_commit fx_env 7 50 1 (fx_plan 50 2) fx_race))\<lparr>clock := 1001\<rparr>"

lemma fx_race2_world:
  "\<exists>j. find_job (w_db fx_race2) 7 = Some j \<and> j_currency j = ''GHS''"
  "profile_of_user (w_db fx_race2) 3 = profile_of_user (w_db fx_race) 3"
  "payment_by_reference (w_db fx_race2) (payment_reference 7 1 1001) = None"
proof -
  obtain v w' where run: "accept_commit fx_env 7 50 1 (fx_plan 50 2) fx_race = (Inr v, w')"
    using succeeds [OF fx_race_commit1] by blast
  have r2: "fx_race2 = w'\<lparr>clock := 1001\<rparr>" by (simp only: fx_race2_def run snd_conv)
  have run': "accept_commit fx_env 7 (a_id (fx_app 50 2)) 1 (plan_of (w_db fx_race) fx_open (fx_app 50 2) (fx_user 2 ARTISAN)) fx_race = (Inr v, w')"
    using run by (simp add: fx_plan_def)
  have here: "find_job (w_db fx_race) 7 \<noteq> None" by (simp add: fx_race_world)
  from accept_commit_effect [OF run' _ _ here] obtain p h where
    p: "p_reference p = payment_reference 7 1 1000" and
    db: "w_db w' = add_history h (put_job (fx_open\<lparr>j_status := PENDING, j_acceptedArtisanId := Some 2, j_paymentIntentId := Some (p_reference p)\<rparr>)
       (accepted_apps (fx_app 50 2) (put_payment p (w_db fx_race))))"
    by (auto simp: fx_race_world(5))
  have "t_jobs (w_db w') = [fx_open\<lparr>j_status := PENDING, j_acceptedArtisanId := Some 2, j_paymentIntentId := Some (p_reference p)\<rparr>]"
    by (simp add: db save_row_def) (simp add: fx_race_def fx_jobs_def)
  then show "\<exists>j. find_job (w_db fx_race2) 7 = Some j \<and> j_currency j = ''GHS''"
    by (simp add: r2 find_job_def find_row_def)
  show "profile_of_user (w_db fx_race2) 3 = profile_of_user (w_db fx_race) 3"
    by (simp add: r2 db profile_of_user_def find_user_def accepted_apps_def add_history_def put_job_def put_payment_def put_application_def
        update_applications_def split: option.split)
  have "t_payments (w_db w') = [p]"
    by (simp add: db accepted_payments save_row_def fx_race_world(4))
  moreover have "payment_reference 7 1 1000 \<noteq> payment_reference 7 1 1001" by code_simp
  ultimately show "payment_by_reference (w_db fx_race2) (payment_reference 7 1 1001) = None"
    using p by (simp add: r2 payment_by_reference_def)
qed

lemma fx_race_commit2: "\<not> isl (fst (accept_commit fx_env 7 51 1 (fx_plan 51 3) fx_race2))"
proof -
  have clk: "clock fx_race2 = 1001" by (simp add: fx_race2_def)
  show ?thesis
    using accept_commit_ok [where w = fx_race2 and a = "fx_app 51 3" and u = "fx_user 3 ARTISAN" and uid = 1 and d = "w_db fx_race" and j = fx_open
       and env = fx_env] fx_race2_world fx_race_world(3) clk fx_plan_ok(1) fx_plan_ok(2) [of 51 3] by (auto simp: fx_plan_def)
qed

theorem accept_race_witness:
  "\<not> jobs_ok (w_db (snd (accept_commit fx_env 7 51 1 (fx_plan 51 3) fx_race2)))"
proof -
  obtain v1 w1 where c1: "accept_commit fx_env 7 50 1 (fx_plan 50 2) fx_race = (Inr v1, w1)"
    using succeeds [OF fx_race_commit1] by blast
  then have r2: "fx_race2 = w1\<lparr>clock := 1001\<rparr>" by (simp only: fx_race2_def snd_conv)
  obtain v2 where c2: "accept_commit fx_env 7 51 1 (fx_plan 51 3) (w1\<lparr>clock := 1001\<rparr>) = (Inr v2, snd (accept_commit fx_env 7 51 1 (fx_plan 51 3) fx_race2))"
    using succeeds [OF fx_race_commit2, unfolded r2] by (auto simp: r2)
  have ne: "(50::nat) \<noteq> 51" by simp
  show ?thesis by (rule accept_race [OF fx_race_loads ne c1 c2, THEN conjunct2, THEN conjunct2, THEN conjunct2])
qed

theorem accept_application_effect_witness:
  "\<exists>p \<in> set (t_payments (w_db (snd (accept_application fx_env 7 50 1 fx_race)))).
     p_jobId p = 7 \<and> p_amount p = 15000 \<and> p_status p = Pay_PENDING"
proof -
  have "accept_application fx_env 7 50 1 fx_race = accept_commit fx_env 7 50 1 (fx_plan 50 2) fx_race"
    using fx_race_loads(1) by (simp add: accept_application_def bnd_def)
  then obtain v where run: "accept_application fx_env 7 50 1 fx_race = (Inr v, snd (accept_application fx_env 7 50 1 fx_race))"
    using succeeds [OF fx_race_commit1] by metis
  have apps: "t_applications (w_db fx_race) = [fx_app 50 2, fx_app 51 3]" by (simp add: fx_race_def fx_jobs_def)
  with accept_application_effect [OF run] obtain j a p where
    "a \<in> {fx_app 50 2, fx_app 51 3}" "p \<in> set (t_payments (w_db (snd (accept_application fx_env 7 50 1 fx_race))))"
    "p_jobId p = 7" "p_status p = Pay_PENDING" "p_amount p = agreed_price a j" by auto
  then show ?thesis by (auto simp: agreed_price_def)
qed

section \<open>Working, completing, cancelling\<close>

text \<open>
  Work starts on paid jobs only. A start that succeeds was asked by the accepted artisan of a
  PENDING job whose payment, when it references one, is HELD in escrow; the job is then IN_PROGRESS,
  nothing else of it changes, and its customer is told.
\<close>

theorem start_job_paid:
  assumes "start_job jid uid w = (Inr v, w')"
  shows "\<exists>j. find_job (w_db w) jid = Some j \<and> j_status j = PENDING \<and> j_acceptedArtisanId j = Some uid
     \<and> (truthy (j_paymentIntentId j) \<longrightarrow> map_option p_status (payment_by_reference (w_db w) (the (j_paymentIntentId j))) = Some Pay_HELD)
     \<and> find_job (w_db w') jid = Some (j\<lparr>j_status := IN_PROGRESS,
          j_acceptedArtisanId := map_option u_id (find_user (w_db w) uid)\<rparr>)
     \<and> outbox w' = outbox w @ [JOB_STARTED (j_customerId j) (job_title j) jid]"
proof (cases "find_job (w_db w) jid")
  case None
  with assms show ?thesis by (simp add: start_job_def run_simps)
next
  case (Some j)
  let ?l = "with_relations (w_db w) j"
  let ?w = "moved ?l IN_PROGRESS (show_nat uid) None w"
  note jd = find_job_SomeD [OF Some]
  have start: "j_status j = PENDING" "j_acceptedArtisanId j = Some uid"
    "truthy (j_paymentIntentId j) \<longrightarrow> is_payment_secured (the (j_paymentIntentId j)) (w_db w)"
    using assms Some by (auto simp: start_job_def assert_accepted_artisan_def run_simps split: option.splits if_splits)
  moreover have "find_job (w_db ?w) jid = Some (saved_row (?l\<lparr>lj_job := j\<lparr>j_status := IN_PROGRESS\<rparr>\<rparr>))"
    using jd find_row_save_same [of j_id "saved_row (?l\<lparr>lj_job := j\<lparr>j_status := IN_PROGRESS\<rparr>\<rparr>)"]
    by (simp add: find_job_def moved_def) (simp add: saved_row_def)
  moreover have "saved_row (?l\<lparr>lj_job := j\<lparr>j_status := IN_PROGRESS\<rparr>\<rparr>)
     = j\<lparr>j_status := IN_PROGRESS, j_acceptedArtisanId := map_option u_id (find_user (w_db w) uid)\<rparr>"
    using start(2) by (simp add: saved_row_def with_relations_def Let_def)
  moreover obtain c where "lj_customer ?l = Some c" "w' = ?w\<lparr>outbox := outbox w @ [JOB_STARTED (u_id c) (job_title j) jid]\<rparr>"
    using assms Some jd by (auto simp: start_job_def assert_accepted_artisan_def run_simps moved_def split: option.splits if_splits)
  moreover from this have "u_id c = j_customerId j" by (auto simp: with_relations_def Let_def dest: find_user_id)
  ultimately show ?thesis using Some by (auto simp: is_payment_secured_def)
qed

definition fx_paid :: world where
  "fx_paid = fx_jobs [fx_job PENDING] [] [fx_payment Pay_HELD]"

lemma fx_start: "\<not> isl (fst (start_job 7 2 fx_paid))"
  by code_simp

theorem start_job_paid_witness: "outbox (snd (start_job 7 2 fx_paid)) \<noteq> []"
proof -
  obtain v where "start_job 7 2 fx_paid = (Inr v, snd (start_job 7 2 fx_paid))" using succeeds [OF fx_start] by blast
  from start_job_paid [OF this] show ?thesis by auto
qed

text \<open>A job that has reached its end, under any further requests.\<close>

lemma ended_stays:
  assumes "job_step\<^sup>*\<^sup>* w w'" and "jobs_ok (w_db w)" and "find_row j_id jid (t_jobs (w_db w)) = Some j"
    and "j_status j \<in> {COMPLETED, CANCELLED, EXPIRED}" and "find_job (w_db w') jid = Some j'"
  shows "j_status j' = j_status j"
proof -
  have stuck: "allowed\<^sup>*\<^sup>* s t \<Longrightarrow> s \<in> {COMPLETED, CANCELLED, EXPIRED} \<Longrightarrow> t = s" for s t
    by (induction rule: converse_rtranclp_induct) auto
  note path = job_steps_change [OF assms(1)]
  note j = find_row_mem [OF assms(3)]
  from job_changes_status [OF path assms(2) j [THEN conjunct1]] obtain x where
    x: "x \<in> set (t_jobs (w_db w'))" "j_id x = jid" "allowed\<^sup>*\<^sup>* (j_status j) (j_status x)" and ok: "jobs_ok (w_db w')"
    using j by blast
  have "find_row j_id jid (t_jobs (w_db w')) = Some x"
    using ok x by (simp add: jobs_ok_def find_row_Some_iff)
  then show ?thesis using find_job_SomeD [OF assms(5)] stuck [OF x(3) assms(4)] by simp
qed

lemma confirm_tx_cases:
  assumes "confirm_tx jid uid w = (r, w')"
  shows "(\<exists>e. r = Inl e \<and> w' = w) \<or> (\<exists>j. find_job (w_db w) jid = Some j \<and> j_customerId j = uid \<and> j_status j = IN_PROGRESS
     \<and> j_completionRequestedAt j \<noteq> None \<and> r = Inr (j_paymentIntentId j) \<and> w' = completed j (show_nat uid) None w)"
  using assms by (auto simp: confirm_tx_def assert_owner_def run_simps ret_def split: option.splits if_splits)

lemma same_db [simp]: "w\<lparr>w_db := w_db w\<rparr> = w"
  by simp

lemma confirm_refused:
  assumes "\<And>j. find_job (w_db w) jid = Some j \<Longrightarrow> j_status j \<noteq> IN_PROGRESS"
  shows "\<exists>e. confirm_completion env jid uid w = (Inl e, w)"
proof -
  obtain r w' where tx: "confirm_tx jid uid w = (r, w')" by fastforce
  from confirm_tx_cases [OF tx] assms obtain e where "r = Inl e" "w' = w" by blast
  with tx show ?thesis by (simp add: confirm_completion_def bnd_def transaction_def)
qed

lemma auto_refused:
  assumes "\<And>j. find_job (w_db w) jid = Some j \<Longrightarrow> j_status j \<noteq> IN_PROGRESS"
  shows "auto_complete_job env jid w = (Inr False, w)"
  using assms by (cases "find_job (w_db w) jid")
    (simp_all add: auto_complete_job_def bnd_def transaction_def auto_complete_tx_def asks_def ret_def)

text \<open>The step after the commit of a confirmation.\<close>

definition confirm_rest :: "env \<Rightarrow> nat \<Rightarrow> nat \<Rightarrow> string option \<Rightarrow> (confirm_message \<times> job_view) act" where
  "confirm_rest env jid uid intent =
     bnd (capture_best_effort env intent jid) (\<lambda>msg.
     bnd (load_job_or_fail jid) (\<lambda>l.
     andthen (emit_completed (lj_job l))
     (bnd (load_job_dto jid \<lparr>vw_id = uid, vw_role = CUSTOMER\<rparr> False) (\<lambda>dto. ret (msg, dto)))))"

lemma keeps_confirm_rest: "keeps (\<lambda>w. job_tables (w_db w) = x) (confirm_rest env jid uid intent)"
  unfolding confirm_rest_def by (intro jt_rules keeps_reads)

lemma confirm_runs:
  assumes "confirm_completion env jid uid w = (Inr (msg, v), w')"
  shows "\<exists>j. find_job (w_db w) jid = Some j \<and> j_customerId j = uid \<and> j_status j = IN_PROGRESS \<and> j_completionRequestedAt j \<noteq> None
     \<and> confirm_rest env jid uid (j_paymentIntentId j) (completed j (show_nat uid) None w) = (Inr (msg, v), w')"
proof -
  obtain r w1 where tx: "confirm_tx jid uid w = (r, w1)" by fastforce
  from confirm_tx_cases [OF tx] show ?thesis
    using assms tx by (auto simp: confirm_completion_def confirm_rest_def [symmetric] transaction_def bnd_def [of "\<lambda>w. _"]
        bnd_def [of "transaction _"])
qed

lemma confirm_rest_message:
  assumes "confirm_rest env jid uid intent w = (Inr (msg, v), w')"
  shows "msg = (if \<not> truthy intent then Job_confirmed
     else if isl (fst (capture_payment env (the intent) jid w)) then Payment_delayed else Payment_releasing)"
proof (cases "truthy intent")
  case True
  obtain q w2 where "capture_payment env (the intent) jid w = (q, w2)" by fastforce
  with True assms show ?thesis
    by (cases q) (auto simp: confirm_rest_def capture_best_effort_def emit_completed_def run_simps split: option.splits if_splits)
next
  case False
  with assms show ?thesis
    by (auto simp: confirm_rest_def capture_best_effort_def emit_completed_def run_simps split: option.splits if_splits)
qed


definition fx_move :: "nat \<Rightarrow> status option \<Rightarrow> status \<Rightarrow> history" where
  "fx_move k from to = \<lparr>h_id = k, h_jobId = 7, h_from = from, h_to = to, h_changedBy = ''1'', h_reason = None, h_createdAt = 0\<rparr>"

definition fx_working :: world where
  "fx_working = (fx_jobs [] [] [])\<lparr>w_db := (w_db (fx_jobs [] [] [fx_payment Pay_HELD]))\<lparr>
     t_jobs := [(fx_job IN_PROGRESS)\<lparr>j_completionRequestedAt := Some 900, j_paymentIntentId := None\<rparr>],
     t_history := [fx_move 1 None OPEN, fx_move 2 (Some OPEN) PENDING, fx_move 3 (Some PENDING) IN_PROGRESS]\<rparr>\<rparr>"

lemma fx_confirm: "\<not> isl (fst (confirm_completion fx_env 7 1 fx_working))"
  by code_simp

lemma fx_working_ok: "jobs_ok (w_db fx_working)"
  by (simp add: jobs_ok_def timeline_def fx_working_def fx_move_def fx_job_defs)


lemma run_emit_each: "for_each ks (\<lambda>k. emit (f k)) w = (Inr (), w\<lparr>outbox := outbox w @ map f ks\<rparr>)"
  by (induction ks arbitrary: w) (simp_all add: ret_def run_emit)

text \<open>The money step of a cancellation, and what is sent after its commit.\<close>

definition settled :: "env \<Rightarrow> job \<Rightarrow> unit act" where
  "settled env j = only_if (truthy (j_paymentIntentId j)) (cancel_payment env (the (j_paymentIntentId j)))"

definition cancel_notices :: "job \<Rightarrow> nat list \<Rightarrow> event list" where
  "cancel_notices j ks =
     (let title = (case j_title j of Some t \<Rightarrow> t | None \<Rightarrow> default_title (j_id j))
      in (if truthy_id (j_acceptedArtisanId j) then [JOB_CANCELLED (the (j_acceptedArtisanId j)) title (j_id j)] else [])
         @ map (\<lambda>k. JOB_APPLICATION_REJECTED k title (j_id j)) ks)"

lemma keeps_settled: "keeps (\<lambda>w. job_tables (w_db w) = x) (settled env j)"
  unfolding settled_def by (intro jt_rules keeps_cancel_payment)

lemma settled_frame:
  assumes "settled env j w = (q, w1)"
  shows "job_tables (w_db w1) = job_tables (w_db w)" and "outbox w1 = outbox w" and "q = Inl e \<Longrightarrow> w_db w1 = w_db w"
proof -
  show "job_tables (w_db w1) = job_tables (w_db w)"
    using keeps_tablesD [of "settled env j" w q w1] keeps_settled assms by blast
  show "outbox w1 = outbox w"
    using assms by (auto simp: settled_def only_if_def ret_def cancel_payment_def run_transaction run_asks run_attempt
        run_create_refund run_throw run_with_db_last run_ret split: option.splits if_splits sum.splits prod.splits)
  show "q = Inl e \<Longrightarrow> w_db w1 = w_db w"
    using assms by (auto simp: settled_def only_if_def ret_def cancel_payment_def transaction_def split: if_splits prod.splits sum.splits)
qed

lemma cancel_job_run:
  assumes "find_job (w_db w) jid = Some j" and "cancel_refusal j uid = None" and money: "settled env j w = (q, w1)"
  shows "(case q of Inl e \<Rightarrow> cancel_job env jid uid w = (Inl e, w1) | Inr _ \<Rightarrow>
     (if None \<in> set (applicants (w_db w) jid) then \<exists>w2. cancel_job env jid uid w = (Inl TypeError, w2) \<and> w_db w2 = w_db w1 \<and> outbox w2 = outbox w
      else \<exists>w2. cancel_job env jid uid w = (Inr (), w2) \<and> w_db w2 = cancelled_db j uid w1
        \<and> outbox w2 = outbox w @ cancel_notices j (map (u_id \<circ> the) (applicants (w_db w) jid))))"
proof (cases q)
  case (Inl e)
  with assms show ?thesis by (simp add: cancel_job_def run_simps settled_def bnd_def [of "only_if _ _"] andthen_def [of "only_if _ _"])
next
  case (Inr x)
  note fr = settled_frame(1,2) [OF money]
  have same: "find_job (w_db w1) jid = Some j" "applicants (w_db w1) jid = applicants (w_db w) jid"
    using fr(1) assms(1) by (simp_all add: job_tables_def find_job_def applicants_def find_user_def pending_applications_def)
  obtain w2 where tx: "cancel_tx jid uid w1 =
     ((if None \<in> set (applicants (w_db w) jid) then Inl TypeError
       else Inr \<lparr>cn_artisan = j_acceptedArtisanId j, cn_title = j_title j, cn_rejected = map (u_id \<circ> the) (applicants (w_db w) jid)\<rparr>), w2)"
      "w_db w2 = cancelled_db j uid w1" "outbox w2 = outbox w1"
    using cancel_tx_run [OF same(1) assms(2)] same(2) by auto
  have step: "cancel_job env jid uid w = bnd (transaction (cancel_tx jid uid)) (\<lambda>c.
      let title = (case cn_title c of Some t \<Rightarrow> t | None \<Rightarrow> default_title jid)
      in andthen (only_if (truthy_id (cn_artisan c)) (emit (JOB_CANCELLED (the (cn_artisan c)) title jid)))
           (for_each (cn_rejected c) (\<lambda>k. emit (JOB_APPLICATION_REJECTED k title jid)))) w1"
    using assms Inr by (simp add: cancel_job_def run_asks run_some_or run_cancel_guards settled_def andthen_def [of "only_if _ _"] bnd_def [of "only_if _ _"])
  have jid: "j_id j = jid" using find_job_SomeD [OF assms(1)] by simp
  show ?thesis
    using tx fr(2) Inr
    by (auto simp: step bnd_def [of "transaction _"] transaction_def Let_def run_only_if run_emit run_emit_each cancel_notices_def jid
        cong: option.case_cong)
qed

lemma cancel_job_refused:
  assumes "find_job (w_db w) jid = None \<or> find_job (w_db w) jid = Some j \<and> cancel_refusal j uid = Some e0"
  shows "\<exists>e. cancel_job env jid uid w = (Inl e, w)"
  using assms by (auto simp: cancel_job_def run_simps)

lemma cancelled_applications:
  assumes "distinct (map a_id (t_applications (w_db w)))"
  shows "t_applications (cancelled_db j uid w) = map (\<lambda>a. if a_jobId a = j_id j \<and> a_status a = App_PENDING
     then a\<lparr>a_status := App_REJECTED\<rparr> else a) (t_applications (w_db w))"
proof -
  have "a_id x \<in> a_id ` set (pending_applications (w_db w) (j_id j)) \<longleftrightarrow> a_jobId x = j_id j \<and> a_status x = App_PENDING"
    if "x \<in> set (t_applications (w_db w))" for x
    using that assms by (auto simp: pending_applications_def distinct_map dest: inj_onD)
  then show ?thesis by (simp add: cancelled_db_def Let_def update_applications_def update_where_def)
qed

lemma cancelled_bookings:
  assumes "distinct (map j_id (t_jobs (w_db w)))" and "find_job (w_db w) (j_id j) = Some j"
  shows "t_bookings (cancelled_db j uid w) = map (\<lambda>b. if b_status b = Bk_CONFIRMED \<and> j_bookingId j = Some (b_id b)
     then b\<lparr>b_status := Bk_CANCELLED\<rparr> else b) (t_bookings (w_db w))"
proof -
  have "(\<exists>i \<in> set (save_row j_id (j\<lparr>j_status := CANCELLED\<rparr>) (t_jobs (w_db w))). j_id i = j_id j \<and> j_bookingId i = Some k)
      \<longleftrightarrow> j_bookingId j = Some k" for k
    by (auto simp: set_save_row [OF assms(1)])
  then show ?thesis
    by (simp add: cancelled_db_def Let_def update_bookings_def update_where_def) (simp add: update_applications_def add_history_def put_job_def)
qed


lemma fx_race_ok: "jobs_ok (w_db fx_race)" "distinct (map a_id (t_applications (w_db fx_race)))"
  by (simp_all add: fx_race_def fx_open_ok) (simp add: fx_jobs_def)

lemma fx_cancel: "\<not> isl (fst (cancel_job fx_env 7 1 fx_race))"
  by code_simp


text \<open>
  An applicant who deleted their account blocks the job. While such an application is PENDING on
  an OPEN job, cancelling it fails every time with an internal error and changes nothing; and its
  expiry marks it EXPIRED but then fails, so neither the customer nor the other applicants are told.
\<close>

theorem deleted_applicant_blocks:
  assumes "find_job (w_db w) jid = Some j" and "j_status j = OPEN" and "j_completionRequestedAt j = None" and "j_paymentIntentId j = None"
    and "a \<in> set (t_applications (w_db w))" and "a_jobId a = jid" and "a_status a = App_PENDING" and "find_user (w_db w) (a_artisanId a) = None"
    and "find_user (w_db w) (j_customerId j) \<noteq> None" and "find_service (w_db w) (j_serviceId j) \<noteq> None"
  shows "(\<exists>w2. cancel_job env jid (j_customerId j) w = (Inl TypeError, w2) \<and> w_db w2 = w_db w)
     \<and> (\<exists>w3 j'. expire_job jid w = (Inl TypeError, w3) \<and> find_job (w_db w3) jid = Some j' \<and> j_status j' = EXPIRED \<and> outbox w3 = outbox w)"
proof
  have gone: "None \<in> set (applicants (w_db w) jid)"
    using assms(5-8) by (force simp: applicants_def pending_applications_def)
  have free: "cancel_refusal j (j_customerId j) = None" using assms(2,3) by (simp add: cancel_refusal_None)
  have "settled env j w = (Inr (), w)" using assms(4) by (simp add: settled_def only_if_def ret_def)
  from cancel_job_run [OF assms(1) free this] gone
  show "\<exists>w2. cancel_job env jid (j_customerId j) w = (Inl TypeError, w2) \<and> w_db w2 = w_db w" by auto
  let ?l = "with_relations (w_db w) j"
  let ?w3 = "moved ?l EXPIRED ''SYSTEM'' None (closed_applications jid w)"
  have "savable ?l" "lj_customer ?l \<noteq> None" using assms(9,10) by (auto simp: savable_def with_relations_def Let_def)
  with expire_job_run [OF assms(1,2)] gone have "expire_job jid w = (Inl TypeError, ?w3)" by (auto simp: Let_def)
  moreover have "find_job (w_db ?w3) jid = Some (saved_row (?l\<lparr>lj_job := j\<lparr>j_status := EXPIRED\<rparr>\<rparr>))"
    using find_job_SomeD [OF assms(1)] find_row_save_same [of j_id "saved_row (?l\<lparr>lj_job := j\<lparr>j_status := EXPIRED\<rparr>\<rparr>)"]
    by (simp add: find_job_def moved_def) (simp add: saved_row_def)
  ultimately show "\<exists>w3 j'. expire_job jid w = (Inl TypeError, w3) \<and> find_job (w_db w3) jid = Some j' \<and> j_status j' = EXPIRED \<and> outbox w3 = outbox w"
    by (simp add: moved_def closed_applications_def)
qed

theorem deleted_applicant_blocks_witness:
  "\<exists>w2. cancel_job fx_env 7 (j_customerId fx_open) (fx_jobs [fx_open] [fx_app 52 4] []) = (Inl TypeError, w2)"
proof -
  let ?w = "fx_jobs [fx_open] [fx_app 52 4] []"
  have "find_job (w_db ?w) 7 = Some fx_open" "fx_app 52 4 \<in> set (t_applications (w_db ?w))" "find_user (w_db ?w) (a_artisanId (fx_app 52 4)) = None"
    "find_user (w_db ?w) (j_customerId fx_open) \<noteq> None" "find_service (w_db ?w) (j_serviceId fx_open) \<noteq> None"
    "j_completionRequestedAt fx_open = None" "j_paymentIntentId fx_open = None"
    by (simp_all add: fx_job_defs fx_finders)
  then show ?thesis using deleted_applicant_blocks [of ?w 7 fx_open "fx_app 52 4" fx_env] by auto
qed

end
