(* ===== verification/JobAccess.thy ===== *)
theory JobAccess
  imports JobRules
begin

text \<open>
  Who sees a job and its exact location, the text search, and editing a posted job.
\<close>

section \<open>Who sees a job\<close>

lemma can_view_scope:
  assumes "find_user d (vw_id v) \<noteq> None" and "vw_role v = ARTISAN \<Longrightarrow> j_customerId j \<noteq> vw_id v"
  shows "can_view_job d v (with_relations d j) \<longleftrightarrow> in_viewer_scope d v j"
proof -
  have "map_option u_id (find_user d k) = Some (vw_id v) \<longleftrightarrow> k = vw_id v" for k
    using assms(1) find_user_id [of d k] by (cases "find_user d k") auto
  moreover have "map_option u_id (Option.bind k (find_user d)) = Some (vw_id v) \<longleftrightarrow> k = Some (vw_id v)" for k
    using assms(1) find_user_id [of d] by (cases k; cases "find_user d (the k)") auto
  ultimately show ?thesis
    using assms by (cases "vw_role v") (auto simp: can_view_job_def in_viewer_scope_def with_relations_def Let_def)
qed

lemma find_one_run:
  assumes "find_job (w_db w) jid = Some j"
  shows "find_one jid v w = (if can_view_job (w_db w) v (with_relations (w_db w) j)
     then (Inr (attach_has_applied (w_db w) v (dto_of (w_db w) j v True)), w) else (Inl (NotFound_job (Job_not_found jid)), w))"
  using assms by (simp add: find_one_def run_simps asks_def)

lemma dto_id [simp]: "jv_id (attach_has_applied d v x) = jv_id x" "jv_id (with_location_privacy x v) = jv_id x"
    "jv_id (to_view l) = j_id (lj_job l)" "jv_exact (attach_has_applied d v x) = jv_exact x"
  by (simp_all add: attach_has_applied_def with_location_privacy_def redact_exact_location_def to_view_def Let_def)

text \<open>
  The list and the detail agree. For a live caller and a job that exists, and unless an artisan
  posted it themselves, reading the job succeeds exactly when an unfiltered list shows it, which is
  exactly when the caller is an admin, its customer, or an artisan and the job is OPEN, theirs, or one
  they applied to; otherwise reading it answers not found.
\<close>

theorem list_and_detail_agree:
  assumes "find_job (w_db w) jid = Some j" and "find_user (w_db w) (vw_id v) \<noteq> None"
    and "vw_role v = ARTISAN \<longrightarrow> j_customerId j \<noteq> vw_id v" and "distinct (map j_id (t_jobs (w_db w)))"
    and "jq_statuses q = [] \<and> jq_serviceId q = None \<and> jq_location q = None \<and> jq_page q = 1 \<and> length (t_jobs (w_db w)) \<le> jq_limit q"
    and "find_all uc q v w = (Inr (dtos, pg), w1)"
  shows "((\<exists>dto. fst (find_one jid v w) = Inr dto) \<longleftrightarrow> (\<exists>dto \<in> set dtos. jv_id dto = jid))
     \<and> ((\<exists>dto. fst (find_one jid v w) = Inr dto) \<longleftrightarrow> vw_role v = ADMIN
          \<or> (if vw_role v = ARTISAN then j_status j = OPEN \<or> j_acceptedArtisanId j = Some (vw_id v)
                \<or> (\<exists>a \<in> set (t_applications (w_db w)). a_artisanId a = vw_id v \<and> a_jobId a = jid)
              else j_customerId j = vw_id v))
     \<and> (\<not> (\<exists>dto. fst (find_one jid v w) = Inr dto) \<longrightarrow> find_one jid v w = (Inl (NotFound_job (Job_not_found jid)), w))"
proof -
  note jd = find_job_SomeD [OF assms(1)]
  have one: "(\<exists>dto. fst (find_one jid v w) = Inr dto) \<longleftrightarrow> in_viewer_scope (w_db w) v j"
    using find_one_run [OF assms(1), of v] can_view_scope [OF assms(2)] assms(3) by simp
  let ?rows = "filter (\<lambda>j. j_deletedAt j = None \<and> in_viewer_scope (w_db w) v j \<and> passes_filters uc q j) (t_jobs (w_db w))"
  have "length ?rows \<le> jq_limit q" using assms(5) length_filter_le [of _ "t_jobs (w_db w)"] by (meson le_trans)
  then have "set dtos = (\<lambda>j. attach_has_applied (w_db w) v (with_location_privacy (to_view (with_relations (w_db w) j)) v)) ` set ?rows"
    using assms(5,6) by (auto simp: find_all_def asks_def Let_def page_of_def)
  moreover have "x = j" if "x \<in> set (t_jobs (w_db w))" "j_id x = jid" for x
    using that assms(4) jd find_row_mem [of j_id jid] by (auto simp: distinct_map dest: inj_onD)
  ultimately have "(\<exists>dto \<in> set dtos. jv_id dto = jid) \<longleftrightarrow> in_viewer_scope (w_db w) v j"
    using jd find_row_mem [OF jd [THEN conjunct1]] assms(5) by (auto simp: passes_filters_def)
  moreover have "in_viewer_scope (w_db w) v j \<longleftrightarrow> vw_role v = ADMIN
          \<or> (if vw_role v = ARTISAN then j_status j = OPEN \<or> j_acceptedArtisanId j = Some (vw_id v)
                \<or> (\<exists>a \<in> set (t_applications (w_db w)). a_artisanId a = vw_id v \<and> a_jobId a = jid)
              else j_customerId j = vw_id v)" using jd by (simp add: in_viewer_scope_def has_applied_def)
  moreover have "\<not> (\<exists>dto. fst (find_one jid v w) = Inr dto) \<longrightarrow> find_one jid v w = (Inl (NotFound_job (Job_not_found jid)), w)"
    using find_one_run [OF assms(1), of v] by simp
  ultimately show ?thesis using one by blast
qed

definition fx_query :: job_query where
  "fx_query = \<lparr>jq_statuses = [], jq_serviceId = None, jq_location = None, jq_page = 1, jq_limit = 20\<rparr>"

theorem list_and_detail_agree_witness:
  "\<exists>dto. fst (find_one 7 \<lparr>vw_id = 3, vw_role = ARTISAN\<rparr> fx_race) = Inr dto"
proof -
  let ?v = "\<lparr>vw_id = 3, vw_role = ARTISAN\<rparr>"
  obtain dtos pg where all: "find_all ascii fx_query ?v fx_race = (Inr (dtos, pg), fx_race)" by (auto simp: find_all_def asks_def Let_def)
  have "find_user (w_db fx_race) (vw_id ?v) \<noteq> None" "j_customerId fx_open = 1" "distinct (map j_id (t_jobs (w_db fx_race)))" "length (t_jobs (w_db fx_race)) = 1"
    by (simp_all add: fx_race_def fx_job_defs fx_finders)
  then show ?thesis using list_and_detail_agree [OF fx_race_world(1), of ?v fx_query ascii dtos pg fx_race] all
    by (auto simp: fx_query_def)
qed

definition may_see_pin :: "viewer \<Rightarrow> job \<Rightarrow> bool" where
  "may_see_pin v j \<longleftrightarrow> vw_role v = ADMIN \<or> j_customerId j = vw_id v \<or> j_acceptedArtisanId j = Some (vw_id v)"

lemma privacy_of_view:
  assumes "jv_exact (with_location_privacy (to_view (with_relations d j)) v) = Some x"
  shows "may_see_pin v j \<and> x = (j_latitude j, j_longitude j, j_accuracyM j, j_landmark j)"
  using assms find_user_id [of d]
  by (auto simp: may_see_pin_def with_location_privacy_def redact_exact_location_def to_view_def with_relations_def Let_def
      can_see_exact_location_def bind_eq_Some_conv split: if_splits)

lemma privacy_of_dto: "jv_exact (dto_of d j v b) = Some x \<Longrightarrow> may_see_pin v j \<and> x = (j_latitude j, j_longitude j, j_accuracyM j, j_landmark j)"
  using privacy_of_view [of d j v x] by (auto simp: dto_of_def Let_def split: if_splits)

text \<open>
  Exact locations stay private. Whatever is answered about a job, in its detail, after a change
  of it, or in a list, carries the coordinates and the landmark only for an admin, the job's customer
  or its accepted artisan; and what those get are exactly the stored columns.
\<close>

theorem exact_location_private:
  assumes "jv_exact dto = Some (lat, long, accuracy, landmark)"
    and "load_job_dto jid v b w = (Inr dto, w') \<or> find_one jid v w = (Inr dto, w')
       \<or> (\<exists>dtos pg. find_all uc q v w = (Inr (dtos, pg), w') \<and> dto \<in> set dtos)"
  shows "\<exists>j \<in> set (t_jobs (w_db w)). j_id j = jv_id dto \<and> j_deletedAt j = None
     \<and> (vw_role v = ADMIN \<or> j_customerId j = vw_id v \<or> j_acceptedArtisanId j = Some (vw_id v))
     \<and> lat = j_latitude j \<and> long = j_longitude j \<and> accuracy = j_accuracyM j \<and> landmark = j_landmark j"
proof -
  let ?P = "\<lambda>j. j \<in> set (t_jobs (w_db w)) \<and> j_id j = jv_id dto \<and> j_deletedAt j = None \<and> may_see_pin v j
     \<and> (lat, long, accuracy, landmark) = (j_latitude j, j_longitude j, j_accuracyM j, j_landmark j)"
  have one: "\<exists>j. ?P j" if "find_job (w_db w) jid = Some j" "jv_exact dto = jv_exact (dto_of (w_db w) j v c)" "jv_id dto = jv_id (dto_of (w_db w) j v c)" for j c
  proof -
    have "jv_id (dto_of (w_db w) j v c) = j_id j" by (simp add: dto_of_def Let_def)
    moreover have "jv_exact (dto_of (w_db w) j v c) = Some (lat, long, accuracy, landmark)" using that(2) assms(1) by simp
    note privacy_of_dto [OF this]
    ultimately show ?thesis using that find_job_SomeD [OF that(1)] find_row_mem [of j_id jid "t_jobs (w_db w)" j]
      by (intro exI [of _ j]) simp
  qed
  from assms(2) have "\<exists>j. ?P j"
  proof (elim disjE exE conjE)
    assume "load_job_dto jid v b w = (Inr dto, w')"
    with one show ?thesis by (auto simp: run_load_dto split: option.splits)
  next
    assume run: "find_one jid v w = (Inr dto, w')"
    then obtain j where j: "find_job (w_db w) jid = Some j" by (cases "find_job (w_db w) jid") (simp_all add: find_one_def run_simps)
    with run have "dto = attach_has_applied (w_db w) v (dto_of (w_db w) j v True)" by (auto simp: find_one_run split: if_splits)
    with one [OF j, of True] show ?thesis by simp
  next
    fix dtos pg assume "find_all uc q v w = (Inr (dtos, pg), w')" "dto \<in> set dtos"
    then obtain j where "j \<in> set (t_jobs (w_db w))" "j_deletedAt j = None"
      "dto = attach_has_applied (w_db w) v (with_location_privacy (to_view (with_relations (w_db w) j)) v)"
      by (auto simp: find_all_def asks_def Let_def page_of_def dest!: in_set_takeD in_set_dropD)
    then show ?thesis using assms(1) privacy_of_view [of "w_db w" j v] by (intro exI [of _ j]) simp
  qed
  then show ?thesis by (auto simp: may_see_pin_def)
qed

lemma fx_admin_view:
  "\<exists>dto. find_one 7 \<lparr>vw_id = 9, vw_role = ADMIN\<rparr> fx_race = (Inr dto, fx_race) \<and> jv_exact dto = Some (Some 5, Some 6, None, None)"
  using find_one_run [OF fx_race_world(1), of "\<lparr>vw_id = 9, vw_role = ADMIN\<rparr>"]
  by (simp add: can_view_job_def dto_of_def Let_def with_location_privacy_def can_see_exact_location_def)
    (simp add: to_view_def Let_def fx_open_def fx_job_def)

theorem exact_location_private_witness:
  "\<exists>dto. find_one 7 \<lparr>vw_id = 9, vw_role = ADMIN\<rparr> fx_race = (Inr dto, fx_race) \<and> jv_id dto \<in> j_id ` set (t_jobs (w_db fx_race))"
proof -
  obtain dto where "find_one 7 \<lparr>vw_id = 9, vw_role = ADMIN\<rparr> fx_race = (Inr dto, fx_race)" "jv_exact dto = Some (Some 5, Some 6, None, None)"
    using fx_admin_view by blast
  with exact_location_private [of dto "Some 5" "Some 6" None None 7] show ?thesis by (metis image_eqI)
qed

section \<open>Searching and editing\<close>

lemma like_match_any: "like_match (CHR ''%'' # ps) t \<longleftrightarrow> (\<exists>a b. t = a @ b \<and> like_match ps b)"
proof (induction t)
  case Nil
  then show ?case by simp
next
  case (Cons c cs)
  have "(\<exists>a b. c # cs = a @ b \<and> like_match ps b) \<longleftrightarrow> like_match ps (c # cs) \<or> (\<exists>a b. cs = a @ b \<and> like_match ps b)"
    by (metis append_Cons append_Nil list.sel(3) neq_Nil_conv tl_append2)
  with Cons.IH show ?case by simp
qed

lemma like_match_escaped: "like_match (escape_like s @ ps) t \<longleftrightarrow> (\<exists>b. t = s @ b \<and> like_match ps b)"
proof (induction s arbitrary: t)
  case Nil
  then show ?case by (simp add: escape_like_def)
next
  case (Cons c s)
  have step: "escape_like (c # s) = (if c \<in> {CHR 0x5C, CHR ''%'', CHR ''_''} then [CHR 0x5C, c] else [c]) @ escape_like s"
    by (simp add: escape_like_def)
  show ?case
    by (cases t) (auto simp: step Cons.IH)
qed

text \<open>
  The search text is literal. Whatever the caller types, percent signs, underscores and
  backslashes included, the pattern built from it matches under SQL's LIKE exactly the texts that
  contain it.
\<close>

theorem contains_pattern_literal: "like_match (contains_pattern s) t \<longleftrightarrow> (\<exists>a b. t = a @ s @ b)"
proof -
  have all: "like_match ''%'' b" for b by (rule like_match_any [THEN iffD2]) simp
  have "like_match (contains_pattern s) t \<longleftrightarrow> (\<exists>a b. t = a @ b \<and> like_match (escape_like s @ ''%'') b)"
    unfolding contains_pattern_def by (rule like_match_any)
  moreover have "like_match (escape_like s @ ''%'') b \<longleftrightarrow> (\<exists>c. b = s @ c)" for b
    by (simp only: like_match_escaped all simp_thms)
  ultimately show ?thesis by blast
qed

text \<open>
  A job posted with a minimum budget alone cannot be edited. The check that lets it be posted
  reads a missing maximum as no limit, but on an edit the maximum comes from the row as null, which
  counts as 0: every edit by the owner that does not send a budget is refused as a maximum below the
  minimum.
\<close>

theorem min_budget_blocks_edits:
  assumes "0 < m" and "find_job (w_db w) jid = Some j" and "j_customerId j = uid" and "j_status j = OPEN"
    and "j_budgetMin j = Some m" and "j_budgetMax j = None" and "jp_budgetMin u = Absent" and "jp_budgetMax u = Absent"
  shows "assert_budget (Sent m) Absent w = (Inr (), w) \<and> update_job jid u uid w = (Inl (BadRequest_job Budget_max_below_min), w)"
  using assms by (simp add: update_job_def assert_owner_def assert_mutable_def assert_budget_def run_simps)

definition fx_edit :: job_update where
  "fx_edit = \<lparr>jp_title = Sent ''Fix two taps'', jp_description = Absent, jp_location = Absent, jp_budgetMin = Absent, jp_budgetMax = Absent,
     jp_currency = Absent, jp_pin = \<lparr>pin_latitude = Absent, pin_longitude = Absent, pin_accuracy = Absent, pin_landmark = Absent\<rparr>,
     jp_deadline = Absent\<rparr>"

theorem min_budget_blocks_edits_witness:
  "fst (update_job 7 fx_edit 1 (fx_jobs [fx_open\<lparr>j_budgetMin := Some 5000, j_budgetMax := None\<rparr>] [] [])) = Inl (BadRequest_job Budget_max_below_min)"
proof -
  let ?j = "fx_open\<lparr>j_budgetMin := Some 5000, j_budgetMax := None\<rparr>"
  have "find_job (w_db (fx_jobs [?j] [] [])) 7 = Some ?j" by (simp add: fx_jobs_def find_job_def find_row_def)
  then show ?thesis
    using min_budget_blocks_edits [of 5000 "fx_jobs [?j] [] []" 7 ?j 1 fx_edit] by (simp add: fx_edit_def) (simp add: fx_open_def fx_job_def)
qed

end
