(* ===== verification/Clock.thy ===== *)
theory Clock
  imports Calendar "HOL-Library.List_Lexorder" "HOL-Library.Char_ord"
begin

text \<open>
  Calendar dates (\<open>YYYY-MM-DD\<close>) and clock times (\<open>HH:MM\<close> and \<open>HH:MM:SS\<close>) as the code handles them:
  as strings, compared as strings. JavaScript's \<open>Date\<close> reads and prints them here by day numbers; as in
  the language's standard an impossible date such as the 31st of February is no date. The lemmas show
  that ISO dates print and parse back, and that their order as strings is the order of the days, for
  every day from 1970 to the end of 9999.
\<close>

section \<open>Digits\<close>

fun pad :: "nat \<Rightarrow> nat \<Rightarrow> string" where
  "pad 0 n = []"
| "pad (Suc w) n = digit_char (n div 10 ^ w) # pad w (n mod 10 ^ w)"

definition pad_start :: "nat \<Rightarrow> string \<Rightarrow> string" where
  "pad_start w s = replicate (w - length s) (CHR ''0'') @ s"

definition digit_value :: "char \<Rightarrow> nat" where
  "digit_value c = of_char c - 48"

definition is_digits :: "string \<Rightarrow> bool" where
  "is_digits s \<longleftrightarrow> (\<forall>c \<in> set s. 48 \<le> (of_char c :: nat) \<and> (of_char c :: nat) \<le> 57)"

definition digits_value :: "string \<Rightarrow> nat" where
  "digits_value s = foldl (\<lambda>n c. 10 * n + digit_value c) 0 s"

fun split_on :: "char \<Rightarrow> string \<Rightarrow> string list" where
  "split_on c [] = [[]]"
| "split_on c (x # xs) = (if x = c then [] # split_on c xs
     else (case split_on c xs of [] \<Rightarrow> [[x]] | y # ys \<Rightarrow> (x # y) # ys))"

section \<open>Clock times\<close>

definition to_clock_time :: "string \<Rightarrow> string" where
  "to_clock_time t = (if length t = 5 then t @ '':00'' else t)"

definition part :: "nat \<Rightarrow> string list \<Rightarrow> string" where
  "part i ps = (if i < length ps then ps ! i else ''0'')"

definition to_clock :: "string \<Rightarrow> string" where
  "to_clock t = (let ps = split_on (CHR '':'') t
     in pad_start 2 (part 0 ps) @ '':'' @ pad_start 2 (part 1 ps) @ '':'' @ pad_start 2 (part 2 ps))"

definition hhmm :: "string \<Rightarrow> string" where
  "hhmm t = take 5 (to_clock t)"

definition add_minutes :: "string \<Rightarrow> nat \<Rightarrow> string" where
  "add_minutes t mins =
     (let ps = split_on (CHR '':'') t;
          total = min (digits_value (part 0 ps) * 60 + digits_value (part 1 ps) + mins) (23 * 60 + 59)
      in pad_start 2 (show_nat (total div 60)) @ '':'' @ pad_start 2 (show_nat (total mod 60)))"

definition clock_ms :: "string \<Rightarrow> int option" where
  "clock_ms t =
     (if length t = 8 \<and> t ! 2 = CHR '':'' \<and> t ! 5 = CHR '':'' \<and> is_digits (take 2 t) \<and> is_digits (take 2 (drop 3 t)) \<and> is_digits (drop 6 t)
      then let h = digits_value (take 2 t); m = digits_value (take 2 (drop 3 t)); s = digits_value (drop 6 t)
        in if h \<le> 23 \<and> m \<le> 59 \<and> s \<le> 59 \<or> h = 24 \<and> m = 0 \<and> s = 0 then Some (int ((h * 60 + m) * 60 + s) * 1000) else None
      else None)"

section \<open>Calendar dates\<close>

definition year_of :: "int \<Rightarrow> int" where
  "year_of n = (let d = n + epoch_days; y = (400 * d) div 146097 in if days_before_year (y + 2) \<le> d then y + 2 else y + 1)"

function month_from :: "int \<Rightarrow> nat \<Rightarrow> int \<Rightarrow> nat \<times> int" where
  "month_from y m r = (if 12 \<le> m \<or> r < month_days y m then (m, r + 1) else month_from y (Suc m) (r - month_days y m))"
  by pat_completeness auto
termination by (relation "measure (\<lambda>(y, m, r). 12 - m)") auto

declare month_from.simps [simp del]

definition iso_date :: "int \<Rightarrow> string" where
  "iso_date n = (let y = year_of n; (m, d) = month_from y 1 (n + epoch_days - days_before_year y)
     in pad 4 (nat y) @ ''-'' @ pad 2 m @ ''-'' @ pad 2 (nat d))"

definition day_number :: "string \<Rightarrow> int option" where
  "day_number s =
     (if length s = 10 \<and> s ! 4 = CHR ''-'' \<and> s ! 7 = CHR ''-'' \<and> is_digits (take 4 s) \<and> is_digits (take 2 (drop 5 s)) \<and> is_digits (drop 8 s)
      then let y = int (digits_value (take 4 s)); m = digits_value (take 2 (drop 5 s)); d = int (digits_value (drop 8 s))
        in if 1 \<le> m \<and> m \<le> 12 \<and> 1 \<le> d \<and> d \<le> month_days y m then Some (civil_day y m d) else None
      else None)"

text \<open>\<open>getUTCDay\<close>: 1970-01-01 was a Thursday.\<close>

definition day_of_week_of :: "string \<Rightarrow> int option" where
  "day_of_week_of date = map_option (\<lambda>n. (n + 4) mod 7) (day_number date)"

definition add_days :: "string \<Rightarrow> int \<Rightarrow> string" where
  "add_days date days = iso_date (the (day_number date) + days)"

definition to_utc_instant :: "string \<Rightarrow> string \<Rightarrow> int option" where
  "to_utc_instant date time = (case (day_number date, clock_ms (to_clock_time time)) of
     (Some n, Some t) \<Rightarrow> Some (n * DAY_MS + t) | _ \<Rightarrow> None)"

text \<open>The wall clock in Accra (UTC all year): date, time of day and weekday.\<close>

definition clock_of_ms :: "int \<Rightarrow> string" where
  "clock_of_ms t = (let s = nat (t div 1000) in pad 2 (s div 3600) @ '':'' @ pad 2 (s div 60 mod 60) @ '':'' @ pad 2 (s mod 60))"

definition platform_clock :: "int \<Rightarrow> string \<times> string \<times> int option" where
  "platform_clock now = (let date = iso_date (now div DAY_MS) in (date, clock_of_ms (now mod DAY_MS), day_of_week_of date))"

section \<open>Printed numbers in order\<close>

lemma digit_char_of: "n < 10 \<Longrightarrow> (of_char (digit_char n) :: nat) = 48 + n"
  by (simp add: digit_char_def take_bit_eq_mod)

lemma digit_char_less: "a < 10 \<Longrightarrow> b < 10 \<Longrightarrow> digit_char a < digit_char b \<longleftrightarrow> a < b"
  by (simp add: less_char_def digit_char_of)

lemma length_pad [simp]: "length (pad w n) = w"
  by (induction w arbitrary: n) simp_all

lemma pad_order: "a < 10 ^ w \<Longrightarrow> b < 10 ^ w \<Longrightarrow> (pad w a < pad w b \<longleftrightarrow> a < b) \<and> (pad w a = pad w b \<longleftrightarrow> a = b)"
proof (induction w arbitrary: a b)
  case (Suc w)
  have d: "a div 10 ^ w < 10" "b div 10 ^ w < 10" using Suc.prems by (simp_all add: less_mult_imp_div_less)
  have split: "x = x div 10 ^ w * 10 ^ w + x mod 10 ^ w" for x :: nat by (rule div_mult_mod_eq [symmetric])
  have ih: "(pad w (a mod 10 ^ w) < pad w (b mod 10 ^ w) \<longleftrightarrow> a mod 10 ^ w < b mod 10 ^ w)
     \<and> (pad w (a mod 10 ^ w) = pad w (b mod 10 ^ w) \<longleftrightarrow> a mod 10 ^ w = b mod 10 ^ w)"
    by (rule Suc.IH) simp_all
  have less: "a div 10 ^ w < b div 10 ^ w \<or> a div 10 ^ w = b div 10 ^ w \<and> a mod 10 ^ w < b mod 10 ^ w \<longleftrightarrow> a < b"
  proof (cases "a div 10 ^ w" "b div 10 ^ w" rule: linorder_cases)
    case less
    then have "a < b" by (metis div_le_mono not_le)
    with less show ?thesis by simp
  next
    case equal
    then show ?thesis by (metis add_less_cancel_left less_irrefl split)
  next
    case greater
    then have "b < a" by (metis div_le_mono not_le)
    with greater show ?thesis by simp
  qed
  have eq: "a div 10 ^ w = b div 10 ^ w \<and> a mod 10 ^ w = b mod 10 ^ w \<longleftrightarrow> a = b" using split [of a] split [of b] by auto
  show ?case
    using less eq ih by (simp only: pad.simps Cons_less_Cons list.inject digit_char_less [OF d] digit_char_eq_iff [OF d] simp_thms)
qed simp

lemma append_less: "length us = length vs \<Longrightarrow> us @ xs < vs @ ys \<longleftrightarrow> us < vs \<or> us = vs \<and> xs < (ys :: string)"
  by (induction us vs rule: list_induct2) auto

lemma is_digits_pad: "n < 10 ^ w \<Longrightarrow> is_digits (pad w n)"
proof (induction w arbitrary: n)
  case (Suc w)
  have "n div 10 ^ w < 10" using Suc.prems by (simp add: less_mult_imp_div_less)
  moreover have "is_digits (pad w (n mod 10 ^ w))" by (rule Suc.IH) simp
  ultimately show ?case by (simp add: is_digits_def digit_char_of)
qed (simp add: is_digits_def)

lemma digits_value_from: "n < 10 ^ w \<Longrightarrow> foldl (\<lambda>n c. 10 * n + digit_value c) k (pad w n) = k * 10 ^ w + n"
proof (induction w arbitrary: n k)
  case (Suc w)
  have d: "n div 10 ^ w < 10" using Suc.prems by (simp add: less_mult_imp_div_less)
  have "foldl (\<lambda>n c. 10 * n + digit_value c) (10 * k + n div 10 ^ w) (pad w (n mod 10 ^ w)) = (10 * k + n div 10 ^ w) * 10 ^ w + n mod 10 ^ w"
    by (rule Suc.IH) simp
  also have "\<dots> = k * 10 ^ Suc w + n" by (simp add: algebra_simps)
  finally show ?case using d by (simp add: digit_value_def digit_char_of)
qed simp

lemma digits_value_pad [simp]: "n < 10 ^ w \<Longrightarrow> digits_value (pad w n) = n"
  using digits_value_from [of n w 0] by (simp add: digits_value_def)

section \<open>Days and dates\<close>

lemma year_parts:
  fixes x :: int
  shows "4 * (x div 4) \<le> x" "x < 4 * (x div 4) + 4" "100 * (x div 100) \<le> x" "x < 100 * (x div 100) + 100"
    "400 * (x div 400) \<le> x" "x < 400 * (x div 400) + 400"
  by linarith+

lemma year_bounds:
  "400 * days_before_year y \<le> 146097 * (y - 1) + 399" "146097 * (y - 1) - 799 \<le> 400 * days_before_year y"
proof -
  define a b c where "a = (y - 1) div 4" and "b = (y - 1) div 100" and "c = (y - 1) div 400"
  define x where "x = y - 1"
  note parts = year_parts [of "y - 1", folded a_def b_def c_def x_def]
  have scaled: "400 * a \<le> 100 * x" "100 * x \<le> 400 * a + 300" "400 * b \<le> 4 * x" "4 * x \<le> 400 * b + 396" "x \<le> 400 * c + 399"
    using parts by simp_all
  have "400 * days_before_year y = 146000 * x + 400 * a - 400 * b + 400 * c"
    by (simp add: days_before_year_def a_def b_def c_def x_def)
  with scaled parts show "400 * days_before_year y \<le> 146097 * (y - 1) + 399" "146097 * (y - 1) - 799 \<le> 400 * days_before_year y"
    unfolding x_def [symmetric] by simp_all
qed

lemma year_of_day: "days_before_year (year_of n) \<le> n + epoch_days \<and> n + epoch_days < days_before_year (year_of n + 1)"
proof -
  define y where "y = year_of n"
  define d where "d = n + epoch_days"
  define q where "q = (400 * d) div 146097"
  have q: "146097 * q \<le> 400 * d" "400 * d < 146097 * q + 146097" unfolding q_def by linarith+
  have y: "y = (if days_before_year (q + 2) \<le> d then q + 2 else q + 1)" by (simp add: y_def year_of_def d_def q_def Let_def)
  have "days_before_year (q + 1) \<le> d" using q year_bounds(1) [of "q + 1"] by simp
  moreover have "d < days_before_year (q + 3)" using q year_bounds(2) [of "q + 3"] by simp
  ultimately show ?thesis unfolding d_def [symmetric] y_def [symmetric] y by (simp add: add.assoc)
qed

lemma month_from_spec:
  assumes "month_from y m r = (m', d)" and "0 \<le> r" and "1 \<le> m" and "m \<le> 12"
    and "r + days_before_month y m < days_before_month y 12 + month_days y 12"
  shows "m \<le> m' \<and> m' \<le> 12 \<and> 1 \<le> d \<and> d \<le> month_days y m' \<and> days_before_month y m + r = days_before_month y m' + (d - 1)"
  using assms
proof (induction y m r rule: month_from.induct)
  case (1 y m r)
  show ?case
  proof (cases "12 \<le> m \<or> r < month_days y m")
    case True
    with "1.prems" have "m' = m" "d = r + 1" by (simp_all add: month_from.simps [of y m r])
    with True "1.prems" show ?thesis by auto
  next
    case False
    have next_m: "days_before_month y (Suc m) = days_before_month y m + month_days y m" using "1.prems"(3) by (simp add: days_before_month_def)
    have "Suc m \<le> m' \<and> m' \<le> 12 \<and> 1 \<le> d \<and> d \<le> month_days y m' \<and> days_before_month y (Suc m) + (r - month_days y m) = days_before_month y m' + (d - 1)"
      by (rule "1.IH" [OF False]) (use False "1.prems" next_m in \<open>simp_all add: month_from.simps [of y m r]\<close>)
    with next_m show ?thesis by simp
  qed
qed

text \<open>The civil date of a day number.\<close>

definition civil_of :: "int \<Rightarrow> int \<times> nat \<times> int" where
  "civil_of n = (year_of n, month_from (year_of n) 1 (n + epoch_days - days_before_year (year_of n)))"

lemma civil_of_day:
  assumes "civil_of n = (y, m, d)"
  shows "y = year_of n \<and> 1 \<le> m \<and> m \<le> 12 \<and> 1 \<le> d \<and> d \<le> month_days y m \<and> n = civil_day y m d"
proof -
  have y: "y = year_of n" and md: "month_from y 1 (n + epoch_days - days_before_year y) = (m, d)"
    using assms by (auto simp: civil_of_def)
  note yd = year_of_day [of n, folded y]
  have "days_before_month y 12 + month_days y 12 = days_before_year (y + 1) - days_before_year y"
    unfolding is_leap_step days_of_year by (rule refl)
  moreover have "days_before_month y 1 = 0" by (simp add: days_before_month_def)
  ultimately have "1 \<le> m \<and> m \<le> 12 \<and> 1 \<le> d \<and> d \<le> month_days y m
     \<and> days_before_month y 1 + (n + epoch_days - days_before_year y) = days_before_month y m + (d - 1)"
    by (intro month_from_spec [OF md]) (use yd in simp_all)
  with y show ?thesis by (simp add: civil_day_def days_before_month_def)
qed

lemma days_before_year_less: "y < y' \<Longrightarrow> days_before_year y < days_before_year y'"
proof -
  assume "y < y'"
  then have "146097 * (y - 1) + 146097 \<le> 146097 * (y' - 1)" by simp
  with year_bounds(1) [of y] year_bounds(2) [of y'] show ?thesis by linarith
qed

lemma year_of_mono: "n \<le> n' \<Longrightarrow> year_of n \<le> year_of n'"
proof (rule ccontr)
  assume le: "n \<le> n'" and "\<not> year_of n \<le> year_of n'"
  then have "year_of n' + 1 \<le> year_of n" by simp
  then have "days_before_year (year_of n' + 1) \<le> days_before_year (year_of n)"
    using days_before_year_less [of "year_of n' + 1" "year_of n"] by (cases "year_of n' + 1 = year_of n") simp_all
  with year_of_day [of n] year_of_day [of n'] le show False by linarith
qed

text \<open>Dates of one year are ordered by month, then day.\<close>

lemma month_before: "m < m' \<Longrightarrow> 1 \<le> m \<Longrightarrow> days_before_month y m + month_days y m \<le> days_before_month y m'"
proof (induction m')
  case (Suc k)
  have step: "1 \<le> k \<Longrightarrow> days_before_month y (Suc k) = days_before_month y k + month_days y k" by (simp add: days_before_month_def)
  show ?case
  proof (cases "m = k")
    case True
    with step Suc.prems show ?thesis by simp
  next
    case False
    with Suc step month_days_pos [of y k] show ?thesis by simp
  qed
qed simp

definition last_day :: int where
  "last_day = 2932896"

lemma year_of_ends: "year_of 0 = 1970" "year_of last_day = 9999"
  by (simp_all add: year_of_def Let_def epoch_days_def last_day_def days_before_year_def)

lemma year_in_range: "0 \<le> n \<Longrightarrow> n \<le> last_day \<Longrightarrow> 1970 \<le> year_of n \<and> year_of n \<le> 9999"
proof -
  assume "0 \<le> n" "n \<le> last_day"
  with year_of_mono [of 0 n] year_of_mono [of n last_day] show ?thesis by (simp add: year_of_ends)
qed

lemma iso_date_civil: "civil_of n = (y, m, d) \<Longrightarrow> iso_date n = pad 4 (nat y) @ ''-'' @ pad 2 m @ ''-'' @ pad 2 (nat d)"
  by (auto simp: civil_of_def iso_date_def Let_def)

lemma civil_bounds:
  assumes "civil_of n = (y, m, d)" and "0 \<le> n" and "n \<le> last_day"
  shows "1970 \<le> y" "nat y < 10 ^ 4" "1 \<le> m" "m \<le> 12" "m < 10 ^ 2" "1 \<le> d" "d \<le> month_days y m" "nat d < 10 ^ 2" "n = civil_day y m d" "y = year_of n"
proof -
  note cd = civil_of_day [OF assms(1)] and r = year_in_range [OF assms(2,3)]
  show y: "y = year_of n" and "n = civil_day y m d" and "1 \<le> m" and m: "m \<le> 12" and "1 \<le> d" and d: "d \<le> month_days y m"
    using cd by blast+
  show "m < 10 ^ 2" using m by simp
  show "nat d < 10 ^ 2" using d month_days_pos(2) [of y m] by simp
  show "1970 \<le> y" "nat y < 10 ^ 4" unfolding y using r by auto
qed

lemma day_number_iso:
  assumes "0 \<le> n" and "n \<le> last_day"
  shows "day_number (iso_date n) = Some n"
proof -
  obtain y m d where c: "civil_of n = (y, m, d)" by (cases "civil_of n") auto
  note b = civil_bounds [OF c assms]
  have s: "iso_date n = pad 4 (nat y) @ ''-'' @ pad 2 m @ ''-'' @ pad 2 (nat d)" by (rule iso_date_civil [OF c])
  have "day_number (iso_date n) = (if 1 \<le> m \<and> m \<le> 12 \<and> 1 \<le> int (nat d) \<and> int (nat d) \<le> month_days (int (nat y)) m
      then Some (civil_day (int (nat y)) m (int (nat d))) else None)"
    using b(2,5,8) by (simp add: s day_number_def nth_append is_digits_pad Let_def)
  also have "\<dots> = Some (civil_day y m d)" using b(1,3,4,6,7) by simp
  finally show ?thesis using b(9) by simp
qed

lemma iso_date_less:
  assumes "0 \<le> n" and "n < n'" and "n' \<le> last_day"
  shows "iso_date n < iso_date n'"
proof -
  obtain y m d where c: "civil_of n = (y, m, d)" by (cases "civil_of n") auto
  obtain y' m' d' where c': "civil_of n' = (y', m', d')" by (cases "civil_of n'") auto
  have i: "0 \<le> n" "n \<le> last_day" "0 \<le> n'" using assms by simp_all
  note b = civil_bounds [OF c i(1,2)] and b' = civil_bounds [OF c' i(3) assms(3)]
  have "y < y' \<or> y = y' \<and> (m < m' \<or> m = m' \<and> d < d')"
  proof (rule ccontr)
    assume no: "\<not> ?thesis"
    have "y \<le> y'" unfolding b(10) b'(10) using assms(2) by (intro year_of_mono) simp
    with no have y: "y = y'" and md: "m' < m \<or> m = m' \<and> d' \<le> d" by auto
    have "civil_day y m d < civil_day y' m' d'" using assms(2) unfolding b(9) [symmetric] b'(9) [symmetric] .
    then have "days_before_month y m + d < days_before_month y m' + d'" by (simp add: civil_day_def y)
    with md month_before [of m' m y] b(6) b'(3,7) y show False by auto
  qed
  moreover have "pad 4 (nat y) < pad 4 (nat y') \<longleftrightarrow> y < y'" "pad 4 (nat y) = pad 4 (nat y') \<longleftrightarrow> y = y'"
    using pad_order [OF b(2) b'(2)] b(1) b'(1) by auto
  moreover have "pad 2 (nat d) < pad 2 (nat d') \<longleftrightarrow> d < d'" using pad_order [OF b(8) b'(8)] b(6) b'(6) by auto
  moreover note pad_order [OF b(5) b'(5)]
  ultimately show ?thesis
    by (simp only: iso_date_civil [OF c] iso_date_civil [OF c'] append_less [OF trans [OF length_pad length_pad [symmetric]]] append_Cons append_Nil Cons_less_Cons
        simp_thms less_irrefl)
qed

lemma iso_date_order: "0 \<le> n \<Longrightarrow> n \<le> last_day \<Longrightarrow> 0 \<le> n' \<Longrightarrow> n' \<le> last_day \<Longrightarrow> iso_date n \<le> iso_date n' \<longleftrightarrow> n \<le> n'"
  using iso_date_less [of n n'] iso_date_less [of n' n] by (cases n n' rule: linorder_cases) auto

lemma length_iso [simp]: "length (iso_date n) = 10"
  by (simp add: iso_date_def Let_def split: prod.splits)



end
