(* ===== verification/Windows.thy ===== *)
theory Windows
  imports Clock Types "HOL-Library.Product_Lexorder"
begin

text \<open>
  The pure availability rules of availability/availability-summary.ts: subtracting bookings from the
  working hours, following back-to-back time off, and the summary clients see. Times and dates are
  strings compared as strings; sorting by \<open>localeCompare\<close> is sorting by that order, since all keys have
  the one format \<open>HH:MM:SS\<close>. The loop that follows time off has no bound in the code, so it is a partial
  function here and its return is proved.
\<close>

section \<open>Open windows\<close>

record time_window =
  tw_startTime :: string
  tw_endTime :: string

fun fragments :: "string \<Rightarrow> string \<Rightarrow> time_window list \<Rightarrow> time_window list" where
  "fragments w_end cursor [] = (if cursor < w_end then [\<lparr>tw_startTime = cursor, tw_endTime = w_end\<rparr>] else [])"
| "fragments w_end cursor (b # bs) =
     (let gap_start = (if cursor < tw_startTime b then tw_startTime b else cursor)
      in (if cursor < gap_start then [\<lparr>tw_startTime = cursor, tw_endTime = gap_start\<rparr>] else [])
         @ fragments w_end (if cursor < tw_endTime b then tw_endTime b else cursor) bs)"

definition subtract_occupied :: "string \<Rightarrow> string \<Rightarrow> time_window list \<Rightarrow> time_window list" where
  "subtract_occupied w_start w_end occupied =
     fragments w_end w_start (sort_key tw_startTime
       (filter (\<lambda>b. w_start < tw_endTime b \<and> tw_startTime b < w_end) occupied))"

section \<open>Time off\<close>

definition covers :: "block \<Rightarrow> string \<Rightarrow> bool" where
  "covers b date \<longleftrightarrow> take 10 (bl_startDate b) \<le> date \<and> date \<le> take 10 (bl_endDate b)"

definition furthest :: "block list \<Rightarrow> string \<Rightarrow> string" where
  "furthest bs until =
     (let nxt = add_days until 1
      in foldl (\<lambda>f b. let e = take 10 (bl_endDate b)
                 in if (covers b until \<or> covers b nxt) \<and> f < e then e else f) until bs)"

partial_function (option) time_off_loop :: "block list \<Rightarrow> string \<Rightarrow> string option" where
  "time_off_loop bs until = (if furthest bs until = until then Some until else time_off_loop bs (furthest bs until))"

text \<open>The outer option is whether the loop returns, the inner one the code's \<open>null\<close>.\<close>

definition time_off_until :: "block list \<Rightarrow> string \<Rightarrow> string option option" where
  "time_off_until bs date = (if \<exists>b \<in> set bs. covers b date then map_option Some (time_off_loop bs date) else Some None)"

section \<open>The summary\<close>

datatype effective_state = available_today | next_available | on_time_off | no_hours | busy | unavailable

record availability_summary =
  as_state :: effective_state
  as_today :: string
  as_hasWorkingHours :: bool
  as_onTimeOffUntil :: "string option"
  as_todayHours :: "time_window list"
  as_nextAvailableDate :: "string option"
  as_bookable :: bool

record taken =
  tk_date :: string
  tk_startTime :: string
  tk_endTime :: string

definition AVAILABILITY_HORIZON_DAYS :: nat where
  "AVAILABILITY_HORIZON_DAYS = 14"

definition clocked_slots :: "slot list \<Rightarrow> slot list" where
  "clocked_slots slots = sort_key sl_startTime
     (map (\<lambda>s. s\<lparr>sl_startTime := to_clock (sl_startTime s), sl_endTime := to_clock (sl_endTime s)\<rparr>) slots)"

definition clocked_taken :: "booking list \<Rightarrow> taken list" where
  "clocked_taken bs = map (\<lambda>b. \<lparr>tk_date = take 10 (b_scheduledDate b), tk_startTime = to_clock (b_startTime b),
     tk_endTime = to_clock (b_endTime b)\<rparr>) bs"

definition open_windows :: "slot list \<Rightarrow> block list \<Rightarrow> taken list \<Rightarrow> string \<Rightarrow> time_window list" where
  "open_windows slots blocks bookings date =
     (if \<exists>b \<in> set blocks. covers b date then []
      else concat (map (\<lambda>s. subtract_occupied (sl_startTime s) (sl_endTime s)
             (map (\<lambda>t. \<lparr>tw_startTime = tk_startTime t, tw_endTime = tk_endTime t\<rparr>) (filter (\<lambda>t. tk_date t = date) bookings)))
           (filter (\<lambda>s. Some (sl_dayOfWeek s) = day_of_week_of date) slots)))"

definition still_open :: "slot list \<Rightarrow> block list \<Rightarrow> taken list \<Rightarrow> string \<Rightarrow> string \<Rightarrow> nat \<Rightarrow> bool" where
  "still_open slots blocks bookings today time i =
     (let open_ws = open_windows slots blocks bookings (add_days today (int i))
      in (if i = 0 then filter (\<lambda>w. time < tw_endTime w) open_ws else open_ws) \<noteq> [])"

definition effective_state_of :: "availability option \<Rightarrow> bool \<Rightarrow> string option \<Rightarrow> string option \<Rightarrow> string \<Rightarrow> effective_state" where
  "effective_state_of status has_hours off nxt today =
     (if status = Some UNAVAILABLE then unavailable
      else if status = Some BUSY then busy
      else if \<not> has_hours then no_hours
      else if off \<noteq> None then on_time_off
      else if nxt = Some today then available_today
      else next_available)"

definition summarise_availability ::
  "availability option \<Rightarrow> slot list \<Rightarrow> block list \<Rightarrow> booking list \<Rightarrow> int \<Rightarrow> nat \<Rightarrow> availability_summary option" where
  "summarise_availability status input_slots blocks input_bookings now horizon =
     (let (today, time, dow) = platform_clock now;
          slots = clocked_slots input_slots;
          bookings = clocked_taken input_bookings;
          has_hours = (slots \<noteq> []);
          nxt = (if has_hours then map_option (\<lambda>i. add_days today (int i)) (find (still_open slots blocks bookings today time) [0..<horizon])
                 else None)
      in map_option (\<lambda>off.
           let st = effective_state_of status has_hours off nxt today
           in \<lparr>as_state = st, as_today = today, as_hasWorkingHours = has_hours, as_onTimeOffUntil = off,
               as_todayHours = map (\<lambda>s. \<lparr>tw_startTime = hhmm (sl_startTime s), tw_endTime = hhmm (sl_endTime s)\<rparr>)
                 (filter (\<lambda>s. Some (sl_dayOfWeek s) = dow) slots),
               as_nextAvailableDate = nxt,
               as_bookable = (st \<in> {available_today, next_available, on_time_off} \<and> nxt \<noteq> None)\<rparr>)
         (time_off_until blocks today))"

section \<open>What remains open\<close>

text \<open>A clock time lies in some window.\<close>

definition lies_in :: "string \<Rightarrow> time_window list \<Rightarrow> bool" where
  "lies_in t ws \<longleftrightarrow> (\<exists>w \<in> set ws. tw_startTime w \<le> t \<and> t < tw_endTime w)"

lemma lies_in_simps [simp]:
  "\<not> lies_in t []" "lies_in t (w # ws) \<longleftrightarrow> tw_startTime w \<le> t \<and> t < tw_endTime w \<or> lies_in t ws"
  "lies_in t (ws @ vs) \<longleftrightarrow> lies_in t ws \<or> lies_in t vs" "lies_in t (concat wss) \<longleftrightarrow> (\<exists>ws \<in> set wss. lies_in t ws)"
  by (auto simp: lies_in_def)

lemma lies_in_fragments:
  assumes "sorted (map tw_startTime bs)" and "\<forall>b \<in> set bs. tw_startTime b < w_end"
  shows "lies_in t (fragments w_end cursor bs) \<longleftrightarrow> cursor \<le> t \<and> t < w_end \<and> \<not> lies_in t bs"
  using assms
proof (induction bs arbitrary: cursor)
  case (Cons b bs)
  let ?c = "if cursor < tw_endTime b then tw_endTime b else cursor"
  have ih: "lies_in t (fragments w_end ?c bs) \<longleftrightarrow> ?c \<le> t \<and> t < w_end \<and> \<not> lies_in t bs"
    using Cons.prems by (intro Cons.IH) auto
  have later: "tw_startTime b \<le> t" if "lies_in t bs" using that Cons.prems(1) by (fastforce simp: lies_in_def)
  have start: "tw_startTime b < w_end" using Cons.prems(2) by simp
  show ?case
    unfolding fragments.simps Let_def lies_in_simps ih
    using later start by (cases "lies_in t bs") (auto split: if_splits)
qed auto

lemma lies_in_filter:
  "w_start \<le> t \<Longrightarrow> t < w_end \<Longrightarrow>
   lies_in t (sort_key tw_startTime (filter (\<lambda>b. w_start < tw_endTime b \<and> tw_startTime b < w_end) occupied)) \<longleftrightarrow> lies_in t occupied"
  by (auto simp: lies_in_def)

text \<open>
  Open windows are exact. A time is in one of the windows that remain of the working hours
  exactly when it is in the working hours and in none of the occupied intervals, whatever their order
  and however they overlap; and no window is empty.
\<close>

lemma open_windows_exact:
  "(lies_in t (subtract_occupied w_start w_end occupied) \<longleftrightarrow> w_start \<le> t \<and> t < w_end \<and> \<not> lies_in t occupied)
   \<and> (\<forall>w \<in> set (subtract_occupied w_start w_end occupied). tw_startTime w < tw_endTime w)"
proof
  let ?bs = "sort_key tw_startTime (filter (\<lambda>b. w_start < tw_endTime b \<and> tw_startTime b < w_end) occupied)"
  have "lies_in t (fragments w_end w_start ?bs) \<longleftrightarrow> w_start \<le> t \<and> t < w_end \<and> \<not> lies_in t ?bs"
    by (rule lies_in_fragments) auto
  with lies_in_filter [of w_start t w_end occupied]
  show "lies_in t (subtract_occupied w_start w_end occupied) \<longleftrightarrow> w_start \<le> t \<and> t < w_end \<and> \<not> lies_in t occupied"
    unfolding subtract_occupied_def by blast
  have "\<forall>w \<in> set (fragments w_end c bs). tw_startTime w < tw_endTime w" for c bs
    by (induction w_end c bs rule: fragments.induct) (auto simp: Let_def split: if_splits)
  then show "\<forall>w \<in> set (subtract_occupied w_start w_end occupied). tw_startTime w < tw_endTime w"
    by (simp add: subtract_occupied_def)
qed

section \<open>Following time off\<close>

definition furthest_by :: "(block \<Rightarrow> bool) \<Rightarrow> block list \<Rightarrow> string \<Rightarrow> string" where
  "furthest_by P bs u = foldl (\<lambda>f b. let e = take 10 (bl_endDate b) in if P b \<and> f < e then e else f) u bs"

lemma furthest_by_max:
  "u \<le> furthest_by P bs u \<and> (furthest_by P bs u = u \<or> (\<exists>b \<in> set bs. P b \<and> furthest_by P bs u = take 10 (bl_endDate b)))
   \<and> (\<forall>b \<in> set bs. P b \<longrightarrow> take 10 (bl_endDate b) \<le> furthest_by P bs u)"
proof (induction bs arbitrary: u)
  case (Cons b bs)
  let ?u = "if P b \<and> u < take 10 (bl_endDate b) then take 10 (bl_endDate b) else u"
  have "furthest_by P (b # bs) u = furthest_by P bs ?u" by (simp add: furthest_by_def Let_def)
  then show ?case using Cons.IH [of ?u] by (auto split: if_splits)
qed (simp add: furthest_by_def)

lemma furthest_max:
  "until \<le> furthest bs until"
  "furthest bs until = until \<or> (\<exists>b \<in> set bs. (covers b until \<or> covers b (add_days until 1)) \<and> furthest bs until = take 10 (bl_endDate b))"
  "b \<in> set bs \<Longrightarrow> covers b until \<or> covers b (add_days until 1) \<Longrightarrow> take 10 (bl_endDate b) \<le> furthest bs until"
  using furthest_by_max [of until "\<lambda>b. covers b until \<or> covers b (add_days until 1)" bs]
  unfolding furthest_def furthest_by_def Let_def by auto

text \<open>Every round that goes on moves to a later end date, of which there are finitely many.\<close>

lemma time_off_loop_returns: "\<exists>u. time_off_loop bs until = Some u"
proof (induction "card {e \<in> (\<lambda>b. take 10 (bl_endDate b)) ` set bs. until < e}" arbitrary: until rule: less_induct)
  case less
  let ?ends = "\<lambda>u. {e \<in> (\<lambda>b. take 10 (bl_endDate b)) ` set bs. u < e}"
  let ?f = "furthest bs until"
  show ?case
  proof (cases "?f = until")
    case True
    then show ?thesis by (simp add: time_off_loop.simps [of bs until])
  next
    case False
    with furthest_max(1,2) [where until = until and bs = bs] have "until < ?f" "?f \<in> (\<lambda>b. take 10 (bl_endDate b)) ` set bs"
      by (auto simp: order_le_less)
    then have "?ends ?f \<subset> ?ends until" by (auto intro: less_trans)
    then have "card (?ends ?f) < card (?ends until)" by (intro psubset_card_mono) auto
    from less [OF this] False show ?thesis by (simp add: time_off_loop.simps [of bs until])
  qed
qed

definition block_days :: "block \<Rightarrow> int \<Rightarrow> int \<Rightarrow> bool" where
  "block_days b s e \<longleftrightarrow> bl_startDate b = iso_date s \<and> bl_endDate b = iso_date e \<and> 0 \<le> s \<and> s \<le> e \<and> e < last_day"

definition off_on :: "block list \<Rightarrow> int \<Rightarrow> bool" where
  "off_on bs k \<longleftrightarrow> (\<exists>b \<in> set bs. covers b (iso_date k))"

lemma covers_days:
  assumes "block_days b s e" and "0 \<le> k" and "k \<le> last_day"
  shows "covers b (iso_date k) \<longleftrightarrow> s \<le> k \<and> k \<le> e"
proof -
  have "take 10 (iso_date x) = iso_date x" for x by simp
  then show ?thesis using assms iso_date_order [of s k] iso_date_order [of k e] unfolding covers_def block_days_def by auto
qed

lemma time_off_loop_days:
  assumes days: "\<forall>b \<in> set bs. \<exists>s e. block_days b s e"
  shows "0 \<le> n \<Longrightarrow> n \<le> k \<Longrightarrow> k < last_day \<Longrightarrow> \<forall>i. n \<le> i \<and> i \<le> k \<longrightarrow> off_on bs i \<Longrightarrow>
    \<exists>m. time_off_loop bs (iso_date k) = Some (iso_date m) \<and> k \<le> m \<and> m < last_day
      \<and> (\<forall>i. n \<le> i \<and> i \<le> m \<longrightarrow> off_on bs i) \<and> \<not> off_on bs (m + 1)"
proof (induction "nat (last_day - k)" arbitrary: k rule: less_induct)
  case less
  have k: "0 \<le> k" "0 \<le> k + 1" "k + 1 \<le> last_day" "k \<le> last_day" using less.prems by simp_all
  have nxt: "add_days (iso_date k) 1 = iso_date (k + 1)" using k by (simp add: add_days_def day_number_iso)
  show ?case
  proof (cases "furthest bs (iso_date k) = iso_date k")
    case True
    have "\<not> off_on bs (k + 1)"
    proof
      assume "off_on bs (k + 1)"
      then obtain b where b: "b \<in> set bs" "covers b (iso_date (k + 1))" by (auto simp: off_on_def)
      with days obtain s e where se: "block_days b s e" by blast
      have "take 10 (bl_endDate b) \<le> iso_date k" using furthest_max(3) [OF b(1), of "iso_date k"] b(2) by (simp add: nxt True)
      then have "e \<le> k" using se iso_date_order [of e k] k by (simp add: block_days_def)
      with covers_days [OF se k(2,3)] b(2) show False by simp
    qed
    with True less.prems show ?thesis by (intro exI [of _ k]) (simp add: time_off_loop.simps [of bs "iso_date k"])
  next
    case False
    with furthest_max(2) [of bs "iso_date k"] obtain b where b: "b \<in> set bs" "covers b (iso_date k) \<or> covers b (iso_date (k + 1))"
      "furthest bs (iso_date k) = take 10 (bl_endDate b)" by (auto simp: nxt)
    with days obtain s e where se: "block_days b s e" by blast
    then have far: "furthest bs (iso_date k) = iso_date e" using b(3) by (simp add: block_days_def)
    have e: "0 \<le> e" "e < last_day" using se by (simp_all add: block_days_def)
    have "iso_date k < iso_date e" using furthest_max(1) [of "iso_date k" bs] False by (simp add: far)
    then have ke: "k < e" using iso_date_order [of e k] e k by (simp add: not_le [symmetric])
    have s: "s \<le> k + 1" using b(2) covers_days [OF se k(1,4)] covers_days [OF se k(2,3)] by auto
    have "\<forall>i. n \<le> i \<and> i \<le> e \<longrightarrow> off_on bs i"
    proof (intro allI impI)
      fix i assume i: "n \<le> i \<and> i \<le> e"
      show "off_on bs i"
      proof (cases "i \<le> k")
        case True
        with less.prems i show ?thesis by simp
      next
        case False
        with i s e covers_days [OF se, of i] k b(1) show ?thesis by (auto simp: off_on_def)
      qed
    qed
    with less.hyps [of e] ke e less.prems obtain m where "time_off_loop bs (iso_date e) = Some (iso_date m)" "e \<le> m" "m < last_day"
      "\<forall>i. n \<le> i \<and> i \<le> m \<longrightarrow> off_on bs i" "\<not> off_on bs (m + 1)" by auto
    with ke False show ?thesis by (intro exI [of _ m]) (simp add: time_off_loop.simps [of bs "iso_date k"] far)
  qed
qed

text \<open>
  C31. Following time off always ends, whatever the ranges and dates are. When the ranges are calendar
  dates, the answer for a day off is the last day of the stretch: every day from then to it is off and
  the day after it is not, across back-to-back and overlapping ranges; and there is no answer exactly
  when the day is not off.
\<close>

theorem time_off_returns:
  "time_off_until bs date \<noteq> None
   \<and> ((\<forall>b \<in> set bs. \<exists>s e. block_days b s e) \<and> 0 \<le> n \<and> n < last_day \<longrightarrow>
        (if off_on bs n then \<exists>m. time_off_until bs (iso_date n) = Some (Some (iso_date m)) \<and> n \<le> m
            \<and> (\<forall>i. n \<le> i \<and> i \<le> m \<longrightarrow> off_on bs i) \<and> \<not> off_on bs (m + 1)
         else time_off_until bs (iso_date n) = Some None))"
proof (intro conjI impI)
  show "time_off_until bs date \<noteq> None" using time_off_loop_returns [of bs date] by (auto simp: time_off_until_def)
next
  assume asm: "(\<forall>b \<in> set bs. \<exists>s e. block_days b s e) \<and> 0 \<le> n \<and> n < last_day"
  show "if off_on bs n then \<exists>m. time_off_until bs (iso_date n) = Some (Some (iso_date m)) \<and> n \<le> m
            \<and> (\<forall>i. n \<le> i \<and> i \<le> m \<longrightarrow> off_on bs i) \<and> \<not> off_on bs (m + 1)
         else time_off_until bs (iso_date n) = Some None"
  proof (cases "off_on bs n")
    case True
    then have "\<forall>i. n \<le> i \<and> i \<le> n \<longrightarrow> off_on bs i" by (metis order_antisym)
    with time_off_loop_days [of bs n n] asm True show ?thesis
      by (auto simp: time_off_until_def off_on_def)
  next
    case False
    then show ?thesis by (simp add: time_off_until_def off_on_def)
  qed
qed

definition fx_block :: "int \<Rightarrow> int \<Rightarrow> block" where
  "fx_block s e = \<lparr>bl_id = 1, bl_artisanProfileId = 20, bl_startDate = iso_date s, bl_endDate = iso_date e, bl_reason = None\<rparr>"

theorem time_off_returns_witness:
  "\<exists>m. time_off_until [fx_block 20003 20005, fx_block 20000 20002] (iso_date 20001) = Some (Some (iso_date m)) \<and> 20001 \<le> m"
proof -
  let ?bs = "[fx_block 20003 20005, fx_block 20000 20002]"
  have a: "block_days (fx_block 20003 20005) 20003 20005" "block_days (fx_block 20000 20002) 20000 20002"
    by (simp_all add: block_days_def fx_block_def last_day_def)
  have "off_on ?bs 20001" using covers_days [OF a(2), of 20001] by (simp add: off_on_def last_day_def)
  with time_off_returns [of ?bs "[]" 20001] a show ?thesis by (auto simp: last_day_def)
qed

end
