(* ===== verification/Availability.thy ===== *)
theory Availability
  imports Store Windows
begin

text \<open>
  The availability service (availability/availability.service.ts): the artisan's weekly slots, time off
  and status, the bookable windows of a date, and what clients are shown. A request's dates are plain
  \<open>YYYY-MM-DD\<close>; a time is stored in the database's form \<open>HH:MM:SS\<close>, while the code compares the strings it
  holds. Ordering by two columns is sorting by the second, then stably by the first.
\<close>

section \<open>Reading\<close>

definition occupying :: "booking_status \<Rightarrow> bool" where
  "occupying s \<longleftrightarrow> s \<in> {Bk_PENDING, Bk_CONFIRMED}"

definition load_profile_or_fail :: "nat \<Rightarrow> profile act" where
  "load_profile_or_fail uid =
     bnd (asks (\<lambda>w. profile_of_user (w_db w) uid)) (\<lambda>p. some_or (NotFound_avail Set_up_profile_first) p)"

definition load_slot_or_fail :: "nat \<Rightarrow> nat \<Rightarrow> slot act" where
  "load_slot_or_fail sid pid =
     bnd (asks (\<lambda>w. find (\<lambda>s. sl_id s = sid \<and> sl_artisanProfileId s = pid) (t_slots (w_db w)))) (\<lambda>s.
     some_or (NotFound_avail (Slot_id_not_found sid)) s)"

definition by_day_and_start :: "slot list \<Rightarrow> slot list" where
  "by_day_and_start slots = sort_key sl_dayOfWeek (sort_key sl_startTime slots)"

definition is_blocked :: "db \<Rightarrow> nat \<Rightarrow> string \<Rightarrow> bool" where
  "is_blocked d pid date \<longleftrightarrow>
     (\<exists>b \<in> set (t_blocks d). bl_artisanProfileId b = pid \<and> bl_startDate b \<le> date \<and> date \<le> bl_endDate b)"

definition occupied_on :: "db \<Rightarrow> nat \<Rightarrow> string \<Rightarrow> time_window list" where
  "occupied_on d pid date = map (\<lambda>b. \<lparr>tw_startTime = b_startTime b, tw_endTime = b_endTime b\<rparr>)
     (filter (\<lambda>b. b_artisanProfileId b = pid \<and> b_scheduledDate b = date \<and> occupying (b_status b)) (t_bookings d))"

definition weekly_slots :: "db \<Rightarrow> nat \<Rightarrow> string \<Rightarrow> slot list" where
  "weekly_slots d pid date = sort_key sl_startTime
     (filter (\<lambda>s. sl_artisanProfileId s = pid \<and> Some (sl_dayOfWeek s) = day_of_week_of date \<and> sl_isActive s) (t_slots d))"

definition compute_bookable_windows :: "db \<Rightarrow> nat \<Rightarrow> string \<Rightarrow> time_window list" where
  "compute_bookable_windows d pid date =
     (if is_blocked d pid date then []
      else concat (map (\<lambda>s. subtract_occupied (sl_startTime s) (sl_endTime s) (occupied_on d pid date)) (weekly_slots d pid date)))"

record client_availability =
  ca_summary :: "availability_summary option"
  ca_weeklyHours :: "(int \<times> string \<times> string) list"
  ca_upcomingTimeOff :: "(string \<times> string) list"

definition MAX_PUBLIC_TIME_OFF :: nat where
  "MAX_PUBLIC_TIME_OFF = 10"

definition describe_profile :: "db \<Rightarrow> int \<Rightarrow> nat \<Rightarrow> availability option \<Rightarrow> client_availability" where
  "describe_profile d now pid status =
     (let (today, _, _) = platform_clock now;
          horizon_end = add_days today (int AVAILABILITY_HORIZON_DAYS - 1);
          slots = by_day_and_start (filter (\<lambda>s. sl_artisanProfileId s = pid \<and> sl_isActive s) (t_slots d));
          blocks = sort_key bl_startDate (filter (\<lambda>b. bl_artisanProfileId b = pid \<and> today \<le> bl_endDate b) (t_blocks d));
          bookings = filter (\<lambda>b. b_artisanProfileId b = pid \<and> today \<le> b_scheduledDate b \<and> b_scheduledDate b \<le> horizon_end
                      \<and> occupying (b_status b)) (t_bookings d)
      in \<lparr>ca_summary = summarise_availability status slots blocks bookings now AVAILABILITY_HORIZON_DAYS,
          ca_weeklyHours = map (\<lambda>s. (sl_dayOfWeek s, take 5 (sl_startTime s), take 5 (sl_endTime s))) slots,
          ca_upcomingTimeOff = map (\<lambda>b. (bl_startDate b, bl_endDate b)) (take MAX_PUBLIC_TIME_OFF blocks)\<rparr>)"

definition describe_for_clients :: "db \<Rightarrow> int \<Rightarrow> (nat \<times> availability option) list \<Rightarrow> (nat \<times> client_availability) list" where
  "describe_for_clients d now profiles = map (\<lambda>(pid, status). (pid, describe_profile d now pid status)) profiles"

record availability_dto =
  ad_artisanProfileId :: nat
  ad_status :: availability
  ad_slots :: "slot list"
  ad_date :: "string option"
  ad_bookableSlots :: "time_window list option"
  ad_summary :: "availability_summary option"

definition build_availability_dto :: "db \<Rightarrow> profile \<Rightarrow> bool \<Rightarrow> availability_dto" where
  "build_availability_dto d p active_only =
     \<lparr>ad_artisanProfileId = pr_id p, ad_status = pr_availabilityStatus p,
      ad_slots = by_day_and_start (filter (\<lambda>s. sl_artisanProfileId s = pr_id p \<and> (active_only \<longrightarrow> sl_isActive s)) (t_slots d)),
      ad_date = None, ad_bookableSlots = None, ad_summary = None\<rparr>"

definition with_summary :: "db \<Rightarrow> int \<Rightarrow> profile \<Rightarrow> availability_dto \<Rightarrow> availability_dto" where
  "with_summary d now p dto =
     dto\<lparr>ad_summary := Option.bind (map_of (describe_for_clients d now [(pr_id p, Some (pr_availabilityStatus p))]) (pr_id p)) ca_summary\<rparr>"

definition get_my_availability :: "nat \<Rightarrow> availability_dto act" where
  "get_my_availability uid =
     bnd (load_profile_or_fail uid) (\<lambda>p.
     asks (\<lambda>w. with_summary (w_db w) (clock w) p (build_availability_dto (w_db w) p False)))"

definition get_artisan_availability :: "nat \<Rightarrow> string option \<Rightarrow> availability_dto act" where
  "get_artisan_availability pid date =
     bnd (asks (\<lambda>w. find_profile (w_db w) pid)) (\<lambda>p0.
     bnd (some_or (NotFound_avail (Profile_id_not_found pid)) p0) (\<lambda>p.
     asks (\<lambda>w. let dto = with_summary (w_db w) (clock w) p (build_availability_dto (w_db w) p True)
       in if truthy date then dto\<lparr>ad_date := date, ad_bookableSlots := Some (compute_bookable_windows (w_db w) pid (the date))\<rparr>
          else dto)))"

section \<open>Changing\<close>

definition set_status :: "nat \<Rightarrow> availability \<Rightarrow> availability_dto act" where
  "set_status uid status =
     bnd (load_profile_or_fail uid) (\<lambda>p.
     andthen (with_db (put_profile (p\<lparr>pr_availabilityStatus := status\<rparr>)))
       (asks (\<lambda>w. build_availability_dto (w_db w) (p\<lparr>pr_availabilityStatus := status\<rparr>) False)))"

definition assert_valid_times :: "string \<Rightarrow> string \<Rightarrow> unit act" where
  "assert_valid_times start_time end_time = guard (\<not> end_time \<le> start_time) (BadRequest_avail End_not_after_start)"

text \<open>The database compares the columns with the parameters as times.\<close>

definition slot_clash :: "nat \<Rightarrow> int \<Rightarrow> string \<Rightarrow> string \<Rightarrow> nat option \<Rightarrow> slot \<Rightarrow> bool" where
  "slot_clash pid day start_time end_time except s \<longleftrightarrow>
     sl_artisanProfileId s = pid \<and> sl_dayOfWeek s = day \<and> sl_startTime s < to_clock_time end_time
     \<and> to_clock_time start_time < sl_endTime s \<and> Some (sl_id s) \<noteq> except"

definition assert_no_overlap :: "nat \<Rightarrow> int \<Rightarrow> string \<Rightarrow> string \<Rightarrow> nat option \<Rightarrow> unit act" where
  "assert_no_overlap pid day start_time end_time except =
     bnd (asks (\<lambda>w. find (slot_clash pid day start_time end_time except) (t_slots (w_db w)))) (\<lambda>o0. case o0 of
       None \<Rightarrow> ret ()
     | Some s \<Rightarrow> throw (BadRequest_avail (Slot_overlaps (take 5 (sl_startTime s)) (take 5 (sl_endTime s)))))"

definition stored_slot :: "slot \<Rightarrow> slot" where
  "stored_slot s = s\<lparr>sl_startTime := to_clock_time (sl_startTime s), sl_endTime := to_clock_time (sl_endTime s)\<rparr>"

definition add_slot :: "nat \<Rightarrow> int \<Rightarrow> string \<Rightarrow> string \<Rightarrow> slot act" where
  "add_slot uid day start_time end_time =
     bnd (load_profile_or_fail uid) (\<lambda>p.
     andthen (assert_valid_times start_time end_time)
     (andthen (assert_no_overlap (pr_id p) day start_time end_time None)
     (bnd (fresh T_slots) (\<lambda>k.
      let s = \<lparr>sl_id = k, sl_artisanProfileId = pr_id p, sl_dayOfWeek = day, sl_startTime = start_time, sl_endTime = end_time,
               sl_isActive = True\<rparr>
      in andthen (with_db (put_slot (stored_slot s))) (ret s)))))"

record slot_update =
  su_dayOfWeek :: "int option"
  su_startTime :: "string option"
  su_endTime :: "string option"
  su_isActive :: "bool sent"

definition given :: "'a option \<Rightarrow> 'a \<Rightarrow> 'a" where
  "given x old = (case x of Some y \<Rightarrow> y | None \<Rightarrow> old)"

definition update_slot :: "nat \<Rightarrow> nat \<Rightarrow> slot_update \<Rightarrow> slot act" where
  "update_slot uid sid u =
     bnd (load_profile_or_fail uid) (\<lambda>p.
     bnd (load_slot_or_fail sid (pr_id p)) (\<lambda>s.
     let day = given (su_dayOfWeek u) (sl_dayOfWeek s);
         st = given (su_startTime u) (sl_startTime s);
         en = given (su_endTime u) (sl_endTime s);
         s' = s\<lparr>sl_dayOfWeek := day, sl_startTime := st, sl_endTime := en,
                sl_isActive := the (assigned (su_isActive u) (Some (sl_isActive s)))\<rparr>
     in andthen (assert_valid_times st en)
       (andthen (assert_no_overlap (pr_id p) day st en (Some sid))
       (andthen (guard (su_isActive u \<noteq> Null) NotNullViolation)
       (andthen (with_db (put_slot (stored_slot s'))) (ret s'))))))"

definition delete_slot :: "nat \<Rightarrow> db \<Rightarrow> db" where
  "delete_slot sid d = d\<lparr>t_slots := filter (\<lambda>s. sl_id s \<noteq> sid) (t_slots d),
     t_bookings := update_where (\<lambda>b. b_availabilitySlotId b = Some sid) (\<lambda>b. b\<lparr>b_availabilitySlotId := None\<rparr>) (t_bookings d)\<rparr>"

definition remove_slot :: "nat \<Rightarrow> nat \<Rightarrow> unit act" where
  "remove_slot uid sid =
     bnd (load_profile_or_fail uid) (\<lambda>p.
     bnd (load_slot_or_fail sid (pr_id p)) (\<lambda>_. with_db (delete_slot sid)))"

definition assert_valid_block_range :: "string \<Rightarrow> string \<Rightarrow> unit act" where
  "assert_valid_block_range start_date end_date =
     andthen (guard (\<not> end_date < start_date) (BadRequest_avail Block_end_before_start))
      (bnd (asks clock) (\<lambda>now. guard (\<not> end_date < iso_date (now div DAY_MS)) (BadRequest_avail Block_in_past)))"

definition conflicting_bookings :: "db \<Rightarrow> nat \<Rightarrow> string \<Rightarrow> string \<Rightarrow> nat list" where
  "conflicting_bookings d pid start_date end_date =
     map b_id (filter (\<lambda>b. start_date \<le> b_scheduledDate b \<and> b_scheduledDate b \<le> end_date)
       (filter (\<lambda>b. b_artisanProfileId b = pid \<and> occupying (b_status b)) (t_bookings d)))"

definition add_block :: "nat \<Rightarrow> string \<Rightarrow> string \<Rightarrow> string option \<Rightarrow> (block \<times> nat list) act" where
  "add_block uid start_date end_date reason =
     bnd (load_profile_or_fail uid) (\<lambda>p.
     andthen (assert_valid_block_range start_date end_date)
     (bnd (fresh T_blocks) (\<lambda>k.
      let b = \<lparr>bl_id = k, bl_artisanProfileId = pr_id p, bl_startDate = start_date, bl_endDate = end_date, bl_reason = reason\<rparr>
      in andthen (with_db (\<lambda>d. d\<lparr>t_blocks := t_blocks d @ [b]\<rparr>))
           (asks (\<lambda>w. (b, conflicting_bookings (w_db w) (pr_id p) start_date end_date))))))"

definition list_my_blocks :: "nat \<Rightarrow> block list act" where
  "list_my_blocks uid =
     bnd (load_profile_or_fail uid) (\<lambda>p.
     asks (\<lambda>w. sort_key bl_startDate (filter (\<lambda>b. bl_artisanProfileId b = pr_id p) (t_blocks (w_db w)))))"

definition remove_block :: "nat \<Rightarrow> nat \<Rightarrow> unit act" where
  "remove_block uid bid =
     bnd (load_profile_or_fail uid) (\<lambda>p.
     bnd (asks (\<lambda>w. find (\<lambda>b. bl_id b = bid \<and> bl_artisanProfileId b = pr_id p) (t_blocks (w_db w)))) (\<lambda>b0.
     bnd (some_or (NotFound_avail (Block_not_found bid)) b0) (\<lambda>b.
     with_db (\<lambda>d. d\<lparr>t_blocks := filter (\<lambda>x. bl_id x \<noteq> bl_id b) (t_blocks d)\<rparr>))))"

section \<open>Bookable windows\<close>

lemma lies_in_occupied:
  "lies_in t (occupied_on d pid date) \<longleftrightarrow> (\<exists>b \<in> set (t_bookings d). b_artisanProfileId b = pid \<and> b_scheduledDate b = date
     \<and> occupying (b_status b) \<and> b_startTime b \<le> t \<and> t < b_endTime b)"
  by (auto simp: lies_in_def occupied_on_def)

lemma lies_in_subtract: "lies_in t (subtract_occupied st en occ) \<longleftrightarrow> st \<le> t \<and> t < en \<and> \<not> lies_in t occ"
  using open_windows_exact by simp

text \<open>
  C29. A date's bookable windows are exact. A clock time lies in one of them exactly when the artisan
  has no time off on the date, the time falls in one of the active weekly slots of that weekday, and no
  request or confirmed booking of the artisan on the date contains it.
\<close>

theorem bookable_windows_exact:
  "lies_in t (compute_bookable_windows d pid date) \<longleftrightarrow>
     \<not> (\<exists>b \<in> set (t_blocks d). bl_artisanProfileId b = pid \<and> bl_startDate b \<le> date \<and> date \<le> bl_endDate b)
     \<and> (\<exists>s \<in> set (t_slots d). sl_artisanProfileId s = pid \<and> Some (sl_dayOfWeek s) = day_of_week_of date \<and> sl_isActive s
          \<and> sl_startTime s \<le> t \<and> t < sl_endTime s)
     \<and> \<not> (\<exists>b \<in> set (t_bookings d). b_artisanProfileId b = pid \<and> b_scheduledDate b = date \<and> occupying (b_status b)
          \<and> b_startTime b \<le> t \<and> t < b_endTime b)"
  unfolding compute_bookable_windows_def
  by (auto simp: lies_in_subtract lies_in_occupied weekly_slots_def is_blocked_def)

text \<open>
  An end before the start is refused by comparing the strings at hand. Changing the start alone compares
  the request's \<open>HH:MM\<close> with the stored \<open>HH:MM:SS\<close>, so a start equal to the end passes and an empty
  slot is saved.
\<close>

lemma empty_slot_accepted:
  "fst (assert_valid_times ''17:00'' ''17:00:00'' w) = Inr () \<and> to_clock_time ''17:00'' = ''17:00:00''"
proof -
  have "\<not> ''17:00:00'' \<le> ''17:00''" by code_simp
  then show ?thesis by (simp add: assert_valid_times_def run_simps to_clock_time_def)
qed

end
