(* ===== verification/Bookings.thy ===== *)
theory Bookings
  imports Jobs Availability
begin

text \<open>
  The bookings service (bookings/bookings.service.ts) and its scheduler
  (scheduler/bookings-scheduler.service.ts). A booking loaded with its customer is saved with it, so a
  booking whose customer is gone cannot be saved that way; the other relations are never null in the
  code's saves. Prices are exact: the band around the catalogue price is computed with rationals.
\<close>

section \<open>Loading and saving\<close>

record loaded_booking =
  lb_booking :: booking
  lb_customer :: "user option"
  lb_profile :: "profile option"
  lb_artisanUser :: "user option"
  lb_service :: "service option"

definition with_booking_relations :: "db \<Rightarrow> booking \<Rightarrow> loaded_booking" where
  "with_booking_relations d b =
     (let pr = find_profile d (b_artisanProfileId b)
      in \<lparr>lb_booking = b, lb_customer = find_user d (b_customerId b), lb_profile = pr,
          lb_artisanUser = Option.bind pr (user_of_profile d), lb_service = Option.bind (b_serviceId b) (find_service d)\<rparr>)"

definition load_or_fail :: "nat \<Rightarrow> loaded_booking act" where
  "load_or_fail bid =
     bnd (asks (\<lambda>w. find_booking (w_db w) bid)) (\<lambda>b0.
     bnd (some_or (NotFound_booking Booking_not_found) b0) (\<lambda>b.
     asks (\<lambda>w. with_booking_relations (w_db w) b)))"

definition save_with_customer :: "loaded_booking \<Rightarrow> unit act" where
  "save_with_customer l =
     andthen (guard (lb_customer l \<noteq> None) NotNullViolation) (with_db (put_booking (lb_booking l)))"

definition artisan_user_of :: "loaded_booking \<Rightarrow> user act" where
  "artisan_user_of l = some_or TypeError (lb_artisanUser l)"

definition booking_customer :: "loaded_booking \<Rightarrow> user act" where
  "booking_customer l = some_or TypeError (lb_customer l)"

definition full_name :: "user \<Rightarrow> string" where
  "full_name u = u_firstname u @ '' '' @ u_lastname u"

text \<open>\<open>x?.trim() || y\<close>.\<close>

definition trimmed_or :: "string option \<Rightarrow> string \<Rightarrow> string" where
  "trimmed_or x y = (case x of None \<Rightarrow> y | Some t \<Rightarrow> if js_trim t = [] then y else js_trim t)"

definition business_name :: "loaded_booking \<Rightarrow> string option" where
  "business_name l = Option.bind (lb_profile l) pr_businessName"

definition assert_artisan_owner :: "loaded_booking \<Rightarrow> nat \<Rightarrow> unit act" where
  "assert_artisan_owner l uid = guard (map_option u_id (lb_artisanUser l) = Some uid) (Forbidden_booking Access_denied)"

definition assert_bookable :: "user option \<Rightarrow> profile \<Rightarrow> unit act" where
  "assert_bookable u p =
     andthen (guard (case u of None \<Rightarrow> False | Some x \<Rightarrow> \<not> u_isBanned x \<and> \<not> u_isSuspended x) (BadRequest_booking Not_accepting_bookings))
      (andthen (guard (pr_isProfileComplete p) (BadRequest_booking Profile_incomplete))
        (guard (pr_availabilityStatus p = AVAILABLE)
          (BadRequest_booking (if pr_availabilityStatus p = BUSY then Artisan_busy else Artisan_unavailable))))"

section \<open>Views\<close>

record booking_view =
  bv_booking :: booking
  bv_customer :: "(nat \<times> string \<times> string) option"
  bv_artisan :: "(nat \<times> string \<times> string) option"
  bv_exact :: "(rat option \<times> rat option \<times> int option \<times> string option) option"
  bv_jobId :: "nat option"

definition BOOKING_LOCATION_SHARED_STATUSES :: "booking_status list" where
  "BOOKING_LOCATION_SHARED_STATUSES = [Bk_CONFIRMED, Bk_COMPLETED, Bk_NO_SHOW]"

definition can_see_booking_location :: "loaded_booking \<Rightarrow> nat \<Rightarrow> bool" where
  "can_see_booking_location l uid \<longleftrightarrow>
     b_customerId (lb_booking l) = uid
     \<or> map_option u_id (lb_artisanUser l) = Some uid \<and> b_status (lb_booking l) \<in> set BOOKING_LOCATION_SHARED_STATUSES"

definition without_pin :: "booking \<Rightarrow> booking" where
  "without_pin b = b\<lparr>b_latitude := None, b_longitude := None, b_accuracyM := None, b_landmark := None\<rparr>"

definition to_response_dto :: "db \<Rightarrow> loaded_booking \<Rightarrow> nat \<Rightarrow> booking_view" where
  "to_response_dto d l uid =
     (let b = lb_booking l
      in \<lparr>bv_booking = without_pin b,
          bv_customer = map_option (\<lambda>u. (u_id u, u_firstname u, u_lastname u)) (lb_customer l),
          bv_artisan = map_option (\<lambda>u. (u_id u, u_firstname u, u_lastname u)) (lb_artisanUser l),
          bv_exact = (if can_see_booking_location l uid then Some (b_latitude b, b_longitude b, b_accuracyM b, b_landmark b) else None),
          bv_jobId = map_option j_id (job_of_booking d (b_id b))\<rparr>)"

definition find_booking_for :: "nat \<Rightarrow> nat \<Rightarrow> booking_view act" where
  "find_booking_for bid uid =
     bnd (load_or_fail bid) (\<lambda>l.
     andthen (guard (b_customerId (lb_booking l) = uid \<or> map_option u_id (lb_artisanUser l) = Some uid) (Forbidden_booking Access_denied))
       (asks (\<lambda>w. to_response_dto (w_db w) l uid)))"

record booking_query =
  bq_status :: "booking_status option"
  bq_page :: nat
  bq_limit :: nat

definition list_bookings :: "(booking \<Rightarrow> bool) \<Rightarrow> booking_query \<Rightarrow> nat \<Rightarrow> (booking_view list \<times> pagination) act" where
  "list_bookings mine q uid = asks (\<lambda>w.
     let d = w_db w;
         rows = filter (\<lambda>b. mine b \<and> (bq_status q = None \<or> bq_status q = Some (b_status b))) (t_bookings d);
         ordered = rev (sort_key b_scheduledDate (rev rows))
     in (map (\<lambda>b. to_response_dto d (with_booking_relations d b) uid) (page_of (bq_page q) (bq_limit q) ordered),
         paginate (length rows) (bq_page q) (bq_limit q)))"

definition get_my_bookings :: "nat \<Rightarrow> booking_query \<Rightarrow> (booking_view list \<times> pagination) act" where
  "get_my_bookings uid q = list_bookings (\<lambda>b. b_customerId b = uid) q uid"

definition get_artisan_bookings :: "nat \<Rightarrow> booking_query \<Rightarrow> (booking_view list \<times> pagination) act" where
  "get_artisan_bookings uid q =
     bnd (asks (\<lambda>w. profile_of_user (w_db w) uid)) (\<lambda>p0.
     bnd (some_or (NotFound_booking Profile_not_found) p0) (\<lambda>p.
     list_bookings (\<lambda>b. b_artisanProfileId b = pr_id p) q uid))"

section \<open>Requesting\<close>

record booking_input =
  bi_artisanProfileId :: nat
  bi_serviceId :: nat
  bi_availabilitySlotId :: "nat option"
  bi_scheduledDate :: string
  bi_startTime :: string
  bi_endTime :: "string option"
  bi_notes :: "string option"
  bi_agreedPrice :: "money option"
  bi_currency :: "string option"
  bi_location :: "string option"
  bi_pin :: pin
  bi_attachmentUrls :: "string list"

definition AGREED_PRICE_TOLERANCE_RATIO :: rat where
  "AGREED_PRICE_TOLERANCE_RATIO = 1 / 5"

definition DEFAULT_SERVICE_DURATION_MINS :: nat where
  "DEFAULT_SERVICE_DURATION_MINS = 60"

definition MAX_PENDING_BOOKINGS_PER_ARTISAN :: nat where
  "MAX_PENDING_BOOKINGS_PER_ARTISAN = 3"

definition price_out_of_band :: "money option \<Rightarrow> money option \<Rightarrow> bool" where
  "price_out_of_band agreed catalog \<longleftrightarrow>
     (case (agreed, catalog) of
        (Some a, Some p) \<Rightarrow> 0 < p \<and> (cedis a < cedis p * (1 - AGREED_PRICE_TOLERANCE_RATIO) \<or> cedis p * (1 + AGREED_PRICE_TOLERANCE_RATIO) < cedis a)
      | _ \<Rightarrow> False)"

definition overlapping :: "nat \<Rightarrow> string \<Rightarrow> string \<Rightarrow> string \<Rightarrow> booking \<Rightarrow> bool" where
  "overlapping pid date start_time end_time b \<longleftrightarrow>
     b_artisanProfileId b = pid \<and> b_scheduledDate b = date \<and> occupying (b_status b)
     \<and> b_startTime b < to_clock_time end_time \<and> to_clock_time start_time < b_endTime b"

definition pending_with :: "nat \<Rightarrow> nat \<Rightarrow> booking \<Rightarrow> bool" where
  "pending_with uid pid b \<longleftrightarrow> b_customerId b = uid \<and> b_artisanProfileId b = pid \<and> b_status b = Bk_PENDING"

definition new_booking :: "nat \<Rightarrow> booking_input \<Rightarrow> nat \<Rightarrow> string \<Rightarrow> int \<Rightarrow> booking" where
  "new_booking k i uid end_time now =
     (let ex = exact_location_columns (bi_pin i) in
      \<lparr>b_id = k, b_customerId = uid, b_artisanProfileId = bi_artisanProfileId i,
       b_availabilitySlotId = (if truthy_id (bi_availabilitySlotId i) then bi_availabilitySlotId i else None),
       b_serviceId = Some (bi_serviceId i), b_scheduledDate = bi_scheduledDate i,
       b_startTime = to_clock_time (bi_startTime i), b_endTime = to_clock_time end_time, b_status = Bk_PENDING,
       b_notes = bi_notes i, b_artisanNotes = None, b_agreedPrice = bi_agreedPrice i,
       b_currency = given (bi_currency i) ''GHS'',
       b_location = (if trimmed_or (bi_location i) [] = [] then None else Some (trimmed_or (bi_location i) [])),
       b_latitude = assigned (lc_latitude ex) None, b_longitude = assigned (lc_longitude ex) None,
       b_accuracyM = assigned (lc_accuracyM ex) None, b_landmark = assigned (lc_landmark ex) None,
       b_attachmentUrls = bi_attachmentUrls i, b_noShowByCustomerAt = None, b_noShowByArtisanAt = None,
       b_reminder24hSentAt = None, b_reminder2hSentAt = None, b_createdAt = now\<rparr>)"

definition create_booking_tx :: "booking_input \<Rightarrow> nat \<Rightarrow> string \<Rightarrow> (booking \<times> user) act" where
  "create_booking_tx i uid end_time =
     bnd (asks (\<lambda>w. find_profile (w_db w) (bi_artisanProfileId i))) (\<lambda>p0.
     bnd (some_or (NotFound_booking Profile_not_found) p0) (\<lambda>p.
     bnd (asks (\<lambda>w. user_of_profile (w_db w) p)) (\<lambda>u0.
     bnd (some_or TypeError u0) (\<lambda>u.
     andthen (guard (\<not> u_isBanned u \<and> \<not> u_isSuspended u) (BadRequest_booking Not_accepting_bookings))
     (bnd (asks (\<lambda>w. \<exists>b \<in> set (t_bookings (w_db w)). overlapping (pr_id p) (bi_scheduledDate i) (bi_startTime i) end_time b)) (\<lambda>clash.
     andthen (guard (\<not> clash) (Conflict_booking Slot_taken))
     (bnd (asks (\<lambda>w. length (filter (pending_with uid (pr_id p)) (t_bookings (w_db w))))) (\<lambda>n.
     andthen (guard (n < MAX_PENDING_BOOKINGS_PER_ARTISAN) (Conflict_booking Too_many_pending))
     (bnd (fresh T_bookings) (\<lambda>k.
     bnd (asks (\<lambda>w. k \<notin> b_id ` set (t_bookings (w_db w)))) (\<lambda>free.
     andthen (guard free UniqueViolation)
     (bnd (asks clock) (\<lambda>now.
     let b = new_booking k i uid end_time now
     in andthen (with_db (put_booking b)) (ret (b, u)))))))))))))))"

definition create_booking :: "nat \<Rightarrow> booking_input \<Rightarrow> booking_view act" where
  "create_booking uid i =
     bnd (asks (\<lambda>w. find_profile (w_db w) (bi_artisanProfileId i))) (\<lambda>p0.
     bnd (some_or (NotFound_booking Profile_not_found) p0) (\<lambda>p.
     bnd (asks (\<lambda>w. user_of_profile (w_db w) p)) (\<lambda>u.
     andthen (assert_bookable u p)
     (bnd (asks (\<lambda>w. find_service (w_db w) (bi_serviceId i))) (\<lambda>s0.
     bnd (some_or (NotFound_job (Service_not_found (bi_serviceId i))) s0) (\<lambda>s.
     andthen (guard (s_isActive s) (BadRequest_job Service_retired))
     (andthen (guard (s_id s \<in> set (pr_services p)) (BadRequest_booking Service_not_offered))
     (bnd (asks (\<lambda>w. \<exists>x \<in> set (t_slots (w_db w)). Some (sl_id x) = bi_availabilitySlotId i
              \<and> sl_artisanProfileId x = bi_artisanProfileId i \<and> sl_isActive x)) (\<lambda>found.
     andthen (guard (truthy_id (bi_availabilitySlotId i) \<longrightarrow> found) (NotFound_booking Slot_not_found))
     (andthen (guard (\<not> price_out_of_band (bi_agreedPrice i) (s_price s)) (BadRequest_booking (Price_out_of_band (the (s_price s)))))
     (let mins = (if s_durationMins s = 0 then DEFAULT_SERVICE_DURATION_MINS else s_durationMins s);
          end_time = given (bi_endTime i) (add_minutes (bi_startTime i) mins)
      in andthen (guard (\<not> end_time \<le> bi_startTime i) (BadRequest_booking End_before_start))
        (bnd (some_or (BadRequest_booking Invalid_schedule) (to_utc_instant (bi_scheduledDate i) (bi_startTime i))) (\<lambda>start.
         bnd (asks clock) (\<lambda>now.
         andthen (guard (\<not> start \<le> now) (BadRequest_booking In_the_past))
         (bnd (asks (\<lambda>w. compute_bookable_windows (w_db w) (bi_artisanProfileId i) (bi_scheduledDate i))) (\<lambda>bookable.
         andthen (guard (\<exists>w \<in> set bookable. to_clock_time (tw_startTime w) \<le> to_clock_time (bi_startTime i)
                    \<and> to_clock_time end_time \<le> to_clock_time (tw_endTime w)) (BadRequest_booking Outside_hours))
         (bnd (transaction (create_booking_tx i uid end_time)) (\<lambda>(saved, artisan).
         bnd (load_or_fail (b_id saved)) (\<lambda>l.
         bnd (booking_customer l) (\<lambda>c.
         andthen (emit (BOOKING_RECEIVED (u_id artisan) (full_name c) (bi_scheduledDate i) (b_id saved)))
           (asks (\<lambda>w. to_response_dto (w_db w) l uid))))))))))))))))))))))"

section \<open>Confirming\<close>

text \<open>The name clients and customers are shown: \<open>businessName?.trim() || firstname lastname\<close>.\<close>

definition shown_artisan :: "loaded_booking \<Rightarrow> user \<Rightarrow> string" where
  "shown_artisan l u = trimmed_or (business_name l) (full_name u)"

record respond_input =
  ri_price :: "money option"
  ri_artisanNotes :: "string sent"

definition positive_price :: "money option \<Rightarrow> money option" where
  "positive_price p = (case p of None \<Rightarrow> None | Some a \<Rightarrow> if a > 0 then Some a else None)"

text \<open>The price of the work: the customer's agreed price stands, then the artisan's, then the catalogue's.\<close>

definition settled_price :: "loaded_booking \<Rightarrow> money option \<Rightarrow> exn + money" where
  "settled_price l sent_price =
     (let catalog = positive_price (Option.bind (lb_service l) s_price)
      in case positive_price (b_agreedPrice (lb_booking l)) of
           Some a \<Rightarrow> if sent_price \<noteq> None \<and> sent_price \<noteq> Some a then Inl (BadRequest_booking (Agreed_price_set a)) else Inr a
         | None \<Rightarrow> (case sent_price of Some p \<Rightarrow> Inr p
             | None \<Rightarrow> (case catalog of Some c \<Rightarrow> Inr c | None \<Rightarrow> Inl (BadRequest_booking Price_needed))))"

definition work_location :: "booking \<Rightarrow> profile \<Rightarrow> string" where
  "work_location b p =
     trimmed_or (b_location b) (trimmed_or (pr_location p) (trimmed_or (pr_businessName p) ''Not specified''))"

definition booking_job_title :: "service \<Rightarrow> nat \<Rightarrow> string" where
  "booking_job_title s bid = s_name s @ '' '' @ [CHR 0x97] @ '' booking #'' @ show_nat bid"

definition job_from_booking :: "nat \<Rightarrow> booking \<Rightarrow> service \<Rightarrow> profile \<Rightarrow> user \<Rightarrow> money \<Rightarrow> int \<Rightarrow> job" where
  "job_from_booking k b s p u price now =
     \<lparr>j_id = k, j_customerId = b_customerId b, j_serviceId = s_id s, j_title = Some (booking_job_title s (b_id b)),
      j_description = Some (case b_notes b of Some t \<Rightarrow> t
        | None \<Rightarrow> ''Direct booking with '' @ trimmed_or (pr_businessName p) ''artisan'' @ ''.''),
      j_location = work_location b p, j_budgetMin = Some price, j_budgetMax = Some price, j_currency = b_currency b,
      j_latitude = b_latitude b, j_longitude = b_longitude b, j_accuracyM = b_accuracyM b, j_landmark = b_landmark b,
      j_status = PENDING, j_acceptedArtisanId = Some (u_id u), j_paymentIntentId = None, j_deadline = None,
      j_completionRequestedAt = None, j_bookingId = Some (b_id b), j_createdAt = now, j_deletedAt = None\<rparr>"

definition open_job_for_booking :: "env \<Rightarrow> booking \<Rightarrow> service \<Rightarrow> profile \<Rightarrow> user \<Rightarrow> money \<Rightarrow> nat \<Rightarrow> job act" where
  "open_job_for_booking env b s p u price uid =
     bnd (asks (\<lambda>w. Some (b_id b) \<notin> j_bookingId ` set (t_jobs (w_db w)))) (\<lambda>unlinked.
     andthen (guard unlinked UniqueViolation)
     (bnd (asks clock) (\<lambda>now.
     bnd (insert_job (\<lambda>k. job_from_booking k b s p u price now)) (\<lambda>j.
     andthen (record_history (j_id j) None PENDING (show_nat uid) (Some (''Created from confirmed booking #'' @ show_nat (b_id b))))
     (bnd (hold_payment env (j_id j) (b_customerId b) (u_id u) (Some price)) (\<lambda>intent.
     andthen (with_db (put_job (j\<lparr>j_paymentIntentId := Some intent\<rparr>)))
     (andthen (for_each (b_attachmentUrls b) (add_attachment (j_id j)))
       (ret (j\<lparr>j_paymentIntentId := Some intent\<rparr>)))))))))"

definition confirmed_booking :: "booking \<Rightarrow> money \<Rightarrow> respond_input \<Rightarrow> booking" where
  "confirmed_booking b price i = b\<lparr>b_status := Bk_CONFIRMED, b_agreedPrice := Some price,
     b_artisanNotes := assigned (ri_artisanNotes i) (b_artisanNotes b)\<rparr>"

definition confirm_booking_tx :: "env \<Rightarrow> nat \<Rightarrow> nat \<Rightarrow> respond_input \<Rightarrow> (loaded_booking \<times> job) act" where
  "confirm_booking_tx env uid bid i =
     bnd (load_or_fail bid) (\<lambda>l.
     andthen (assert_artisan_owner l uid)
     (andthen (guard (b_status (lb_booking l) = Bk_PENDING) (BadRequest_booking (Cannot_confirm (b_status (lb_booking l)))))
     (case settled_price l (ri_price i) of Inl e \<Rightarrow> throw e | Inr price \<Rightarrow>
      let b = confirmed_booking (lb_booking l) price i in
      andthen (save_with_customer (l\<lparr>lb_booking := b\<rparr>))
      (bnd (asks (\<lambda>w. job_of_booking (w_db w) bid)) (\<lambda>j0. case j0 of
         Some j \<Rightarrow> ret (l\<lparr>lb_booking := b\<rparr>, j)
       | None \<Rightarrow>
           bnd (some_or (BadRequest_booking No_service) (lb_service l)) (\<lambda>s.
           bnd (some_or TypeError (lb_profile l)) (\<lambda>p.
           bnd (artisan_user_of l) (\<lambda>u.
           bnd (open_job_for_booking env b s p u price uid) (\<lambda>j. ret (l\<lparr>lb_booking := b\<rparr>, j))))))))))"

definition confirm_booking :: "env \<Rightarrow> nat \<Rightarrow> nat \<Rightarrow> respond_input \<Rightarrow> nat act" where
  "confirm_booking env uid bid i =
     bnd (transaction (confirm_booking_tx env uid bid i)) (\<lambda>(l, j).
     bnd (artisan_user_of l) (\<lambda>u.
     let b = lb_booking l
     in andthen (emit (BOOKING_CONFIRMED (b_customerId b) (shown_artisan l u) (b_scheduledDate b) (b_id b)))
          (ret (j_id j))))"

definition decline_booking :: "nat \<Rightarrow> nat \<Rightarrow> string sent \<Rightarrow> unit act" where
  "decline_booking uid bid notes =
     bnd (load_or_fail bid) (\<lambda>l.
     andthen (assert_artisan_owner l uid)
     (andthen (guard (b_status (lb_booking l) = Bk_PENDING) (BadRequest_booking (Cannot_decline (b_status (lb_booking l)))))
     (let b = lb_booking l
      in andthen (save_with_customer (l\<lparr>lb_booking := b\<lparr>b_status := Bk_DECLINED, b_artisanNotes := assigned notes (b_artisanNotes b)\<rparr>\<rparr>))
         (bnd (artisan_user_of l) (\<lambda>u.
          emit (BOOKING_DECLINED (b_customerId b) (shown_artisan l u) (b_scheduledDate b) (b_id b)))))))"

section \<open>Cancelling and completing\<close>

definition cancelled_reason :: string where
  "cancelled_reason = ''Linked booking was cancelled by the customer''"

definition cancel_booking_tx :: "loaded_booking \<Rightarrow> job option \<Rightarrow> nat \<Rightarrow> unit act" where
  "cancel_booking_tx l j0 uid =
     andthen (save_with_customer (l\<lparr>lb_booking := (lb_booking l)\<lparr>b_status := Bk_CANCELLED\<rparr>\<rparr>))
     (case j0 of None \<Rightarrow> ret () | Some j \<Rightarrow>
        andthen (with_db (put_job (j\<lparr>j_status := CANCELLED\<rparr>)))
          (record_history (j_id j) (Some PENDING) CANCELLED (show_nat uid) (Some cancelled_reason)))"

definition cancel_booking :: "env \<Rightarrow> nat \<Rightarrow> nat \<Rightarrow> unit act" where
  "cancel_booking env uid bid =
     bnd (load_or_fail bid) (\<lambda>l.
     let b = lb_booking l in
     andthen (guard (b_customerId b = uid) (Forbidden_booking Access_denied))
     (andthen (guard (b_status b \<notin> {Bk_COMPLETED, Bk_CANCELLED, Bk_DECLINED, Bk_EXPIRED, Bk_NO_SHOW})
        (BadRequest_booking (Cannot_cancel_booking (b_status b))))
     (bnd (asks (\<lambda>w. job_of_booking (w_db w) bid)) (\<lambda>j0.
      andthen (guard (case j0 of None \<Rightarrow> True | Some j \<Rightarrow> j_status j = PENDING) (BadRequest_booking Job_already_started))
      (andthen (case j0 of None \<Rightarrow> ret () | Some j \<Rightarrow>
          only_if (truthy (j_paymentIntentId j)) (cancel_payment env (the (j_paymentIntentId j))))
      (andthen (transaction (cancel_booking_tx l j0 uid))
        (only_if (b_status b = Bk_CONFIRMED)
          (bnd (artisan_user_of l) (\<lambda>u. bnd (booking_customer l) (\<lambda>c.
           emit (BOOKING_CANCELLED (u_id u) (full_name c) (b_scheduledDate b) (b_id b))))))))))))"

definition completed_reason :: string where
  "completed_reason = ''Linked booking was marked completed by the customer''"

definition complete_booking_tx :: "booking \<Rightarrow> job option \<Rightarrow> nat \<Rightarrow> unit act" where
  "complete_booking_tx b j0 uid =
     andthen (with_db (put_booking (b\<lparr>b_status := Bk_COMPLETED\<rparr>)))
     (case j0 of None \<Rightarrow> ret () | Some j \<Rightarrow>
        only_if (j_status j \<noteq> COMPLETED \<and> j_status j \<noteq> CANCELLED)
          (andthen (with_db (put_job (j\<lparr>j_status := COMPLETED\<rparr>)))
            (record_history (j_id j) (Some (j_status j)) COMPLETED (show_nat uid) (Some completed_reason))))"

definition complete_booking :: "env \<Rightarrow> nat \<Rightarrow> nat \<Rightarrow> unit act" where
  "complete_booking env uid bid =
     bnd (load_or_fail bid) (\<lambda>l.
     let b = lb_booking l in
     andthen (guard (b_customerId b = uid) (Forbidden_booking Access_denied))
     (andthen (guard (b_status b = Bk_CONFIRMED) (BadRequest_booking Only_confirmed_complete))
     (bnd (asks (\<lambda>w. job_of_booking (w_db w) bid)) (\<lambda>j0.
      if truthy (Option.bind j0 j_paymentIntentId)
      then (let j = the j0 in
        andthen (guard (j_status j = IN_PROGRESS \<and> j_completionRequestedAt j \<noteq> None) (BadRequest_booking Artisan_must_finish))
          (bnd (confirm_completion env (j_id j) uid) (\<lambda>_. ret ())))
      else
        andthen (transaction (complete_booking_tx b j0 uid))
          (bnd (artisan_user_of l) (\<lambda>u. emit (BOOKING_COMPLETED (u_id u) (b_scheduledDate b) (b_id b))))))))"

definition end_not_reached :: "int \<Rightarrow> booking \<Rightarrow> bool" where
  "end_not_reached now b \<longleftrightarrow>
     (case to_utc_instant (b_scheduledDate b) (b_endTime b) of None \<Rightarrow> False | Some t \<Rightarrow> now < t)"

definition flag_no_show :: "nat \<Rightarrow> nat \<Rightarrow> unit act" where
  "flag_no_show uid bid =
     bnd (load_or_fail bid) (\<lambda>l.
     let b = lb_booking l;
         is_customer = (b_customerId b = uid);
         is_artisan = (map_option u_id (lb_artisanUser l) = Some uid)
     in
     andthen (guard (is_customer \<or> is_artisan) (Forbidden_booking Access_denied))
     (andthen (guard (b_status b = Bk_CONFIRMED) (BadRequest_booking (Only_confirmed_no_show (b_status b))))
     (bnd (asks clock) (\<lambda>now.
     andthen (guard (\<not> end_not_reached now b) (BadRequest_booking Not_ended_yet))
     (let b' = (if is_customer then b\<lparr>b_noShowByCustomerAt := Some now\<rparr> else b\<lparr>b_noShowByArtisanAt := Some now\<rparr>)
      in andthen (save_with_customer (l\<lparr>lb_booking := b'\<lparr>b_status := Bk_NO_SHOW\<rparr>\<rparr>))
         (bnd (booking_customer l) (\<lambda>c. bnd (artisan_user_of l) (\<lambda>u.
          emit (BOOKING_NO_SHOW (if is_customer then u_id u else b_customerId b)
            (if is_customer then full_name c else shown_artisan l u) (b_scheduledDate b) (b_id b))))))))))"

section \<open>Scheduled runs\<close>

definition BOOKING_EXPIRY_MS :: int where
  "BOOKING_EXPIRY_MS = 24 * 60 * 60 * 1000"

definition find_expiry_candidate_ids :: "world \<Rightarrow> nat list" where
  "find_expiry_candidate_ids w =
     map b_id (filter (\<lambda>b. b_status b = Bk_PENDING \<and> b_createdAt b < clock w - BOOKING_EXPIRY_MS) (t_bookings (w_db w)))"

definition expire_booking :: "nat \<Rightarrow> bool act" where
  "expire_booking bid =
     bnd (asks (\<lambda>w. \<exists>b \<in> set (t_bookings (w_db w)). b_id b = bid \<and> b_status b = Bk_PENDING)) (\<lambda>claimed.
     andthen (with_db (update_bookings (\<lambda>b. b_id b = bid \<and> b_status b = Bk_PENDING) (\<lambda>b. b\<lparr>b_status := Bk_EXPIRED\<rparr>)))
     (if \<not> claimed then ret False
      else bnd (asks (\<lambda>w. find_booking (w_db w) bid)) (\<lambda>b0. case b0 of None \<Rightarrow> ret True | Some b \<Rightarrow>
        andthen (emit (BOOKING_EXPIRED (b_customerId b) (b_scheduledDate b) (b_id b))) (ret True))))"

definition REMINDER_BAND_MS :: int where
  "REMINDER_BAND_MS = 30 * 60 * 1000"

fun reminder_lead_ms :: "milestone \<Rightarrow> int" where
  "reminder_lead_ms Reminder24H = 24 * 60 * 60 * 1000"
| "reminder_lead_ms Reminder2H = 2 * 60 * 60 * 1000"

fun reminder_sent :: "milestone \<Rightarrow> booking \<Rightarrow> int option" where
  "reminder_sent Reminder24H b = b_reminder24hSentAt b"
| "reminder_sent Reminder2H b = b_reminder2hSentAt b"

fun stamp_reminder :: "milestone \<Rightarrow> int \<Rightarrow> booking \<Rightarrow> booking" where
  "stamp_reminder Reminder24H now b = b\<lparr>b_reminder24hSentAt := Some now\<rparr>"
| "stamp_reminder Reminder2H now b = b\<lparr>b_reminder2hSentAt := Some now\<rparr>"

definition reminder_due :: "int \<Rightarrow> milestone \<Rightarrow> booking \<Rightarrow> bool" where
  "reminder_due now m b \<longleftrightarrow>
     b_status b = Bk_CONFIRMED \<and> reminder_sent m b = None
     \<and> (case to_utc_instant (b_scheduledDate b) (b_startTime b) of None \<Rightarrow> False
        | Some t \<Rightarrow> now + reminder_lead_ms m - REMINDER_BAND_MS \<le> t \<and> t < now + reminder_lead_ms m)"

definition find_reminder_candidates :: "milestone \<Rightarrow> world \<Rightarrow> loaded_booking list" where
  "find_reminder_candidates m w =
     map (with_booking_relations (w_db w)) (filter (reminder_due (clock w) m) (t_bookings (w_db w)))"

definition send_reminder :: "milestone \<Rightarrow> loaded_booking \<Rightarrow> unit act" where
  "send_reminder m l =
     (let b = lb_booking l
      in bnd (artisan_user_of l) (\<lambda>u.
         andthen (emit (BOOKING_REMINDER (b_customerId b) CUSTOMER (b_scheduledDate b) (b_startTime b) (b_id b) m))
         (andthen (emit (BOOKING_REMINDER (u_id u) ARTISAN (b_scheduledDate b) (b_startTime b) (b_id b) m))
         (bnd (asks clock) (\<lambda>now. save_with_customer (l\<lparr>lb_booking := stamp_reminder m now b\<rparr>))))))"

definition expire_pending_bookings :: "run_summary act" where
  "expire_pending_bookings =
     bnd (asks find_expiry_candidate_ids) (\<lambda>ids.
     bnd (run_each expire_booking ids 0 0) (\<lambda>(ok, bad).
     ret \<lparr>rs_candidates = length ids, rs_processed = ok, rs_failed = bad\<rparr>))"

definition run_milestone :: "milestone \<Rightarrow> run_summary act" where
  "run_milestone m =
     bnd (asks (find_reminder_candidates m)) (\<lambda>found.
     bnd (run_each (\<lambda>l. andthen (send_reminder m l) (ret True)) found 0 0) (\<lambda>(ok, bad).
     ret \<lparr>rs_candidates = length found, rs_processed = ok, rs_failed = bad\<rparr>))"

definition send_appointment_reminders :: "(run_summary \<times> run_summary) act" where
  "send_appointment_reminders =
     bnd (run_milestone Reminder24H) (\<lambda>a. bnd (run_milestone Reminder2H) (\<lambda>b. ret (a, b)))"

end
