(* ===== verification/BookingCalendar.thy ===== *)
theory BookingCalendar
  imports Bookings JobSafety
begin

text \<open>
  The calendar of an artisan. The abstract specification is a set of reservations with two kinds of
  step: a request reserves a free interval, everything else can only confirm or release what is
  reserved. Every handler of the bookings, jobs and availability services that writes refines it. From
  it follow that no artisan is ever double-booked, and the limit on a customer's open requests.
\<close>

section \<open>The abstract calendar\<close>

record reservation =
  rv_booking :: nat
  rv_customer :: nat
  rv_artisan :: nat
  rv_date :: string
  rv_start :: string
  rv_end :: string
  rv_pending :: bool

type_synonym calendar = "reservation set"

definition clashes :: "reservation \<Rightarrow> reservation \<Rightarrow> bool" where
  "clashes r r' \<longleftrightarrow> rv_artisan r = rv_artisan r' \<and> rv_date r = rv_date r' \<and> rv_start r < rv_end r' \<and> rv_start r' < rv_end r"

definition open_requests :: "nat \<Rightarrow> nat \<Rightarrow> calendar \<Rightarrow> calendar" where
  "open_requests cust art C = {r \<in> C. rv_pending r \<and> rv_customer r = cust \<and> rv_artisan r = art}"

definition may_reserve :: "calendar \<Rightarrow> reservation \<Rightarrow> bool" where
  "may_reserve C r \<longleftrightarrow> rv_pending r \<and> (\<forall>r' \<in> C. rv_booking r' \<noteq> rv_booking r \<and> \<not> clashes r' r)
     \<and> card (open_requests (rv_customer r) (rv_artisan r) C) < MAX_PENDING_BOOKINGS_PER_ARTISAN"

definition accepted_reservation :: "reservation \<Rightarrow> reservation" where
  "accepted_reservation r = r\<lparr>rv_pending := False\<rparr>"

definition kept_of :: "calendar \<Rightarrow> calendar" where
  "kept_of C = C \<union> accepted_reservation ` C"

inductive cal_step :: "calendar \<Rightarrow> calendar \<Rightarrow> bool" where
  reserve: "may_reserve C r \<Longrightarrow> cal_step C (insert r C)"
| settle: "C' \<subseteq> kept_of C \<Longrightarrow> cal_step C C'"

inductive_cases cal_stepE: "cal_step C C'"

definition sound_calendar :: "calendar \<Rightarrow> bool" where
  "sound_calendar C \<longleftrightarrow> finite C
     \<and> (\<forall>r \<in> C. \<forall>r' \<in> C. rv_booking r \<noteq> rv_booking r' \<longrightarrow> \<not> clashes r r')
     \<and> (\<forall>cust art. card (open_requests cust art C) \<le> MAX_PENDING_BOOKINGS_PER_ARTISAN)"

lemma clashes_sym: "clashes r r' = clashes r' r"
  by (auto simp: clashes_def)

lemma accepted_simps [simp]:
  "rv_booking (accepted_reservation r) = rv_booking r" "\<not> rv_pending (accepted_reservation r)"
  "clashes (accepted_reservation r) = clashes r" "clashes r' (accepted_reservation r) = clashes r' r"
  "accepted_reservation (accepted_reservation r) = accepted_reservation r"
  by (simp_all add: accepted_reservation_def clashes_def fun_eq_iff)

lemma kept_ofI [intro]: "r \<in> C \<Longrightarrow> r \<in> kept_of C" "r \<in> C \<Longrightarrow> accepted_reservation r \<in> kept_of C"
  by (auto simp: kept_of_def)

lemma kept_ofE: "r \<in> kept_of C \<Longrightarrow> \<exists>r0 \<in> C. r = r0 \<or> r = accepted_reservation r0"
  by (auto simp: kept_of_def)

lemma kept_of_closed: "r \<in> kept_of C \<Longrightarrow> accepted_reservation r \<in> kept_of C"
  by (auto simp: kept_of_def)

lemma open_requests_insert:
  "open_requests cust art (insert r C) =
     (if rv_pending r \<and> rv_customer r = cust \<and> rv_artisan r = art then insert r (open_requests cust art C)
      else open_requests cust art C)"
  by (auto simp: open_requests_def)

lemma open_requests_kept_of: "open_requests cust art (kept_of C) = open_requests cust art C"
  by (auto simp: open_requests_def kept_of_def)

lemma sound_reserve:
  assumes "sound_calendar C" and "may_reserve C r"
  shows "sound_calendar (insert r C)"
proof -
  have fin: "finite (open_requests cust art C)" for cust art
    using assms(1) by (simp add: sound_calendar_def open_requests_def)
  have "card (open_requests cust art (insert r C)) \<le> MAX_PENDING_BOOKINGS_PER_ARTISAN" for cust art
    using assms fin [of cust art] by (auto simp: open_requests_insert may_reserve_def sound_calendar_def card_insert_if)
  moreover have "\<not> clashes x y" if "x \<in> insert r C" "y \<in> insert r C" "rv_booking x \<noteq> rv_booking y" for x y
    using that assms clashes_sym [of r] by (auto simp: sound_calendar_def may_reserve_def)
  ultimately show ?thesis using assms(1) by (auto simp: sound_calendar_def)
qed

lemma sound_settle:
  assumes "sound_calendar C" and "C' \<subseteq> kept_of C"
  shows "sound_calendar C'"
proof -
  have fin: "finite (kept_of C)" using assms(1) by (simp add: sound_calendar_def kept_of_def)
  have "card (open_requests cust art C') \<le> MAX_PENDING_BOOKINGS_PER_ARTISAN" for cust art
  proof -
    have "open_requests cust art C' \<subseteq> open_requests cust art C"
      using assms(2) open_requests_kept_of [of cust art C] by (auto simp: open_requests_def)
    then have "card (open_requests cust art C') \<le> card (open_requests cust art C)"
      using assms(1) by (intro card_mono) (auto simp: sound_calendar_def open_requests_def)
    moreover have "card (open_requests cust art C) \<le> MAX_PENDING_BOOKINGS_PER_ARTISAN"
      using assms(1) by (simp add: sound_calendar_def)
    ultimately show ?thesis by (rule order_trans)
  qed
  moreover have "\<not> clashes x y" if xy: "x \<in> C'" "y \<in> C'" "rv_booking x \<noteq> rv_booking y" for x y
  proof -
    obtain x0 y0 where "x0 \<in> C" "x = x0 \<or> x = accepted_reservation x0" "y0 \<in> C" "y = y0 \<or> y = accepted_reservation y0"
      using xy(1,2) assms(2) by (metis kept_ofE subsetD)
    with xy(3) assms(1) show ?thesis by (auto simp: sound_calendar_def)
  qed
  ultimately show ?thesis using finite_subset [OF assms(2) fin] by (auto simp: sound_calendar_def)
qed

lemma cal_step_sound: "cal_step C C' \<Longrightarrow> sound_calendar C \<Longrightarrow> sound_calendar C'"
  by (erule cal_stepE) (simp_all add: sound_reserve sound_settle)

lemma cal_steps_sound: "cal_step\<^sup>*\<^sup>* C C' \<Longrightarrow> sound_calendar C \<Longrightarrow> sound_calendar C'"
  by (induction rule: rtranclp_induct) (simp_all add: cal_step_sound)

section \<open>The calendar of a database\<close>

definition reservation_of :: "booking \<Rightarrow> reservation" where
  "reservation_of b = \<lparr>rv_booking = b_id b, rv_customer = b_customerId b, rv_artisan = b_artisanProfileId b,
     rv_date = b_scheduledDate b, rv_start = b_startTime b, rv_end = b_endTime b, rv_pending = (b_status b = Bk_PENDING)\<rparr>"

definition calendar_of :: "db \<Rightarrow> calendar" where
  "calendar_of d = reservation_of ` {b \<in> set (t_bookings d). occupying (b_status b)}"

text \<open>What every handler but a request keeps: the calendar stays in the kept_of part of what it was.\<close>

definition holds_only :: "calendar \<Rightarrow> world \<Rightarrow> bool" where
  "holds_only C w \<longleftrightarrow> wf_bookings (w_db w) \<and> calendar_of (w_db w) \<subseteq> kept_of C"

interpretation cal: db_invariant "holds_only C" for C
  by unfold_locales (simp add: holds_only_def)

lemma calendar_put: "calendar_of (put_booking b d) \<subseteq> (if occupying (b_status b) then insert (reservation_of b) (calendar_of d) else calendar_of d)"
  by (auto simp: calendar_of_def put_booking_def save_row_def split: if_splits)

lemma holds_put:
  assumes "holds_only C w" and "occupying (b_status b) \<Longrightarrow> reservation_of b \<in> kept_of C"
  shows "holds_only C (w\<lparr>w_db := put_booking b (w_db w)\<rparr>)"
  using assms calendar_put [of b "w_db w"] by (auto simp: holds_only_def bookings.wf_save split: if_splits)

lemma holds_updated:
  assumes "holds_only C w"
    and "\<And>b. q b \<Longrightarrow> b_id (f b) = b_id b \<and> \<not> occupying (b_status (f b))"
  shows "holds_only C (w\<lparr>w_db := update_bookings q f (w_db w)\<rparr>)"
proof -
  have "map b_id (update_where q f bs) = map b_id bs" for bs
    using assms(2) by (auto simp: update_where_def)
  moreover have "calendar_of (update_bookings q f (w_db w)) \<subseteq> calendar_of (w_db w)"
    using assms(2) by (fastforce simp: calendar_of_def update_bookings_def in_update_where)
  ultimately show ?thesis using assms(1) by (auto simp: holds_only_def wf_bookings_def update_bookings_def)
qed

lemma keeps_with_db_other: "(\<And>d. t_bookings (f d) = t_bookings d) \<Longrightarrow> keeps (holds_only C) (with_db f)"
  by (rule cal.keeps_with_db) (simp add: holds_only_def calendar_of_def wf_bookings_def)

lemma other_tables [simp]:
  "t_bookings (put_job j d) = t_bookings d" "t_bookings (put_application a d) = t_bookings d"
  "t_bookings (put_payment p d) = t_bookings d" "t_bookings (put_slot s d) = t_bookings d"
  "t_bookings (put_profile pr d) = t_bookings d" "t_bookings (add_history h d) = t_bookings d"
  "t_bookings (update_applications q f d) = t_bookings d" "t_bookings (update_profiles q2 g d) = t_bookings d"
  by (simp_all add: put_defs put_slot_def add_history_def update_applications_def update_profiles_def)

lemmas cal_rules = cal.keeps_rules keeps_with_db_other

text \<open>What leaves the job tables alone leaves the bookings alone.\<close>

lemma keeps_of_tables:
  assumes "\<And>x. keeps (\<lambda>w. job_tables (w_db w) = x) m"
  shows "keeps (holds_only C) m"
  unfolding keeps_def
proof (intro allI impI)
  fix w assume "holds_only C w"
  moreover have "job_tables (w_db (snd (m w))) = job_tables (w_db w)"
    using assms unfolding keeps_def by blast
  ultimately show "holds_only C (snd (m w))"
    by (simp add: holds_only_def calendar_of_def wf_bookings_def job_tables_def)
qed

lemmas keeps_of_reads = keeps_reads [THEN keeps_of_tables] keeps_hold [THEN keeps_of_tables]
  keeps_cancel_payment [THEN keeps_of_tables]


section \<open>The jobs and availability services\<close>

lemma keeps_sync: "to \<in> {Bk_COMPLETED, Bk_CANCELLED} \<Longrightarrow> keeps (holds_only C) (sync_linked_booking jid to)"
  unfolding sync_linked_booking_def by (rule cal.keeps_with_db, rule holds_updated) (auto simp: occupying_def)

lemma keeps_parts:
  "keeps (holds_only C) (record_history jid from to by reason)"
  "keeps (holds_only C) (save_loaded l)"
  "keeps (holds_only C) (customer_of l)"
  "keeps (holds_only C) (add_attachment jid url)"
  "keeps (holds_only C) (complete_row j by reason)"
  unfolding record_history_def save_loaded_def customer_of_def add_attachment_def complete_row_def
  by (intro cal_rules keeps_sync; simp add: record_history_def)+

lemma keeps_transition: "keeps (holds_only C) (transition_and_save l to by reason)"
  unfolding transition_and_save_def by (intro cal_rules keeps_parts)

lemma keeps_guards:
  "keeps (holds_only C) (assert_owner j uid)" "keeps (holds_only C) (assert_mutable j)"
  "keeps (holds_only C) (assert_budget mn mx)" "keeps (holds_only C) (assert_cancellable j)"
  "keeps (holds_only C) (assert_accepted_artisan j uid)"
  unfolding assert_owner_def assert_mutable_def assert_budget_def assert_cancellable_def assert_accepted_artisan_def
  by (intro cal_rules)+

lemmas job_rules = cal_rules keeps_parts keeps_transition keeps_guards keeps_of_reads keeps_sync

lemma keeps_insert_job: "keeps (holds_only C) (insert_job mk)"
  unfolding insert_job_def by (intro job_rules; simp)

lemma keeps_run_each: "(\<And>k. keeps (holds_only C) (f k)) \<Longrightarrow> keeps (holds_only C) (run_each f ks ok bad)"
  by (induction ks arbitrary: ok bad) (simp_all, intro job_rules, intro job_rules | simp)+

lemma keeps_job_handlers:
  "keeps (holds_only C) (create_job i v)" "keeps (holds_only C) (update_job jid u uid)"
  "keeps (holds_only C) (remove_job jid uid)" "keeps (holds_only C) (apply_to_job jid uid quote msg)"
  "keeps (holds_only C) (accept_application env jid aid uid)" "keeps (holds_only C) (start_job jid uid)"
  "keeps (holds_only C) (request_completion jid uid)" "keeps (holds_only C) (confirm_completion env jid uid)"
  "keeps (holds_only C) (cancel_job env jid uid)" 
  unfolding create_job_def create_tx_def update_job_def remove_job_def apply_to_job_def accept_application_def
    accept_load_def accept_commit_def start_job_def request_completion_def confirm_completion_def confirm_tx_def
    cancel_job_def cancel_tx_def Let_def
  by (intro job_rules keeps_insert_job; simp add: Let_def)+


lemma keeps_job_runs:
  "keeps (holds_only C) (expire_job jid)" "keeps (holds_only C) (auto_complete_job env jid)"
  unfolding expire_job_def auto_complete_job_def auto_complete_tx_def
  by (intro job_rules; simp)+

lemma keeps_job_schedules:
  "keeps (holds_only C) expire_stale_jobs" "keeps (holds_only C) (auto_complete_overdue_jobs env)"
  unfolding expire_stale_jobs_def auto_complete_overdue_jobs_def
  by (intro job_rules keeps_run_each keeps_job_runs)+

lemma holds_delete_slot: "holds_only C w \<Longrightarrow> holds_only C (w\<lparr>w_db := delete_slot sid (w_db w)\<rparr>)"
proof -
  have "calendar_of (delete_slot sid (w_db w)) \<subseteq> calendar_of (w_db w)"
    by (auto simp: calendar_of_def delete_slot_def in_update_where reservation_of_def intro!: image_eqI)
  moreover have "wf_bookings (w_db w) \<Longrightarrow> wf_bookings (delete_slot sid (w_db w))"
    by (simp add: wf_bookings_def delete_slot_def update_where_keys [of b_id])
  ultimately show "holds_only C w \<Longrightarrow> holds_only C (w\<lparr>w_db := delete_slot sid (w_db w)\<rparr>)"
    by (auto simp: holds_only_def)
qed

lemma keeps_avail_parts:
  "keeps (holds_only C) (load_profile_or_fail uid)" "keeps (holds_only C) (load_slot_or_fail sid pid)"
  "keeps (holds_only C) (assert_valid_times st en)" "keeps (holds_only C) (assert_no_overlap pid day st en ex)"
  "keeps (holds_only C) (assert_valid_block_range st en)"
  unfolding load_profile_or_fail_def load_slot_or_fail_def assert_valid_times_def assert_no_overlap_def assert_valid_block_range_def
  by (intro cal_rules)+

lemma keeps_availability:
  "keeps (holds_only C) (set_status uid st)" "keeps (holds_only C) (add_slot uid day s e)"
  "keeps (holds_only C) (update_slot uid sid u)" "keeps (holds_only C) (remove_slot uid sid)"
  "keeps (holds_only C) (add_block uid sd ed reason)" "keeps (holds_only C) (remove_block uid bid)"
  unfolding set_status_def add_slot_def update_slot_def add_block_def remove_block_def remove_slot_def Let_def
  by (intro cal_rules keeps_avail_parts cal.keeps_with_db [OF holds_delete_slot]; simp)+

section \<open>The bookings service\<close>

lemma keeps_save_booking:
  "(occupying (b_status (lb_booking l)) \<Longrightarrow> reservation_of (lb_booking l) \<in> kept_of C) \<Longrightarrow> keeps (holds_only C) (save_with_customer l)"
  unfolding save_with_customer_def by (intro cal_rules cal.keeps_with_db holds_put)

lemma keeps_loaded:
  assumes "\<And>l. (occupying (b_status (lb_booking l)) \<Longrightarrow> reservation_of (lb_booking l) \<in> kept_of C) \<Longrightarrow> keeps (holds_only C) (g l)"
  shows "keeps (holds_only C) (bnd (load_or_fail bid) g)"
proof -
  have "reservation_of b \<in> kept_of C" if "holds_only C w" "find_booking (w_db w) bid = Some b" "occupying (b_status b)" for w b
    using that by (auto simp: holds_only_def calendar_of_def find_booking_def dest!: find_row_SomeD)
  then show ?thesis
    unfolding load_or_fail_def run_assoc_bnd_bnd
    by (intro cal.keeps_read [where P = "\<lambda>b0. \<forall>b. b0 = Some b \<longrightarrow> occupying (b_status b) \<longrightarrow> reservation_of b \<in> kept_of C"]
        cal.keeps_some_or_bnd cal.keeps_read [where P = "\<lambda>l. occupying (b_status (lb_booking l)) \<longrightarrow> reservation_of (lb_booking l) \<in> kept_of C"] assms)
      (auto simp: with_booking_relations_def Let_def)
qed

lemma keeps_booking_parts:
  "keeps (holds_only C) (artisan_user_of l)" "keeps (holds_only C) (booking_customer l)"
  "keeps (holds_only C) (assert_artisan_owner l uid)" "keeps (holds_only C) (load_or_fail bid)"
  unfolding artisan_user_of_def booking_customer_def assert_artisan_owner_def load_or_fail_def
  by (intro cal_rules)+

lemma reservation_confirmed [simp]:
  "b_status (confirmed_booking b price i) = Bk_CONFIRMED"
  "reservation_of (confirmed_booking b price i) = accepted_reservation (reservation_of b)"
  by (simp_all add: confirmed_booking_def reservation_of_def accepted_reservation_def)

lemma occupying_simps [simp]: "occupying Bk_PENDING" "occupying Bk_CONFIRMED" "\<not> occupying Bk_DECLINED"
  "\<not> occupying Bk_CANCELLED" "\<not> occupying Bk_COMPLETED" "\<not> occupying Bk_EXPIRED" "\<not> occupying Bk_NO_SHOW"
  by (simp_all add: occupying_def)

lemmas booking_rules = job_rules keeps_booking_parts keeps_save_booking keeps_insert_job

lemma keeps_open_job: "keeps (holds_only C) (open_job_for_booking env b s p u price uid)"
  unfolding open_job_for_booking_def by (intro booking_rules; simp)

lemma keeps_confirm_booking: "keeps (holds_only C) (confirm_booking env uid bid i)"
  unfolding confirm_booking_def confirm_booking_tx_def Let_def
  by (intro keeps_loaded cal.keeps_guard_andthen booking_rules keeps_open_job; simp add: kept_of_closed)

lemma keeps_decline_booking: "keeps (holds_only C) (decline_booking uid bid notes)"
  unfolding decline_booking_def Let_def by (intro keeps_loaded booking_rules; simp)

lemma keeps_cancel_booking: "keeps (holds_only C) (cancel_booking env uid bid)"
  unfolding cancel_booking_def cancel_booking_tx_def Let_def by (intro keeps_loaded booking_rules; simp)

lemma keeps_complete_booking: "keeps (holds_only C) (complete_booking env uid bid)"
  unfolding complete_booking_def complete_booking_tx_def Let_def
  by (intro keeps_loaded booking_rules keeps_job_handlers cal.keeps_with_db holds_put; simp)

lemma keeps_flag_no_show: "keeps (holds_only C) (flag_no_show uid bid)"
  unfolding flag_no_show_def Let_def by (intro keeps_loaded booking_rules; simp)

lemma keeps_expire_booking: "keeps (holds_only C) (expire_booking bid)"
  unfolding expire_booking_def by (intro booking_rules cal.keeps_with_db holds_updated; simp)

lemma keeps_expire_pending: "keeps (holds_only C) expire_pending_bookings"
  unfolding expire_pending_bookings_def by (intro booking_rules keeps_run_each keeps_expire_booking)

lemma stamp_reminder_simps [simp]:
  "b_status (stamp_reminder m now b) = b_status b" "reservation_of (stamp_reminder m now b) = reservation_of b"
  "b_id (stamp_reminder m now b) = b_id b"
  by (cases m; simp add: reservation_of_def)+

lemma keeps_send_reminder:
  "reservation_of (lb_booking l) \<in> kept_of C \<Longrightarrow> keeps (holds_only C) (send_reminder m l)"
  unfolding send_reminder_def Let_def by (intro booking_rules; simp)

lemma keeps_run_each_in:
  "(\<And>k. k \<in> set ks \<Longrightarrow> keeps (holds_only C) (f k)) \<Longrightarrow> keeps (holds_only C) (run_each f ks ok bad)"
  by (induction ks arbitrary: ok bad) (simp_all, intro job_rules, intro job_rules | simp)+

lemma keeps_milestone: "keeps (holds_only C) (run_milestone m)"
proof -
  have "reservation_of (lb_booking l) \<in> kept_of C" if "holds_only C w" "l \<in> set (find_reminder_candidates m w)" for w l
    using that by (auto simp: holds_only_def calendar_of_def find_reminder_candidates_def reminder_due_def with_booking_relations_def Let_def)
  then show ?thesis
    unfolding run_milestone_def
    by (intro cal.keeps_read [where P = "\<lambda>ls. \<forall>l \<in> set ls. reservation_of (lb_booking l) \<in> kept_of C"] booking_rules keeps_run_each_in
        keeps_send_reminder) auto
qed

lemma keeps_reminders: "keeps (holds_only C) send_appointment_reminders"
  unfolding send_appointment_reminders_def by (intro booking_rules keeps_milestone)


section \<open>Requesting\<close>

definition refines_calendar :: "'a act \<Rightarrow> bool" where
  "refines_calendar m \<longleftrightarrow> (\<forall>w. wf_bookings (w_db w) \<longrightarrow>
     wf_bookings (w_db (snd (m w))) \<and> cal_step (calendar_of (w_db w)) (calendar_of (w_db (snd (m w)))))"

lemma refines_keeps:
  assumes "\<And>C. keeps (holds_only C) m"
  shows "refines_calendar m"
  unfolding refines_calendar_def
proof (intro allI impI)
  fix w :: world
  assume "wf_bookings (w_db w)"
  then have "holds_only (calendar_of (w_db w)) w" by (auto simp: holds_only_def)
  with assms have "holds_only (calendar_of (w_db w)) (snd (m w))" unfolding keeps_def by blast
  then show "wf_bookings (w_db (snd (m w))) \<and> cal_step (calendar_of (w_db w)) (calendar_of (w_db (snd (m w))))"
    by (simp add: holds_only_def settle)
qed

lemma refines_ret: "refines_calendar (ret x)" and refines_throw: "refines_calendar (throw e)"
  by (auto intro!: refines_keeps cal_rules)

lemma refines_asks: "(\<And>x. refines_calendar (g x)) \<Longrightarrow> refines_calendar (bnd (asks f) g)"
  by (simp add: refines_calendar_def run_simps)

lemma refines_some_or: "(\<And>x. refines_calendar (g x)) \<Longrightarrow> refines_calendar (bnd (some_or e y) g)"
  by (cases y) (auto simp: some_or_def refines_throw)

lemma refines_guard: "refines_calendar m \<Longrightarrow> refines_calendar (andthen (guard b e) m)"
  by (auto simp: guard_def refines_throw)

lemma refines_Let: "refines_calendar (f x) \<Longrightarrow> refines_calendar (Let x f)"
  by simp

lemma refines_then_keeps:
  assumes "refines_calendar m" and "\<And>y x. keeps (\<lambda>w. job_tables (w_db w) = x) (g y)"
  shows "refines_calendar (bnd m g)"
  unfolding refines_calendar_def
proof (intro allI impI)
  fix w :: world
  assume "wf_bookings (w_db w)"
  moreover have "t_bookings (w_db (snd (bnd m g w))) = t_bookings (w_db (snd (m w)))"
    using rest_keeps [of m g w, OF prod.collapse [symmetric] assms(2)] by (simp add: job_tables_def)
  ultimately show "wf_bookings (w_db (snd (bnd m g w))) \<and> cal_step (calendar_of (w_db w)) (calendar_of (w_db (snd (bnd m g w))))"
    using assms(1) by (simp add: refines_calendar_def wf_bookings_def calendar_of_def)
qed

lemma booking_row [simp]:
  "b_id (new_booking k i uid en now) = k" "b_status (new_booking k i uid en now) = Bk_PENDING"
  "b_artisanProfileId (new_booking k i uid en now) = bi_artisanProfileId i"
  "b_customerId (new_booking k i uid en now) = uid" "b_scheduledDate (new_booking k i uid en now) = bi_scheduledDate i"
  "b_startTime (new_booking k i uid en now) = to_clock_time (bi_startTime i)"
  "b_endTime (new_booking k i uid en now) = to_clock_time en"
  by (simp_all add: new_booking_def Let_def)

lemma t_bookings_put_new: "b_id b \<notin> b_id ` set (t_bookings d) \<Longrightarrow> t_bookings (put_booking b d) = t_bookings d @ [b]"
proof -
  assume "b_id b \<notin> b_id ` set (t_bookings d)"
  then have "\<not> (\<exists>x \<in> set (t_bookings d). b_id x = b_id b)" by (metis imageI)
  then show ?thesis by (simp add: put_booking_def save_row_def)
qed

text \<open>The customer's open requests are counted by rows in the code, by reservations in the calendar.\<close>

lemma pending_reservations:
  "open_requests uid pid (calendar_of d) = reservation_of ` set (filter (pending_with uid pid) (t_bookings d))"
  by (auto simp: open_requests_def calendar_of_def pending_with_def reservation_of_def)

lemma may_reserve_new:
  assumes "\<forall>b \<in> set (t_bookings d). \<not> overlapping (bi_artisanProfileId i) (bi_scheduledDate i) (bi_startTime i) en b"
    and "length (filter (pending_with uid (bi_artisanProfileId i)) (t_bookings d)) < MAX_PENDING_BOOKINGS_PER_ARTISAN"
    and "k \<notin> b_id ` set (t_bookings d)"
  shows "may_reserve (calendar_of d) (reservation_of (new_booking k i uid en now))"
proof -
  let ?r = "reservation_of (new_booking k i uid en now)"
  have "card (open_requests uid (bi_artisanProfileId i) (calendar_of d)) < MAX_PENDING_BOOKINGS_PER_ARTISAN"
    unfolding pending_reservations
    by (intro le_less_trans [OF _ assms(2)] le_trans [OF card_image_le] card_length) simp
  moreover have "rv_customer ?r = uid" "rv_artisan ?r = bi_artisanProfileId i" "rv_pending ?r"
    by (simp_all add: reservation_of_def)
  moreover have "rv_booking r \<noteq> rv_booking ?r \<and> \<not> clashes r ?r" if "r \<in> calendar_of d" for r
    using that assms(1,3) by (fastforce simp: calendar_of_def reservation_of_def overlapping_def clashes_def)
  ultimately show ?thesis by (simp add: may_reserve_def)
qed

lemma refines_create_tx: "refines_calendar (transaction (create_booking_tx i uid en))"
  unfolding refines_calendar_def
proof (intro allI impI)
  fix w :: world
  let ?d = "w_db w"
  assume wf: "wf_bookings ?d"
  let ?k = "next_id w T_bookings" and ?w' = "snd (transaction (create_booking_tx i uid en) w)"
  have "t_bookings (w_db ?w') = t_bookings ?d
      \<or> ?k \<notin> b_id ` set (t_bookings ?d) \<and> may_reserve (calendar_of ?d) (reservation_of (new_booking ?k i uid en (clock w)))
        \<and> t_bookings (w_db ?w') = t_bookings ?d @ [new_booking ?k i uid en (clock w)]"
    by (auto simp: create_booking_tx_def transaction_def run_simps find_profile_def Let_def t_bookings_put_new may_reserve_new
        dest!: find_row_SomeD split: option.splits if_splits)
  then show "wf_bookings (w_db ?w') \<and> cal_step (calendar_of ?d) (calendar_of (w_db ?w'))"
  proof (elim disjE conjE)
    assume "t_bookings (w_db ?w') = t_bookings ?d"
    then show ?thesis using wf by (auto simp: wf_bookings_def calendar_of_def intro: settle)
  next
    assume new: "?k \<notin> b_id ` set (t_bookings ?d)" "may_reserve (calendar_of ?d) (reservation_of (new_booking ?k i uid en (clock w)))"
      "t_bookings (w_db ?w') = t_bookings ?d @ [new_booking ?k i uid en (clock w)]"
    then have "calendar_of (w_db ?w') = insert (reservation_of (new_booking ?k i uid en (clock w))) (calendar_of ?d)"
      by (auto simp: calendar_of_def)
    then show ?thesis using wf new by (auto simp: wf_bookings_def intro: reserve)
  qed
qed

lemma refines_create_booking: "refines_calendar (create_booking uid i)"
  unfolding create_booking_def assert_bookable_def run_assoc_andthen
  by (intro refines_asks refines_some_or refines_guard refines_Let refines_then_keeps [OF refines_create_tx])
    (unfold load_or_fail_def booking_customer_def, intro jt_rules)

end
