(* ===== verification/BookingRules.thy ===== *)
theory BookingRules
  imports BookingCalendar JobRules
begin

text \<open>
  What the bookings service guarantees: the calendar refinement over every writing operation, what an
  accepted request and a confirmation establish, how a booking and its job move together, and where a
  reminder sent late breaks them.
\<close>

section \<open>Operations\<close>

datatype operation =
    Request_booking nat booking_input
  | Confirm_booking nat nat respond_input
  | Decline_booking nat nat "string sent"
  | Cancel_booking nat nat
  | Complete_booking nat nat
  | Flag_no_show nat nat
  | Expire_pending
  | Send_reminders
  | Post_job job_input viewer
  | Edit_job nat job_update nat
  | Remove_job nat nat
  | Apply_to_job nat nat "money option" "string option"
  | Accept_application nat nat nat
  | Start_job nat nat
  | Request_completion nat nat
  | Confirm_completion nat nat
  | Cancel_job nat nat
  | Expire_jobs
  | Auto_complete_jobs
  | Set_status nat availability
  | Add_slot nat int string string
  | Update_slot nat nat slot_update
  | Remove_slot nat nat
  | Add_block nat string string "string option"
  | Remove_block nat nat
  | Clock_reads int

definition effect :: "'a act \<Rightarrow> world \<Rightarrow> world" where
  "effect m w = snd (m w)"

fun perform :: "env \<Rightarrow> operation \<Rightarrow> world \<Rightarrow> world" where
  "perform env (Request_booking uid i) = effect (create_booking uid i)"
| "perform env (Confirm_booking uid bid i) = effect (confirm_booking env uid bid i)"
| "perform env (Decline_booking uid bid n) = effect (decline_booking uid bid n)"
| "perform env (Cancel_booking uid bid) = effect (cancel_booking env uid bid)"
| "perform env (Complete_booking uid bid) = effect (complete_booking env uid bid)"
| "perform env (Flag_no_show uid bid) = effect (flag_no_show uid bid)"
| "perform env Expire_pending = effect expire_pending_bookings"
| "perform env Send_reminders = effect send_appointment_reminders"
| "perform env (Post_job i v) = effect (create_job i v)"
| "perform env (Edit_job jid u uid) = effect (update_job jid u uid)"
| "perform env (Remove_job jid uid) = effect (remove_job jid uid)"
| "perform env (Apply_to_job jid uid q m) = effect (apply_to_job jid uid q m)"
| "perform env (Accept_application jid aid uid) = effect (accept_application env jid aid uid)"
| "perform env (Start_job jid uid) = effect (start_job jid uid)"
| "perform env (Request_completion jid uid) = effect (request_completion jid uid)"
| "perform env (Confirm_completion jid uid) = effect (confirm_completion env jid uid)"
| "perform env (Cancel_job jid uid) = effect (cancel_job env jid uid)"
| "perform env Expire_jobs = effect expire_stale_jobs"
| "perform env Auto_complete_jobs = effect (auto_complete_overdue_jobs env)"
| "perform env (Set_status uid st) = effect (set_status uid st)"
| "perform env (Add_slot uid day s e) = effect (add_slot uid day s e)"
| "perform env (Update_slot uid sid u) = effect (update_slot uid sid u)"
| "perform env (Remove_slot uid sid) = effect (remove_slot uid sid)"
| "perform env (Add_block uid s e r) = effect (add_block uid s e r)"
| "perform env (Remove_block uid bid) = effect (remove_block uid bid)"
| "perform env (Clock_reads now) = (\<lambda>w. w\<lparr>clock := now\<rparr>)"

definition perform_all :: "env \<Rightarrow> operation list \<Rightarrow> world \<Rightarrow> world" where
  "perform_all env ops w = fold (perform env) ops w"

lemmas refining_handlers = refines_create_booking keeps_confirm_booking [THEN refines_keeps] keeps_decline_booking [THEN refines_keeps]
  keeps_cancel_booking [THEN refines_keeps] keeps_complete_booking [THEN refines_keeps] keeps_flag_no_show [THEN refines_keeps]
  keeps_expire_pending [THEN refines_keeps] keeps_reminders [THEN refines_keeps] keeps_job_handlers [THEN refines_keeps]
  keeps_job_schedules [THEN refines_keeps] keeps_availability [THEN refines_keeps]

lemma effect_refines:
  "refines_calendar m \<Longrightarrow> wf_bookings (w_db w) \<Longrightarrow>
   wf_bookings (w_db (effect m w)) \<and> cal_step (calendar_of (w_db w)) (calendar_of (w_db (effect m w)))"
  by (simp add: refines_calendar_def effect_def)

lemma kept_of_refl [simp]: "C \<subseteq> kept_of C"
  by (auto simp: kept_of_def)

lemma perform_refines:
  "wf_bookings (w_db w) \<Longrightarrow>
   wf_bookings (w_db (perform env op w)) \<and> cal_step (calendar_of (w_db w)) (calendar_of (w_db (perform env op w)))"
  by (cases op) (simp_all add: effect_refines refining_handlers settle)

lemma perform_all_refines:
  "wf_bookings (w_db w) \<Longrightarrow>
   wf_bookings (w_db (perform_all env ops w)) \<and> cal_step\<^sup>*\<^sup>* (calendar_of (w_db w)) (calendar_of (w_db (perform_all env ops w)))"
proof (induction ops arbitrary: w)
  case (Cons op ops)
  with perform_refines [of w env op] show ?case
    by (auto simp: perform_all_def intro: converse_rtranclp_into_rtranclp)
qed (simp add: perform_all_def)

lemma calendar_rows_sound:
  assumes "wf_bookings d" and "sound_calendar (calendar_of d)"
  shows "\<lbrakk>b \<in> set (t_bookings d); b' \<in> set (t_bookings d); b \<noteq> b'; occupying (b_status b); occupying (b_status b');
      b_artisanProfileId b = b_artisanProfileId b'; b_scheduledDate b = b_scheduledDate b'\<rbrakk> \<Longrightarrow>
      b_endTime b \<le> b_startTime b' \<or> b_endTime b' \<le> b_startTime b"
    and "length (filter (pending_with cust art) (t_bookings d)) \<le> MAX_PENDING_BOOKINGS_PER_ARTISAN"
proof -
  have ids: "inj_on b_id (set (t_bookings d))" and dist: "distinct (t_bookings d)"
    using assms(1) by (auto simp: wf_bookings_def distinct_map)
  have "\<not> clashes (reservation_of b) (reservation_of b')"
    if "b \<in> set (t_bookings d)" "b' \<in> set (t_bookings d)" "b \<noteq> b'" "occupying (b_status b)" "occupying (b_status b')" for b b'
    using that ids assms(2) by (auto simp: sound_calendar_def calendar_of_def reservation_of_def inj_on_def)
  then show "\<lbrakk>b \<in> set (t_bookings d); b' \<in> set (t_bookings d); b \<noteq> b'; occupying (b_status b); occupying (b_status b');
      b_artisanProfileId b = b_artisanProfileId b'; b_scheduledDate b = b_scheduledDate b'\<rbrakk> \<Longrightarrow>
      b_endTime b \<le> b_startTime b' \<or> b_endTime b' \<le> b_startTime b"
    by (fastforce simp: clashes_def reservation_of_def not_less)
  have "inj_on reservation_of (set (filter (pending_with cust art) (t_bookings d)))"
    using ids by (auto simp: inj_on_def reservation_of_def)
  then have "card (open_requests cust art (calendar_of d)) = length (filter (pending_with cust art) (t_bookings d))"
    using dist distinct_card [of "filter (pending_with cust art) (t_bookings d)"] by (simp add: pending_reservations card_image)
  then show "length (filter (pending_with cust art) (t_bookings d)) \<le> MAX_PENDING_BOOKINGS_PER_ARTISAN"
    using assms(2) by (metis sound_calendar_def)
qed

section \<open>The calendar\<close>

definition fx_slot :: slot where
  "fx_slot = \<lparr>sl_id = 30, sl_artisanProfileId = 20, sl_dayOfWeek = 5, sl_startTime = ''09:00:00'', sl_endTime = ''17:00:00'', sl_isActive = True\<rparr>"

definition fx_request :: booking_input where
  "fx_request = \<lparr>bi_artisanProfileId = 20, bi_serviceId = 5, bi_availabilitySlotId = Some 30, bi_scheduledDate = ''1970-01-02'',
     bi_startTime = ''10:00'', bi_endTime = None, bi_notes = None, bi_agreedPrice = Some 21000, bi_currency = None, bi_location = None,
     bi_pin = \<lparr>pin_latitude = Absent, pin_longitude = Absent, pin_accuracy = Absent, pin_landmark = Absent\<rparr>, bi_attachmentUrls = []\<rparr>"

definition fx_calendar_world :: world where
  "fx_calendar_world = (fx_world [])\<lparr>w_db := (fx_db [])\<lparr>t_slots := [fx_slot], t_jobs := []\<rparr>\<rparr>"

text \<open>
  C16. Every operation refines the calendar. Whatever one of the writing operations of the bookings,
  jobs and availability services does, on success or on failure, the artisans' calendar makes a step
  of its specification: it reserves one interval that clashes with none, for a customer with fewer than
  three open requests to that artisan, or it only accepts or releases reservations already there.
\<close>

theorem calendar_refined:
  assumes "wf_bookings (w_db w)"
  shows "wf_bookings (w_db (perform env op w)) \<and> cal_step (calendar_of (w_db w)) (calendar_of (w_db (perform env op w)))"
  using assms by (rule perform_refines)

theorem calendar_refined_witness:
  "wf_bookings (w_db fx_calendar_world)
   \<and> cal_step (calendar_of (w_db fx_calendar_world))
       (calendar_of (w_db (perform fx_env (Request_booking 1 fx_request) fx_calendar_world)))"
  using calendar_refined [of fx_calendar_world fx_env "Request_booking 1 fx_request"]
  by (simp add: fx_calendar_world_def fx_defs wf_bookings_def)

text \<open>
  C1. No artisan is double-booked. From an empty table of bookings, and after any operations in any
  order, two different requests or confirmed bookings of one artisan on one date never overlap, and no
  customer has more than three open requests to an artisan.
\<close>

theorem never_double_booked:
  assumes "t_bookings (w_db w) = []"
  shows "let rows = t_bookings (w_db (perform_all env ops w))
    in length (filter (pending_with cust art) rows) \<le> 3
       \<and> (\<forall>b \<in> set rows. \<forall>b' \<in> set rows. b \<noteq> b' \<and> occupying (b_status b) \<and> occupying (b_status b')
            \<and> b_artisanProfileId b = b_artisanProfileId b' \<and> b_scheduledDate b = b_scheduledDate b'
            \<longrightarrow> b_endTime b \<le> b_startTime b' \<or> b_endTime b' \<le> b_startTime b)"
proof -
  let ?d = "w_db (perform_all env ops w)"
  have "wf_bookings (w_db w)" "sound_calendar (calendar_of (w_db w))"
    using assms by (simp_all add: wf_bookings_def calendar_of_def sound_calendar_def open_requests_def)
  then have "wf_bookings ?d" "sound_calendar (calendar_of ?d)"
    using perform_all_refines [of w env ops] cal_steps_sound by auto
  from calendar_rows_sound [OF this] show ?thesis
    by (simp add: Let_def MAX_PENDING_BOOKINGS_PER_ARTISAN_def)
qed

theorem never_double_booked_witness:
  "t_bookings (w_db fx_calendar_world) = []
   \<and> (let rows = t_bookings (w_db (perform_all fx_env [Request_booking 1 fx_request, Request_booking 1 fx_request] fx_calendar_world))
    in length (filter (pending_with 1 20) rows) \<le> 3)"
  using never_double_booked [of fx_calendar_world fx_env "[Request_booking 1 fx_request, Request_booking 1 fx_request]" 1 20]
  by (simp add: fx_calendar_world_def fx_defs Let_def)


section \<open>Running the handlers\<close>

lemma lb_booking_loaded [simp]: "lb_booking (with_booking_relations d b) = b"
  by (simp add: with_booking_relations_def Let_def)

lemma run_load_booking [run_simps]:
  "bnd (load_or_fail bid) g w = (case find_booking (w_db w) bid of
     None \<Rightarrow> (Inl (NotFound_booking Booking_not_found), w) | Some b \<Rightarrow> g (with_booking_relations (w_db w) b) w)"
  by (simp add: load_or_fail_def act_defs split: option.splits)

lemma run_save_booking [run_simps]:
  "andthen (save_with_customer l) m w =
     (if lb_customer l \<noteq> None then m (w\<lparr>w_db := put_booking (lb_booking l) (w_db w)\<rparr>) else (Inl NotNullViolation, w))"
  "save_with_customer l w =
     (if lb_customer l \<noteq> None then (Inr (), w\<lparr>w_db := put_booking (lb_booking l) (w_db w)\<rparr>) else (Inl NotNullViolation, w))"
  by (simp_all add: save_with_customer_def act_defs)

lemma run_booking_people [run_simps]:
  "bnd (artisan_user_of l) g w = (case lb_artisanUser l of None \<Rightarrow> (Inl TypeError, w) | Some u \<Rightarrow> g u w)"
  "bnd (booking_customer l) g w = (case lb_customer l of None \<Rightarrow> (Inl TypeError, w) | Some u \<Rightarrow> g u w)"
  by (simp_all add: artisan_user_of_def booking_customer_def run_simps)

lemma find_booking_put [simp]: "find_booking (put_booking b d) (b_id b) = Some b"
  by (simp add: find_booking_def put_booking_def find_row_save_same)

section \<open>Requesting\<close>

lemma create_tx_ok:
  assumes "create_booking_tx i uid en w = (Inr (b, u), w1)"
  shows "b = new_booking (next_id w T_bookings) i uid en (clock w) \<and> t_bookings (w_db w1) = t_bookings (w_db w) @ [b]
     \<and> outbox w1 = outbox w \<and> (\<exists>p. find_profile (w_db w) (bi_artisanProfileId i) = Some p \<and> user_of_profile (w_db w) p = Some u)"
  using assms
  by (auto simp: create_booking_tx_def run_simps Let_def t_bookings_put_new split: option.splits if_splits)

definition created :: "nat \<Rightarrow> booking_input \<Rightarrow> booking \<times> user \<Rightarrow> booking_view act" where
  "created uid i = (\<lambda>(saved, artisan).
     bnd (load_or_fail (b_id saved)) (\<lambda>l.
     bnd (booking_customer l) (\<lambda>c.
     andthen (emit (BOOKING_RECEIVED (u_id artisan) (full_name c) (bi_scheduledDate i) (b_id saved)))
       (asks (\<lambda>w. to_response_dto (w_db w) l uid)))))"

lemma created_ok:
  assumes "bnd (transaction (create_booking_tx i uid en)) (created uid i) w = (Inr v, w')"
  shows "\<exists>b u c w1. create_booking_tx i uid en w = (Inr (b, u), w1) \<and> w_db w' = w_db w1
     \<and> outbox w' = outbox w1 @ [BOOKING_RECEIVED (u_id u) (full_name c) (bi_scheduledDate i) (b_id b)]"
proof -
  obtain q w1 where tx: "create_booking_tx i uid en w = (q, w1)" by fastforce
  show ?thesis
  proof (cases q)
    case (Inr bu)
    obtain b u where "bu = (b, u)" by fastforce
    with assms tx Inr show ?thesis
      by (auto simp: created_def run_simps asks_def split: option.splits)
  qed (use assms tx in \<open>simp add: run_simps\<close>)
qed

definition asked_end :: "booking_input \<Rightarrow> service \<Rightarrow> string" where
  "asked_end i s = given (bi_endTime i)
     (add_minutes (bi_startTime i) (if s_durationMins s = 0 then DEFAULT_SERVICE_DURATION_MINS else s_durationMins s))"

definition fits :: "booking_input \<Rightarrow> string \<Rightarrow> time_window \<Rightarrow> bool" where
  "fits i en x \<longleftrightarrow> to_clock_time (tw_startTime x) \<le> to_clock_time (bi_startTime i) \<and> to_clock_time en \<le> to_clock_time (tw_endTime x)"

lemma create_booking_checks:
  assumes "create_booking uid i w = (Inr v, w')"
  shows "\<exists>s start. find_service (w_db w) (bi_serviceId i) = Some s \<and> s_isActive s
     \<and> \<not> price_out_of_band (bi_agreedPrice i) (s_price s)
     \<and> to_utc_instant (bi_scheduledDate i) (bi_startTime i) = Some start \<and> clock w < start
     \<and> (\<exists>x \<in> set (compute_bookable_windows (w_db w) (bi_artisanProfileId i) (bi_scheduledDate i)). fits i (asked_end i s) x)
     \<and> bnd (transaction (create_booking_tx i uid (asked_end i s))) (created uid i) w = (Inr v, w')"
  using assms unfolding create_booking_def created_def [symmetric] fits_def [symmetric] asked_end_def [symmetric]
  by (auto simp: assert_bookable_def run_asks run_some_or run_guard run_assoc_andthen Let_def asked_end_def [symmetric]
      split: option.splits if_split_asm)


lemma price_in_band:
  assumes "\<not> price_out_of_band (Some a) (Some p)" and "0 < p"
  shows "4 * p \<le> 5 * a \<and> 5 * a \<le> 6 * p"
proof -
  have "\<not> cedis a < cedis p * (4 / 5)" "\<not> cedis p * (6 / 5) < cedis a"
    using assms by (simp_all add: price_out_of_band_def AGREED_PRICE_TOLERANCE_RATIO_def)
  then have "(4 * of_int p :: rat) \<le> 5 * of_int a" "(5 * of_int a :: rat) \<le> 6 * of_int p"
    by (simp_all add: cedis_def)
  then have "(of_int (4 * p) :: rat) \<le> of_int (5 * a)" "(of_int (5 * a) :: rat) \<le> of_int (6 * p)" by simp_all
  then show ?thesis by (simp only: of_int_le_iff)
qed

lemma compute_windows_clock:
  assumes "x \<in> set (compute_bookable_windows d pid date)" and "tw_startTime x \<le> t" and "t < tw_endTime x"
  shows "lies_in t (compute_bookable_windows d pid date)"
  using assms by (auto simp: lies_in_def)

text \<open>Times come from the database in one form.\<close>

definition stored_times :: "db \<Rightarrow> bool" where
  "stored_times d \<longleftrightarrow> (\<forall>s \<in> set (t_slots d). to_clock_time (sl_startTime s) = sl_startTime s \<and> to_clock_time (sl_endTime s) = sl_endTime s)
     \<and> (\<forall>b \<in> set (t_bookings d). to_clock_time (b_startTime b) = b_startTime b \<and> to_clock_time (b_endTime b) = b_endTime b)"

lemma fragment_times:
  assumes "\<forall>b \<in> set bs. P (tw_startTime b) \<and> P (tw_endTime b)" and "P cursor" and "P w_end" and "x \<in> set (fragments w_end cursor bs)"
  shows "P (tw_startTime x) \<and> P (tw_endTime x)"
  using assms
  by (induction w_end cursor bs rule: fragments.induct) (auto simp: Let_def split: if_splits)

lemma window_times:
  assumes "stored_times d" and "x \<in> set (compute_bookable_windows d pid date)"
  shows "to_clock_time (tw_startTime x) = tw_startTime x \<and> to_clock_time (tw_endTime x) = tw_endTime x"
  using assms
  by (auto simp: compute_bookable_windows_def subtract_occupied_def stored_times_def weekly_slots_def occupied_on_def
      dest!: fragment_times [where P = "\<lambda>t. to_clock_time t = t", rotated 3] split: if_splits)

text \<open>
  What an accepted request establishes. The new booking is one PENDING row for the customer, at
  the end of the table; it starts in the future; every instant of it lies in the artisan's bookable
  windows of that date, so in the weekly hours, outside time off and in no other booking; an agreed
  price is within a fifth of the catalogue price; and the artisan, and no one else, is told.
\<close>

theorem request_effect:
  assumes "create_booking uid i w = (Inr v, w')"
    and "stored_times (w_db w)"
  shows "\<exists>b s p u n start. t_bookings (w_db w') = t_bookings (w_db w) @ [b] \<and> b_status b = Bk_PENDING \<and> b_customerId b = uid
     \<and> b_artisanProfileId b = bi_artisanProfileId i \<and> b_scheduledDate b = bi_scheduledDate i
     \<and> to_utc_instant (b_scheduledDate b) (bi_startTime i) = Some start \<and> clock w < start
     \<and> (\<forall>t. b_startTime b \<le> t \<and> t < b_endTime b \<longrightarrow> lies_in t (compute_bookable_windows (w_db w) (b_artisanProfileId b) (b_scheduledDate b)))
     \<and> find_service (w_db w) (bi_serviceId i) = Some s
     \<and> (\<forall>p a. s_price s = Some p \<and> 0 < p \<and> bi_agreedPrice i = Some a \<longrightarrow> 4 * p \<le> 5 * a \<and> 5 * a \<le> 6 * p)
     \<and> find_profile (w_db w) (bi_artisanProfileId i) = Some p \<and> user_of_profile (w_db w) p = Some u
     \<and> outbox w' = outbox w @ [BOOKING_RECEIVED (u_id u) n (bi_scheduledDate i) (b_id b)]"
proof -
  from create_booking_checks [OF assms(1)] obtain s start x where
    s: "find_service (w_db w) (bi_serviceId i) = Some s" "\<not> price_out_of_band (bi_agreedPrice i) (s_price s)" and
    start: "to_utc_instant (bi_scheduledDate i) (bi_startTime i) = Some start" "clock w < start" and
    x: "x \<in> set (compute_bookable_windows (w_db w) (bi_artisanProfileId i) (bi_scheduledDate i))" "fits i (asked_end i s) x" and
    run: "bnd (transaction (create_booking_tx i uid (asked_end i s))) (created uid i) w = (Inr v, w')" by blast
  from created_ok [OF run] obtain b u c w1 where
    tx: "create_booking_tx i uid (asked_end i s) w = (Inr (b, u), w1)" and
    rest: "w_db w' = w_db w1" "outbox w' = outbox w1 @ [BOOKING_RECEIVED (u_id u) (full_name c) (bi_scheduledDate i) (b_id b)]" by blast
  note new = create_tx_ok [OF tx]
  then obtain p where p: "find_profile (w_db w) (bi_artisanProfileId i) = Some p" "user_of_profile (w_db w) p = Some u" by blast
  have "lies_in t (compute_bookable_windows (w_db w) (b_artisanProfileId b) (b_scheduledDate b))"
    if "b_startTime b \<le> t" "t < b_endTime b" for t
    using that x window_times [OF assms(2) x(1)] new by (auto simp: fits_def intro!: compute_windows_clock [of x])
  moreover have "4 * p \<le> 5 * a \<and> 5 * a \<le> 6 * p" if "s_price s = Some p" "0 < p" "bi_agreedPrice i = Some a" for p a
    using price_in_band [of a p] that s(2) by simp
  ultimately show ?thesis
    using s(1) start new rest p by (intro exI [of _ b] exI [of _ s] exI [of _ p] exI [of _ u] exI [of _ "full_name c"] exI [of _ start]) simp
qed

lemma fx_date: "day_number ''1970-01-02'' = Some 1"
proof -
  have "iso_date 1 = ''1970-01-02''" by code_simp
  then show ?thesis using day_number_iso [of 1] by (simp add: last_day_def)
qed

lemma fx_clock: "clock_ms (to_clock_time ''10:00'') = Some 36000000"
proof -
  have "digits_value ''10'' = 10" "digits_value ''00'' = 0" "is_digits ''10''" "is_digits ''00''" by code_simp+
  then show ?thesis by (simp add: clock_ms_def to_clock_time_def)
qed

lemma fx_times: "add_minutes ''10:00'' 60 = ''11:00''" "\<not> ''11:00'' \<le> ''10:00''" "''09:00:00'' \<le> to_clock_time ''10:00''"
  "to_clock_time ''11:00'' \<le> ''17:00:00''" "to_clock_time ''09:00:00'' = ''09:00:00''" "to_clock_time ''17:00:00'' = ''17:00:00''"
  by code_simp+

lemma fx_price: "\<not> price_out_of_band (Some 21000) (Some 20000)"
  by (simp add: price_out_of_band_def AGREED_PRICE_TOLERANCE_RATIO_def cedis_def)

lemma fx_windows: "compute_bookable_windows (w_db fx_calendar_world) 20 ''1970-01-02'' = [\<lparr>tw_startTime = ''09:00:00'', tw_endTime = ''17:00:00''\<rparr>]"
  by code_simp

lemma find_new_booking: "find_booking (put_booking (new_booking k i uid en now) d) k = Some (new_booking k i uid en now)"
  using find_booking_put [of "new_booking k i uid en now"] by simp

lemma people_put_booking [simp]: "find_user (put_booking b d) = find_user d"
  by (simp add: fun_eq_iff find_user_def put_booking_def)

lemma fx_requested: "\<not> isl (fst (create_booking 1 fx_request fx_calendar_world))"
proof -
  let ?w = "fx_calendar_world"
  have db: "find_profile (w_db ?w) 20 = Some fx_profile" "user_of_profile (w_db ?w) fx_profile = Some (fx_user 2 ARTISAN)"
    "find_service (w_db ?w) 5 = Some fx_service" "t_slots (w_db ?w) = [fx_slot]" "t_bookings (w_db ?w) = []" "clock ?w = 1000"
    "find_user (w_db ?w) (Suc 0) = Some (fx_user 1 CUSTOMER)"
    by (simp_all add: fx_calendar_world_def fx_defs find_profile_def user_of_profile_def find_user_def find_service_def find_row_def)
  show ?thesis
    by (simp add: create_booking_def create_booking_tx_def assert_bookable_def run_simps db fx_request_def fx_date fx_clock fx_times fx_price fx_windows
        to_utc_instant_def DAY_MS_def find_new_booking with_booking_relations_def MAX_PENDING_BOOKINGS_PER_ARTISAN_def Let_def given_def)
     (simp add: fx_profile_def fx_service_def fx_slot_def fx_user_def fx_times fx_price DEFAULT_SERVICE_DURATION_MINS_def find_new_booking db run_simps asks_def)
qed

theorem request_effect_witness:
  "\<exists>b. t_bookings (w_db (snd (create_booking 1 fx_request fx_calendar_world))) = [b] \<and> b_status b = Bk_PENDING \<and> b_customerId b = 1"
proof -
  obtain v where run: "create_booking 1 fx_request fx_calendar_world = (Inr v, snd (create_booking 1 fx_request fx_calendar_world))"
    using succeeds [OF fx_requested] by blast
  have "stored_times (w_db fx_calendar_world)" "t_bookings (w_db fx_calendar_world) = []"
    by (simp_all add: stored_times_def fx_calendar_world_def fx_defs fx_slot_def to_clock_time_def)
  with request_effect [OF run] show ?thesis by auto
qed


section \<open>Confirming\<close>

lemma run_add_attachment:
  "andthen (add_attachment jid url) m w = m (w\<lparr>next_id := (next_id w)(T_attachments := Suc (next_id w T_attachments)),
     w_db := (w_db w)\<lparr>t_attachments := t_attachments (w_db w) @
       [\<lparr>at_id = next_id w T_attachments, at_jobId = jid, at_url = url, at_fileType = guess_mime_from_url url\<rparr>]\<rparr>\<rparr>)"
  by (simp add: add_attachment_def act_defs)

lemma attachments_run:
  "\<exists>f xs. for_each urls (add_attachment jid) w = (Inr (), w\<lparr>next_id := f, w_db := (w_db w)\<lparr>t_attachments := t_attachments (w_db w) @ xs\<rparr>\<rparr>)
     \<and> map at_url xs = urls"
proof (induction urls arbitrary: w)
  case Nil
  show ?case by (intro exI [of _ "next_id w"] exI [of _ "[]"]) (simp add: ret_def)
next
  case (Cons url urls)
  let ?a = "\<lparr>at_id = next_id w T_attachments, at_jobId = jid, at_url = url, at_fileType = guess_mime_from_url url\<rparr>"
  let ?w1 = "w\<lparr>next_id := (next_id w)(T_attachments := Suc (next_id w T_attachments)),
     w_db := (w_db w)\<lparr>t_attachments := t_attachments (w_db w) @ [?a]\<rparr>\<rparr>"
  from Cons.IH [of ?w1] obtain f xs where
    "for_each urls (add_attachment jid) ?w1 = (Inr (), ?w1\<lparr>next_id := f, w_db := (w_db ?w1)\<lparr>t_attachments := t_attachments (w_db ?w1) @ xs\<rparr>\<rparr>)"
    "map at_url xs = urls" by blast
  then show ?case
    by (intro exI [of _ f] exI [of _ "?a # xs"]) (simp add: run_add_attachment)
qed

lemma save_row_new: "key r \<notin> key ` set rows \<Longrightarrow> save_row key r rows = rows @ [r]"
  by (auto simp: save_row_def image_iff)

lemma save_row_again:
  assumes "key r' = key r" and "key r \<notin> key ` set rows"
  shows "save_row key r' (rows @ [r]) = rows @ [r']"
proof -
  have "\<forall>x \<in> set rows. key x \<noteq> key r" using assms(2) by (metis imageI)
  then have "map (\<lambda>x. if key x = key r then r' else x) rows = rows" by (intro map_idI) simp
  with assms(1) show ?thesis by (simp add: save_row_def)
qed

lemma find_snoc: "find P xs = None \<Longrightarrow> P y \<Longrightarrow> find P (xs @ [y]) = Some y"
  by (induction xs) (auto split: if_splits)

text \<open>The job and the payment that a confirmation opens.\<close>

lemma open_job_ok:
  assumes "open_job_for_booking env b s p u price uid w = (Inr j, w')"
  shows "0 < price \<and> j_status j = PENDING \<and> j_customerId j = b_customerId b \<and> j_acceptedArtisanId j = Some (u_id u) \<and> j_budgetMax j = Some price
     \<and> job_of_booking (w_db w') (b_id b) = Some j \<and> t_bookings (w_db w') = t_bookings (w_db w) \<and> outbox w' = outbox w
     \<and> (\<exists>q \<in> set (t_payments (w_db w')). j_paymentIntentId j = Some (p_reference q) \<and> p_jobId q = j_id j \<and> p_customerId q = b_customerId b
          \<and> p_status q = Pay_PENDING \<and> p_amount q = price)"
proof -
  let ?k = "next_id w T_jobs"
  let ?j = "job_from_booking ?k b s p u price (clock w)"
  let ?w1 = "recorded ?k None PENDING (show_nat uid) (Some (''Created from confirmed booking #'' @ show_nat (b_id b)))
     (w\<lparr>next_id := (next_id w)(T_jobs := Suc ?k), w_db := put_job ?j (w_db w)\<rparr>)"
  have [simp]: "j_id ?j = ?k" "j_deletedAt ?j = None" "j_bookingId ?j = Some (b_id b)" by (simp_all add: job_from_booking_def)
  have new: "Some (b_id b) \<notin> j_bookingId ` set (t_jobs (w_db w))" "?k \<notin> j_id ` set (t_jobs (w_db w))"
    using assms by (auto simp: open_job_for_booking_def insert_job_def run_simps split: if_splits)
  obtain r w2 where hold: "hold_payment env ?k (b_customerId b) (u_id u) (Some price) ?w1 = (r, w2)" by fastforce
  with assms new obtain intent where r: "r = Inr intent"
    and rest: "andthen (with_db (put_job (?j\<lparr>j_paymentIntentId := Some intent\<rparr>)))
       (andthen (for_each (b_attachmentUrls b) (add_attachment ?k)) (ret (?j\<lparr>j_paymentIntentId := Some intent\<rparr>))) w2 = (Inr j, w')"
    by (cases r) (auto simp: open_job_for_booking_def insert_job_def run_simps bnd_def [of "hold_payment _ _ _ _ _"])
  let ?w3 = "w2\<lparr>w_db := put_job (?j\<lparr>j_paymentIntentId := Some intent\<rparr>) (w_db w2)\<rparr>"
  obtain f xs where "for_each (b_attachmentUrls b) (add_attachment ?k) ?w3 =
      (Inr (), ?w3\<lparr>next_id := f, w_db := (w_db ?w3)\<lparr>t_attachments := t_attachments (w_db ?w3) @ xs\<rparr>\<rparr>)"
    using attachments_run by blast
  with rest have j: "j = ?j\<lparr>j_paymentIntentId := Some intent\<rparr>"
    and w': "w' = ?w3\<lparr>next_id := f, w_db := (w_db ?w3)\<lparr>t_attachments := t_attachments (w_db ?w3) @ xs\<rparr>\<rparr>"
    by (auto simp: run_with_db andthen_def [of "for_each _ _"] bnd_def ret_def)
  have "find_job (w_db ?w1) ?k = Some ?j"
    by (rule find_job_of_row) (simp_all add: find_row_save_same [of j_id ?j, simplified])
  from hold_payment_held [of env ?k "b_customerId b" "u_id u" "(undefined :: application)\<lparr>a_quotePrice := Some price\<rparr>" ?w1 intent w2, OF _ this]
    hold r obtain prid fee art where pay: "0 < price" "outbox w2 = outbox w"
      "w_db w2 = put_payment (new_payment (next_id ?w1 T_payments) ?k (b_customerId b) prid price fee art ''GHS'' intent (clock w)) (w_db ?w1)"
    by (auto simp: agreed_price_def)
  let ?p = "new_payment (next_id ?w1 T_payments) ?k (b_customerId b) prid price fee art ''GHS'' intent (clock w)"
  have "?p \<in> set (t_payments (w_db w'))" using in_save_row [of ?p p_id] by (simp add: w' pay(3)) (simp add: put_payment_def)
  moreover have "job_of_booking (w_db w') (b_id b) = Some j"
  proof -
    have "t_jobs (w_db w') = t_jobs (w_db w) @ [j]"
      using save_row_new [of j_id ?j, unfolded \<open>j_id ?j = ?k\<close>, OF new(2)] save_row_again [of j_id j ?j] new(2) by (simp add: w' pay(3) j)
    moreover have "find (\<lambda>x. j_bookingId x = Some (b_id b) \<and> j_deletedAt x = None) (t_jobs (w_db w)) = None"
      using new(1) by (force simp: find_None_iff image_iff)
    ultimately show ?thesis by (simp add: job_of_booking_def find_snoc j)
  qed
  moreover have "p_reference ?p = intent" "p_jobId ?p = ?k" "p_customerId ?p = b_customerId b" "p_status ?p = Pay_PENDING" "p_amount ?p = price"
    by (simp_all add: new_payment_def)
  moreover have "t_bookings (w_db w') = t_bookings (w_db w)"
    unfolding w' pay(3) by (simp add: put_payment_def)
  moreover have "outbox w' = outbox w" unfolding w' using pay(2) by simp
  moreover have "j_paymentIntentId j = Some intent" "j_id j = ?k" "j_status j = PENDING" "j_customerId j = b_customerId b"
      "j_acceptedArtisanId j = Some (u_id u)" "j_budgetMax j = Some price"
    unfolding j by (simp_all add: job_from_booking_def)
  ultimately show ?thesis using pay(1) by (intro conjI bexI [of _ ?p]) simp_all
qed


lemma job_of_booking_put [simp]: "job_of_booking (put_booking b d) = job_of_booking d"
  by (simp add: fun_eq_iff job_of_booking_def put_booking_def)

lemma confirm_tx_ok:
  assumes "confirm_booking_tx env uid bid i w = (Inr (l, j), w1)" and "job_of_booking (w_db w) bid = None"
  shows "\<exists>b s p u price. find_booking (w_db w) bid = Some b \<and> b_status b = Bk_PENDING
     \<and> lb_profile (with_booking_relations (w_db w) b) = Some p \<and> lb_artisanUser (with_booking_relations (w_db w) b) = Some u \<and> u_id u = uid
     \<and> settled_price (with_booking_relations (w_db w) b) (ri_price i) = Inr price
     \<and> l = (with_booking_relations (w_db w) b)\<lparr>lb_booking := confirmed_booking b price i\<rparr>
     \<and> open_job_for_booking env (confirmed_booking b price i) s p u price uid (w\<lparr>w_db := put_booking (confirmed_booking b price i) (w_db w)\<rparr>) = (Inr j, w1)"
  using assms
  by (auto simp: confirm_booking_tx_def assert_artisan_owner_def run_load_booking run_guard run_save_booking run_asks run_some_or
      run_booking_people run_throw Let_def bnd_def [of "open_job_for_booking _ _ _ _ _ _ _"] ret_def
      split: option.splits if_splits sum.splits prod.splits)

lemma settled_price_ok:
  assumes "settled_price l sent = Inr price"
  shows "(\<forall>a. b_agreedPrice (lb_booking l) = Some a \<and> 0 < a \<longrightarrow> price = a)
     \<and> ((\<forall>a. b_agreedPrice (lb_booking l) = Some a \<longrightarrow> a \<le> 0) \<longrightarrow> (\<forall>x. sent = Some x \<longrightarrow> price = x))"
  using assms by (auto simp: settled_price_def positive_price_def Let_def split: option.splits if_splits)

lemma confirmed_row [simp]:
  "b_id (confirmed_booking b price i) = b_id b" "b_customerId (confirmed_booking b price i) = b_customerId b"
  "b_scheduledDate (confirmed_booking b price i) = b_scheduledDate b" "b_attachmentUrls (confirmed_booking b price i) = b_attachmentUrls b"
  by (simp_all add: confirmed_booking_def)

lemma find_booking_id: "find_booking d bid = Some b \<Longrightarrow> b_id b = bid"
  by (auto simp: find_booking_def dest: find_row_SomeD)

lemma booking_artisan:
  assumes "lb_profile (with_booking_relations d b) = Some p" and "lb_artisanUser (with_booking_relations d b) = Some u"
  shows "find_profile d (b_artisanProfileId b) = Some p \<and> pr_userId p = Some (u_id u)"
  using assms by (auto simp: with_booking_relations_def Let_def user_of_profile_def bind_eq_Some_conv dest: find_user_id)

text \<open>
  C24. Confirming a booking. A refused confirmation leaves the database as it was. When a booking with
  no job yet is confirmed, it was PENDING and the caller is its artisan; an agreed price stands, else
  the artisan's price is taken, and the price is positive; the booking is CONFIRMED at that price; its
  new job is PENDING for the same customer and artisan, has that price as its budget, and carries the
  reference of a new PENDING payment of exactly that price; and the customer is told.
\<close>

theorem confirm_booking_effect:
  assumes "confirm_booking env uid bid i w = (r, w')" and "job_of_booking (w_db w) bid = None"
  shows "case r of Inl e \<Rightarrow> w_db w' = w_db w
    | Inr jid \<Rightarrow> \<exists>b p price j q name. find_booking (w_db w) bid = Some b \<and> b_status b = Bk_PENDING
        \<and> find_profile (w_db w) (b_artisanProfileId b) = Some p \<and> pr_userId p = Some uid
        \<and> 0 < price \<and> (\<forall>a. b_agreedPrice b = Some a \<and> 0 < a \<longrightarrow> price = a)
        \<and> ((\<forall>a. b_agreedPrice b = Some a \<longrightarrow> a \<le> 0) \<longrightarrow> (\<forall>x. ri_price i = Some x \<longrightarrow> price = x))
        \<and> find_booking (w_db w') bid = Some (confirmed_booking b price i)
        \<and> job_of_booking (w_db w') bid = Some j \<and> j_id j = jid \<and> j_status j = PENDING \<and> j_customerId j = b_customerId b
        \<and> j_acceptedArtisanId j = Some uid \<and> j_budgetMax j = Some price \<and> j_paymentIntentId j = Some (p_reference q)
        \<and> q \<in> set (t_payments (w_db w')) \<and> p_jobId q = jid \<and> p_customerId q = b_customerId b \<and> p_status q = Pay_PENDING
        \<and> p_amount q = price \<and> outbox w' = outbox w @ [BOOKING_CONFIRMED (b_customerId b) name (b_scheduledDate b) bid]"
proof -
  obtain t w1 where tx: "confirm_booking_tx env uid bid i w = (t, w1)" by fastforce
  show ?thesis
  proof (cases t)
    case (Inl e)
    with assms(1) tx have "r = Inl e" "w' = w1\<lparr>w_db := w_db w\<rparr>" by (auto simp: confirm_booking_def run_simps)
    then show ?thesis by simp
  next
    case (Inr lj)
    obtain l j where lj: "lj = (l, j)" by fastforce
    from confirm_tx_ok [OF tx [unfolded Inr lj] assms(2)] obtain b s p u price where
      b: "find_booking (w_db w) bid = Some b" "b_status b = Bk_PENDING" and
      people: "lb_profile (with_booking_relations (w_db w) b) = Some p" "lb_artisanUser (with_booking_relations (w_db w) b) = Some u" "u_id u = uid" and
      price: "settled_price (with_booking_relations (w_db w) b) (ri_price i) = Inr price" and
      l: "l = (with_booking_relations (w_db w) b)\<lparr>lb_booking := confirmed_booking b price i\<rparr>" and
      op: "open_job_for_booking env (confirmed_booking b price i) s p u price uid (w\<lparr>w_db := put_booking (confirmed_booking b price i) (w_db w)\<rparr>) = (Inr j, w1)"
      by blast
    note bid = find_booking_id [OF b(1)]
    have r: "r = Inr (j_id j)" "w_db w' = w_db w1"
      "outbox w' = outbox w1 @ [BOOKING_CONFIRMED (b_customerId b) (shown_artisan l u) (b_scheduledDate b) bid]"
      using assms(1) tx people by (auto simp: Inr lj l bid confirm_booking_def run_simps Let_def)
    note job = open_job_ok [OF op]
    then obtain q where q: "q \<in> set (t_payments (w_db w1))" "j_paymentIntentId j = Some (p_reference q)" "p_jobId q = j_id j"
      "p_customerId q = b_customerId b" "p_status q = Pay_PENDING" "p_amount q = price" by auto
    have "find_booking (w_db w1) bid = Some (confirmed_booking b price i)"
      using job find_booking_put [of "confirmed_booking b price i" "w_db w"] by (simp add: find_booking_def bid)
    with b booking_artisan [OF people(1,2)] people(3) settled_price_ok [OF price] job q bid show ?thesis
      unfolding r sum.case
      by (intro exI [of _ b] exI [of _ p] exI [of _ price] exI [of _ j] exI [of _ q] exI [of _ "shown_artisan l u"]) simp
  qed
qed


definition fx_booking :: "nat \<Rightarrow> booking_status \<Rightarrow> booking" where
  "fx_booking k st = (new_booking k fx_request 1 ''11:00'' 0)\<lparr>b_status := st\<rparr>"

definition fx_booked :: "booking list \<Rightarrow> job list \<Rightarrow> payment list \<Rightarrow> world" where
  "fx_booked bs js ps = (fx_world ps)\<lparr>w_db := (fx_db ps)\<lparr>t_bookings := bs, t_jobs := js\<rparr>\<rparr>"

lemmas fx_booking_defs = fx_booked_def fx_booking_def new_booking_def fx_request_def fx_defs

definition fx_response :: respond_input where
  "fx_response = \<lparr>ri_price = None, ri_artisanNotes = Absent\<rparr>"

lemma fx_confirmed: "\<not> isl (fst (confirm_booking fx_env 2 50 fx_response (fx_booked [fx_booking 50 Bk_PENDING] [] [])))"
  by code_simp

theorem confirm_booking_effect_witness:
  "\<exists>j. job_of_booking (w_db (snd (confirm_booking fx_env 2 50 fx_response (fx_booked [fx_booking 50 Bk_PENDING] [] [])))) 50 = Some j
     \<and> j_budgetMax j = Some 21000"
proof -
  let ?w = "fx_booked [fx_booking 50 Bk_PENDING] [] []"
  obtain jid where run: "confirm_booking fx_env 2 50 fx_response ?w = (Inr jid, snd (confirm_booking fx_env 2 50 fx_response ?w))"
    using succeeds [OF fx_confirmed] by blast
  have "job_of_booking (w_db ?w) 50 = None" "find_booking (w_db ?w) 50 = Some (fx_booking 50 Bk_PENDING)" "b_agreedPrice (fx_booking 50 Bk_PENDING) = Some 21000"
    by (simp_all add: job_of_booking_def fx_booking_defs find_booking_def find_row_def Let_def)
  with confirm_booking_effect [OF run] show ?thesis by auto
qed

section \<open>Cancelling\<close>

definition settled_with :: "env \<Rightarrow> job option \<Rightarrow> unit act" where
  "settled_with env j0 = (case j0 of None \<Rightarrow> ret () | Some j \<Rightarrow> settled env j)"

lemma settled_with_frame:
  assumes "settled_with env j0 w = (q, w1)"
  shows "job_tables (w_db w1) = job_tables (w_db w)" and "outbox w1 = outbox w"
  using assms settled_frame(1,2) by (auto simp: settled_with_def ret_def split: option.splits)

lemma cancel_booking_tx_run:
  assumes "lb_customer l \<noteq> None"
  shows "\<exists>w2. transaction (cancel_booking_tx l j0 uid) w1 = (Inr (), w2) \<and> outbox w2 = outbox w1 \<and> t_payments (w_db w2) = t_payments (w_db w1)
     \<and> t_bookings (w_db w2) = save_row b_id ((lb_booking l)\<lparr>b_status := Bk_CANCELLED\<rparr>) (t_bookings (w_db w1))
     \<and> (case j0 of None \<Rightarrow> t_jobs (w_db w2) = t_jobs (w_db w1) \<and> t_history (w_db w2) = t_history (w_db w1)
        | Some j \<Rightarrow> t_jobs (w_db w2) = save_row j_id (j\<lparr>j_status := CANCELLED\<rparr>) (t_jobs (w_db w1))
            \<and> (\<exists>h. t_history (w_db w2) = t_history (w_db w1) @ [h] \<and> h_jobId h = j_id j \<and> h_from h = Some PENDING \<and> h_to h = CANCELLED))"
proof (cases j0)
  case None
  with assms show ?thesis by (simp add: cancel_booking_tx_def run_simps put_booking_def)
next
  case (Some j)
  with assms show ?thesis
    by (simp add: cancel_booking_tx_def run_simps) (simp add: put_booking_def put_job_def add_history_def)
qed

definition cancel_booking_refusal :: "job option \<Rightarrow> booking \<Rightarrow> nat \<Rightarrow> exn option" where
  "cancel_booking_refusal j0 b uid =
     (if b_customerId b \<noteq> uid then Some (Forbidden_booking Access_denied)
      else if \<not> occupying (b_status b) then Some (BadRequest_booking (Cannot_cancel_booking (b_status b)))
      else if \<exists>j. j0 = Some j \<and> j_status j \<noteq> PENDING then Some (BadRequest_booking Job_already_started) else None)"

lemma cancel_booking_refusal_None:
  "cancel_booking_refusal j0 b uid = None \<longleftrightarrow> b_customerId b = uid \<and> occupying (b_status b) \<and> (\<forall>j. j0 = Some j \<longrightarrow> j_status j = PENDING)"
  by (simp add: cancel_booking_refusal_def)

lemma cancel_booking_run:
  assumes "find_booking (w_db w) bid = Some b" and "lb_customer (with_booking_relations (w_db w) b) = Some c"
    and "lb_artisanUser (with_booking_relations (w_db w) b) = Some u" and "u_id u = uid'"
  shows "cancel_booking env uid bid w = (case cancel_booking_refusal (job_of_booking (w_db w) bid) b uid of Some e \<Rightarrow> (Inl e, w)
    | None \<Rightarrow> andthen (settled_with env (job_of_booking (w_db w) bid))
        (andthen (transaction (cancel_booking_tx (with_booking_relations (w_db w) b) (job_of_booking (w_db w) bid) uid))
        (only_if (b_status b = Bk_CONFIRMED) (emit (BOOKING_CANCELLED uid' (full_name c) (b_scheduledDate b) bid)))) w)"
proof -
  have "b_status b \<notin> {Bk_COMPLETED, Bk_CANCELLED, Bk_DECLINED, Bk_EXPIRED, Bk_NO_SHOW} \<longleftrightarrow> occupying (b_status b)"
    by (cases "b_status b") simp_all
  with assms find_booking_id [OF assms(1)] show ?thesis
    by (auto simp: cancel_booking_def run_load_booking run_guard run_asks Let_def settled_with_def settled_def [symmetric]
        cancel_booking_refusal_def artisan_user_of_def booking_customer_def some_or_def split: option.splits)
qed

text \<open>
  Cancelling a booking takes its job with it. For a booking whose customer and artisan still have
  accounts: a refusal leaves bookings, jobs and history as they were and tells nobody; a success was
  the customer's, of a PENDING or CONFIRMED booking whose job, if any, had not started; the job's payment
  was cancelled or refunded first, then the booking and its job are CANCELLED together, with one entry of
  the job's history, and the artisan is told exactly when the booking had been confirmed.
\<close>

theorem cancel_booking_atomic:
  assumes "cancel_booking env uid bid w = (r, w')" and "find_booking (w_db w) bid = Some b"
    and "find_user (w_db w) (b_customerId b) = Some c" and "find_profile (w_db w) (b_artisanProfileId b) = Some p"
    and "pr_userId p = Some k" and "find_user (w_db w) k = Some u"
  shows "case r of Inl e \<Rightarrow> job_tables (w_db w') = job_tables (w_db w) \<and> outbox w' = outbox w
    | Inr _ \<Rightarrow> b_customerId b = uid \<and> occupying (b_status b)
        \<and> t_bookings (w_db w') = save_row b_id (b\<lparr>b_status := Bk_CANCELLED\<rparr>) (t_bookings (w_db w))
        \<and> (case job_of_booking (w_db w) bid of
             None \<Rightarrow> t_jobs (w_db w') = t_jobs (w_db w) \<and> t_payments (w_db w') = t_payments (w_db w)
           | Some j \<Rightarrow> j_status j = PENDING \<and> t_jobs (w_db w') = save_row j_id (j\<lparr>j_status := CANCELLED\<rparr>) (t_jobs (w_db w))
               \<and> (\<exists>h. t_history (w_db w') = t_history (w_db w) @ [h] \<and> h_jobId h = j_id j \<and> h_from h = Some PENDING \<and> h_to h = CANCELLED)
               \<and> (\<exists>w1. (if truthy (j_paymentIntentId j) then cancel_payment env (the (j_paymentIntentId j)) w = (Inr (), w1) else w1 = w)
                    \<and> t_payments (w_db w') = t_payments (w_db w1)))
        \<and> outbox w' = outbox w @ (if b_status b = Bk_CONFIRMED then [BOOKING_CANCELLED k (full_name c) (b_scheduledDate b) bid] else [])"
proof -
  let ?l = "with_booking_relations (w_db w) b" and ?j0 = "job_of_booking (w_db w) bid"
  have people: "lb_customer ?l = Some c" "lb_artisanUser ?l = Some u" "u_id u = k"
    using assms(3-6) find_user_id [OF assms(6)] by (simp_all add: with_booking_relations_def user_of_profile_def Let_def)
  note bid = find_booking_id [OF assms(2)]
  obtain q w1 where money: "settled_with env ?j0 w = (q, w1)" by fastforce
  note fr = settled_with_frame [OF money]
  note run = cancel_booking_run [OF assms(2) people, of env uid]
  show ?thesis
  proof (cases "cancel_booking_refusal ?j0 b uid")
    case (Some e)
    with run assms(1) have "w' = w" "isl r" by simp_all
    then show ?thesis by (cases r) simp_all
  next
    case None
    then have go: "cancel_booking env uid bid w = andthen (settled_with env ?j0) (andthen (transaction (cancel_booking_tx ?l ?j0 uid))
        (only_if (b_status b = Bk_CONFIRMED) (emit (BOOKING_CANCELLED k (full_name c) (b_scheduledDate b) bid)))) w"
      using run by simp
    show ?thesis
    proof (cases q)
      case (Inl e)
      with go money assms(1) have "r = Inl e" "w' = w1" by (simp_all add: andthen_def bnd_def)
      with fr show ?thesis by simp
    next
      case (Inr x)
      from cancel_booking_tx_run [of ?l ?j0 uid w1] people obtain w2 where
        tx: "transaction (cancel_booking_tx ?l ?j0 uid) w1 = (Inr (), w2)" and
        eff: "outbox w2 = outbox w1" "t_payments (w_db w2) = t_payments (w_db w1)"
          "t_bookings (w_db w2) = save_row b_id (b\<lparr>b_status := Bk_CANCELLED\<rparr>) (t_bookings (w_db w1))"
          "case ?j0 of None \<Rightarrow> t_jobs (w_db w2) = t_jobs (w_db w1) \<and> t_history (w_db w2) = t_history (w_db w1)
           | Some j \<Rightarrow> t_jobs (w_db w2) = save_row j_id (j\<lparr>j_status := CANCELLED\<rparr>) (t_jobs (w_db w1))
            \<and> (\<exists>h. t_history (w_db w2) = t_history (w_db w1) @ [h] \<and> h_jobId h = j_id j \<and> h_from h = Some PENDING \<and> h_to h = CANCELLED)"
        by auto
      let ?ev = "if b_status b = Bk_CONFIRMED then [BOOKING_CANCELLED k (full_name c) (b_scheduledDate b) bid] else []"
      have res: "r = Inr ()" "w' = w2\<lparr>outbox := outbox w2 @ ?ev\<rparr>"
        using assms(1) go money Inr tx by (auto simp: andthen_def bnd_def only_if_def emit_def ret_def split: if_splits)
      have step: "if truthy (j_paymentIntentId j) then cancel_payment env (the (j_paymentIntentId j)) w = (Inr (), w1) else w1 = w"
        if "?j0 = Some j" for j
        using money Inr that by (auto simp: settled_with_def settled_def only_if_def ret_def)
      have none: "?j0 = None \<Longrightarrow> w1 = w" using money by (auto simp: settled_with_def ret_def)
      have same: "t_jobs (w_db w1) = t_jobs (w_db w)" "t_history (w_db w1) = t_history (w_db w)" "t_bookings (w_db w1) = t_bookings (w_db w)"
        using fr(1) by (simp_all add: job_tables_def)
      show ?thesis
        using None eff fr(2) none step unfolding cancel_booking_refusal_None
        by (cases ?j0) (simp_all add: res same, blast)
    qed
  qed
qed


lemma fx_cancelled_booking: "\<not> isl (fst (cancel_booking fx_env 1 50 (fx_booked [fx_booking 50 Bk_CONFIRMED]
     [(fx_job PENDING)\<lparr>j_bookingId := Some 50\<rparr>] [fx_payment Pay_PENDING])))"
  by code_simp

theorem cancel_booking_atomic_witness:
  "t_jobs (w_db (snd (cancel_booking fx_env 1 50 (fx_booked [fx_booking 50 Bk_CONFIRMED]
     [(fx_job PENDING)\<lparr>j_bookingId := Some 50\<rparr>] [fx_payment Pay_PENDING])))) = [(fx_job CANCELLED)\<lparr>j_bookingId := Some 50\<rparr>]"
proof -
  let ?j = "(fx_job PENDING)\<lparr>j_bookingId := Some 50\<rparr>"
  let ?w = "fx_booked [fx_booking 50 Bk_CONFIRMED] [?j] [fx_payment Pay_PENDING]"
  obtain v where run: "cancel_booking fx_env 1 50 ?w = (Inr v, snd (cancel_booking fx_env 1 50 ?w))"
    using succeeds [OF fx_cancelled_booking] by blast
  have facts: "find_booking (w_db ?w) 50 = Some (fx_booking 50 Bk_CONFIRMED)" "find_user (w_db ?w) (b_customerId (fx_booking 50 Bk_CONFIRMED)) = Some (fx_user 1 CUSTOMER)"
    "find_profile (w_db ?w) (b_artisanProfileId (fx_booking 50 Bk_CONFIRMED)) = Some fx_profile" "pr_userId fx_profile = Some 2" "find_user (w_db ?w) 2 = Some (fx_user 2 ARTISAN)"
    "job_of_booking (w_db ?w) 50 = Some ?j" "t_jobs (w_db ?w) = [?j]"
    by (simp_all add: fx_booking_defs find_booking_def find_row_def find_user_def find_profile_def job_of_booking_def Let_def)
  have "t_jobs (w_db (snd (cancel_booking fx_env 1 50 ?w))) = save_row j_id (?j\<lparr>j_status := CANCELLED\<rparr>) [?j]"
    using cancel_booking_atomic [OF run facts(1-5)] facts(6,7) by simp
  then show ?thesis by (simp add: save_row_def fx_job_def)
qed

section \<open>Late reminders\<close>

lemma calendarI: "b \<in> set (t_bookings d) \<Longrightarrow> occupying (b_status b) \<Longrightarrow> reservation_of b \<in> calendar_of d"
  by (simp add: calendar_of_def)

text \<open>
  C34. A reminder sent late undoes what happened meanwhile. The run loads every booking that is due and
  then sends one after the other, saving each whole. Whatever was done to a booking in between, its
  cancellation for instance, sending its reminder afterwards makes it CONFIRMED again; and if another
  booking was taken for that time in between, the artisan's calendar is double-booked.
\<close>

theorem late_reminder_restores:
  assumes "l \<in> set (find_reminder_candidates m w)" and "lb_customer l \<noteq> None" and "lb_artisanUser l \<noteq> None"
    and "b_id (lb_booking l) \<in> b_id ` set (t_bookings (w_db w1))"
  shows "\<exists>w2 b2. send_reminder m l w1 = (Inr (), w2) \<and> find_booking (w_db w2) (b_id (lb_booking l)) = Some b2 \<and> b_status b2 = Bk_CONFIRMED
     \<and> (\<forall>b'. b' \<in> set (t_bookings (w_db w1)) \<and> b_id b' \<noteq> b_id (lb_booking l) \<and> occupying (b_status b')
          \<and> clashes (reservation_of (lb_booking l)) (reservation_of b') \<longrightarrow> \<not> sound_calendar (calendar_of (w_db w2)))"
proof -
  let ?b2 = "stamp_reminder m (clock w1) (lb_booking l)"
  obtain c u where people: "lb_customer l = Some c" "lb_artisanUser l = Some u" using assms(2,3) by blast
  have status: "b_status ?b2 = Bk_CONFIRMED"
    using assms(1) by (auto simp: find_reminder_candidates_def reminder_due_def)
  obtain w2 where w2: "send_reminder m l w1 = (Inr (), w2)" "w_db w2 = put_booking ?b2 (w_db w1)"
    using people by (simp add: send_reminder_def Let_def run_simps)
  have rows: "?b2 \<in> set (t_bookings (w_db w2))"
    "\<And>b'. b' \<in> set (t_bookings (w_db w1)) \<Longrightarrow> b_id b' \<noteq> b_id (lb_booking l) \<Longrightarrow> b' \<in> set (t_bookings (w_db w2))"
    using in_save_row [of ?b2 b_id] by (auto simp: w2(2) put_booking_def save_row_def)
  have "\<not> sound_calendar (calendar_of (w_db w2))" if "b' \<in> set (t_bookings (w_db w1))" "b_id b' \<noteq> b_id (lb_booking l)"
    "occupying (b_status b')" "clashes (reservation_of (lb_booking l)) (reservation_of b')" for b'
  proof -
    have "reservation_of (lb_booking l) \<in> calendar_of (w_db w2)" "reservation_of b' \<in> calendar_of (w_db w2)"
      using calendarI [OF rows(1)] calendarI [OF rows(2) [OF that(1,2)] that(3)] status by simp_all
    moreover have "rv_booking (reservation_of (lb_booking l)) \<noteq> rv_booking (reservation_of b')"
      using that(2) by (simp add: reservation_of_def)
    ultimately show ?thesis using that(4) by (auto simp: sound_calendar_def)
  qed
  moreover have "find_booking (w_db w2) (b_id (lb_booking l)) = Some ?b2"
    using find_booking_put [of ?b2 "w_db w1"] by (simp add: w2(2))
  ultimately show ?thesis using w2(1) status by blast
qed


definition fx_due :: world where
  "fx_due = (fx_booked [fx_booking 50 Bk_CONFIRMED] [] [])\<lparr>clock := 115200001\<rparr>"

theorem late_reminder_restores_witness:
  "\<exists>w2. send_reminder Reminder2H (with_booking_relations (w_db fx_due) (fx_booking 50 Bk_CONFIRMED))
          (fx_booked [fx_booking 50 Bk_CANCELLED, fx_booking 51 Bk_PENDING] [] []) = (Inr (), w2)
     \<and> \<not> sound_calendar (calendar_of (w_db w2))"
proof -
  let ?l = "with_booking_relations (w_db fx_due) (fx_booking 50 Bk_CONFIRMED)"
  let ?w1 = "fx_booked [fx_booking 50 Bk_CANCELLED, fx_booking 51 Bk_PENDING] [] []"
  have row: "b_scheduledDate (fx_booking k st) = ''1970-01-02''" "b_startTime (fx_booking k st) = ''10:00:00''"
    "b_endTime (fx_booking k st) = ''11:00:00''" "b_id (fx_booking k st) = k" "b_status (fx_booking k st) = st"
    "b_artisanProfileId (fx_booking k st) = 20" "b_customerId (fx_booking k st) = 1" "b_reminder2hSentAt (fx_booking k st) = None" for k st
    by (simp_all add: fx_booking_def new_booking_def fx_request_def Let_def to_clock_time_def)
  have bookings: "t_bookings (w_db fx_due) = [fx_booking 50 Bk_CONFIRMED]" "clock fx_due = 115200001"
    "t_bookings (w_db ?w1) = [fx_booking 50 Bk_CANCELLED, fx_booking 51 Bk_PENDING]"
    by (simp_all add: fx_due_def fx_booked_def)
  have "to_utc_instant ''1970-01-02'' ''10:00:00'' = Some 122400000"
    using fx_date fx_clock by (simp add: to_utc_instant_def DAY_MS_def to_clock_time_def)
  then have "?l \<in> set (find_reminder_candidates Reminder2H fx_due)"
    by (simp add: find_reminder_candidates_def bookings reminder_due_def row REMINDER_BAND_MS_def)
  moreover have "lb_customer ?l \<noteq> None" "lb_artisanUser ?l \<noteq> None"
    by (simp_all add: with_booking_relations_def row fx_due_def fx_booked_def fx_defs find_user_def find_profile_def find_row_def
        user_of_profile_def Let_def)
  moreover have "b_id (lb_booking ?l) \<in> b_id ` set (t_bookings (w_db ?w1))" by (simp add: bookings row)
  moreover have "clashes (reservation_of (lb_booking ?l)) (reservation_of (fx_booking 51 Bk_PENDING))"
  proof -
    have "''10:00:00'' < ''11:00:00''" by code_simp
    then show ?thesis by (simp add: clashes_def reservation_of_def row)
  qed
  moreover have "fx_booking 51 Bk_PENDING \<in> set (t_bookings (w_db ?w1))" "occupying (b_status (fx_booking 51 Bk_PENDING))"
    "b_id (fx_booking 51 Bk_PENDING) \<noteq> b_id (lb_booking ?l)" by (simp_all add: bookings row)
  ultimately show ?thesis using late_reminder_restores [of ?l Reminder2H fx_due ?w1] by blast
qed

end
