(* ===== verification/Disputes.thy ===== *)
theory Disputes
  imports Bookings
begin

text \<open>
  Disputes over a booking (disputes/disputes.service.ts, disputes/entities/dispute.entity.ts): filing one, the
  counterparty's single response, the reads of both parties and of the admin, and the rulings of an
  admin, which may refund or release the payment behind the booking. The statements a ruling is made of
  (plan, claim, payment call, rollback, record) are definitions of their own, so that other rulings can be put
  between them. A profile picture is not part of a user's row here, so the party summaries leave it out.
\<close>

section \<open>The table\<close>

definition ACTIVE_STATUSES :: "dispute_status list" where
  "ACTIVE_STATUSES = [Dp_OPEN, Dp_UNDER_REVIEW]"

definition active_dispute :: "dispute \<Rightarrow> bool" where
  "active_dispute dp \<longleftrightarrow> dp_status dp \<in> set ACTIVE_STATUSES"

definition find_dispute :: "db \<Rightarrow> nat \<Rightarrow> dispute option" where
  "find_dispute d k = find_row dp_id k (t_disputes d)"

definition put_dispute :: "dispute \<Rightarrow> db \<Rightarrow> db" where
  "put_dispute x d = d\<lparr>t_disputes := save_row dp_id x (t_disputes d)\<rparr>"

definition wf_disputes :: "db \<Rightarrow> bool" where
  "wf_disputes d \<longleftrightarrow> distinct (map dp_id (t_disputes d))"

interpretation disputes: repository dp_id "\<lambda>k d. find_dispute d k" put_dispute wf_disputes
  by unfold_locales
    (auto simp: find_dispute_def put_dispute_def wf_disputes_def find_row_save_same
      find_row_save_other save_row_distinct dest: find_row_SomeD)

definition update_disputes :: "(dispute \<Rightarrow> bool) \<Rightarrow> (dispute \<Rightarrow> dispute) \<Rightarrow> db \<Rightarrow> db" where
  "update_disputes p f d = d\<lparr>t_disputes := update_where p f (t_disputes d)\<rparr>"

text \<open>\<open>UPDATE ... SET f WHERE p\<close>, answering whether a row was affected.\<close>

definition conditional_update :: "(dispute \<Rightarrow> bool) \<Rightarrow> (dispute \<Rightarrow> dispute) \<Rightarrow> bool act" where
  "conditional_update p f =
     bnd (asks (\<lambda>w. \<exists>x \<in> set (t_disputes (w_db w)). p x)) (\<lambda>hit.
     andthen (with_db (update_disputes p f)) (ret hit))"

text \<open>
  \<open>uq_disputes_money_payment\<close>: a payment is claimed by at most one dispute. \<open>claims p x\<close> is the index's
  condition on the row \<open>x\<close>, \<open>claimed_by_other\<close> what makes a write of \<open>did\<close> violate it.
\<close>

definition claims :: "nat \<Rightarrow> dispute \<Rightarrow> bool" where
  "claims p x \<longleftrightarrow> dp_moneyPaymentId x = Some p \<and> dp_moneyAction x \<noteq> None \<and> dp_moneyAction x \<noteq> Some Mn_NONE"

definition claimed_by_other :: "nat \<Rightarrow> nat \<Rightarrow> db \<Rightarrow> bool" where
  "claimed_by_other did p d \<longleftrightarrow> (\<exists>x \<in> set (t_disputes d). dp_id x \<noteq> did \<and> claims p x)"

record loaded_dispute =
  ld_dispute :: dispute
  ld_booking :: "loaded_booking option"
  ld_raisedBy :: "user option"
  ld_respondedBy :: "user option"
  ld_resolvedBy :: "user option"

definition with_dispute_relations :: "db \<Rightarrow> dispute \<Rightarrow> loaded_dispute" where
  "with_dispute_relations d dp =
     \<lparr>ld_dispute = dp, ld_booking = map_option (with_booking_relations d) (find_booking d (dp_bookingId dp)),
      ld_raisedBy = find_user d (dp_raisedById dp),
      ld_respondedBy = Option.bind (dp_respondedById dp) (find_user d),
      ld_resolvedBy = Option.bind (dp_resolvedById dp) (find_user d)\<rparr>"

definition load_dispute :: "nat \<Rightarrow> loaded_dispute act" where
  "load_dispute did =
     bnd (asks (\<lambda>w. find_dispute (w_db w) did)) (\<lambda>dp0.
     bnd (some_or (NotFound_dispute Dispute_not_found) dp0) (\<lambda>dp.
     asks (\<lambda>w. with_dispute_relations (w_db w) dp)))"

text \<open>\<open>participants\<close>: the ids of the customer and of the artisan's user, where they can be resolved.\<close>

definition participants :: "loaded_dispute \<Rightarrow> nat option \<times> nat option" where
  "participants l = (map_option u_id (Option.bind (ld_booking l) lb_customer),
     map_option u_id (Option.bind (ld_booking l) lb_artisanUser))"

section \<open>What is shown of a dispute\<close>

record party =
  pt_id :: nat
  pt_names :: "(string \<times> string) option"

definition party_of :: "user \<Rightarrow> party" where
  "party_of u = \<lparr>pt_id = u_id u, pt_names = Some (u_firstname u, u_lastname u)\<rparr>"

definition party_stub :: "nat \<Rightarrow> party" where
  "party_stub k = \<lparr>pt_id = k, pt_names = None\<rparr>"

record dispute_booking =
  db_id :: nat
  db_scheduledDate :: string
  db_status :: booking_status
  db_agreedPrice :: "money option"

definition booking_summary :: "booking \<Rightarrow> dispute_booking" where
  "booking_summary b = \<lparr>db_id = b_id b, db_scheduledDate = b_scheduledDate b, db_status = b_status b,
     db_agreedPrice = b_agreedPrice b\<rparr>"

record shown_dispute =
  sd_id :: nat
  sd_booking :: "dispute_booking option"
  sd_raisedBy :: "party option"
  sd_reason :: string
  sd_category :: dispute_category
  sd_status :: dispute_status
  sd_response :: "string option"
  sd_respondedBy :: "party option"
  sd_respondedAt :: "int option"
  sd_outcome :: "dispute_outcome option"
  sd_moneyAction :: "dispute_money option"
  sd_moneyAmount :: "money option"
  sd_resolution :: "string option"
  sd_resolvedAt :: "int option"
  sd_createdAt :: int

datatype viewer_role = RAISER | COUNTERPARTY

record party_dispute = shown_dispute +
  sd_viewerRole :: viewer_role
  sd_canRespond :: bool
  sd_responseDue :: bool
  sd_jobId :: "nat option"

record admin_dispute = shown_dispute +
  sd_moneyPaymentId :: "nat option"
  sd_adminNotes :: "string option"
  sd_resolvedBy :: "party option"

text \<open>Disputes filed before the category column existed read back as \<open>OTHER\<close>.\<close>

definition shown_category :: "dispute \<Rightarrow> dispute_category" where
  "shown_category dp = (case dp_category dp of None \<Rightarrow> OTHER | Some c \<Rightarrow> c)"

definition to_party_dto :: "dispute \<Rightarrow> booking option \<Rightarrow> party option \<Rightarrow> party option \<Rightarrow> nat \<Rightarrow> nat option \<Rightarrow> party_dispute" where
  "to_party_dto dp b raiser responder viewer jid =
     (let role = (if dp_raisedById dp = viewer then RAISER else COUNTERPARTY);
          due = (role = COUNTERPARTY \<and> \<not> truthy (dp_response dp) \<and> active_dispute dp)
      in \<lparr>sd_id = dp_id dp, sd_booking = map_option booking_summary b, sd_raisedBy = raiser, sd_reason = dp_reason dp,
          sd_category = shown_category dp, sd_status = dp_status dp, sd_response = dp_response dp, sd_respondedBy = responder,
          sd_respondedAt = dp_respondedAt dp, sd_outcome = dp_outcome dp, sd_moneyAction = dp_moneyAction dp,
          sd_moneyAmount = dp_moneyAmount dp, sd_resolution = dp_resolution dp, sd_resolvedAt = dp_resolvedAt dp,
          sd_createdAt = dp_createdAt dp, sd_viewerRole = role, sd_canRespond = due, sd_responseDue = due, sd_jobId = jid\<rparr>)"

definition to_dispute_dto :: "loaded_dispute \<Rightarrow> admin_dispute" where
  "to_dispute_dto l =
     (let dp = ld_dispute l
      in \<lparr>sd_id = dp_id dp, sd_booking = map_option (\<lambda>x. booking_summary (lb_booking x)) (ld_booking l),
          sd_raisedBy = map_option party_of (ld_raisedBy l), sd_reason = dp_reason dp,
          sd_category = shown_category dp, sd_status = dp_status dp, sd_response = dp_response dp,
          sd_respondedBy = map_option party_of (ld_respondedBy l),
          sd_respondedAt = dp_respondedAt dp, sd_outcome = dp_outcome dp, sd_moneyAction = dp_moneyAction dp,
          sd_moneyAmount = dp_moneyAmount dp, sd_resolution = dp_resolution dp, sd_resolvedAt = dp_resolvedAt dp,
          sd_createdAt = dp_createdAt dp, sd_moneyPaymentId = dp_moneyPaymentId dp, sd_adminNotes = dp_adminNotes dp,
          sd_resolvedBy = map_option party_of (ld_resolvedBy l)\<rparr>)"

text \<open>Booking id to job id, deleted jobs included.\<close>

definition job_ids_for_bookings :: "db \<Rightarrow> nat list \<Rightarrow> nat \<Rightarrow> nat option" where
  "job_ids_for_bookings d ids =
     map_of (rev (map (\<lambda>j. (the (j_bookingId j), j_id j))
       (filter (\<lambda>j. \<exists>b \<in> set ids. j_bookingId j = Some b) (t_jobs d))))"

section \<open>Filing and answering\<close>

definition new_dispute :: "nat \<Rightarrow> nat \<Rightarrow> nat \<Rightarrow> string \<Rightarrow> dispute_category \<Rightarrow> int \<Rightarrow> dispute" where
  "new_dispute k bid uid reason cat now =
     \<lparr>dp_id = k, dp_bookingId = bid, dp_raisedById = uid, dp_reason = reason, dp_category = Some cat,
      dp_status = Dp_OPEN, dp_response = None, dp_respondedById = None, dp_respondedAt = None, dp_adminNotes = None,
      dp_resolution = None, dp_outcome = None, dp_moneyAction = None, dp_moneyAmount = None, dp_moneyPaymentId = None,
      dp_resolvedById = None, dp_resolvedAt = None, dp_createdAt = now\<rparr>"

definition insert_dispute :: "(nat \<Rightarrow> dispute) \<Rightarrow> dispute act" where
  "insert_dispute mk = bnd (fresh T_disputes) (\<lambda>k. andthen (with_db (put_dispute (mk k))) (ret (mk k)))"

definition raise_dispute :: "nat \<Rightarrow> nat \<Rightarrow> string \<Rightarrow> dispute_category \<Rightarrow> party_dispute act" where
  "raise_dispute uid bid reason cat =
     bnd (asks (\<lambda>w. find_booking (w_db w) bid)) (\<lambda>b0.
     bnd (some_or (NotFound_dispute Disputed_booking_not_found) b0) (\<lambda>b.
     bnd (asks (\<lambda>w. with_booking_relations (w_db w) b)) (\<lambda>l.
     bnd (booking_customer l) (\<lambda>c. bnd (artisan_user_of l) (\<lambda>u.
     let is_customer = (u_id c = uid); is_artisan = (u_id u = uid) in
     andthen (guard (is_customer \<or> is_artisan) (Forbidden_dispute Not_a_participant))
     (andthen (guard (b_status b \<in> {Bk_COMPLETED, Bk_CANCELLED}) (BadRequest_dispute (Not_disputable (b_status b))))
     (bnd (asks (\<lambda>w. \<exists>x \<in> set (t_disputes (w_db w)). dp_bookingId x = bid \<and> dp_raisedById x = uid)) (\<lambda>existing.
      andthen (guard (\<not> existing) (BadRequest_dispute Already_raised))
      (bnd (asks clock) (\<lambda>now.
       bnd (insert_dispute (\<lambda>k. new_dispute k bid uid reason cat now)) (\<lambda>dp.
       andthen (emit (DISPUTE_FILED (dp_id dp) bid (full_name (if is_customer then c else u))
          (if is_customer then CUSTOMER else ARTISAN) (Some (u_id (if is_customer then u else c))) cat))
       (asks (\<lambda>w. to_party_dto dp (Some b) (Some (party_stub uid)) None uid (job_ids_for_bookings (w_db w) [bid] bid)))
      )))))))))))"

definition participant_scope :: "db \<Rightarrow> nat \<Rightarrow> dispute \<Rightarrow> bool" where
  "participant_scope d uid dp \<longleftrightarrow> dp_raisedById dp = uid
     \<or> (case find_booking d (dp_bookingId dp) of None \<Rightarrow> False
        | Some b \<Rightarrow> b_customerId b = uid
            \<or> Option.bind (find_profile d (b_artisanProfileId b)) pr_userId = Some uid)"

definition party_view :: "db \<Rightarrow> nat \<Rightarrow> (nat \<Rightarrow> nat option) \<Rightarrow> dispute \<Rightarrow> party_dispute" where
  "party_view d uid jobs dp =
     to_party_dto dp (find_booking d (dp_bookingId dp)) (map_option party_of (find_user d (dp_raisedById dp)))
       (map_option party_of (Option.bind (dp_respondedById dp) (find_user d))) uid (jobs (dp_bookingId dp))"

text \<open>\<open>ORDER BY created_at DESC\<close>; disputes of one instant stay in table order.\<close>

definition get_my_disputes :: "nat \<Rightarrow> bool \<Rightarrow> party_dispute list act" where
  "get_my_disputes uid only_due = asks (\<lambda>w.
     let d = w_db w;
         found = sort_key (\<lambda>x. - dp_createdAt x) (filter (participant_scope d uid) (t_disputes d));
         shown = map (party_view d uid (job_ids_for_bookings d (map dp_bookingId found))) found
     in if only_due then filter sd_responseDue shown else shown)"

definition get_my_dispute :: "nat \<Rightarrow> nat \<Rightarrow> party_dispute act" where
  "get_my_dispute uid did =
     bnd (asks (\<lambda>w. find (\<lambda>x. participant_scope (w_db w) uid x \<and> dp_id x = did) (t_disputes (w_db w)))) (\<lambda>dp0.
     bnd (some_or (NotFound_dispute Dispute_not_found) dp0) (\<lambda>dp.
     asks (\<lambda>w. party_view (w_db w) uid (job_ids_for_bookings (w_db w) [dp_bookingId dp]) dp)))"

definition assert_respondable :: "dispute \<Rightarrow> unit act" where
  "assert_respondable dp =
     andthen (guard (active_dispute dp) (BadRequest_dispute (No_longer_open (dp_status dp))))
       (guard (\<not> truthy (dp_response dp)) (BadRequest_dispute Already_responded))"

definition answered :: "nat \<Rightarrow> string \<Rightarrow> int \<Rightarrow> dispute \<Rightarrow> dispute" where
  "answered uid answer now dp = dp\<lparr>dp_response := Some answer, dp_respondedById := Some uid, dp_respondedAt := Some now\<rparr>"

definition write_response :: "nat \<Rightarrow> nat \<Rightarrow> string \<Rightarrow> int \<Rightarrow> bool act" where
  "write_response uid did answer now =
     conditional_update (\<lambda>x. dp_id x = did \<and> dp_response x = None \<and> active_dispute x) (answered uid answer now)"

definition respond :: "nat \<Rightarrow> nat \<Rightarrow> string \<Rightarrow> party_dispute act" where
  "respond uid did answer =
     bnd (load_dispute did) (\<lambda>l.
     let dp = ld_dispute l in
     andthen (guard (fst (participants l) = Some uid \<or> snd (participants l) = Some uid) (NotFound_dispute Dispute_not_found))
     (andthen (guard (uid \<noteq> dp_raisedById dp) (Forbidden_dispute Raiser_cannot_respond))
     (andthen (assert_respondable dp)
     (bnd (asks clock) (\<lambda>now.
      bnd (write_response uid did answer now) (\<lambda>affected.
      if \<not> affected
      then bnd (load_dispute did) (\<lambda>cur. andthen (assert_respondable (ld_dispute cur)) (throw (BadRequest_dispute Changed_while_writing)))
      else asks (\<lambda>w. to_party_dto (answered uid answer now dp) (map_option lb_booking (ld_booking l))
             (map_option party_of (ld_raisedBy l)) (Some (party_stub uid)) uid
             (job_ids_for_bookings (w_db w) [dp_bookingId dp] (dp_bookingId dp)))))))))"

section \<open>The admin's queue\<close>

record dispute_query =
  dq_status :: "dispute_status option"
  dq_category :: "dispute_category option"
  dq_q :: "string option"
  dq_page :: nat
  dq_limit :: nat

definition search_term :: "dispute_query \<Rightarrow> string option" where
  "search_term q = (case dq_q q of None \<Rightarrow> None | Some t \<Rightarrow> if js_trim t = [] then None else Some (js_trim t))"

definition numeric_term :: "string \<Rightarrow> nat option" where
  "numeric_term t = (if t \<noteq> [] \<and> is_digits t then Some (digits_value t) else None)"

definition INT4_MAX :: nat where
  "INT4_MAX = 2 ^ 31 - 1"

text \<open>
  The search pattern is not escaped, so \<open>%\<close> and \<open>_\<close> in it are wildcards. A number that is no \<open>int4\<close> cannot
  be compared with an id column.
\<close>

definition matches_term :: "unicode \<Rightarrow> db \<Rightarrow> string \<Rightarrow> dispute \<Rightarrow> bool" where
  "matches_term uc d t dp \<longleftrightarrow>
     (let like = CHR ''%'' # map (uc_lower uc) t @ ''%''
      in (case find_user d (dp_raisedById dp) of None \<Rightarrow> False
          | Some u \<Rightarrow> like_match like (map (uc_lower uc) (full_name u)) \<or> like_match like (map (uc_lower uc) (u_email u)))
         \<or> (case numeric_term t of None \<Rightarrow> False | Some n \<Rightarrow> dp_id dp = n \<or> dp_bookingId dp = n))"

definition apply_queue_filters :: "unicode \<Rightarrow> db \<Rightarrow> dispute_query \<Rightarrow> dispute list \<Rightarrow> dispute list" where
  "apply_queue_filters uc d q xs =
     filter (\<lambda>x. (case dq_status q of None \<Rightarrow> True | Some s \<Rightarrow> dp_status x = s)
       \<and> (case dq_category q of None \<Rightarrow> True | Some c \<Rightarrow> dp_category x = Some c)
       \<and> (case search_term q of None \<Rightarrow> True | Some t \<Rightarrow> matches_term uc d t x)) xs"

definition searchable :: "dispute_query \<Rightarrow> bool" where
  "searchable q \<longleftrightarrow> (case Option.bind (search_term q) numeric_term of None \<Rightarrow> True | Some n \<Rightarrow> n \<le> INT4_MAX)"

definition find_all_disputes :: "unicode \<Rightarrow> dispute_query \<Rightarrow> (admin_dispute list \<times> pagination) act" where
  "find_all_disputes uc q =
     andthen (guard (searchable q) OutOfRange)
     (asks (\<lambda>w. let d = w_db w; rows = apply_queue_filters uc d q (t_disputes d)
       in (map (\<lambda>x. to_dispute_dto (with_dispute_relations d x)) (page_of (dq_page q) (dq_limit q) (sort_key (\<lambda>x. - dp_createdAt x) rows)),
           paginate (length rows) (dq_page q) (dq_limit q))))"

record queue_counts =
  qc_open :: nat
  qc_underReview :: nat
  qc_resolved :: nat
  qc_closed :: nat
  qc_total :: nat

definition group_by_status :: "dispute list \<Rightarrow> (dispute_status \<times> nat) list" where
  "group_by_status xs = filter (\<lambda>(s, n). n > 0)
     (map (\<lambda>s. (s, length (filter (\<lambda>x. dp_status x = s) xs))) [Dp_OPEN, Dp_UNDER_REVIEW, Dp_RESOLVED, Dp_CLOSED])"

fun count_group :: "dispute_status \<times> nat \<Rightarrow> queue_counts \<Rightarrow> queue_counts" where
  "count_group (s, n) c = (let c' = c\<lparr>qc_total := qc_total c + n\<rparr> in case s of
     Dp_OPEN \<Rightarrow> c'\<lparr>qc_open := n\<rparr> | Dp_UNDER_REVIEW \<Rightarrow> c'\<lparr>qc_underReview := n\<rparr>
   | Dp_RESOLVED \<Rightarrow> c'\<lparr>qc_resolved := n\<rparr> | Dp_CLOSED \<Rightarrow> c'\<lparr>qc_closed := n\<rparr>)"

definition queue_counts_of :: "dispute list \<Rightarrow> queue_counts" where
  "queue_counts_of xs = fold count_group (group_by_status xs)
     \<lparr>qc_open = 0, qc_underReview = 0, qc_resolved = 0, qc_closed = 0, qc_total = 0\<rparr>"

definition SLA_HOURS :: nat where
  "SLA_HOURS = 48"

record resolution_metrics =
  rm_averageResolutionHours :: rat
  rm_resolvedCount :: nat
  rm_filedCount :: nat
  rm_openCount :: nat
  rm_openPast48h :: nat
  rm_slaHours :: nat
  rm_breachesTarget :: bool

definition filed_between :: "int option \<Rightarrow> int option \<Rightarrow> dispute \<Rightarrow> bool" where
  "filed_between from till x \<longleftrightarrow> (case from of None \<Rightarrow> True | Some t \<Rightarrow> t \<le> dp_createdAt x)
     \<and> (case till of None \<Rightarrow> True | Some t \<Rightarrow> dp_createdAt x \<le> t)"

definition average_seconds :: "dispute list \<Rightarrow> rat" where
  "average_seconds xs = (if xs = [] then 0
     else of_int (sum_list (map (\<lambda>x. the (dp_resolvedAt x) - dp_createdAt x) xs)) / 1000 / of_nat (length xs))"

definition get_resolution_metrics :: "int option \<Rightarrow> int option \<Rightarrow> resolution_metrics act" where
  "get_resolution_metrics from till = asks (\<lambda>w.
     let scoped = filter (filed_between from till) (t_disputes (w_db w));
         settled = filter (\<lambda>x. dp_resolvedAt x \<noteq> None) scoped;
         hours = average_seconds settled / 3600;
         active = filter active_dispute scoped
     in \<lparr>rm_averageResolutionHours = (if settled \<noteq> [] then of_int (to_fixed2 hours) / 100 else 0),
         rm_resolvedCount = length settled, rm_filedCount = length scoped, rm_openCount = length active,
         rm_openPast48h = length (filter (\<lambda>x. dp_createdAt x < clock w - 48 * 3600 * 1000) active),
         rm_slaHours = SLA_HOURS, rm_breachesTarget = (settled \<noteq> [] \<and> hours > of_nat SLA_HOURS)\<rparr>)"

definition get_queue_summary :: "unicode \<Rightarrow> dispute_query \<Rightarrow> (queue_counts \<times> resolution_metrics) act" where
  "get_queue_summary uc q =
     andthen (guard (searchable q) OutOfRange)
     (bnd (asks (\<lambda>w. queue_counts_of (apply_queue_filters uc (w_db w) (q\<lparr>dq_status := None\<rparr>) (t_disputes (w_db w))))) (\<lambda>counts.
      bnd (get_resolution_metrics None None) (\<lambda>sla. ret (counts, sla))))"

end
