(* ===== verification/Rulings.thy ===== *)
theory Rulings
  imports Disputes
begin

text \<open>
  The admin's side of a dispute (disputes/disputes.service.ts): the detail with what a ruling could do to the
  money, the review, the ruling itself and closing. \<open>resolve\<close> is composed of the statements it makes, in
  its order: load, plan, claim, payment call, rollback or record, notify, audit. Each is one step on the
  tables, so what is proved of a step holds wherever other requests fall between two of them.
\<close>

section \<open>The work and the payment behind a dispute\<close>

definition linked_payment :: "db \<Rightarrow> nat \<Rightarrow> payment option" where
  "linked_payment d jid =
     (case sort_key (\<lambda>p. - p_createdAt p) (filter (\<lambda>p. p_jobId p = jid) (t_payments d)) of [] \<Rightarrow> None | p # _ \<Rightarrow> Some p)"

definition find_linked_work :: "db \<Rightarrow> nat \<Rightarrow> job option \<times> payment option" where
  "find_linked_work d bid =
     (case find (\<lambda>j. j_bookingId j = Some bid) (t_jobs d) of None \<Rightarrow> (None, None)
      | Some j \<Rightarrow> (Some j, linked_payment d (j_id j)))"

section \<open>What the money side of a verdict will do\<close>

datatype skip_reason = Mutual_by_design | No_payment_linked | Sibling_moved nat "dispute_money option"
  | Sibling_abandoned nat "dispute_money option" | Not_refundable payment_status | Cannot_be_refunded | Fully_refunded_already
  | Released_already | Payout_awaiting_confirmation | Nothing_withheld payment_status | Claimed_by_sibling

record money_plan =
  mp_action :: dispute_money
  mp_paymentId :: "nat option"
  mp_amount :: "money option"
  mp_skipped :: "skip_reason option"

definition skip_money :: "skip_reason \<Rightarrow> money_plan" where
  "skip_money why = \<lparr>mp_action = Mn_NONE, mp_paymentId = None, mp_amount = None, mp_skipped = Some why\<rparr>"

definition move_money :: "dispute_money \<Rightarrow> nat \<Rightarrow> money \<Rightarrow> money_plan" where
  "move_money act pid amt = \<lparr>mp_action = act, mp_paymentId = Some pid, mp_amount = Some amt, mp_skipped = None\<rparr>"

definition plan_refund :: "payment \<Rightarrow> money option \<Rightarrow> exn + money_plan" where
  "plan_refund p requested =
     (if p_status p \<notin> {Pay_HELD, Pay_RELEASED} then Inr (skip_money (Not_refundable (p_status p)))
      else let remaining = to_fixed2 (cedis (p_amount p) - cedis (p_refundedAmount p)) in
        if remaining \<le> 0 then Inr (skip_money Fully_refunded_already)
        else let amount = (case requested of Some a \<Rightarrow> a | None \<Rightarrow> remaining) in
          if amount > remaining then Inl (BadRequest_dispute (Amount_over_balance amount remaining))
          else Inr (move_money Mn_REFUND (p_id p) amount))"

definition plan_release :: "payment \<Rightarrow> money_plan" where
  "plan_release p =
     (if p_status p = Pay_RELEASED then skip_money Released_already
      else if p_status p = Pay_HELD \<and> truthy (p_transferCode p) then skip_money Payout_awaiting_confirmation
      else if p_status p \<notin> {Pay_HELD, Pay_PENDING_TRANSFER, Pay_TRANSFER_FAILED} then skip_money (Nothing_withheld (p_status p))
      else move_money Mn_RELEASE (p_id p) (p_artisanAmount p))"

definition describe_sibling_money_claim :: "dispute \<Rightarrow> skip_reason" where
  "describe_sibling_money_claim s =
     (if dp_moneyAmount s \<noteq> None then Sibling_moved (dp_id s) (dp_moneyAction s) else Sibling_abandoned (dp_id s) (dp_moneyAction s))"

record resolve_input =
  rs_outcome :: dispute_outcome
  rs_resolution :: string
  rs_refundAmount :: "money option"
  rs_adminNotes :: "string option"

definition sibling_with_money :: "db \<Rightarrow> dispute \<Rightarrow> nat \<Rightarrow> dispute option" where
  "sibling_with_money d dp pid =
     find (\<lambda>x. dp_bookingId x = dp_bookingId dp \<and> dp_id x \<noteq> dp_id dp \<and> dp_moneyPaymentId x = Some pid
       \<and> dp_moneyAction x \<in> {Some Mn_REFUND, Some Mn_RELEASE}) (t_disputes d)"

definition plan_money_action :: "db \<Rightarrow> dispute \<Rightarrow> resolve_input \<Rightarrow> exn + money_plan" where
  "plan_money_action d dp i =
     (if rs_outcome i = MUTUAL then
        (if rs_refundAmount i \<noteq> None then Inl (BadRequest_dispute Amount_with_mutual) else Inr (skip_money Mutual_by_design))
      else if rs_refundAmount i \<noteq> None \<and> rs_outcome i \<noteq> REFUND_CLIENT then Inl (BadRequest_dispute Amount_without_refund)
      else case snd (find_linked_work d (dp_bookingId dp)) of None \<Rightarrow> Inr (skip_money No_payment_linked)
      | Some p \<Rightarrow>
        (case sibling_with_money d dp (p_id p) of Some s \<Rightarrow> Inr (skip_money (describe_sibling_money_claim s))
         | None \<Rightarrow> if rs_outcome i = REFUND_CLIENT then plan_refund p (rs_refundAmount i) else Inr (plan_release p)))"

section \<open>The admin's detail\<close>

record money_options =
  mo_canRefund :: bool
  mo_canRelease :: bool
  mo_reason :: "skip_reason option"
  mo_refundReason :: "skip_reason option"
  mo_releaseReason :: "skip_reason option"
  mo_refundableAmount :: money
  mo_releasableAmount :: money
  mo_paymentStatus :: "payment_status option"

definition no_money_options :: "skip_reason \<Rightarrow> money_options" where
  "no_money_options why = \<lparr>mo_canRefund = False, mo_canRelease = False, mo_reason = Some why, mo_refundReason = None,
     mo_releaseReason = None, mo_refundableAmount = 0, mo_releasableAmount = 0, mo_paymentStatus = None\<rparr>"

definition describe_money_options :: "payment option \<Rightarrow> dispute list \<Rightarrow> money_options" where
  "describe_money_options p0 siblings =
     (case p0 of None \<Rightarrow> no_money_options No_payment_linked
      | Some p \<Rightarrow> (case find (claims (p_id p)) siblings of
          Some s \<Rightarrow> no_money_options (describe_sibling_money_claim s)
        | None \<Rightarrow>
            let refund = (case plan_refund p None of Inr m \<Rightarrow> m | Inl _ \<Rightarrow> skip_money Cannot_be_refunded);
                release = plan_release p
            in \<lparr>mo_canRefund = (mp_action refund = Mn_REFUND), mo_canRelease = (mp_action release = Mn_RELEASE),
                mo_reason = None, mo_refundReason = mp_skipped refund, mo_releaseReason = mp_skipped release,
                mo_refundableAmount = (case mp_amount refund of Some a \<Rightarrow> a | None \<Rightarrow> 0),
                mo_releasableAmount = (case mp_amount release of Some a \<Rightarrow> a | None \<Rightarrow> 0),
                mo_paymentStatus = Some (p_status p)\<rparr>))"

record sibling_summary =
  sg_id :: nat
  sg_status :: dispute_status
  sg_outcome :: "dispute_outcome option"
  sg_moneyAction :: "dispute_money option"
  sg_raisedById :: nat
  sg_raisedByName :: "string option"
  sg_createdAt :: int

definition sibling_disputes :: "db \<Rightarrow> dispute \<Rightarrow> dispute list" where
  "sibling_disputes d dp = sort_key dp_createdAt
     (filter (\<lambda>x. dp_bookingId x = dp_bookingId dp \<and> dp_id x \<noteq> dp_id dp) (t_disputes d))"

definition summarise_sibling :: "db \<Rightarrow> dispute \<Rightarrow> sibling_summary" where
  "summarise_sibling d s = \<lparr>sg_id = dp_id s, sg_status = dp_status s, sg_outcome = dp_outcome s,
     sg_moneyAction = dp_moneyAction s, sg_raisedById = dp_raisedById s,
     sg_raisedByName = map_option full_name (find_user d (dp_raisedById s)), sg_createdAt = dp_createdAt s\<rparr>"

definition counterparty_summary :: "loaded_dispute \<Rightarrow> (party \<times> role) option" where
  "counterparty_summary l =
     (let customer = Option.bind (ld_booking l) lb_customer; artisan = Option.bind (ld_booking l) lb_artisanUser;
          other = (if Some (dp_raisedById (ld_dispute l)) = map_option u_id customer then artisan else customer)
      in map_option (\<lambda>u. (party_of u, if Some (u_id u) = map_option u_id artisan then ARTISAN else CUSTOMER)) other)"

record work_job =
  wj_id :: nat
  wj_title :: "string option"
  wj_status :: status
  wj_location :: string
  wj_budgetMax :: "money option"
  wj_currency :: string
  wj_createdAt :: int
  wj_completedAt :: "int option"
  wj_deletedAt :: "int option"

record work_detail =
  wd_bookingId :: nat
  wd_service :: "(nat \<times> string) option"
  wd_scheduledDate :: string
  wd_startTime :: string
  wd_endTime :: string
  wd_bookingStatus :: booking_status
  wd_agreedPrice :: "money option"
  wd_currency :: string
  wd_job :: "work_job option"

text \<open>The latest transition of a job into \<open>COMPLETED\<close>.\<close>

definition completed_at :: "db \<Rightarrow> nat \<Rightarrow> int option" where
  "completed_at d jid =
     (case sort_key (\<lambda>h. - h_createdAt h) (filter (\<lambda>h. h_jobId h = jid \<and> h_to h = COMPLETED) (t_history d)) of
        [] \<Rightarrow> None | h # _ \<Rightarrow> Some (h_createdAt h))"

definition build_work_detail :: "db \<Rightarrow> loaded_booking \<Rightarrow> job option \<Rightarrow> work_detail" where
  "build_work_detail d l j0 =
     (let b = lb_booking l; named = map_option (\<lambda>s. (s_id s, s_name s))
      in \<lparr>wd_bookingId = b_id b,
          wd_service = (case lb_service l of Some s \<Rightarrow> Some (s_id s, s_name s)
            | None \<Rightarrow> named (Option.bind j0 (\<lambda>j. find_service d (j_serviceId j)))),
          wd_scheduledDate = b_scheduledDate b, wd_startTime = b_startTime b, wd_endTime = b_endTime b,
          wd_bookingStatus = b_status b, wd_agreedPrice = b_agreedPrice b, wd_currency = b_currency b,
          wd_job = map_option (\<lambda>j. \<lparr>wj_id = j_id j, wj_title = j_title j, wj_status = j_status j, wj_location = j_location j,
            wj_budgetMax = j_budgetMax j, wj_currency = j_currency j, wj_createdAt = j_createdAt j,
            wj_completedAt = completed_at d (j_id j), wj_deletedAt = j_deletedAt j\<rparr>) j0\<rparr>)"

record dispute_payment =
  dy_id :: nat
  dy_amount :: money
  dy_refundedAmount :: money
  dy_status :: payment_status
  dy_paidAt :: "int option"

definition to_payment_dto :: "payment \<Rightarrow> dispute_payment" where
  "to_payment_dto p = \<lparr>dy_id = p_id p, dy_amount = p_amount p, dy_refundedAmount = p_refundedAmount p,
     dy_status = p_status p, dy_paidAt = p_paidAt p\<rparr>"

record dispute_detail =
  dd_dispute :: admin_dispute
  dd_counterparty :: "(party \<times> role) option"
  dd_jobId :: "nat option"
  dd_payment :: "dispute_payment option"
  dd_work :: "work_detail option"
  dd_siblings :: "sibling_summary list"
  dd_moneyOptions :: money_options

definition dispute_detail_of :: "db \<Rightarrow> dispute \<Rightarrow> dispute_detail" where
  "dispute_detail_of d dp =
     (let l = with_dispute_relations d dp; (j0, p0) = find_linked_work d (dp_bookingId dp); siblings = sibling_disputes d dp
      in \<lparr>dd_dispute = to_dispute_dto l, dd_counterparty = counterparty_summary l, dd_jobId = map_option j_id j0,
          dd_payment = map_option to_payment_dto p0, dd_work = map_option (\<lambda>b. build_work_detail d b j0) (ld_booking l),
          dd_siblings = map (summarise_sibling d) siblings, dd_moneyOptions = describe_money_options p0 siblings\<rparr>)"

definition find_one_dispute :: "nat \<Rightarrow> dispute_detail act" where
  "find_one_dispute did =
     bnd (asks (\<lambda>w. find_dispute (w_db w) did)) (\<lambda>dp0.
     bnd (some_or (NotFound_dispute Dispute_not_found) dp0) (\<lambda>dp.
     asks (\<lambda>w. dispute_detail_of (w_db w) dp)))"

definition write_review :: "nat \<Rightarrow> bool act" where
  "write_review did =
     conditional_update (\<lambda>x. dp_id x = did \<and> dp_status x = Dp_OPEN) (\<lambda>x. x\<lparr>dp_status := Dp_UNDER_REVIEW\<rparr>)"

definition start_review :: "nat \<Rightarrow> unit act" where
  "start_review did =
     bnd (load_dispute did) (\<lambda>l.
     andthen (guard (dp_status (ld_dispute l) = Dp_OPEN) (BadRequest_dispute (Cannot_start_review (dp_status (ld_dispute l)))))
     (bnd (write_review did) (\<lambda>affected.
      if affected then ret ()
      else bnd (load_dispute did) (\<lambda>cur. throw (BadRequest_dispute (Cannot_start_review (dp_status (ld_dispute cur))))))))"

section \<open>A ruling, statement by statement\<close>

datatype ruling_claim = CLAIMED | LOST_TO_ANOTHER_RULING | PAYMENT_CLAIMED_BY_SIBLING

definition moves_money :: "money_plan \<Rightarrow> bool" where
  "moves_money plan \<longleftrightarrow> mp_action plan \<noteq> Mn_NONE \<and> mp_paymentId plan \<noteq> None"

definition ruled :: "user \<Rightarrow> resolve_input \<Rightarrow> money_plan \<Rightarrow> int \<Rightarrow> dispute \<Rightarrow> dispute" where
  "ruled admin i plan now x =
     x\<lparr>dp_status := Dp_RESOLVED, dp_outcome := Some (rs_outcome i), dp_resolution := Some (rs_resolution i),
       dp_resolvedById := Some (u_id admin), dp_resolvedAt := Some now,
       dp_adminNotes := (if truthy (rs_adminNotes i) then rs_adminNotes i else dp_adminNotes x),
       dp_moneyAction := (if moves_money plan then Some (mp_action plan) else None),
       dp_moneyPaymentId := (if moves_money plan then mp_paymentId plan else None),
       dp_moneyAmount := None\<rparr>"

text \<open>The index is checked when a row is written, so a claim that matches no row cannot violate it.\<close>

definition claim_for_ruling :: "nat \<Rightarrow> user \<Rightarrow> resolve_input \<Rightarrow> money_plan \<Rightarrow> ruling_claim act" where
  "claim_for_ruling did admin i plan =
     bnd (asks clock) (\<lambda>now.
     bnd (asks (\<lambda>w. \<exists>x \<in> set (t_disputes (w_db w)). dp_id x = did \<and> active_dispute x)) (\<lambda>hit.
     bnd (asks (\<lambda>w. moves_money plan \<and> claimed_by_other did (the (mp_paymentId plan)) (w_db w))) (\<lambda>conflict.
     if hit \<and> conflict then ret PAYMENT_CLAIMED_BY_SIBLING
     else bnd (conditional_update (\<lambda>x. dp_id x = did \<and> active_dispute x) (ruled admin i plan now)) (\<lambda>affected.
       ret (if affected then CLAIMED else LOST_TO_ANOTHER_RULING)))))"

definition call_payments :: "env \<Rightarrow> user \<Rightarrow> money_plan \<Rightarrow> unit act" where
  "call_payments env admin plan =
     (if mp_action plan = Mn_REFUND then admin_refund env (the (mp_paymentId plan)) (mp_amount plan) (Some admin)
      else bnd (release_withheld_payment env (the (mp_paymentId plan))) (\<lambda>_. ret ()))"

record before_ruling =
  br_status :: dispute_status
  br_outcome :: "dispute_outcome option"
  br_resolution :: "string option"
  br_adminNotes :: "string option"

definition before_of :: "dispute \<Rightarrow> before_ruling" where
  "before_of x = \<lparr>br_status = dp_status x, br_outcome = dp_outcome x, br_resolution = dp_resolution x, br_adminNotes = dp_adminNotes x\<rparr>"

definition rolled_back :: "before_ruling \<Rightarrow> dispute \<Rightarrow> dispute" where
  "rolled_back prev x =
     x\<lparr>dp_status := br_status prev, dp_outcome := br_outcome prev, dp_resolution := br_resolution prev,
       dp_adminNotes := br_adminNotes prev, dp_resolvedById := None, dp_resolvedAt := None,
       dp_moneyAction := None, dp_moneyAmount := None, dp_moneyPaymentId := None\<rparr>"

definition roll_back_ruling :: "nat \<Rightarrow> user \<Rightarrow> before_ruling \<Rightarrow> bool act" where
  "roll_back_ruling did admin prev =
     conditional_update (\<lambda>x. dp_id x = did \<and> dp_status x = Dp_RESOLVED \<and> dp_resolvedById x = Some (u_id admin)) (rolled_back prev)"

record moved_money =
  mv_action :: dispute_money
  mv_amount :: money
  mv_paymentId :: nat

definition money_moved_by :: "money_plan \<Rightarrow> moved_money" where
  "money_moved_by plan = \<lparr>mv_action = mp_action plan, mv_amount = (case mp_amount plan of Some a \<Rightarrow> a | None \<Rightarrow> 0),
     mv_paymentId = the (mp_paymentId plan)\<rparr>"

definition nothing_to_move :: "money_plan \<Rightarrow> bool" where
  "nothing_to_move plan \<longleftrightarrow> mp_action plan = Mn_NONE \<or> \<not> truthy_id (mp_paymentId plan)"

definition give_up_ruling :: "nat \<Rightarrow> user \<Rightarrow> money_plan \<Rightarrow> before_ruling \<Rightarrow> exn \<Rightarrow> 'a act" where
  "give_up_ruling did admin plan prev e =
     bnd (roll_back_ruling did admin prev) (\<lambda>affected.
     throw (if affected then Money_action_failed (mp_action plan) e else Settled_by_other_admin (mp_action plan) e))"

definition move_claimed_money :: "env \<Rightarrow> nat \<Rightarrow> user \<Rightarrow> money_plan \<Rightarrow> before_ruling \<Rightarrow> moved_money option act" where
  "move_claimed_money env did admin plan prev =
     (if nothing_to_move plan then ret None
      else bnd (attempt (call_payments env admin plan)) (\<lambda>r. case r of
          Inr _ \<Rightarrow> ret (Some (money_moved_by plan))
        | Inl e \<Rightarrow> give_up_ruling did admin plan prev e))"

definition money_recorded :: "moved_money option \<Rightarrow> dispute \<Rightarrow> dispute" where
  "money_recorded moved x =
     x\<lparr>dp_moneyAction := Some (case moved of Some m \<Rightarrow> mv_action m | None \<Rightarrow> Mn_NONE),
       dp_moneyAmount := map_option mv_amount moved, dp_moneyPaymentId := map_option mv_paymentId moved\<rparr>"

text \<open>A violation of the index is caught here, and the row stays as claimed.\<close>

definition record_money_result :: "nat \<Rightarrow> moved_money option \<Rightarrow> unit act" where
  "record_money_result did moved =
     bnd (asks (\<lambda>w. case moved of None \<Rightarrow> False
       | Some m \<Rightarrow> mv_action m \<noteq> Mn_NONE \<and> claimed_by_other did (mv_paymentId m) (w_db w))) (\<lambda>conflict.
     only_if (\<not> conflict) (with_db (update_disputes (\<lambda>x. dp_id x = did) (money_recorded moved))))"

definition emit_outcome :: "loaded_dispute \<Rightarrow> bool \<Rightarrow> string option \<Rightarrow> unit act" where
  "emit_outcome l resolved resolution =
     (let dp = ld_dispute l; (customer, artisan) = participants l
      in if \<not> truthy_id customer \<or> \<not> truthy_id artisan then ret ()
         else let notice = \<lparr>dn_disputeId = dp_id dp, dn_bookingId = dp_bookingId dp, dn_raisedBy = dp_raisedById dp,
             dn_counterparty = the (if Some (dp_raisedById dp) = customer then artisan else customer),
             dn_resolution = resolution, dn_verdict = dp_outcome dp, dn_moneyAction = dp_moneyAction dp,
             dn_moneyAmount = dp_moneyAmount dp, dn_customer = the customer, dn_artisan = the artisan\<rparr>
           in emit (if resolved then DISPUTE_RESOLVED notice else DISPUTE_CLOSED notice))"

fun outcome_text :: "dispute_outcome \<Rightarrow> string" where
  "outcome_text REFUND_CLIENT = ''REFUND_CLIENT''"
| "outcome_text RELEASE_ARTISAN = ''RELEASE_ARTISAN''"
| "outcome_text MUTUAL = ''MUTUAL''"

fun money_text :: "dispute_money \<Rightarrow> string" where
  "money_text Mn_NONE = ''NONE''"
| "money_text Mn_REFUND = ''REFUND''"
| "money_text Mn_RELEASE = ''RELEASE''"

definition record_ruling :: "user \<Rightarrow> dispute \<Rightarrow> admin_action \<Rightarrow> string option \<Rightarrow> unit act" where
  "record_ruling admin dp act reason =
     record_audit \<lparr>au_action = act, au_target = Target_DISPUTE, au_targetId = dp_id dp,
       au_targetLabel = ''Dispute #'' @ show_nat (dp_id dp) @ '' '' @ [CHR 0xB7] @ '' booking #'' @ show_nat (dp_bookingId dp),
       au_reason = reason, au_actorId = u_id admin, au_actorName = full_name admin, au_actorEmail = u_email admin,
       au_outcome = map_option outcome_text (dp_outcome dp), au_moneyAction = map_option money_text (dp_moneyAction dp),
       au_amount = dp_moneyAmount dp,
       au_meta = Meta_dispute (dp_bookingId dp) (if truthy_id (dp_moneyPaymentId dp) then dp_moneyPaymentId dp else None) (dp_category dp)\<rparr>"

datatype ruling_message = Refunded_to_client money | Released_to_artisan money | Mutually_resolved
  | Verdict_recorded "skip_reason option"

definition describe_ruling :: "dispute_outcome \<Rightarrow> moved_money option \<Rightarrow> skip_reason option \<Rightarrow> ruling_message" where
  "describe_ruling out moved why =
     (if map_option mv_action moved = Some Mn_REFUND then Refunded_to_client (mv_amount (the moved))
      else if map_option mv_action moved = Some Mn_RELEASE then Released_to_artisan (mv_amount (the moved))
      else if out = MUTUAL then Mutually_resolved else Verdict_recorded why)"

record ruling_reply =
  rr_message :: ruling_message
  rr_outcome :: dispute_outcome
  rr_moneyAction :: dispute_money
  rr_moneyAmount :: "money option"
  rr_moneyPaymentId :: "nat option"
  rr_skippedReason :: "skip_reason option"

definition reflect_ruling :: "user \<Rightarrow> resolve_input \<Rightarrow> moved_money option \<Rightarrow> int \<Rightarrow> dispute \<Rightarrow> dispute" where
  "reflect_ruling admin i moved now x =
     x\<lparr>dp_status := Dp_RESOLVED, dp_outcome := Some (rs_outcome i), dp_resolution := Some (rs_resolution i),
       dp_resolvedById := Some (u_id admin), dp_resolvedAt := Some now,
       dp_moneyAction := Some (case moved of Some m \<Rightarrow> mv_action m | None \<Rightarrow> Mn_NONE),
       dp_moneyAmount := map_option mv_amount moved, dp_moneyPaymentId := map_option mv_paymentId moved\<rparr>"

definition finish_ruling :: "user \<Rightarrow> loaded_dispute \<Rightarrow> resolve_input \<Rightarrow> money_plan \<Rightarrow> moved_money option \<Rightarrow> ruling_reply act" where
  "finish_ruling admin l i plan moved =
     bnd (asks clock) (\<lambda>now.
     let dp = reflect_ruling admin i moved now (ld_dispute l) in
     andthen (emit_outcome (l\<lparr>ld_dispute := dp\<rparr>) True (Some (rs_resolution i)))
     (andthen (record_ruling admin dp DISPUTE_RESOLVE (Some (rs_resolution i)))
       (ret \<lparr>rr_message = describe_ruling (rs_outcome i) moved (mp_skipped plan), rr_outcome = rs_outcome i,
             rr_moneyAction = (case moved of Some m \<Rightarrow> mv_action m | None \<Rightarrow> Mn_NONE),
             rr_moneyAmount = map_option mv_amount moved, rr_moneyPaymentId = map_option mv_paymentId moved,
             rr_skippedReason = (if moved \<noteq> None then None else mp_skipped plan)\<rparr>)))"

text \<open>The two attempts to claim: with the planned money action, then, if a sibling holds the payment, without.\<close>

definition claim_or_degrade :: "nat \<Rightarrow> user \<Rightarrow> resolve_input \<Rightarrow> money_plan \<Rightarrow> (ruling_claim \<times> money_plan) act" where
  "claim_or_degrade did admin i plan =
     bnd (claim_for_ruling did admin i plan) (\<lambda>c.
     if c = PAYMENT_CLAIMED_BY_SIBLING
     then bnd (claim_for_ruling did admin i (skip_money Claimed_by_sibling)) (\<lambda>c'. ret (c', skip_money Claimed_by_sibling))
     else ret (c, plan))"

definition resolve_dispute :: "env \<Rightarrow> user \<Rightarrow> nat \<Rightarrow> resolve_input \<Rightarrow> ruling_reply act" where
  "resolve_dispute env admin did i =
     bnd (load_dispute did) (\<lambda>l.
     let dp = ld_dispute l in
     andthen (guard (dp_status dp \<notin> {Dp_RESOLVED, Dp_CLOSED}) (BadRequest_dispute (Dispute_already (dp_status dp))))
     (bnd (asks (\<lambda>w. plan_money_action (w_db w) dp i)) (\<lambda>planned. case planned of Inl e \<Rightarrow> throw e
      | Inr plan0 \<Rightarrow>
        bnd (claim_or_degrade did admin i plan0) (\<lambda>(claim, plan).
        if claim \<noteq> CLAIMED
        then bnd (asks (\<lambda>w. find_dispute (w_db w) did)) (\<lambda>cur.
             throw (BadRequest_dispute (Ruled_by_another_admin (map_option dp_status cur))))
        else bnd (move_claimed_money env did admin plan (before_of dp)) (\<lambda>moved.
             andthen (record_money_result did moved) (finish_ruling admin l i plan moved))))))"

section \<open>Closing, and the parties' conversation\<close>

definition closed :: "user \<Rightarrow> string option \<Rightarrow> int \<Rightarrow> dispute \<Rightarrow> dispute" where
  "closed admin notes now x =
     x\<lparr>dp_status := Dp_CLOSED, dp_resolvedById := Some (u_id admin), dp_resolvedAt := Some now,
       dp_adminNotes := (if truthy notes then notes else dp_adminNotes x)\<rparr>"

definition write_close :: "nat \<Rightarrow> user \<Rightarrow> string option \<Rightarrow> int \<Rightarrow> bool act" where
  "write_close did admin notes now =
     conditional_update (\<lambda>x. dp_id x = did \<and> dp_status x \<noteq> Dp_CLOSED) (closed admin notes now)"

definition close_dispute :: "user \<Rightarrow> nat \<Rightarrow> string option \<Rightarrow> unit act" where
  "close_dispute admin did notes =
     bnd (load_dispute did) (\<lambda>l.
     andthen (guard (dp_status (ld_dispute l) \<noteq> Dp_CLOSED) (BadRequest_dispute Already_closed))
     (bnd (asks clock) (\<lambda>now.
      bnd (write_close did admin notes now) (\<lambda>affected.
      andthen (guard affected (BadRequest_dispute Already_closed))
      (let dp = (ld_dispute l)\<lparr>dp_status := Dp_CLOSED, dp_resolvedById := Some (u_id admin), dp_resolvedAt := Some now\<rparr>
       in andthen (emit_outcome (l\<lparr>ld_dispute := dp\<rparr>) False None)
            (record_ruling admin dp DISPUTE_CLOSE notes))))))"

text \<open>
  The gate of \<open>getConversationForDispute\<close>: the two users whose thread the messages service is then asked
  for. They are derived from the booking, and only while the dispute is open work.
\<close>

definition conversation_for_dispute :: "nat \<Rightarrow> (nat \<times> nat) act" where
  "conversation_for_dispute did =
     bnd (load_dispute did) (\<lambda>l.
     andthen (guard (active_dispute (ld_dispute l)) (Forbidden_dispute (Conversation_closed (dp_status (ld_dispute l)))))
     (case participants l of (Some c, Some a) \<Rightarrow> ret (c, a)
      | _ \<Rightarrow> throw (NotFound_dispute Participants_unresolved)))"

end
