(* ===== verification/DisputeRace.thy ===== *)
theory DisputeRace
  imports Rulings "HOL-Library.Multiset"
begin

text \<open>
  Rulings of several admins at once. A \<open>desk\<close> is the world, the \<open>resolve\<close> requests in flight, each at the
  statement it has reached, and the list of payments moved so far, by which dispute. A step of the desk is one
  statement of one request, a statement of another dispute handler, or anything that happens elsewhere; a
  request may also stop at any point, as when its process dies. The payment call of a ruling is any change that
  leaves the disputes alone, which covers whatever runs inside it. The invariant \<open>sound_desk\<close> holds after
  any steps, and from it follow that no payment is moved twice, that the columns of a row agree, and
  that what is settled stays settled.
\<close>

section \<open>The columns of a row\<close>

definition unruled :: "dispute \<Rightarrow> bool" where
  "unruled x \<longleftrightarrow> dp_outcome x = None \<and> dp_resolution x = None \<and> dp_resolvedById x = None \<and> dp_resolvedAt x = None
     \<and> dp_moneyAction x = None \<and> dp_moneyAmount x = None \<and> dp_moneyPaymentId x = None"

definition claim_fits :: "dispute_money option \<Rightarrow> dispute_outcome option \<Rightarrow> bool" where
  "claim_fits act out \<longleftrightarrow> (act = Some Mn_REFUND \<longrightarrow> out = Some REFUND_CLIENT) \<and> (act = Some Mn_RELEASE \<longrightarrow> out = Some RELEASE_ARTISAN)"

definition money_ok :: "dispute \<Rightarrow> bool" where
  "money_ok x \<longleftrightarrow> (dp_moneyAmount x \<noteq> None \<longrightarrow> dp_moneyPaymentId x \<noteq> None)
     \<and> (dp_moneyPaymentId x \<noteq> None \<longleftrightarrow> dp_moneyAction x \<in> {Some Mn_REFUND, Some Mn_RELEASE})
     \<and> claim_fits (dp_moneyAction x) (dp_outcome x)"

definition response_ok :: "dispute \<Rightarrow> bool" where
  "response_ok x \<longleftrightarrow> (dp_response x = None \<longleftrightarrow> dp_respondedById x = None) \<and> (dp_response x = None \<longleftrightarrow> dp_respondedAt x = None)"

definition ruling_ok :: "dispute \<Rightarrow> bool" where
  "ruling_ok x \<longleftrightarrow> (if active_dispute x then unruled x
     else dp_resolvedById x \<noteq> None \<and> dp_resolvedAt x \<noteq> None
       \<and> (dp_status x = Dp_RESOLVED \<longrightarrow> dp_outcome x \<noteq> None \<and> dp_resolution x \<noteq> None))"

definition well_typed_dispute :: "dispute \<Rightarrow> bool" where
  "well_typed_dispute x \<longleftrightarrow> ruling_ok x \<and> money_ok x \<and> response_ok x"

text \<open>What a settled row keeps when another admin closes it.\<close>

definition same_ruling :: "dispute \<Rightarrow> dispute \<Rightarrow> bool" where
  "same_ruling x x' \<longleftrightarrow> dp_id x' = dp_id x \<and> \<not> active_dispute x' \<and> dp_outcome x' = dp_outcome x
     \<and> dp_moneyAction x' = dp_moneyAction x \<and> dp_moneyPaymentId x' = dp_moneyPaymentId x \<and> dp_moneyAmount x' = dp_moneyAmount x"

definition index_holds :: "dispute list \<Rightarrow> bool" where
  "index_holds T \<longleftrightarrow> (\<forall>p. \<forall>x \<in> set T. \<forall>y \<in> set T. claims p x \<longrightarrow> claims p y \<longrightarrow> dp_id x = dp_id y)"

definition good_table :: "dispute list \<Rightarrow> bool" where
  "good_table T \<longleftrightarrow> distinct (map dp_id T) \<and> (\<forall>x \<in> set T. well_typed_dispute x) \<and> index_holds T"

lemma active_iff: "active_dispute x \<longleftrightarrow> dp_status x \<noteq> Dp_RESOLVED \<and> dp_status x \<noteq> Dp_CLOSED"
  by (cases "dp_status x") (simp_all add: active_dispute_def ACTIVE_STATUSES_def)

lemma same_row: "distinct (map dp_id T) \<Longrightarrow> x \<in> set T \<Longrightarrow> y \<in> set T \<Longrightarrow> dp_id x = dp_id y \<Longrightarrow> x = y"
  by (auto simp: distinct_map dest: inj_onD)

lemma run_conditional_update [run_simps]:
  "conditional_update p f w = (Inr (\<exists>x \<in> set (t_disputes (w_db w)). p x), w\<lparr>w_db := update_disputes p f (w_db w)\<rparr>)"
  "bnd (conditional_update p f) g w = g (\<exists>x \<in> set (t_disputes (w_db w)). p x) (w\<lparr>w_db := update_disputes p f (w_db w)\<rparr>)"
  by (simp_all add: conditional_update_def run_simps)

lemma update_disputes_rows [simp]: "t_disputes (update_disputes p f d) = update_where p f (t_disputes d)"
  by (simp add: update_disputes_def)

section \<open>Requests in flight\<close>

datatype stage = Loaded dispute | Planned dispute money_plan | Claimed dispute money_plan
  | Failed dispute money_plan exn | Moved "moved_money option"

datatype request = Request (rq_dispute: nat) (rq_admin: user) (rq_input: resolve_input) (rq_stage: stage)

type_synonym desk = "world \<times> request multiset \<times> (nat \<times> nat) list"

fun holding :: "stage \<Rightarrow> bool" where
  "holding (Loaded dp) = False"
| "holding (Planned dp plan) = False"
| "holding (Claimed dp plan) = True"
| "holding (Failed dp plan e) = True"
| "holding (Moved m) = True"

definition holders :: "nat \<Rightarrow> request multiset \<Rightarrow> request multiset" where
  "holders did R = {#r \<in># R. holding (rq_stage r) \<and> rq_dispute r = did#}"

definition elsewhere :: "world \<Rightarrow> world \<Rightarrow> bool" where
  "elsewhere w w' \<longleftrightarrow> t_disputes (w_db w') = t_disputes (w_db w)"

inductive desk_step :: "desk \<Rightarrow> desk \<Rightarrow> bool" where
  opens: "find_dispute (w_db w) did = Some dp \<Longrightarrow> dp_status dp \<notin> {Dp_RESOLVED, Dp_CLOSED} \<Longrightarrow>
    desk_step (w, R, M) (w, add_mset (Request did a i (Loaded dp)) R, M)"
| plans: "plan_money_action (w_db w) dp i = Inr plan \<Longrightarrow>
    desk_step (w, add_mset (Request did a i (Loaded dp)) R, M) (w, add_mset (Request did a i (Planned dp plan)) R, M)"
| claims: "claim_for_ruling did a i plan w = (Inr CLAIMED, w') \<Longrightarrow>
    desk_step (w, add_mset (Request did a i (Planned dp plan)) R, M) (w', add_mset (Request did a i (Claimed dp plan)) R, M)"
| degrades: "claim_for_ruling did a i plan w = (Inr PAYMENT_CLAIMED_BY_SIBLING, w') \<Longrightarrow>
    desk_step (w, add_mset (Request did a i (Planned dp plan)) R, M)
      (w', add_mset (Request did a i (Planned dp (skip_money Claimed_by_sibling))) R, M)"
| pays: "\<not> nothing_to_move plan \<Longrightarrow> elsewhere w w' \<Longrightarrow>
    desk_step (w, add_mset (Request did a i (Claimed dp plan)) R, M)
      (w', add_mset (Request did a i (Moved (Some (money_moved_by plan)))) R, M @ [(did, the (mp_paymentId plan))])"
| is_refused: "\<not> nothing_to_move plan \<Longrightarrow> elsewhere w w' \<Longrightarrow>
    desk_step (w, add_mset (Request did a i (Claimed dp plan)) R, M) (w', add_mset (Request did a i (Failed dp plan e)) R, M)"
| needs_no_money: "nothing_to_move plan \<Longrightarrow>
    desk_step (w, add_mset (Request did a i (Claimed dp plan)) R, M) (w, add_mset (Request did a i (Moved None)) R, M)"
| rolls_back: "roll_back_ruling did a (before_of dp) w = (Inr undone, w') \<Longrightarrow>
    desk_step (w, add_mset (Request did a i (Failed dp plan e)) R, M) (w', R, M)"
| records: "record_money_result did m w = (Inr (), w') \<Longrightarrow>
    desk_step (w, add_mset (Request did a i (Moved m)) R, M) (w', R, M)"
| stops: "desk_step (w, add_mset r R, M) (w, R, M)"
| files: "next_id w T_disputes \<notin> dp_id ` set (t_disputes (w_db w)) \<Longrightarrow>
    insert_dispute (\<lambda>k. new_dispute k bid uid reason cat now) w = (Inr x, w') \<Longrightarrow> desk_step (w, R, M) (w', R, M)"
| answers: "write_response uid did answer now w = (Inr b, w') \<Longrightarrow> desk_step (w, R, M) (w', R, M)"
| reviews: "write_review did w = (Inr b, w') \<Longrightarrow> desk_step (w, R, M) (w', R, M)"
| closes: "write_close did a notes now w = (Inr b, w') \<Longrightarrow> desk_step (w, R, M) (w', R, M)"
| moves_on: "elsewhere w w' \<Longrightarrow> desk_step (w, R, M) (w', R, M)"

section \<open>The invariant\<close>

definition plan_fits :: "resolve_input \<Rightarrow> money_plan \<Rightarrow> bool" where
  "plan_fits i plan \<longleftrightarrow> claim_fits (Some (mp_action plan)) (Some (rs_outcome i))"

definition clean_start :: "dispute \<Rightarrow> bool" where
  "clean_start dp \<longleftrightarrow> active_dispute dp \<and> unruled dp"

definition under_ruling :: "resolve_input \<Rightarrow> money_plan \<Rightarrow> dispute \<Rightarrow> bool" where
  "under_ruling i plan x \<longleftrightarrow> \<not> active_dispute x \<and> dp_outcome x = Some (rs_outcome i)
     \<and> dp_moneyAction x = (if moves_money plan then Some (mp_action plan) else None)
     \<and> dp_moneyPaymentId x = (if moves_money plan then mp_paymentId plan else None) \<and> dp_moneyAmount x = None"

definition money_row :: "moved_money option \<Rightarrow> dispute \<Rightarrow> bool" where
  "money_row m x \<longleftrightarrow> \<not> active_dispute x \<and> (case m of None \<Rightarrow> True
     | Some v \<Rightarrow> dp_moneyAction x = Some (mv_action v) \<and> dp_moneyPaymentId x = Some (mv_paymentId v) \<and> mv_action v \<noteq> Mn_NONE)"

fun stage_ok :: "dispute list \<Rightarrow> nat \<Rightarrow> resolve_input \<Rightarrow> stage \<Rightarrow> bool" where
  "stage_ok T did i (Loaded dp) \<longleftrightarrow> clean_start dp"
| "stage_ok T did i (Planned dp plan) \<longleftrightarrow> clean_start dp \<and> plan_fits i plan"
| "stage_ok T did i (Claimed dp plan) \<longleftrightarrow> clean_start dp \<and> (\<exists>x \<in> set T. dp_id x = did \<and> under_ruling i plan x)"
| "stage_ok T did i (Failed dp plan e) \<longleftrightarrow> clean_start dp \<and> (\<exists>x \<in> set T. dp_id x = did \<and> under_ruling i plan x)"
| "stage_ok T did i (Moved m) \<longleftrightarrow> (\<exists>x \<in> set T. dp_id x = did \<and> money_row m x)"

definition paid_up :: "stage \<Rightarrow> bool" where
  "paid_up s \<longleftrightarrow> (\<exists>v. s = Moved (Some v))"

definition moves_ok :: "dispute list \<Rightarrow> request multiset \<Rightarrow> (nat \<times> nat) list \<Rightarrow> bool" where
  "moves_ok T R M \<longleftrightarrow> distinct (map snd M)
     \<and> (\<forall>did p. (did, p) \<in> set M \<longrightarrow> (\<exists>x \<in> set T. dp_id x = did \<and> \<not> active_dispute x \<and> claims p x)
          \<and> (\<forall>r \<in># holders did R. paid_up (rq_stage r)))"

definition requests_ok :: "dispute list \<Rightarrow> request multiset \<Rightarrow> bool" where
  "requests_ok T R \<longleftrightarrow> (\<forall>r \<in># R. stage_ok T (rq_dispute r) (rq_input r) (rq_stage r)) \<and> (\<forall>did. size (holders did R) \<le> 1)"

definition sound_desk :: "(nat \<times> nat) list \<Rightarrow> desk \<Rightarrow> bool" where
  "sound_desk L c = (case c of (w, R, M) \<Rightarrow>
     let T = t_disputes (w_db w) in good_table T \<and> requests_ok T R \<and> moves_ok T R (L @ M))"

lemma holders_add [simp]:
  "holders did (add_mset r R) = (if holding (rq_stage r) \<and> rq_dispute r = did then add_mset r (holders did R) else holders did R)"
  by (simp add: holders_def)

lemma moves_okD:
  assumes "moves_ok T R M" and "(did, p) \<in> set M"
  shows "\<exists>x \<in> set T. dp_id x = did \<and> \<not> active_dispute x \<and> claims p x" "r \<in># holders did R \<Longrightarrow> paid_up (rq_stage r)"
  using assms by (auto simp: moves_ok_def)

lemma paid_up_simps [simp]: "\<not> paid_up (Claimed dp plan)" "\<not> paid_up (Failed dp plan e)" "\<not> paid_up (Moved None)" "paid_up (Moved (Some v))"
  by (simp_all add: paid_up_def)

lemma holders_mem: "r \<in># holders did R \<longleftrightarrow> r \<in># R \<and> holding (rq_stage r) \<and> rq_dispute r = did"
  by (auto simp: holders_def)

lemma held_row: "stage_ok T did i s \<Longrightarrow> holding s \<Longrightarrow> \<exists>x \<in> set T. dp_id x = did \<and> \<not> active_dispute x"
  by (cases s) (auto simp: under_ruling_def money_row_def)

lemma no_holder_of_active:
  assumes "requests_ok T R" and "distinct (map dp_id T)" and "x \<in> set T" and "active_dispute x"
  shows "holders (dp_id x) R = {#}"
proof -
  have "r \<notin># holders (dp_id x) R" for r
  proof
    assume "r \<in># holders (dp_id x) R"
    then have r: "r \<in># R" "holding (rq_stage r)" "rq_dispute r = dp_id x" by (auto simp: holders_mem)
    then have "stage_ok T (rq_dispute r) (rq_input r) (rq_stage r)" using assms(1) by (auto simp: requests_ok_def)
    from held_row [OF this r(2)] obtain y where "y \<in> set T" "dp_id y = dp_id x" "\<not> active_dispute y" using r(3) by auto
    with same_row [OF assms(2) _ assms(3)] assms(4) show False by auto
  qed
  then show ?thesis by (simp add: multiset_eq_iff not_in_iff)
qed

lemma no_other_holder:
  assumes "requests_ok T (add_mset r R)" and "holding (rq_stage r)"
  shows "holders (rq_dispute r) R = {#}"
  using assms by (auto simp: requests_ok_def dest!: spec [of _ "rq_dispute r"])

lemma stage_ok_same:
  assumes "stage_ok T did i s"
    and "\<And>x. x \<in> set T \<Longrightarrow> dp_id x = did \<Longrightarrow> \<not> active_dispute x \<Longrightarrow> holding s \<Longrightarrow> \<exists>x' \<in> set T'. same_ruling x x'"
  shows "stage_ok T' did i s"
  using assms by (cases s) (fastforce simp: same_ruling_def under_ruling_def money_row_def split: option.splits)+

section \<open>One write\<close>

text \<open>
  A write to the row of \<open>did\<close>: the rows it makes are well typed, take no claim that is another's, and a settled
  row keeps its ruling unless no request holds it, and then keeps what was moved for it.
\<close>

lemma good_table_write:
  assumes "good_table T" and "\<And>x. q x \<Longrightarrow> dp_id x = did"
    and "\<And>x. x \<in> set T \<Longrightarrow> q x \<Longrightarrow> dp_id (f x) = did \<and> well_typed_dispute (f x)"
    and "\<And>x p. x \<in> set T \<Longrightarrow> q x \<Longrightarrow> claims p (f x) \<Longrightarrow> claims p x \<or> (\<forall>y \<in> set T. dp_id y \<noteq> did \<longrightarrow> \<not> claims p y)"
  shows "good_table (update_where q f T)"
proof -
  have id: "dp_id (if q x then f x else x) = dp_id x" if "x \<in> set T" for x
    using assms(2,3) that by simp
  then have ids: "map dp_id (update_where q f T) = map dp_id T" by (simp add: update_where_def)
  let ?free = "\<lambda>p. \<forall>y \<in> set T. dp_id y \<noteq> did \<longrightarrow> \<not> claims p y"
  have claim: "claims p z \<or> dp_id z = did \<and> ?free p" if "z \<in> set T" "claims p (if q z then f z else z)" for p z
    using assms(2) [of z] assms(4) [of z p] that by (cases "q z") simp_all
  have one: "dp_id x = dp_id y"
    if "x \<in> set T" "y \<in> set T" "claims p (if q x then f x else x)" "claims p (if q y then f y else y)" for p x y
  proof -
    have both: "claims p x \<longrightarrow> claims p y \<longrightarrow> dp_id x = dp_id y"
      using assms(1) that(1,2) unfolding good_table_def index_holds_def by blast
    have at: "claims p u \<longrightarrow> dp_id u = did" if "?free p" "u \<in> set T" for u using that by blast
    from claim [OF that(1,3)] claim [OF that(2,4)] show ?thesis
      using both at [OF _ that(1)] at [OF _ that(2)] by argo
  qed
  have "index_holds (update_where q f T)"
    unfolding index_holds_def
  proof (intro allI ballI impI)
    fix p x' y' assume x': "x' \<in> set (update_where q f T)" "y' \<in> set (update_where q f T)" "claims p x'" "claims p y'"
    then obtain x y where "x \<in> set T" "x' = (if q x then f x else x)" "y \<in> set T" "y' = (if q y then f y else y)"
      unfolding in_update_where by blast
    with id one [of x y p] x'(3,4) show "dp_id x' = dp_id y'" by (simp only:)
  qed
  moreover have "well_typed_dispute (if q x then f x else x)" if "x \<in> set T" for x
    using that assms(1,3) by (simp add: good_table_def)
  then have "\<forall>x \<in> set (update_where q f T). well_typed_dispute x" by (force simp: in_update_where)
  ultimately show ?thesis using assms(1) ids by (simp add: good_table_def)
qed

lemma sound_write:
  assumes "sound_desk L (w, R, M)" and "\<And>x. q x \<Longrightarrow> dp_id x = did"
    and "\<And>x. x \<in> set (t_disputes (w_db w)) \<Longrightarrow> q x \<Longrightarrow> dp_id (f x) = did \<and> well_typed_dispute (f x)"
    and "\<And>x p. x \<in> set (t_disputes (w_db w)) \<Longrightarrow> q x \<Longrightarrow> claims p (f x) \<Longrightarrow>
           claims p x \<or> (\<forall>y \<in> set (t_disputes (w_db w)). dp_id y \<noteq> did \<longrightarrow> \<not> claims p y)"
    and "\<And>x. x \<in> set (t_disputes (w_db w)) \<Longrightarrow> q x \<Longrightarrow> \<not> active_dispute x \<Longrightarrow> same_ruling x (f x)
           \<or> holders did R = {#} \<and> (\<forall>p. (did, p) \<in> set (L @ M) \<longrightarrow> \<not> active_dispute (f x) \<and> claims p (f x))"
  shows "sound_desk L (w\<lparr>w_db := update_disputes q f (w_db w)\<rparr>, R, M)"
proof -
  let ?T = "t_disputes (w_db w)" and ?T' = "update_where q f (t_disputes (w_db w))"
  have sound: "good_table ?T" "requests_ok ?T R" "moves_ok ?T R (L @ M)"
    using assms(1) by (simp_all add: sound_desk_def Let_def)
  have moved: "(if q x then f x else x) \<in> set ?T'" if "x \<in> set ?T" for x
    using that unfolding in_update_where by blast
  have "stage_ok ?T' (rq_dispute r) (rq_input r) (rq_stage r)" if "r \<in># R" for r
  proof (rule stage_ok_same)
    show "stage_ok ?T (rq_dispute r) (rq_input r) (rq_stage r)" using sound(2) that by (simp add: requests_ok_def)
    fix x assume x: "x \<in> set ?T" "dp_id x = rq_dispute r" "\<not> active_dispute x" "holding (rq_stage r)"
    show "\<exists>x' \<in> set ?T'. same_ruling x x'"
    proof (cases "q x")
      case True
      then have "r \<in># holders did R" using x assms(2) that by (auto simp: holders_mem)
      with True assms(5) [of x] x have "same_ruling x (f x)" by auto
      with moved [OF x(1)] True show ?thesis by auto
    next
      case False
      with moved [OF x(1)] x(3) show ?thesis by (auto simp: same_ruling_def)
    qed
  qed
  moreover have "\<exists>x' \<in> set ?T'. dp_id x' = d \<and> \<not> active_dispute x' \<and> claims p x'" if dp: "(d, p) \<in> set (L @ M)" for d p
  proof -
    obtain x where x: "x \<in> set ?T" "dp_id x = d" "\<not> active_dispute x" "claims p x"
      using sound(3) [unfolded moves_ok_def, THEN conjunct2, rule_format, OF dp] by auto
    have "dp_id (if q x then f x else x) = d \<and> \<not> active_dispute (if q x then f x else x) \<and> claims p (if q x then f x else x)"
    proof (cases "q x")
      case True
      with x assms(2,3) [of x] assms(5) [of x] dp show ?thesis by (auto simp: same_ruling_def claims_def)
    qed (use x in auto)
    with moved [OF x(1)] show ?thesis by blast
  qed
  moreover have "good_table ?T'" by (rule good_table_write [OF sound(1) assms(2-4)])
  ultimately have "requests_ok ?T' R" "moves_ok ?T' R (L @ M)" "good_table ?T'"
    using sound(2,3) unfolding requests_ok_def moves_ok_def by (blast, fast, simp)
  then show ?thesis by (simp add: sound_desk_def)
qed

lemma holders_drop: "r' \<in># holders did R \<Longrightarrow> r' \<in># holders did (add_mset r R)"
  by simp

lemma size_holders_drop: "size (holders did R) \<le> size (holders did (add_mset r R))"
  by simp

lemma sound_drop:
  assumes "sound_desk L (w, add_mset r R, M)"
  shows "sound_desk L (w, R, M)"
proof -
  let ?T = "t_disputes (w_db w)"
  have sound: "good_table ?T" "requests_ok ?T (add_mset r R)" "moves_ok ?T (add_mset r R) (L @ M)"
    using assms by (simp_all add: sound_desk_def Let_def)
  have "requests_ok ?T R"
    using sound(2) order_trans [OF size_holders_drop] unfolding requests_ok_def by (metis insert_iff set_mset_add_mset_insert)
  moreover have "moves_ok ?T R (L @ M)"
    using sound(3) holders_drop unfolding moves_ok_def by fast
  ultimately show ?thesis using sound(1) by (simp add: sound_desk_def)
qed

lemma sound_elsewhere: "sound_desk L (w, R, M) \<Longrightarrow> elsewhere w w' \<Longrightarrow> sound_desk L (w', R, M)"
  by (simp add: sound_desk_def elsewhere_def)

text \<open>A request that moves on without writing, to a stage that holds no more than before.\<close>

lemma sound_restage:
  assumes "sound_desk L (w, add_mset (Request did a i s) R, M)" and "stage_ok (t_disputes (w_db w)) did i s'"
    and "holding s' \<Longrightarrow> holding s \<and> \<not> paid_up s"
  shows "sound_desk L (w, add_mset (Request did a i s') R, M)"
proof -
  let ?T = "t_disputes (w_db w)" and ?R = "add_mset (Request did a i s) R" and ?R' = "add_mset (Request did a i s') R"
  have sound: "good_table ?T" "requests_ok ?T ?R" "moves_ok ?T ?R (L @ M)"
    using assms(1) by (simp_all add: sound_desk_def Let_def)
  have "size (holders d ?R') \<le> 1" for d
    using sound(2) assms(3) unfolding requests_ok_def by (cases "d = did"; cases "holding s'") (auto dest!: spec [of _ d] split: if_splits)
  then have "requests_ok ?T ?R'" using sound(2) assms(2) by (auto simp: requests_ok_def)
  moreover have "paid_up (rq_stage r)" if "(d, p) \<in> set (L @ M)" "r \<in># holders d ?R'" for d p r
  proof (cases "holding s' \<and> d = did")
    case True
    then have "Request did a i s \<in># holders d ?R" using assms(3) by (simp add: holders_def)
    with sound(3) that(1) assms(3) True show ?thesis unfolding moves_ok_def by fastforce
  next
    case False
    then have "r \<in># holders d ?R" using that(2) by (auto simp: holders_def)
    with sound(3) that(1) show ?thesis unfolding moves_ok_def by fast
  qed
  then have "moves_ok ?T ?R' (L @ M)" using sound(3) unfolding moves_ok_def by fast
  ultimately show ?thesis using sound(1) by (simp add: sound_desk_def)
qed

section \<open>Every step keeps the invariant\<close>

lemma update_where_none: "\<forall>x \<in> set T. \<not> q x \<Longrightarrow> update_where q f T = T"
  unfolding update_where_def by (rule map_idI) simp

lemma run_claim [run_simps]:
  "claim_for_ruling did a i plan w =
     (if (\<exists>x \<in> set (t_disputes (w_db w)). dp_id x = did \<and> active_dispute x) \<and> moves_money plan
           \<and> claimed_by_other did (the (mp_paymentId plan)) (w_db w)
      then (Inr PAYMENT_CLAIMED_BY_SIBLING, w)
      else (Inr (if \<exists>x \<in> set (t_disputes (w_db w)). dp_id x = did \<and> active_dispute x then CLAIMED else LOST_TO_ANOTHER_RULING),
        w\<lparr>w_db := update_disputes (\<lambda>x. dp_id x = did \<and> active_dispute x) (ruled a i plan (clock w)) (w_db w)\<rparr>))"
  by (simp add: claim_for_ruling_def run_simps)

lemma clean_start_of_row: "well_typed_dispute x \<Longrightarrow> dp_status x \<notin> {Dp_RESOLVED, Dp_CLOSED} \<Longrightarrow> clean_start x"
  by (simp add: well_typed_dispute_def ruling_ok_def clean_start_def active_iff)

lemma plan_fits_skip [simp]: "plan_fits i (skip_money why)"
  by (simp add: plan_fits_def claim_fits_def skip_money_def)

lemma plan_fits_planned: "plan_money_action d dp i = Inr plan \<Longrightarrow> plan_fits i plan"
  by (cases "rs_outcome i")
    (auto simp: plan_money_action_def plan_refund_def plan_release_def plan_fits_def claim_fits_def move_money_def skip_money_def Let_def
      split: if_splits option.splits)

lemma ruled_simps [simp]:
  "dp_id (ruled a i plan now x) = dp_id x" "\<not> active_dispute (ruled a i plan now x)" "under_ruling i plan (ruled a i plan now x)"
  by (simp_all add: ruled_def active_iff under_ruling_def)

lemma plan_money_cases: "moves_money plan \<Longrightarrow> mp_action plan = Mn_REFUND \<or> mp_action plan = Mn_RELEASE"
  by (cases "mp_action plan") (simp_all add: moves_money_def)

lemma money_ok_ruled: "plan_fits i plan \<Longrightarrow> money_ok (ruled a i plan now x)"
  using plan_money_cases [of plan] by (auto simp: money_ok_def ruled_def claim_fits_def plan_fits_def moves_money_def)

lemma claims_ruled: "claims p (ruled a i plan now x) \<longleftrightarrow> moves_money plan \<and> mp_paymentId plan = Some p"
  by (auto simp: claims_def ruled_def moves_money_def)

lemma money_ok_unruled: "unruled x \<Longrightarrow> money_ok x"
  by (simp add: money_ok_def unruled_def claim_fits_def)

lemma money_ok_recorded: "money_ok x \<Longrightarrow> money_row m x \<Longrightarrow> money_ok (money_recorded m x)"
  by (cases m) (auto simp: money_ok_def money_recorded_def money_row_def claim_fits_def)

lemma money_ok_same [simp]: "money_ok (closed a notes now x) = money_ok x" "money_ok (answered uid ans now x) = money_ok x"
    "money_ok (x\<lparr>dp_status := st\<rparr>) = money_ok x"
  by (simp_all add: money_ok_def closed_def answered_def)

lemma response_ok_same [simp]: "response_ok (ruled a i plan now x) = response_ok x" "response_ok (rolled_back b x) = response_ok x"
    "response_ok (money_recorded m x) = response_ok x" "response_ok (closed a notes now x) = response_ok x"
    "response_ok (x\<lparr>dp_status := st\<rparr>) = response_ok x" "response_ok (answered uid ans now x)"
  by (simp_all add: response_ok_def ruled_def rolled_back_def money_recorded_def closed_def answered_def)

lemma ruling_ok_rules [simp]:
  "ruling_ok (ruled a i plan now x)" "ruling_ok (closed a notes now x)" "ruling_ok (answered uid ans now x) = ruling_ok x"
  "\<not> active_dispute x \<Longrightarrow> ruling_ok (money_recorded m x) = ruling_ok x"
  "dp_status x = Dp_OPEN \<Longrightarrow> ruling_ok (x\<lparr>dp_status := Dp_UNDER_REVIEW\<rparr>) = ruling_ok x"
  by (auto simp: ruling_ok_def ruled_def closed_def answered_def money_recorded_def unruled_def active_iff)

lemma unruled_rolled_back: "clean_start dp \<Longrightarrow> active_dispute (rolled_back (before_of dp) x) \<and> unruled (rolled_back (before_of dp) x)"
  by (simp add: clean_start_def rolled_back_def before_of_def unruled_def active_iff)

lemma well_typed_ruled: "well_typed_dispute x \<Longrightarrow> plan_fits i plan \<Longrightarrow> well_typed_dispute (ruled a i plan now x)"
  by (simp add: well_typed_dispute_def money_ok_ruled)

lemma well_typed_rolled_back: "well_typed_dispute x \<Longrightarrow> clean_start dp \<Longrightarrow> well_typed_dispute (rolled_back (before_of dp) x)"
  using unruled_rolled_back [of dp x] by (simp add: well_typed_dispute_def money_ok_unruled ruling_ok_def)

lemma well_typed_recorded: "well_typed_dispute x \<Longrightarrow> money_row m x \<Longrightarrow> well_typed_dispute (money_recorded m x)"
  by (simp add: well_typed_dispute_def money_ok_recorded money_row_def)

lemma well_typed_closed: "well_typed_dispute x \<Longrightarrow> well_typed_dispute (closed a notes now x)"
  by (simp add: well_typed_dispute_def)

lemma well_typed_answered: "well_typed_dispute x \<Longrightarrow> well_typed_dispute (answered uid ans now x)"
  by (simp add: well_typed_dispute_def)

lemma well_typed_review: "well_typed_dispute x \<Longrightarrow> dp_status x = Dp_OPEN \<Longrightarrow> well_typed_dispute (x\<lparr>dp_status := Dp_UNDER_REVIEW\<rparr>)"
  by (simp add: well_typed_dispute_def)

lemma write_ids [simp]: "dp_id (closed a notes now x) = dp_id x" "dp_id (answered uid ans now x) = dp_id x"
    "dp_id (rolled_back b x) = dp_id x" "dp_id (money_recorded m x) = dp_id x"
  by (simp_all add: closed_def answered_def rolled_back_def money_recorded_def)

lemma write_claims [simp]: "claims p (closed a notes now x) = claims p x" "claims p (answered uid ans now x) = claims p x"
    "claims p (x\<lparr>dp_status := st\<rparr>) = claims p x" "\<not> claims p (rolled_back b x)"
  by (simp_all add: claims_def closed_def answered_def rolled_back_def)

lemma same_ruling_closed: "\<not> active_dispute x \<Longrightarrow> same_ruling x (closed a notes now x)"
  by (simp add: same_ruling_def closed_def active_iff)

lemmas well_typed_rules = well_typed_ruled well_typed_rolled_back well_typed_recorded well_typed_closed well_typed_answered well_typed_review

lemma sound_rows: "sound_desk L (w, R, M) \<Longrightarrow> x \<in> set (t_disputes (w_db w)) \<Longrightarrow> well_typed_dispute x"
  by (simp add: sound_desk_def Let_def good_table_def)

lemma sound_answer: "sound_desk L (w, R, M) \<Longrightarrow> sound_desk L (snd (write_response uid did ans now w), R, M)"
  unfolding write_response_def run_conditional_update(1) snd_conv
  by (rule sound_write [of _ _ _ _ _ did]; simp add: sound_rows well_typed_rules)

lemma sound_review: "sound_desk L (w, R, M) \<Longrightarrow> sound_desk L (snd (write_review did w), R, M)"
  unfolding write_review_def run_conditional_update(1) snd_conv
  by (rule sound_write [of _ _ _ _ _ did]; simp add: sound_rows well_typed_rules active_iff)

lemma sound_close: "sound_desk L (w, R, M) \<Longrightarrow> sound_desk L (snd (write_close did a notes now w), R, M)"
  unfolding write_close_def run_conditional_update(1) snd_conv
  by (rule sound_write [of _ _ _ _ _ did]; simp add: sound_rows well_typed_rules same_ruling_closed)

lemma sound_parts:
  assumes "sound_desk L (w, R, M)"
  shows "good_table (t_disputes (w_db w))" "requests_ok (t_disputes (w_db w)) R" "moves_ok (t_disputes (w_db w)) R (L @ M)"
  using assms by (simp_all add: sound_desk_def Let_def)

lemma sound_stage: "sound_desk L (w, add_mset (Request did a i s) R, M) \<Longrightarrow> stage_ok (t_disputes (w_db w)) did i s"
  by (drule sound_parts(2)) (simp add: requests_ok_def)

lemma ruled_row:
  assumes "sound_desk L (w, R, M)" and "x \<in> set (t_disputes (w_db w))" and "dp_id x = did" and "\<not> active_dispute x"
    and "y \<in> set (t_disputes (w_db w))" and "dp_id y = did"
  shows "y = x"
  using same_row [of "t_disputes (w_db w)" y x] sound_parts(1) [OF assms(1)] assms by (simp add: good_table_def)

lemma sound_claim:
  assumes "sound_desk L (w, add_mset (Request did a i (Planned dp plan)) R, M)"
    and "claim_for_ruling did a i plan w = (Inr CLAIMED, w')"
  shows "sound_desk L (w', add_mset (Request did a i (Claimed dp plan)) R, M)"
proof -
  let ?T = "t_disputes (w_db w)" and ?q = "\<lambda>x. dp_id x = did \<and> active_dispute x" and ?f = "ruled a i plan (clock w)"
  have stage: "clean_start dp" "plan_fits i plan" using sound_stage [OF assms(1)] by simp_all
  have sound: "sound_desk L (w, R, M)" by (rule sound_drop [OF assms(1)])
  obtain x where x: "x \<in> set ?T" "dp_id x = did" "active_dispute x"
    and w': "w' = w\<lparr>w_db := update_disputes ?q ?f (w_db w)\<rparr>"
    and free: "moves_money plan \<Longrightarrow> \<not> claimed_by_other did (the (mp_paymentId plan)) (w_db w)"
    using assms(2) by (auto simp: run_claim split: if_splits)
  have written: "sound_desk L (w', R, M)"
    unfolding w'
  proof (rule sound_write [OF sound, of _ did])
    fix y p assume "claims p (?f y)"
    then show "claims p y \<or> (\<forall>z \<in> set ?T. dp_id z \<noteq> did \<longrightarrow> \<not> claims p z)"
      using free by (auto simp: claims_ruled claimed_by_other_def)
  qed (simp_all add: sound_rows [OF sound] well_typed_ruled stage)
  have "?f x \<in> set (t_disputes (w_db w'))" using x by (auto simp: w' in_update_where)
  then have "stage_ok (t_disputes (w_db w')) did i (Claimed dp plan)"
    using x stage by (auto intro!: bexI [of _ "?f x"])
  moreover have none: "holders did R = {#}"
    using no_holder_of_active [of ?T R x] sound_parts [OF sound] x by (simp add: good_table_def)
  moreover have "(did, p) \<notin> set (L @ M)" for p
    using sound_parts(1,3) [OF sound] x same_row [of ?T _ x] unfolding moves_ok_def good_table_def by blast
  ultimately show ?thesis
    using sound_parts [OF written] by (auto simp: sound_desk_def requests_ok_def moves_ok_def)
qed

lemma claims_held: "under_ruling i plan x \<Longrightarrow> \<not> nothing_to_move plan \<Longrightarrow> claims (the (mp_paymentId plan)) x"
  by (cases "mp_paymentId plan") (auto simp: under_ruling_def nothing_to_move_def claims_def moves_money_def)

lemma money_row_held: "under_ruling i plan x \<Longrightarrow> \<not> nothing_to_move plan \<Longrightarrow> money_row (Some (money_moved_by plan)) x"
  by (cases "mp_paymentId plan") (auto simp: under_ruling_def money_row_def money_moved_by_def nothing_to_move_def moves_money_def)

lemma sound_pay:
  assumes "sound_desk L (w, add_mset (Request did a i (Claimed dp plan)) R, M)" and "\<not> nothing_to_move plan"
  shows "sound_desk L (w, add_mset (Request did a i (Moved (Some (money_moved_by plan)))) R, M @ [(did, the (mp_paymentId plan))])"
proof -
  let ?T = "t_disputes (w_db w)" and ?p = "the (mp_paymentId plan)" and ?r = "Request did a i (Claimed dp plan)"
    and ?r' = "Request did a i (Moved (Some (money_moved_by plan)))"
  obtain x where x: "x \<in> set ?T" "dp_id x = did" "under_ruling i plan x" using sound_stage [OF assms(1)] by auto
  note parts = sound_parts [OF assms(1)]
  have none: "(did, p) \<notin> set (L @ M)" for p
    using moves_okD(2) [OF parts(3), of did p ?r] by auto
  have "?p \<notin> snd ` set (L @ M)"
  proof
    assume "?p \<in> snd ` set (L @ M)"
    then obtain d where d: "(d, ?p) \<in> set (L @ M)" by force
    then obtain y where "y \<in> set ?T" "dp_id y = d" "claims ?p y" using parts(3) unfolding moves_ok_def by blast
    with x claims_held [OF x(3) assms(2)] parts(1) have "d = did" unfolding good_table_def index_holds_def by blast
    with d none show False by blast
  qed
  moreover have free: "holders did R = {#}" using no_other_holder [OF parts(2)] by simp
  moreover have row: "stage_ok ?T did i (Moved (Some (money_moved_by plan)))"
    using x money_row_held [OF x(3) assms(2)] by auto
  moreover have "\<exists>x \<in> set ?T. dp_id x = did \<and> \<not> active_dispute x \<and> claims ?p x"
    using x claims_held [OF x(3) assms(2)] by (auto simp: under_ruling_def)
  ultimately have "moves_ok ?T (add_mset ?r' R) (L @ M @ [(did, ?p)])"
    using parts(3) none unfolding moves_ok_def by (auto simp: paid_up_def)
  moreover have "requests_ok ?T (add_mset ?r' R)"
    using parts(2) row free unfolding requests_ok_def by (auto split: if_splits)
  ultimately show ?thesis using parts(1) by (simp add: sound_desk_def)
qed

lemma sound_rollback:
  assumes "sound_desk L (w, add_mset (Request did a i (Failed dp plan e)) R, M)"
  shows "sound_desk L (snd (roll_back_ruling did a (before_of dp) w), R, M)"
proof -
  note parts = sound_parts [OF assms] and sound = sound_drop [OF assms]
  have start: "clean_start dp" using sound_stage [OF assms] by simp
  have "holders did R = {#}" using no_other_holder [OF parts(2)] by simp
  moreover have "(did, p) \<notin> set (L @ M)" for p
    using moves_okD(2) [OF parts(3), of did p "Request did a i (Failed dp plan e)"] by auto
  ultimately show ?thesis
    unfolding roll_back_ruling_def run_conditional_update(1) snd_conv
    by (intro sound_write [OF sound, of _ did]) (simp_all add: sound_rows [OF sound] well_typed_rolled_back start)
qed

lemma active_recorded [simp]: "active_dispute (money_recorded m x) = active_dispute x"
  by (simp add: money_recorded_def active_dispute_def)

lemma claims_recorded: "money_row m x \<Longrightarrow> claims p (money_recorded m x) \<longleftrightarrow> m \<noteq> None \<and> claims p x"
  by (cases m) (auto simp: claims_def money_recorded_def money_row_def)

lemma sound_record:
  assumes "sound_desk L (w, add_mset (Request did a i (Moved m)) R, M)"
  shows "sound_desk L (snd (record_money_result did m w), R, M)"
proof -
  let ?T = "t_disputes (w_db w)"
  note parts = sound_parts [OF assms] and sound = sound_drop [OF assms]
  obtain x where x: "x \<in> set ?T" "dp_id x = did" "money_row m x" using sound_stage [OF assms] by auto
  have row: "y = x" if "y \<in> set ?T" "dp_id y = did" for y
    using ruled_row [OF sound x(1,2) _ that] x(3) by (simp add: money_row_def)
  have free: "holders did R = {#}" using no_other_holder [OF parts(2)] by simp
  have "m \<noteq> None \<and> claims p x" if "(did, p) \<in> set (L @ M)" for p
    using moves_okD(1) [OF parts(3) that] moves_okD(2) [OF parts(3) that, of "Request did a i (Moved m)"] row by (cases m) auto
  then have kept: "(did, p) \<in> set (L @ M) \<longrightarrow> \<not> active_dispute (money_recorded m x) \<and> claims p (money_recorded m x)" for p
    using x(3) claims_recorded [OF x(3), of p] by (simp add: money_row_def)
  have "sound_desk L (w\<lparr>w_db := update_disputes (\<lambda>x. dp_id x = did) (money_recorded m) (w_db w)\<rparr>, R, M)"
  proof (rule sound_write [OF sound, of _ did])
    fix y assume y: "y \<in> set ?T" "dp_id y = did"
    show "dp_id (money_recorded m y) = did \<and> well_typed_dispute (money_recorded m y)"
      using y row [OF y] x(3) sound_rows [OF sound y(1)] well_typed_recorded by simp
    show "same_ruling y (money_recorded m y) \<or> holders did R = {#}
       \<and> (\<forall>p. (did, p) \<in> set (L @ M) \<longrightarrow> \<not> active_dispute (money_recorded m y) \<and> claims p (money_recorded m y))"
      using kept free row [OF y] by simp
    show "claims p y \<or> (\<forall>y \<in> set ?T. dp_id y \<noteq> did \<longrightarrow> \<not> claims p y)" if "claims p (money_recorded m y)" for p
      using that row [OF y] claims_recorded [OF x(3), of p] by simp
  qed simp
  with sound show ?thesis by (simp add: record_money_result_def run_simps)
qed

lemma index_holds_append: "index_holds T \<Longrightarrow> (\<And>p. \<not> claims p x) \<Longrightarrow> index_holds (T @ [x])"
  unfolding index_holds_def set_append list.set by blast

lemma sound_file:
  assumes "sound_desk L (w, R, M)" and "next_id w T_disputes \<notin> dp_id ` set (t_disputes (w_db w))"
  shows "sound_desk L (snd (insert_dispute (\<lambda>k. new_dispute k bid uid reason cat now) w), R, M)"
proof -
  let ?T = "t_disputes (w_db w)" and ?x = "new_dispute (next_id w T_disputes) bid uid reason cat now"
  have x: "well_typed_dispute ?x" "dp_id ?x = next_id w T_disputes" "\<not> claims p ?x" for p
    by (simp_all add: well_typed_dispute_def new_dispute_def ruling_ok_def unruled_def money_ok_def response_ok_def claim_fits_def claims_def active_iff)
  have "\<forall>y \<in> set ?T. dp_id y \<noteq> dp_id ?x" using assms(2) x(2) by (metis imageI)
  then have "save_row dp_id ?x ?T = ?T @ [?x]" by (auto simp: save_row_def)
  then have T': "t_disputes (w_db (snd (insert_dispute (\<lambda>k. new_dispute k bid uid reason cat now) w))) = ?T @ [?x]"
    by (simp add: insert_dispute_def run_simps put_dispute_def)
  have "stage_ok (?T @ [?x]) did i s" if "stage_ok ?T did i s" for did i s using that by (cases s) auto
  moreover have "good_table (?T @ [?x])"
    using sound_parts(1) [OF assms(1)] x assms(2) by (simp add: good_table_def index_holds_append)
  moreover from calculation have "requests_ok (?T @ [?x]) R"
    using sound_parts(2) [OF assms(1)] unfolding requests_ok_def by blast
  moreover have "moves_ok (?T @ [?x]) R (L @ M)"
    unfolding moves_ok_def
  proof (intro conjI allI impI ballI)
    fix d p assume dp: "(d, p) \<in> set (L @ M)"
    show "\<exists>x \<in> set (?T @ [?x]). dp_id x = d \<and> \<not> active_dispute x \<and> claims p x"
      using moves_okD(1) [OF sound_parts(3) [OF assms(1)] dp] by auto
  qed (use sound_parts(3) [OF assms(1)] moves_okD(2) [OF sound_parts(3) [OF assms(1)]] in \<open>auto simp: moves_ok_def\<close>)
  ultimately show ?thesis by (simp add: sound_desk_def T')
qed

lemma sound_open:
  assumes "sound_desk L (w, R, M)" and "clean_start dp"
  shows "sound_desk L (w, add_mset (Request did a i (Loaded dp)) R, M)"
  using sound_parts [OF assms(1)] assms(2) by (simp add: sound_desk_def requests_ok_def moves_ok_def)

lemma sound_step: "desk_step c c' \<Longrightarrow> sound_desk L c \<Longrightarrow> sound_desk L c'"
proof (induction rule: desk_step.induct)
  case (opens w did dp R M a i)
  then have "dp \<in> set (t_disputes (w_db w))" by (simp add: find_dispute_def find_row_SomeD)
  with opens show ?case by (intro sound_open clean_start_of_row sound_rows)
next
  case (plans w dp i plan did a R M)
  with sound_stage [OF plans(2)] plan_fits_planned show ?case by (intro sound_restage [OF plans(2)]) simp_all
next
  case (claims did a i plan w w' dp R M)
  then show ?case by (intro sound_claim)
next
  case (degrades did a i plan w w' dp R M)
  then have "w' = w" by (auto simp: run_claim split: if_splits)
  with sound_stage [OF degrades(2)] show ?case by (simp only:) (rule sound_restage [OF degrades(2)]; simp)
next
  case (pays plan w w' did a i dp R M)
  then show ?case by (intro sound_elsewhere [OF sound_pay])
next
  case (is_refused plan w w' did a i dp R M e)
  have "sound_desk L (w, add_mset (Request did a i (Failed dp plan e)) R, M)"
    using sound_stage [OF is_refused(3)] by (intro sound_restage [OF is_refused(3)]) simp_all
  then show ?case using is_refused(2) by (rule sound_elsewhere)
next
  case (needs_no_money plan w did a i dp R M)
  then show ?case using sound_stage [OF needs_no_money(2)]
    by (intro sound_restage [OF needs_no_money(2)]) (auto simp: under_ruling_def money_row_def)
next
  case (rolls_back did a dp w undone w' i plan e R M)
  with sound_rollback [OF rolls_back(2)] rolls_back(1) show ?case by simp
next
  case (records did m w w' a i R M)
  with sound_record [OF records(2)] show ?case by simp
next
  case (stops w r R M)
  then show ?case by (rule sound_drop)
next
  case (files w bid uid reason cat now x w' R M)
  with sound_file [OF files(3,1), of bid uid reason cat now] show ?case by simp
next
  case (answers uid did answer now w b w' R M)
  with sound_answer [OF answers(2), of uid did answer now] show ?case by simp
next
  case (reviews did w b w' R M)
  with sound_review [OF reviews(2), of did] show ?case by simp
next
  case (closes did a nt now w b w' R M)
  with sound_close [OF closes(2), of did a nt now] show ?case by simp
next
  case (moves_on w w' R M)
  from moves_on(2,1) show ?case by (rule sound_elsewhere)
qed

lemma sound_steps: "desk_step\<^sup>*\<^sup>* c c' \<Longrightarrow> sound_desk L c \<Longrightarrow> sound_desk L c'"
  by (induction rule: rtranclp_induct) (simp_all add: sound_step)

end
