(* ===== verification/DisputeRules.thy ===== *)
theory DisputeRules
  imports DisputeRace Fixtures
begin

text \<open>
  The properties of disputes: under any interleaving of rulings, and of one handler at a time.
\<close>

section \<open>Under any interleaving\<close>

definition moved_before :: "dispute list \<Rightarrow> (nat \<times> nat) list" where
  "moved_before T = map (\<lambda>x. (dp_id x, the (dp_moneyPaymentId x))) (filter (\<lambda>x. \<exists>p. claims p x) T)"

lemma moved_before_mem: "(did, p) \<in> set (moved_before T) \<longleftrightarrow> (\<exists>x \<in> set T. dp_id x = did \<and> claims p x)"
  by (auto simp: moved_before_def claims_def)

lemma claim_settled: "well_typed_dispute x \<Longrightarrow> claims p x \<Longrightarrow> \<not> active_dispute x"
  by (auto simp: well_typed_dispute_def ruling_ok_def unruled_def claims_def)

lemma sound_start:
  assumes "good_table (t_disputes (w_db w))"
  shows "sound_desk (moved_before (t_disputes (w_db w))) (w, {#}, [])"
proof -
  let ?T = "t_disputes (w_db w)"
  have "inj_on (\<lambda>x. the (dp_moneyPaymentId x)) {x \<in> set ?T. \<exists>p. claims p x}"
  proof (rule inj_onI, clarify)
    fix x y p q assume "x \<in> set ?T" "y \<in> set ?T" "claims p x" "claims q y" "the (dp_moneyPaymentId x) = the (dp_moneyPaymentId y)"
    moreover from this have "claims p y" by (auto simp: claims_def)
    ultimately show "x = y" using assms same_row [of ?T x y] unfolding good_table_def index_holds_def by blast
  qed
  moreover have "distinct ?T" using assms by (auto simp: good_table_def distinct_map)
  ultimately have "distinct (map snd (moved_before ?T))" by (simp add: moved_before_def distinct_map comp_def)
  moreover have "holders d {#} = {#}" for d by (simp add: holders_def)
  moreover have "\<exists>x \<in> set ?T. dp_id x = did \<and> \<not> active_dispute x \<and> claims p x" if "(did, p) \<in> set (moved_before ?T)" for did p
    using that assms claim_settled unfolding moved_before_mem good_table_def by blast
  ultimately show ?thesis using assms by (simp add: sound_desk_def Let_def requests_ok_def moves_ok_def)
qed

lemma sound_run:
  "desk_step\<^sup>*\<^sup>* (w, {#}, []) c \<Longrightarrow> good_table (t_disputes (w_db w)) \<Longrightarrow> sound_desk (moved_before (t_disputes (w_db w))) c"
  by (rule sound_steps [OF _ sound_start])

text \<open>
  C15. No payment is moved twice. However the requests of any number of admins interleave, with each other
  and with everything else, and wherever one stops: every payment is refunded or released for a dispute
  at most once, never one that a ruling had already claimed before, and the dispute that moved it still
  holds the claim.
\<close>

theorem payment_moved_once:
  assumes "desk_step\<^sup>*\<^sup>* (w, {#}, []) (w', R, M)" and "good_table (t_disputes (w_db w))"
  shows "distinct (map snd M)
     \<and> (\<forall>did p. (did, p) \<in> set M \<longrightarrow> (\<exists>x \<in> set (t_disputes (w_db w')). dp_id x = did \<and> claims p x)
          \<and> (\<forall>x \<in> set (t_disputes (w_db w)). \<not> claims p x))"
proof -
  let ?L = "moved_before (t_disputes (w_db w))"
  have ok: "moves_ok (t_disputes (w_db w')) R (?L @ M)" using sound_parts(3) [OF sound_run [OF assms]] .
  then have "distinct (map snd ?L @ map snd M)" by (simp add: moves_ok_def)
  then have once: "distinct (map snd M)" by simp
  have apart: "p \<notin> snd ` set ?L" if "p \<in> snd ` set M" for p using \<open>distinct (map snd ?L @ map snd M)\<close> that by auto
  have new: "\<not> claims p x" if "(did, p) \<in> set M" "x \<in> set (t_disputes (w_db w))" for did p x
    using apart [of p] that moved_before_mem [of "dp_id x" p] by force
  have held: "\<exists>x \<in> set (t_disputes (w_db w')). dp_id x = did \<and> claims p x" if "(did, p) \<in> set M" for did p
    using moves_okD(1) [OF ok, of did p] that by auto
  show ?thesis by (intro conjI allI impI ballI once held new)
qed


section \<open>What is settled stays settled\<close>

text \<open>A row closed by another admin after a ruling: all but the columns of the closing is as it was.\<close>

definition closed_after :: "dispute \<Rightarrow> dispute \<Rightarrow> bool" where
  "closed_after x x' \<longleftrightarrow> dp_status x = Dp_RESOLVED \<and> dp_status x' = Dp_CLOSED
     \<and> x'\<lparr>dp_status := Dp_RESOLVED, dp_adminNotes := dp_adminNotes x, dp_resolvedById := dp_resolvedById x,
           dp_resolvedAt := dp_resolvedAt x\<rparr> = x"

definition still_closed :: "dispute \<Rightarrow> dispute \<Rightarrow> bool" where
  "still_closed x x' \<longleftrightarrow> x'\<lparr>dp_moneyAction := dp_moneyAction x, dp_moneyAmount := dp_moneyAmount x,
     dp_moneyPaymentId := dp_moneyPaymentId x\<rparr> = x"

definition row_follows :: "request multiset \<Rightarrow> request multiset \<Rightarrow> dispute \<Rightarrow> dispute \<Rightarrow> bool" where
  "row_follows R R' x x' \<longleftrightarrow> dp_id x' = dp_id x
     \<and> (dp_status x = Dp_CLOSED \<longrightarrow> still_closed x x')
     \<and> (holders (dp_id x) R = {#} \<longrightarrow> holders (dp_id x) R' = {#} \<and> (x' = x \<or> closed_after x x'))"

lemma row_follows_self: "(holders (dp_id x) R = {#} \<Longrightarrow> holders (dp_id x) R' = {#}) \<Longrightarrow> row_follows R R' x x"
  by (simp add: row_follows_def still_closed_def)

lemma row_follows_dropped: "row_follows (add_mset r R) R x x"
  by (rule row_follows_self) (simp split: if_splits)

lemma row_written: "x \<in> set T \<Longrightarrow> row_follows R R' x (if q x then f x else x) \<Longrightarrow> \<exists>x' \<in> set (update_where q f T). row_follows R R' x x'"
  by (rule bexI [of _ "if q x then f x else x"], assumption) (simp add: update_where_def)

lemma row_follows_closed: "\<not> active_dispute x \<Longrightarrow> dp_status x \<noteq> Dp_CLOSED \<Longrightarrow> row_follows R R x (closed a nt now x)"
  by (auto simp: row_follows_def closed_after_def closed_def active_iff)

lemma row_follows_held:
  "holders (dp_id x) R \<noteq> {#} \<Longrightarrow> row_follows R R' x (money_recorded m x)"
  "holders (dp_id x) R \<noteq> {#} \<Longrightarrow> dp_status x \<noteq> Dp_CLOSED \<Longrightarrow> row_follows R R' x (rolled_back b x)"
  by (simp_all add: row_follows_def still_closed_def money_recorded_def)

lemma no_claim_on_settled:
  assumes "sound_desk L (w, R, M)" and "claim_for_ruling did a i plan w = (Inr CLAIMED, w')"
    and "x \<in> set (t_disputes (w_db w))" and "\<not> active_dispute x"
  shows "dp_id x \<noteq> did"
proof
  assume "dp_id x = did"
  moreover obtain y where "y \<in> set (t_disputes (w_db w))" "dp_id y = did" "active_dispute y"
    using assms(2) by (auto simp: run_claim split: if_splits)
  ultimately show False using ruled_row [OF assms(1,3) _ assms(4)] assms(4) by blast
qed

lemma save_row_keeps: "x \<in> set rows \<Longrightarrow> key x \<noteq> key r \<Longrightarrow> x \<in> set (save_row key r rows)"
  by (auto simp: save_row_def)

lemma step_row:
  assumes "desk_step c c'"
  shows "sound_desk L c \<Longrightarrow> c = (w, R, M) \<Longrightarrow> c' = (w', R', M') \<Longrightarrow> x \<in> set (t_disputes (w_db w)) \<Longrightarrow> \<not> active_dispute x \<Longrightarrow>
     \<exists>x' \<in> set (t_disputes (w_db w')). row_follows R R' x x'"
  using assms
proof (induction rule: desk_step.induct)
  case (claims did a i plan v v' dp Q N)
  then have other: "dp_id x \<noteq> did" using no_claim_on_settled by blast
  have "x \<in> set (t_disputes (w_db v'))"
    using claims other by (auto simp: run_claim in_update_where split: if_splits)
  with other claims show ?case by (intro bexI [of _ x] row_follows_self) auto
next
  case (degrades did a i plan v v' dp Q N)
  then have "v' = v" by (auto simp: run_claim split: if_splits)
  with degrades show ?case by (intro bexI [of _ x] row_follows_self) auto
next
  case (rolls_back did a dp v undone v' i plan e Q N)
  then have "\<exists>x' \<in> set (t_disputes (w_db v')). row_follows (add_mset (Request did a i (Failed dp plan e)) Q) Q x x'"
    by (auto simp: roll_back_ruling_def run_simps intro!: row_written row_follows_held row_follows_dropped)
  with rolls_back show ?case by simp
next
  case (records did m v v' a i Q N)
  then have "t_disputes (w_db v') = t_disputes (w_db v) \<or> t_disputes (w_db v') = update_where (\<lambda>x. dp_id x = did) (money_recorded m) (t_disputes (w_db v))"
    by (auto simp: record_money_result_def run_simps split: if_splits)
  then have "\<exists>x' \<in> set (t_disputes (w_db v')). row_follows (add_mset (Request did a i (Moved m)) Q) Q x x'"
  proof
    assume "t_disputes (w_db v') = t_disputes (w_db v)"
    with records show ?thesis by (auto intro: bexI [of _ x] row_follows_dropped)
  next
    assume "t_disputes (w_db v') = update_where (\<lambda>x. dp_id x = did) (money_recorded m) (t_disputes (w_db v))"
    with records show ?thesis by (auto intro!: row_written row_follows_held row_follows_dropped)
  qed
  with records show ?case by simp
next
  case (files v bid uid reason cat now y v' Q N)
  then have "t_disputes (w_db v') = save_row dp_id y (t_disputes (w_db v))" "dp_id y = next_id v T_disputes"
    by (auto simp: insert_dispute_def run_simps put_dispute_def new_dispute_def)
  moreover have "dp_id x \<noteq> next_id v T_disputes" using files by (metis Pair_inject imageI)
  ultimately have "x \<in> set (t_disputes (w_db v'))" using files by (simp add: save_row_keeps)
  with files show ?case by (auto intro!: bexI [of _ x] row_follows_self)
next
  case (answers uid did answer now v b v' Q N)
  then have "\<exists>x' \<in> set (t_disputes (w_db v')). row_follows Q Q x x'"
    by (auto simp: write_response_def run_simps intro!: row_written row_follows_self)
  with answers show ?case by simp
next
  case (reviews did v b v' Q N)
  then have "\<exists>x' \<in> set (t_disputes (w_db v')). row_follows Q Q x x'"
    by (auto simp: write_review_def run_simps active_iff intro!: row_written row_follows_self)
  with reviews show ?case by simp
next
  case (closes did a nt now v b v' Q N)
  then have "\<exists>x' \<in> set (t_disputes (w_db v')). row_follows Q Q x x'"
    by (auto simp: write_close_def run_simps intro!: row_written row_follows_closed row_follows_self)
  with closes show ?case by simp
next
  case (stops v r Q N)
  then show ?case by (auto intro!: bexI [of _ x] row_follows_dropped)
qed (auto intro!: bexI [of _ x] row_follows_self simp: elsewhere_def)

lemma closed_after_status: "closed_after x x' \<Longrightarrow> dp_status x = Dp_RESOLVED \<and> dp_id x' = dp_id x \<and> dp_status x' = Dp_CLOSED \<and> \<not> active_dispute x'"
  by (cases x; cases x') (simp add: closed_after_def active_iff)

lemma still_closed_same: "still_closed x x' \<Longrightarrow> dp_id x' = dp_id x \<and> dp_status x' = dp_status x"
  by (cases x; cases x') (simp add: still_closed_def)

lemma still_closed_refl: "still_closed x x"
  by (simp add: still_closed_def)

lemma still_closed_trans: "still_closed x x' \<Longrightarrow> still_closed x' x'' \<Longrightarrow> still_closed x x''"
  by (cases x; cases x'; cases x'') (simp add: still_closed_def)

text \<open>
  C21. What is settled stays settled, whatever else happens. A closed dispute stays closed, with the same
  verdict, note, resolver and date, even while a ruling on it that is still in flight fails and rolls
  back. A dispute with no ruling in flight keeps every column of its ruling and of its response for
  ever; the one change left is that a resolved dispute may be closed.
\<close>

theorem settled_disputes_stay:
  assumes "desk_step\<^sup>*\<^sup>* (w, R, M) (w', R', M')" and "sound_desk L (w, R, M)"
    and "x \<in> set (t_disputes (w_db w))" and "dp_status x \<in> {Dp_RESOLVED, Dp_CLOSED}"
  shows "(dp_status x = Dp_CLOSED \<longrightarrow> (\<exists>x' \<in> set (t_disputes (w_db w')). still_closed x x'))
     \<and> (holders (dp_id x) R = {#} \<longrightarrow> (\<exists>x' \<in> set (t_disputes (w_db w')). x' = x \<or> closed_after x x'))"
proof -
  define P where "P = (\<lambda>c. case c of (v, Q, N) \<Rightarrow> sound_desk L c
     \<and> (dp_status x = Dp_CLOSED \<longrightarrow> (\<exists>x' \<in> set (t_disputes (w_db v)). still_closed x x'))
     \<and> (holders (dp_id x) R = {#} \<longrightarrow> holders (dp_id x) Q = {#} \<and> (\<exists>x' \<in> set (t_disputes (w_db v)). x' = x \<or> closed_after x x')))"
  have step: "P c'" if "desk_step c c'" "P c" for c c'
  proof -
    obtain v Q N v' Q' N' where c: "c = (v, Q, N)" "c' = (v', Q', N')" by (cases c; cases c') auto
    note row = step_row [OF that(1) _ c(1,2)]
    have sound: "sound_desk L c" using that(2) by (simp add: P_def c)
    have 1: "\<exists>y \<in> set (t_disputes (w_db v')). still_closed x y" if "dp_status x = Dp_CLOSED"
    proof -
      from that \<open>P c\<close> obtain x' where x': "x' \<in> set (t_disputes (w_db v))" "still_closed x x'" by (auto simp: P_def c)
      then have "dp_status x' = Dp_CLOSED" using that still_closed_same by metis
      with row [OF sound x'(1)] obtain y where "y \<in> set (t_disputes (w_db v'))" "still_closed x' y"
        by (auto simp: row_follows_def active_iff)
      with still_closed_trans [OF x'(2)] show ?thesis by blast
    qed
    have 2: "holders (dp_id x) Q' = {#} \<and> (\<exists>y \<in> set (t_disputes (w_db v')). y = x \<or> closed_after x y)" if "holders (dp_id x) R = {#}"
    proof -
      from that \<open>P c\<close> obtain x' where x': "x' \<in> set (t_disputes (w_db v))" "x' = x \<or> closed_after x x'" "holders (dp_id x) Q = {#}"
        by (auto simp: P_def c)
      then have id: "dp_id x' = dp_id x" "\<not> active_dispute x'" using assms(4) closed_after_status [of x x'] by (auto simp: active_iff)
      from row [OF sound x'(1) id(2)] id x'(3) obtain y where
        "y \<in> set (t_disputes (w_db v'))" "holders (dp_id x) Q' = {#}" "y = x' \<or> closed_after x' y"
        by (auto simp: row_follows_def)
      moreover have "closed_after x' y \<Longrightarrow> x' = x" using x'(2) closed_after_status [of x x'] closed_after_status [of x' y] by auto
      ultimately show ?thesis using x'(2) by blast
    qed
    show ?thesis using 1 2 sound_step [OF that(1) sound] by (simp add: P_def c)
  qed
  have "P (w, R, M)" using assms(2,3) still_closed_refl by (auto simp: P_def)
  from assms(1) this have "P (w', R', M')" by (induction rule: rtranclp_induct) (assumption, rule step)
  then show ?thesis unfolding P_def by simp
qed

end
