(* ===== verification/DisputeHandling.thy ===== *)
theory DisputeHandling
  imports DisputeRules
begin

text \<open>
  The handlers of the disputes service one at a time: each is a run of the desk's steps, so what holds
  under any interleaving holds of them; and what each of them does, refuses and shows.
\<close>

section \<open>Running the handlers\<close>

interpretation dt: payment_frame "\<lambda>w. t_disputes (w_db w) = x" for x
  by unfold_locales (simp_all add: put_payment_def update_profiles_def)

lemma keeps_elsewhere: "(\<And>x. keeps (\<lambda>w. t_disputes (w_db w) = x) m) \<Longrightarrow> m w = (r, w') \<Longrightarrow> elsewhere w w'"
  unfolding keeps_def elsewhere_def by (metis snd_conv)

lemma keeps_call: "keeps (\<lambda>w. t_disputes (w_db w) = x) (call_payments env admin plan)"
  unfolding call_payments_def by (intro dt.frame_rules dt.frame_refund dt.frame_release)

lemma keeps_emit_outcome: "keeps (\<lambda>w. t_disputes (w_db w) = x) (emit_outcome l b note)"
  unfolding emit_outcome_def by (intro dt.frame_rules)

lemma keeps_record_ruling: "keeps (\<lambda>w. t_disputes (w_db w) = x) (record_ruling admin dp act note)"
  unfolding record_ruling_def by (intro dt.frame_rules)

lemma keeps_finish: "keeps (\<lambda>w. t_disputes (w_db w) = x) (finish_ruling admin l i plan moved)"
  unfolding finish_ruling_def by (intro dt.frame_rules keeps_emit_outcome keeps_record_ruling)

lemmas run_elsewhere = keeps_call [THEN keeps_elsewhere] keeps_finish [THEN keeps_elsewhere]

lemma run_load_dispute [run_simps]:
  "bnd (load_dispute did) g w = (case find_dispute (w_db w) did of
     None \<Rightarrow> (Inl (NotFound_dispute Dispute_not_found), w) | Some dp \<Rightarrow> g (with_dispute_relations (w_db w) dp) w)"
  by (simp add: load_dispute_def run_simps split: option.splits)

lemma ld_dispute_with [simp]: "ld_dispute (with_dispute_relations d dp) = dp"
  by (simp add: with_dispute_relations_def)

lemma finish_returns: "fst (finish_ruling admin l i plan moved w) = Inr \<lparr>rr_message = describe_ruling (rs_outcome i) moved (mp_skipped plan),
    rr_outcome = rs_outcome i, rr_moneyAction = (case moved of Some m \<Rightarrow> mv_action m | None \<Rightarrow> Mn_NONE),
    rr_moneyAmount = map_option mv_amount moved, rr_moneyPaymentId = map_option mv_paymentId moved,
    rr_skippedReason = (if moved \<noteq> None then None else mp_skipped plan)\<rparr>"
  by (simp add: finish_ruling_def emit_outcome_def record_ruling_def record_audit_def run_simps Let_def split: prod.splits)

datatype dispute_request = Raise nat nat string dispute_category | Respond nat nat string | Start_review nat
  | Resolve user nat resolve_input | Close user nat "string option"

fun perform_dispute :: "env \<Rightarrow> dispute_request \<Rightarrow> ruling_reply option act" where
  "perform_dispute env (Raise uid bid reason cat) = bnd (raise_dispute uid bid reason cat) (\<lambda>_. ret None)"
| "perform_dispute env (Respond uid did answer) = bnd (respond uid did answer) (\<lambda>_. ret None)"
| "perform_dispute env (Start_review did) = bnd (start_review did) (\<lambda>_. ret None)"
| "perform_dispute env (Resolve admin did i) = bnd (resolve_dispute env admin did i) (\<lambda>x. ret (Some x))"
| "perform_dispute env (Close admin did notes) = bnd (close_dispute admin did notes) (\<lambda>_. ret None)"

fun moves_of :: "dispute_request \<Rightarrow> exn + ruling_reply option \<Rightarrow> (nat \<times> nat) list" where
  "moves_of (Resolve admin did i) (Inr (Some x)) = (case rr_moneyPaymentId x of Some p \<Rightarrow> [(did, p)] | None \<Rightarrow> [])"
| "moves_of _ _ = []"

section \<open>Every handler is a run of steps\<close>

lemma step_then: "desk_step c c' \<Longrightarrow> desk_step\<^sup>*\<^sup>* c' c'' \<Longrightarrow> desk_step\<^sup>*\<^sup>* c c''"
  by (rule converse_rtranclp_into_rtranclp)

lemma steps_elsewhere: "elsewhere w w' \<Longrightarrow> desk_step\<^sup>*\<^sup>* (w, R, M) (w', R, M)"
  by (intro r_into_rtranclp moves_on)

lemma elsewhere_refl [simp]: "elsewhere w w"
  by (simp add: elsewhere_def)

lemma claim_returns: "\<exists>c w'. claim_for_ruling did a i plan w = (Inr c, w')"
  by (simp only: run_claim split: if_split) blast

lemma degrade_returns: "\<exists>c plan' w'. claim_or_degrade did a i plan w = (Inr (c, plan'), w')"
proof -
  obtain c w1 where 1: "claim_for_ruling did a i plan w = (Inr c, w1)" using claim_returns by blast
  obtain c' w2 where "claim_for_ruling did a i (skip_money Claimed_by_sibling) w1 = (Inr c', w2)" using claim_returns by blast
  with 1 show ?thesis by (cases "c = PAYMENT_CLAIMED_BY_SIBLING") (simp_all add: claim_or_degrade_def bnd_def ret_def)
qed

lemma lost_elsewhere: "claim_for_ruling did a i plan w = (Inr c, w') \<Longrightarrow> c \<noteq> CLAIMED \<Longrightarrow> elsewhere w w'"
  by (auto simp: run_claim elsewhere_def update_where_none split: if_splits)

lemma run_move_claimed:
  "move_claimed_money env did a plan prev w =
     (if nothing_to_move plan then (Inr None, w)
      else case call_payments env a plan w of
        (Inr _, w1) \<Rightarrow> (Inr (Some (money_moved_by plan)), w1)
      | (Inl e, w1) \<Rightarrow> (case roll_back_ruling did a prev w1 of
          (r, w2) \<Rightarrow> (Inl (if r = Inr True then Money_action_failed (mp_action plan) e else Settled_by_other_admin (mp_action plan) e), w2)))"
  by (simp add: move_claimed_money_def give_up_ruling_def roll_back_ruling_def run_simps split: prod.splits sum.splits)

lemma run_record:
  "record_money_result did m w = (Inr (), if (case m of None \<Rightarrow> False | Some v \<Rightarrow> mv_action v \<noteq> Mn_NONE \<and> claimed_by_other did (mv_paymentId v) (w_db w))
     then w else w\<lparr>w_db := update_disputes (\<lambda>x. dp_id x = did) (money_recorded m) (w_db w)\<rparr>)"
  by (cases m) (simp_all add: record_money_result_def run_simps split: if_splits)

lemma steps_record:
  assumes "andthen (record_money_result did m) (finish_ruling a l i plan m) w = (r, w')"
  shows "desk_step\<^sup>*\<^sup>* (w, add_mset (Request did a i (Moved m)) R, M) (w', R, M) \<and> (\<exists>x. r = Inr x \<and> rr_moneyPaymentId x = map_option mv_paymentId m)"
proof -
  obtain w1 where 1: "record_money_result did m w = (Inr (), w1)" by (simp add: run_record)
  then have 2: "finish_ruling a l i plan m w1 = (r, w')" using assms by (simp add: andthen_def bnd_def)
  from step_then [OF records [OF 1]] steps_elsewhere [OF run_elsewhere(2) [OF 2]]
  have "desk_step\<^sup>*\<^sup>* (w, add_mset (Request did a i (Moved m)) R, M) (w', R, M)" by blast
  then show ?thesis using finish_returns [of a l i plan m w1] 2 by auto
qed

lemma steps_claimed:
  assumes "bnd (move_claimed_money env did a plan (before_of dp)) (\<lambda>m. andthen (record_money_result did m) (finish_ruling a l i plan m)) w = (r, w')"
  shows "desk_step\<^sup>*\<^sup>* (w, add_mset (Request did a i (Claimed dp plan)) R, M)
     (w', R, M @ (case r of Inl e \<Rightarrow> [] | Inr x \<Rightarrow> (case rr_moneyPaymentId x of Some p \<Rightarrow> [(did, p)] | None \<Rightarrow> [])))"
proof (cases "nothing_to_move plan")
  case True
  then have "andthen (record_money_result did None) (finish_ruling a l i plan None) w = (r, w')"
    using assms by (simp add: bnd_def run_move_claimed)
  from step_then [OF needs_no_money [OF True]] steps_record [OF this, of R M] show ?thesis by auto
next
  case False
  obtain c w1 where c: "call_payments env a plan w = (c, w1)" by fastforce
  note away = run_elsewhere(1) [OF c]
  show ?thesis
  proof (cases c)
    case (Inl e)
    obtain undone w2 where rb: "roll_back_ruling did a (before_of dp) w1 = (Inr undone, w2)"
      by (simp add: roll_back_ruling_def run_simps)
    then have "\<exists>e'. r = Inl e'" "w' = w2" using assms Inl c False by (auto simp: bnd_def run_move_claimed)
    with step_then [OF is_refused [OF False away, of did a i dp R M e]] r_into_rtranclp [of desk_step, OF rolls_back [OF rb, of i plan e R M]] show ?thesis by auto
  next
    case (Inr u)
    then have "andthen (record_money_result did (Some (money_moved_by plan))) (finish_ruling a l i plan (Some (money_moved_by plan))) w1 = (r, w')"
      using assms c False by (simp add: bnd_def run_move_claimed)
    from steps_record [OF this, of R "M @ [(did, the (mp_paymentId plan))]"] step_then [OF pays [OF False away, of did a i dp R M]]
    obtain x where "desk_step\<^sup>*\<^sup>* (w, add_mset (Request did a i (Claimed dp plan)) R, M) (w', R, M @ [(did, the (mp_paymentId plan))])"
      "r = Inr x" "rr_moneyPaymentId x = Some (the (mp_paymentId plan))" by (auto simp: money_moved_by_def)
    then show ?thesis by simp
  qed
qed

definition rule_on :: "env \<Rightarrow> user \<Rightarrow> loaded_dispute \<Rightarrow> resolve_input \<Rightarrow> money_plan \<Rightarrow> ruling_reply act" where
  "rule_on env a l i plan =
     bnd (move_claimed_money env (dp_id (ld_dispute l)) a plan (before_of (ld_dispute l)))
       (\<lambda>m. andthen (record_money_result (dp_id (ld_dispute l)) m) (finish_ruling a l i plan m))"

text \<open>Which of its branches a ruling takes, and what the claim left behind.\<close>

lemma resolve_cases:
  assumes "resolve_dispute env a did i w = (r, w')"
  obtains (refused) e where "r = Inl e" "w' = w"
  | (lost) dp plan0 c plan e where "find_dispute (w_db w) did = Some dp" "dp_status dp \<notin> {Dp_RESOLVED, Dp_CLOSED}"
      "plan_money_action (w_db w) dp i = Inr plan0" "claim_or_degrade did a i plan0 w = (Inr (c, plan), w')" "c \<noteq> CLAIMED" "r = Inl e"
  | (rules) dp plan0 plan w1 where "find_dispute (w_db w) did = Some dp" "dp_status dp \<notin> {Dp_RESOLVED, Dp_CLOSED}"
      "plan_money_action (w_db w) dp i = Inr plan0" "claim_or_degrade did a i plan0 w = (Inr (CLAIMED, plan), w1)"
      "rule_on env a (with_dispute_relations (w_db w) dp) i plan w1 = (r, w')"
proof (cases "find_dispute (w_db w) did")
  case None
  then show ?thesis using assms refused by (auto simp: resolve_dispute_def run_simps)
next
  case (Some dp)
  then have id: "dp_id dp = did" by (simp add: find_dispute_def find_row_SomeD)
  show ?thesis
  proof (cases "dp_status dp \<in> {Dp_RESOLVED, Dp_CLOSED} \<or> (\<exists>e. plan_money_action (w_db w) dp i = Inl e)")
    case True
    then show ?thesis using assms Some refused by (auto simp: resolve_dispute_def run_simps Let_def split: if_splits)
  next
    case False
    then obtain plan0 where plan0: "plan_money_action (w_db w) dp i = Inr plan0" and st: "dp_status dp \<notin> {Dp_RESOLVED, Dp_CLOSED}"
      by (cases "plan_money_action (w_db w) dp i") auto
    obtain c plan w1 where c: "claim_or_degrade did a i plan0 w = (Inr (c, plan), w1)" using degrade_returns by blast
    have "(if c \<noteq> CLAIMED then (Inl (BadRequest_dispute (Ruled_by_another_admin (map_option dp_status (find_dispute (w_db w1) did)))), w1)
        else rule_on env a (with_dispute_relations (w_db w) dp) i plan w1) = (r, w')"
      using assms Some plan0 st id by (auto simp: resolve_dispute_def run_simps Let_def run_bnd_Pair [of "claim_or_degrade did a i plan0" w, OF c] rule_on_def split: if_splits)
    with lost [OF Some st plan0] rules [OF Some st plan0] c show ?thesis by (cases "c = CLAIMED") auto
  qed
qed

lemma steps_claim:
  assumes "claim_or_degrade did a i plan0 w = (Inr (c, plan), w1)"
  shows "desk_step\<^sup>*\<^sup>* (w, add_mset (Request did a i (Planned dp plan0)) R, M)
    (w1, if c = CLAIMED then add_mset (Request did a i (Claimed dp plan)) R else R, M)"
proof -
  obtain c0 w0 where c0: "claim_for_ruling did a i plan0 w = (Inr c0, w0)" using claim_returns by blast
  show ?thesis
  proof (cases "c0 = PAYMENT_CLAIMED_BY_SIBLING")
    case True
    then have w0: "w0 = w" using c0 by (simp add: run_claim split: if_splits)
    have again: "claim_for_ruling did a i (skip_money Claimed_by_sibling) w = (Inr c, w1)" "plan = skip_money Claimed_by_sibling"
      using assms c0 True w0 by (auto simp: claim_or_degrade_def bnd_def ret_def run_claim split: if_splits)
    note first = degrades [OF c0 [unfolded True w0], of dp R M]
    show ?thesis
    proof (cases "c = CLAIMED")
      case True
      with first again show ?thesis by (auto intro: step_then r_into_rtranclp claims)
    next
      case False
      with step_then [OF first step_then [OF stops steps_elsewhere [OF lost_elsewhere [OF again(1) False]]]] show ?thesis by simp
    qed
  next
    case False
    then have "c = c0" "plan = plan0" "w1 = w0" using assms c0 by (simp_all add: claim_or_degrade_def bnd_def ret_def)
    then show ?thesis
      using c0 step_then [OF stops steps_elsewhere [OF lost_elsewhere [OF c0]]] by (cases "c0 = CLAIMED") (auto intro: r_into_rtranclp claims)
  qed
qed

definition paid_for :: "nat \<Rightarrow> exn + ruling_reply \<Rightarrow> (nat \<times> nat) list" where
  "paid_for did r = (case r of Inl e \<Rightarrow> [] | Inr x \<Rightarrow> (case rr_moneyPaymentId x of Some p \<Rightarrow> [(did, p)] | None \<Rightarrow> []))"

lemma steps_resolve:
  assumes "resolve_dispute env a did i w = (r, w')"
  shows "desk_step\<^sup>*\<^sup>* (w, R, M) (w', R, M @ paid_for did r)"
  using assms
proof (cases rule: resolve_cases)
  case (refused e)
  then show ?thesis by (simp add: paid_for_def)
next
  case (lost dp plan0 c plan e)
  have "desk_step\<^sup>*\<^sup>* (w, R, M) (w, add_mset (Request did a i (Planned dp plan0)) R, M)"
    by (rule step_then [OF opens [OF lost(1,2)] r_into_rtranclp [of desk_step, OF plans [OF lost(3)]]])
  from rtranclp_trans [OF this steps_claim [OF lost(4)]] lost(5,6) show ?thesis by (simp add: paid_for_def)
next
  case (rules dp plan0 plan w1)
  then have "dp_id dp = did" by (simp add: find_dispute_def find_row_SomeD)
  with rules(5) have last: "desk_step\<^sup>*\<^sup>* (w1, add_mset (Request did a i (Claimed dp plan)) R, M) (w', R, M @ paid_for did r)"
    using steps_claimed [of env did a plan dp "with_dispute_relations (w_db w) dp" i w1 r w' R M] by (simp add: rule_on_def paid_for_def)
  have "desk_step\<^sup>*\<^sup>* (w, R, M) (w, add_mset (Request did a i (Planned dp plan0)) R, M)"
    by (rule step_then [OF opens [OF rules(1,2)] r_into_rtranclp [of desk_step, OF plans [OF rules(3)]]])
  from rtranclp_trans [OF this rtranclp_trans [OF steps_claim [OF rules(4)]]] last show ?thesis by simp
qed

lemma steps_raise:
  assumes "raise_dispute uid bid reason cat w = (r, w')" and "next_id w T_disputes \<notin> dp_id ` set (t_disputes (w_db w))"
  shows "desk_step\<^sup>*\<^sup>* (w, R, M) (w', R, M)"
proof (cases "elsewhere w w'")
  case True
  then show ?thesis by (rule steps_elsewhere)
next
  case False
  let ?mk = "\<lambda>k. new_dispute k bid uid reason cat (clock w)"
  obtain x w1 where x: "insert_dispute ?mk w = (Inr x, w1)" by (simp add: insert_dispute_def run_simps)
  have "elsewhere w1 w'"
    using assms(1) False x
    by (auto simp: raise_dispute_def booking_customer_def artisan_user_of_def run_simps Let_def elsewhere_def insert_dispute_def asks_def
      split: option.splits if_splits)
  from step_then [OF files [OF assms(2) x] steps_elsewhere [OF this]] show ?thesis .
qed

lemma steps_respond:
  assumes "respond uid did answer w = (r, w')"
  shows "desk_step\<^sup>*\<^sup>* (w, R, M) (w', R, M)"
proof -
  obtain b w1 where b: "write_response uid did answer (clock w) w = (Inr b, w1)" by (simp add: write_response_def run_simps)
  have "w' = w \<or> w' = w1"
    using assms b by (auto simp: respond_def assert_respondable_def run_simps Let_def write_response_def asks_def split: option.splits if_splits)
  then show ?thesis using r_into_rtranclp [of desk_step, OF answers [OF b]] by auto
qed

lemma steps_review:
  assumes "start_review did w = (r, w')"
  shows "desk_step\<^sup>*\<^sup>* (w, R, M) (w', R, M)"
proof -
  obtain b w1 where b: "write_review did w = (Inr b, w1)" by (simp add: write_review_def run_simps)
  have "w' = w \<or> w' = w1"
    using assms b by (auto simp: start_review_def run_simps write_review_def split: option.splits if_splits)
  then show ?thesis using r_into_rtranclp [of desk_step, OF reviews [OF b]] by auto
qed

lemma steps_close:
  assumes "close_dispute a did notes w = (r, w')"
  shows "desk_step\<^sup>*\<^sup>* (w, R, M) (w', R, M)"
proof -
  obtain b w1 where b: "write_close did a notes (clock w) w = (Inr b, w1)" by (simp add: write_close_def run_simps)
  have away: "elsewhere v (snd (andthen (emit_outcome l False None) (record_ruling a dp DISPUTE_CLOSE notes) v))" for l dp v
    using keeps_elsewhere [of "andthen (emit_outcome l False None) (record_ruling a dp DISPUTE_CLOSE notes)" v]
    by (metis dt.keeps_andthen keeps_emit_outcome keeps_record_ruling prod.collapse)
  have "w' = w \<or> elsewhere w1 w'"
  proof (cases "find_dispute (w_db w) did")
    case (Some dp)
    show ?thesis
    proof (cases "dp_status dp \<noteq> Dp_CLOSED \<and> b")
      case True
      then have "\<exists>l dp'. andthen (emit_outcome l False None) (record_ruling a dp' DISPUTE_CLOSE notes) w1 = (r, w')"
        using assms Some b by (auto simp: close_dispute_def run_simps Let_def run_bnd_Pair [of "write_close did a notes (clock w)" w, OF b])
      then show ?thesis using away [of w1] by (metis snd_conv)
    next
      case False
      then show ?thesis using assms Some b
        by (auto simp: close_dispute_def run_simps run_bnd_Pair [of "write_close did a notes (clock w)" w, OF b] split: if_splits)
    qed
  qed (use assms in \<open>simp add: close_dispute_def run_simps\<close>)
  then show ?thesis using step_then [OF closes [OF b] steps_elsewhere] by auto
qed

text \<open>
  C27. Every handler of the disputes service refines the desk: whatever it answers, a request runs as a
  sequence of the desk's steps from the world it finds to the world it leaves, and adds to the
  payments moved exactly the one its reply reports.
\<close>

theorem handlers_refine_desk:
  assumes "perform_dispute env op w = (r, w')" and "next_id w T_disputes \<notin> dp_id ` set (t_disputes (w_db w))"
  shows "desk_step\<^sup>*\<^sup>* (w, R, M) (w', R, M @ moves_of op r)"
proof -
  have ran: "\<exists>r0. m w = (r0, w')" if "bnd m (\<lambda>_. ret None) w = (r, w')" for m :: "'b act"
    using that by (auto simp: bnd_def ret_def split: prod.splits sum.splits)
  show ?thesis
  proof (cases op)
    case (Raise uid bid reason cat)
    then show ?thesis using assms ran [of "raise_dispute uid bid reason cat"] steps_raise by auto
  next
    case (Respond uid did answer)
    then show ?thesis using assms(1) ran [of "respond uid did answer"] steps_respond by auto
  next
    case (Start_review did)
    then show ?thesis using assms(1) ran [of "start_review did"] steps_review by auto
  next
    case (Resolve a did i)
    then obtain r0 where r0: "resolve_dispute env a did i w = (r0, w')" "moves_of op r = paid_for did r0"
      using assms(1) by (cases r) (auto simp: bnd_def ret_def paid_for_def split: prod.splits sum.splits)
    with steps_resolve [OF r0(1)] show ?thesis by simp
  next
    case (Close a did nt)
    then show ?thesis using assms(1) ran [of "close_dispute a did nt"] steps_close by auto
  qed
qed

end
