(* ===== verification/DisputeEffects.thy ===== *)
theory DisputeEffects
  imports DisputeHandling
begin

text \<open>
  What a ruling does when nothing comes between its statements, what it leaves when something does, and what
  the parties and the admin are shown.
\<close>

section \<open>One ruling\<close>

lemma claimed_world:
  assumes "claim_or_degrade did a i plan0 w = (Inr (CLAIMED, plan), w1)"
  shows "w1 = w\<lparr>w_db := update_disputes (\<lambda>x. dp_id x = did \<and> active_dispute x) (ruled a i plan (clock w)) (w_db w)\<rparr>
     \<and> (moves_money plan \<longrightarrow> \<not> claimed_by_other did (the (mp_paymentId plan)) (w_db w))"
proof -
  have one: "v1 = v\<lparr>w_db := update_disputes (\<lambda>x. dp_id x = did \<and> active_dispute x) (ruled a i p (clock v)) (w_db v)\<rparr>
     \<and> (moves_money p \<longrightarrow> \<not> claimed_by_other did (the (mp_paymentId p)) (w_db v))"
    if "claim_for_ruling did a i p v = (Inr CLAIMED, v1)" for p v v1
    using that by (auto simp: run_claim split: if_splits)
  obtain c0 w0 where c0: "claim_for_ruling did a i plan0 w = (Inr c0, w0)" using claim_returns by blast
  show ?thesis
  proof (cases "c0 = PAYMENT_CLAIMED_BY_SIBLING")
    case True
    then have "w0 = w" using c0 by (simp add: run_claim split: if_splits)
    moreover obtain c1 w2 where c1: "claim_for_ruling did a i (skip_money Claimed_by_sibling) w0 = (Inr c1, w2)" using claim_returns by blast
    ultimately show ?thesis using assms c0 True one [of "skip_money Claimed_by_sibling" w w1]
      by (simp add: claim_or_degrade_def bnd_def ret_def)
  next
    case False
    then show ?thesis using assms c0 one [of plan0 w w1] by (simp add: claim_or_degrade_def bnd_def ret_def)
  qed
qed

lemma lost_rows:
  assumes "claim_or_degrade did a i plan0 w = (Inr (c, plan), w1)" and "c \<noteq> CLAIMED"
  shows "t_disputes (w_db w1) = t_disputes (w_db w)"
proof -
  obtain c0 w0 where c0: "claim_for_ruling did a i plan0 w = (Inr c0, w0)" using claim_returns by blast
  obtain c1 w2 where c1: "claim_for_ruling did a i (skip_money Claimed_by_sibling) w0 = (Inr c1, w2)" using claim_returns by blast
  show ?thesis
  proof (cases "c0 = PAYMENT_CLAIMED_BY_SIBLING")
    case True
    then have "c = c1" "w1 = w2" using assms(1) c0 c1 by (simp_all add: claim_or_degrade_def bnd_def ret_def)
    with lost_elsewhere [OF c0] lost_elsewhere [OF c1] True assms(2) show ?thesis by (simp add: elsewhere_def)
  next
    case False
    then have "c = c0" "w1 = w0" using assms(1) c0 by (simp_all add: claim_or_degrade_def bnd_def ret_def)
    with lost_elsewhere [OF c0] assms(2) show ?thesis by (simp add: elsewhere_def)
  qed
qed

lemma undo_ruling: "unruled dp \<Longrightarrow> rolled_back (before_of dp) (ruled a i plan now dp) = dp"
  by (cases dp) (simp add: rolled_back_def before_of_def ruled_def unruled_def)

lemma undone_rows:
  assumes "good_table T" and "dp \<in> set T" and "active_dispute dp"
  shows "update_where (\<lambda>x. dp_id x = dp_id dp \<and> dp_status x = Dp_RESOLVED \<and> dp_resolvedById x = Some (u_id a)) (rolled_back (before_of dp))
     (update_where (\<lambda>x. dp_id x = dp_id dp \<and> active_dispute x) (ruled a i plan now) T) = T"
proof -
  have "unruled dp" using assms by (simp add: good_table_def well_typed_dispute_def ruling_ok_def)
  note undone = undo_ruling [OF this, of a i plan now]
  have ruled: "dp_status (ruled a i plan now dp) = Dp_RESOLVED" "dp_resolvedById (ruled a i plan now dp) = Some (u_id a)"
    by (simp_all add: ruled_def)
  have "x = dp" if "x \<in> set T" "dp_id x = dp_id dp" for x
    using same_row [OF _ that(1) assms(2) that(2)] assms(1) by (simp add: good_table_def)
  then show ?thesis unfolding update_where_def map_map using assms(3) undone ruled
    by (intro map_idI) (auto simp: comp_def)
qed

definition ruling_row :: "user \<Rightarrow> resolve_input \<Rightarrow> ruling_reply \<Rightarrow> int \<Rightarrow> dispute \<Rightarrow> dispute" where
  "ruling_row a i x now dp = dp\<lparr>dp_status := Dp_RESOLVED, dp_outcome := Some (rs_outcome i), dp_resolution := Some (rs_resolution i),
     dp_resolvedById := Some (u_id a), dp_resolvedAt := Some now,
     dp_adminNotes := (if truthy (rs_adminNotes i) then rs_adminNotes i else dp_adminNotes dp),
     dp_moneyAction := Some (rr_moneyAction x), dp_moneyAmount := rr_moneyAmount x, dp_moneyPaymentId := rr_moneyPaymentId x\<rparr>"

lemma finish_run:
  assumes "finish_ruling a l i plan m w = (r, w')"
  shows "\<exists>x au. r = Inr x \<and> rr_outcome x = rs_outcome i \<and> rr_moneyAction x = (case m of Some v \<Rightarrow> mv_action v | None \<Rightarrow> Mn_NONE)
     \<and> rr_moneyAmount x = map_option mv_amount m \<and> rr_moneyPaymentId x = map_option mv_paymentId m
     \<and> t_disputes (w_db w') = t_disputes (w_db w) \<and> t_audits (w_db w') = t_audits (w_db w) @ [au]
     \<and> au_action au = DISPUTE_RESOLVE \<and> au_target au = Target_DISPUTE \<and> au_targetId au = dp_id (ld_dispute l) \<and> au_actorId au = u_id a
     \<and> au_outcome au = Some (outcome_text (rs_outcome i)) \<and> au_amount au = map_option mv_amount m"
  using assms
  by (auto simp: finish_ruling_def emit_outcome_def record_ruling_def record_audit_def reflect_ruling_def run_simps Let_def
      split: prod.splits if_splits)

lemma recorded_ruled:
  "rr_moneyAction x = (case m of Some v \<Rightarrow> mv_action v | None \<Rightarrow> Mn_NONE) \<Longrightarrow> rr_moneyAmount x = map_option mv_amount m \<Longrightarrow>
   rr_moneyPaymentId x = map_option mv_paymentId m \<Longrightarrow> money_recorded m (ruled a i plan now dp) = ruling_row a i x now dp"
  by (simp add: money_recorded_def ruled_def ruling_row_def)

text \<open>
  C20. A ruling that nothing interrupts is all or nothing. If it fails, at whatever statement and
  however the payment call ends, the disputes are exactly as they were. If it answers, the one row
  it changes is the dispute's, which is now resolved with the verdict, the note, the admin and the money
  that its reply reports, and the last audit row carries the same verdict and amount.
\<close>

theorem ruling_all_or_nothing:
  assumes "resolve_dispute env a did i w = (r, w')" and "good_table (t_disputes (w_db w))"
  shows "case r of Inl e \<Rightarrow> t_disputes (w_db w') = t_disputes (w_db w)
     | Inr x \<Rightarrow> (\<exists>dp au. find_dispute (w_db w) did = Some dp \<and> active_dispute dp
         \<and> t_disputes (w_db w') = update_where (\<lambda>y. dp_id y = did) (ruling_row a i x (clock w)) (t_disputes (w_db w))
         \<and> t_audits (w_db w') \<noteq> [] \<and> au = last (t_audits (w_db w')) \<and> au_action au = DISPUTE_RESOLVE \<and> au_targetId au = did
         \<and> au_actorId au = u_id a \<and> au_outcome au = Some (outcome_text (rs_outcome i)) \<and> au_amount au = rr_moneyAmount x)"
  using assms(1)
proof (cases rule: resolve_cases)
  case (refused e)
  then show ?thesis by simp
next
  case (lost dp plan0 c plan e)
  then show ?thesis using lost_rows [OF lost(4,5)] by simp
next
  case (rules dp plan0 plan w1)
  let ?T = "t_disputes (w_db w)" and ?q = "\<lambda>x. dp_id x = did \<and> active_dispute x" and ?l = "with_dispute_relations (w_db w) dp"
  have dp: "dp \<in> set ?T" "dp_id dp = did" "active_dispute dp"
    using rules(1,2) by (simp_all add: find_dispute_def find_row_SomeD active_iff)
  have row: "x = dp" if "x \<in> set ?T" "dp_id x = did" for x
    using same_row [OF _ that(1) dp(1)] that(2) dp(2) assms(2) by (simp add: good_table_def)
  note world = claimed_world [OF rules(4)]
  have T1: "t_disputes (w_db w1) = update_where ?q (ruled a i plan (clock w)) ?T" using world by simp
  have wrote: "?thesis"
    if fin: "finish_ruling a ?l i plan m v = (r, w')"
      and Tv: "t_disputes (w_db v) = update_where (\<lambda>x. dp_id x = did) (money_recorded m) (t_disputes (w_db w1))" for m v
  proof -
    obtain x au where x: "r = Inr x" "rr_moneyAction x = (case m of Some v \<Rightarrow> mv_action v | None \<Rightarrow> Mn_NONE)"
      "rr_moneyAmount x = map_option mv_amount m" "rr_moneyPaymentId x = map_option mv_paymentId m"
      "t_disputes (w_db w') = t_disputes (w_db v)" "t_audits (w_db w') = t_audits (w_db v) @ [au]"
      "au_action au = DISPUTE_RESOLVE" "au_targetId au = did" "au_actorId au = u_id a"
      "au_outcome au = Some (outcome_text (rs_outcome i))" "au_amount au = map_option mv_amount m"
      using finish_run [OF fin] dp(2) by auto
    have "t_disputes (w_db w') = update_where (\<lambda>y. dp_id y = did) (ruling_row a i x (clock w)) ?T"
      unfolding x(5) Tv T1 update_where_def map_map
      using row dp(3) recorded_ruled [OF x(2-4)] by (intro map_cong) (auto simp: comp_def)
    with x rules(1) dp(3) show ?thesis by simp
  qed
  have run: "bnd (move_claimed_money env did a plan (before_of dp)) (\<lambda>m. andthen (record_money_result did m) (finish_ruling a ?l i plan m)) w1 = (r, w')"
    using rules(5) dp(2) by (simp add: rule_on_def)
  show ?thesis
  proof (cases "nothing_to_move plan")
    case True
    with run have "finish_ruling a ?l i plan None (w1\<lparr>w_db := update_disputes (\<lambda>x. dp_id x = did) (money_recorded None) (w_db w1)\<rparr>) = (r, w')"
      by (simp add: bnd_def andthen_def run_move_claimed run_record)
    then show ?thesis by (rule wrote) simp
  next
    case False
    obtain c v where c: "call_payments env a plan w1 = (c, v)" by fastforce
    then have Tv: "t_disputes (w_db v) = t_disputes (w_db w1)" using run_elsewhere(1) by (simp add: elsewhere_def)
    show ?thesis
    proof (cases c)
      case (Inl e)
      then have "\<exists>e'. r = Inl e'" and "w' = snd (roll_back_ruling did a (before_of dp) v)"
        using run c False by (auto simp: bnd_def run_move_claimed split: prod.splits)
      then show ?thesis
        using undone_rows [OF assms(2) dp(1,3), of a i plan "clock w"] dp(2) Tv T1 by (auto simp: roll_back_ruling_def run_simps)
    next
      case (Inr u)
      let ?m = "money_moved_by plan"
      obtain p where p: "mp_paymentId plan = Some p" "moves_money plan"
        using False by (cases "mp_paymentId plan") (auto simp: nothing_to_move_def moves_money_def)
      have "\<not> claimed_by_other did p (w_db v)"
        using world p row unfolding claimed_by_other_def Tv T1 by (auto simp: in_update_where split: if_splits)
      then have "finish_ruling a ?l i plan (Some ?m) (v\<lparr>w_db := update_disputes (\<lambda>x. dp_id x = did) (money_recorded (Some ?m)) (w_db v)\<rparr>) = (r, w')"
        using run c Inr False p by (simp add: bnd_def andthen_def run_move_claimed run_record money_moved_by_def)
      then show ?thesis by (rule wrote) (simp add: Tv)
    qed
  qed
qed

section \<open>What a failed ruling leaves when something came between\<close>

lemma find_dispute_updated:
  "(\<And>x. dp_id (f x) = dp_id x) \<Longrightarrow>
   find_dispute (update_disputes p f d) k = map_option (\<lambda>x. if p x then f x else x) (find_dispute d k)"
  by (simp add: find_dispute_def find_row_update_where)

lemma elsewhere_find: "elsewhere w w' \<Longrightarrow> find_dispute (w_db w') k = find_dispute (w_db w) k"
  by (simp add: elsewhere_def find_dispute_def)

lemma claimed_find:
  assumes "claim_for_ruling did a i plan w = (Inr CLAIMED, w')" and "find_dispute (w_db w) did = Some dp" and "active_dispute dp"
  shows "find_dispute (w_db w') did = Some (ruled a i plan (clock w) dp)"
proof -
  have "dp_id dp = did" using assms(2) by (simp add: find_dispute_def find_row_SomeD)
  moreover have "w' = w\<lparr>w_db := update_disputes (\<lambda>x. dp_id x = did \<and> active_dispute x) (ruled a i plan (clock w)) (w_db w)\<rparr>"
    using assms(1) by (simp add: run_claim split: if_splits)
  ultimately show ?thesis using assms(2,3) by (simp add: find_dispute_updated)
qed

text \<open>
  The rollback writes back what the request loaded, not what the row held. If the review of an open
  dispute starts after a ruling has loaded it, and the ruling then claims it and its payment call fails,
  the dispute is back at OPEN, as if the review had never started. And if another admin closes the
  dispute while the payment call is in flight, the rollback finds no row: the dispute stays closed but
  still carries the verdict and the note of the ruling that was not applied, and its claim on the
  payment, so that every later ruling on a sibling of the same booking moves no money.
\<close>

theorem failed_ruling_residue:
  assumes "find_dispute (w_db w) did = Some dp" and "unruled dp" and "dp_status dp = Dp_OPEN"
    and "write_review did w = (Inr b, w1)" and "claim_for_ruling did a i plan w1 = (Inr CLAIMED, w2)" and "elsewhere w2 w3"
    and "roll_back_ruling did a (before_of dp) w3 = (Inr b3, w4)"
    and "write_close did other notes now w3 = (Inr b5, w5)" and "roll_back_ruling did a (before_of dp) w5 = (Inr b6, w6)"
  shows "find_dispute (w_db w1) did = Some (dp\<lparr>dp_status := Dp_UNDER_REVIEW\<rparr>) \<and> find_dispute (w_db w4) did = Some dp
     \<and> (\<exists>x. find_dispute (w_db w6) did = Some x \<and> dp_status x = Dp_CLOSED \<and> dp_resolvedById x = Some (u_id other)
          \<and> dp_outcome x = Some (rs_outcome i) \<and> dp_resolution x = Some (rs_resolution i)
          \<and> (\<forall>p. moves_money plan \<and> mp_paymentId plan = Some p \<longrightarrow> claims p x
               \<and> (\<forall>sib j. dp_bookingId sib = dp_bookingId dp \<and> dp_id sib \<noteq> did
                    \<and> map_option p_id (snd (find_linked_work (w_db w6) (dp_bookingId dp))) = Some p
                    \<longrightarrow> (\<forall>plan'. plan_money_action (w_db w6) sib j = Inr plan' \<longrightarrow> mp_action plan' = Mn_NONE))))"
proof -
  let ?r = "dp\<lparr>dp_status := Dp_UNDER_REVIEW\<rparr>" and ?x = "ruled a i plan (clock w1) (dp\<lparr>dp_status := Dp_UNDER_REVIEW\<rparr>)"
  have id: "dp_id dp = did" using assms(1) by (simp add: find_dispute_def find_row_SomeD)
  have 1: "find_dispute (w_db w1) did = Some ?r"
    using assms(1,3,4) id by (auto simp: write_review_def run_simps find_dispute_updated)
  have 2: "find_dispute (w_db w2) did = Some ?x" using claimed_find [OF assms(5) 1] by (simp add: active_iff)
  then have 3: "find_dispute (w_db w3) did = Some ?x" using elsewhere_find [OF assms(6)] by simp
  have ruled: "dp_status ?x = Dp_RESOLVED" "dp_resolvedById ?x = Some (u_id a)" "dp_id ?x = did" by (simp_all add: ruled_def id)
  have "rolled_back (before_of dp) ?x = dp"
    using assms(2) by (cases dp) (simp add: rolled_back_def before_of_def ruled_def unruled_def)
  then have 4: "find_dispute (w_db w4) did = Some dp"
    using assms(7) 3 ruled by (auto simp: roll_back_ruling_def run_simps find_dispute_updated rolled_back_def)
  have 5: "find_dispute (w_db w5) did = Some (closed other notes now ?x)"
    using assms(8) 3 ruled by (auto simp: write_close_def run_simps find_dispute_updated closed_def)
  then have 6: "find_dispute (w_db w6) did = Some (closed other notes now ?x)"
    using assms(9) by (auto simp: roll_back_ruling_def run_simps find_dispute_updated closed_def rolled_back_def)
  have no_money: "mp_action plan' = Mn_NONE"
    if "moves_money plan" "mp_paymentId plan = Some p" "dp_bookingId sib = dp_bookingId dp" "dp_id sib \<noteq> did"
      "map_option p_id (snd (find_linked_work (w_db w6) (dp_bookingId dp))) = Some p" "plan_money_action (w_db w6) sib j = Inr plan'"
    for p sib j plan'
  proof -
    define y where "y = closed other notes now ?x"
    have "y \<in> set (t_disputes (w_db w6))" using 6 by (simp add: find_dispute_def find_row_SomeD y_def)
    moreover have "dp_id y = did" "dp_bookingId y = dp_bookingId dp" "dp_moneyPaymentId y = Some p" "dp_moneyAction y \<in> {Some Mn_REFUND, Some Mn_RELEASE}"
      using that(1,2) plan_money_cases [OF that(1)] id by (auto simp: y_def closed_def ruled_def)
    ultimately have "sibling_with_money (w_db w6) sib p \<noteq> None"
      using that(3,4) unfolding sibling_with_money_def find_None_iff by (metis (no_types, lifting))
    with that show ?thesis by (auto simp: plan_money_action_def skip_money_def split: if_splits option.splits)
  qed
  show ?thesis
    by (intro conjI exI [of _ "closed other notes now ?x"] 1 4 6 allI impI; (elim conjE)?)
      (auto simp: closed_def ruled_def claims_def moves_money_def intro: no_money)
qed

section \<open>What the admin and the parties are shown\<close>

definition rules_for :: "dispute_outcome \<Rightarrow> money option \<Rightarrow> resolve_input" where
  "rules_for out amt = \<lparr>rs_outcome = out, rs_resolution = ''Ruled'', rs_refundAmount = amt, rs_adminNotes = None\<rparr>"

lemma sibling_iff: "sibling_with_money d dp p = None \<longleftrightarrow> find (claims p) (sibling_disputes d dp) = None"
proof -
  have "x \<in> {Some Mn_REFUND, Some Mn_RELEASE} \<longleftrightarrow> x \<noteq> None \<and> x \<noteq> Some Mn_NONE" for x
    by (cases x) (auto intro: dispute_money.exhaust)
  then show ?thesis unfolding sibling_with_money_def sibling_disputes_def find_None_iff claims_def by auto
qed


definition with_notes :: "(nat \<Rightarrow> string option) \<Rightarrow> world \<Rightarrow> world" where
  "with_notes g w = w\<lparr>w_db := (w_db w)\<lparr>t_disputes := map (\<lambda>x. x\<lparr>dp_adminNotes := g (dp_id x)\<rparr>) (t_disputes (w_db w))\<rparr>\<rparr>"

lemma sort_key_of_map: "sort_key f (map h xs) = map h (sort_key (\<lambda>x. f (h x)) xs)"
proof (induction xs)
  case (Cons x xs)
  have "insort_key f (h x) (map h ys) = map h (insort_key (\<lambda>x. f (h x)) x ys)" for ys by (induction ys) auto
  with Cons show ?case by simp
qed simp

lemma notes_tables [simp]:
  "t_disputes (w_db (with_notes g w)) = map (\<lambda>x. x\<lparr>dp_adminNotes := g (dp_id x)\<rparr>) (t_disputes (w_db w))"
  "find_booking (w_db (with_notes g w)) = find_booking (w_db w)" "find_user (w_db (with_notes g w)) = find_user (w_db w)"
  "find_profile (w_db (with_notes g w)) = find_profile (w_db w)" "job_ids_for_bookings (w_db (with_notes g w)) = job_ids_for_bookings (w_db w)"
  by (simp_all add: with_notes_def find_booking_def find_user_def find_profile_def job_ids_for_bookings_def fun_eq_iff)

lemma notes_hidden:
  "participant_scope (w_db (with_notes g w)) uid (x\<lparr>dp_adminNotes := n\<rparr>) = participant_scope (w_db w) uid x"
  "party_view (w_db (with_notes g w)) uid jobs (x\<lparr>dp_adminNotes := n\<rparr>) = party_view (w_db w) uid jobs x"
  by (simp_all add: participant_scope_def party_view_def to_party_dto_def shown_category_def active_dispute_def split: option.splits)

lemma find_map_eq: "find p (map h xs) = map_option h (find (p \<circ> h) xs)"
  by (induction xs) auto

text \<open>
  A party reads exactly the disputes they take part in, and never the admins' notes: reading one
  succeeds if and only if it is theirs, the list shows precisely theirs, and neither answer depends in
  any way on what the admins noted on any dispute.
\<close>

theorem parties_read_own_disputes:
  "fst (get_my_disputes uid due (with_notes g w)) = fst (get_my_disputes uid due w)
   \<and> fst (get_my_dispute uid did (with_notes g w)) = fst (get_my_dispute uid did w)
   \<and> ((\<exists>v. fst (get_my_dispute uid did w) = Inr v) \<longleftrightarrow> (\<exists>x \<in> set (t_disputes (w_db w)). dp_id x = did \<and> participant_scope (w_db w) uid x))
   \<and> (\<exists>vs. fst (get_my_disputes uid False w) = Inr vs
        \<and> set (map sd_id vs) = {dp_id x | x. x \<in> set (t_disputes (w_db w)) \<and> participant_scope (w_db w) uid x})"
proof -
  have view: "sd_id (party_view d uid jobs x) = dp_id x" for d jobs x by (simp add: party_view_def to_party_dto_def Let_def)
  have "fst (get_my_disputes uid due (with_notes g w)) = fst (get_my_disputes uid due w)"
    by (simp add: get_my_disputes_def asks_def Let_def filter_map comp_def sort_key_of_map notes_hidden)
  moreover have "fst (get_my_dispute uid did (with_notes g w)) = fst (get_my_dispute uid did w)"
    by (simp add: get_my_dispute_def run_simps asks_def find_map_eq comp_def notes_hidden split: option.splits)
  moreover have "(\<exists>v. fst (get_my_dispute uid did w) = Inr v) \<longleftrightarrow> (\<exists>x \<in> set (t_disputes (w_db w)). dp_id x = did \<and> participant_scope (w_db w) uid x)"
  proof (cases "find (\<lambda>x. participant_scope (w_db w) uid x \<and> dp_id x = did) (t_disputes (w_db w))")
    case None
    then have "fst (get_my_dispute uid did w) = Inl (NotFound_dispute Dispute_not_found)" by (simp add: get_my_dispute_def run_simps)
    with None show ?thesis by (auto simp: find_None_iff)
  next
    case (Some x)
    then have "x \<in> set (t_disputes (w_db w)) \<and> participant_scope (w_db w) uid x \<and> dp_id x = did" by (auto simp: find_Some_iff)
    with Some show ?thesis by (auto simp: get_my_dispute_def run_simps asks_def)
  qed
  moreover have "\<exists>vs. fst (get_my_disputes uid False w) = Inr vs
        \<and> set (map sd_id vs) = {dp_id x | x. x \<in> set (t_disputes (w_db w)) \<and> participant_scope (w_db w) uid x}"
    by (auto simp: get_my_disputes_def asks_def Let_def view image_image)
  ultimately show ?thesis by blast
qed

definition listed :: "unicode \<Rightarrow> db \<Rightarrow> dispute_query \<Rightarrow> dispute_status option \<Rightarrow> nat" where
  "listed uc d q st = length (apply_queue_filters uc d (q\<lparr>dq_status := st\<rparr>) (t_disputes d))"

lemma length_by_status:
  "length xs = length (filter (\<lambda>x. dp_status x = Dp_OPEN) xs) + length (filter (\<lambda>x. dp_status x = Dp_UNDER_REVIEW) xs)
     + length (filter (\<lambda>x. dp_status x = Dp_RESOLVED) xs) + length (filter (\<lambda>x. dp_status x = Dp_CLOSED) xs)"
proof (induction xs)
  case (Cons x xs)
  then show ?case by (cases "dp_status x") simp_all
qed simp

lemma queue_counts_filters:
  "queue_counts_of xs = \<lparr>qc_open = length (filter (\<lambda>x. dp_status x = Dp_OPEN) xs), qc_underReview = length (filter (\<lambda>x. dp_status x = Dp_UNDER_REVIEW) xs),
     qc_resolved = length (filter (\<lambda>x. dp_status x = Dp_RESOLVED) xs), qc_closed = length (filter (\<lambda>x. dp_status x = Dp_CLOSED) xs), qc_total = length xs\<rparr>"
  using length_by_status [of xs] by (auto simp: queue_counts_of_def group_by_status_def Let_def)

text \<open>
  The counters of the queue agree with the list: under any category and search, the counter of each
  status is the number of disputes the list shows in all its pages for that status, and the four add
  up to the total, which is the number the unfiltered list shows.
\<close>

theorem queue_counters_match_list:
  assumes "searchable q"
  shows "\<exists>counts sla. fst (get_queue_summary uc q w) = Inr (counts, sla)
     \<and> qc_open counts = listed uc (w_db w) q (Some Dp_OPEN) \<and> qc_underReview counts = listed uc (w_db w) q (Some Dp_UNDER_REVIEW)
     \<and> qc_resolved counts = listed uc (w_db w) q (Some Dp_RESOLVED) \<and> qc_closed counts = listed uc (w_db w) q (Some Dp_CLOSED)
     \<and> qc_total counts = qc_open counts + qc_underReview counts + qc_resolved counts + qc_closed counts
     \<and> (\<exists>rows pg. fst (find_all_disputes uc (q\<lparr>dq_status := None\<rparr>) w) = Inr (rows, pg) \<and> pg_total pg = qc_total counts)"
proof -
  let ?xs = "apply_queue_filters uc (w_db w) (q\<lparr>dq_status := None\<rparr>) (t_disputes (w_db w))"
  have "listed uc (w_db w) q (Some st) = length (filter (\<lambda>x. dp_status x = st) ?xs)" for st
    by (auto simp: listed_def apply_queue_filters_def search_term_def intro!: arg_cong [where f = length] filter_cong)
  moreover have "searchable (q\<lparr>dq_status := None\<rparr>)" using assms by (simp add: searchable_def search_term_def)
  moreover have "length ?xs = length (filter (\<lambda>x. dp_status x = Dp_OPEN) ?xs) + length (filter (\<lambda>x. dp_status x = Dp_UNDER_REVIEW) ?xs)
     + length (filter (\<lambda>x. dp_status x = Dp_RESOLVED) ?xs) + length (filter (\<lambda>x. dp_status x = Dp_CLOSED) ?xs)"
    by (rule length_by_status)
  ultimately show ?thesis using assms
    by (simp add: get_queue_summary_def get_resolution_metrics_def find_all_disputes_def run_simps asks_def queue_counts_filters Let_def paginate_def)
qed

section \<open>At a concrete desk\<close>

text \<open>A completed booking with its job and its held payment of 200 GHS, and the customer's dispute over it.\<close>

definition fx_disputed_booking :: booking where
  "fx_disputed_booking = \<lparr>b_id = 30, b_customerId = 1, b_artisanProfileId = 20, b_availabilitySlotId = None, b_serviceId = Some 5,
     b_scheduledDate = ''2030-01-07'', b_startTime = ''10:00:00'', b_endTime = ''11:00:00'', b_status = Bk_COMPLETED, b_notes = None,
     b_artisanNotes = None, b_agreedPrice = Some 20000, b_currency = ''GHS'', b_location = None, b_latitude = None, b_longitude = None,
     b_accuracyM = None, b_landmark = None, b_attachmentUrls = [], b_noShowByCustomerAt = None, b_noShowByArtisanAt = None,
     b_reminder24hSentAt = None, b_reminder2hSentAt = None, b_createdAt = 0\<rparr>"

definition fx_dispute :: "nat \<Rightarrow> nat \<Rightarrow> dispute" where
  "fx_dispute k uid = new_dispute k 30 uid ''The work was not finished'' WORK_NOT_COMPLETED 0"

definition fx_desk :: "dispute list \<Rightarrow> world" where
  "fx_desk ds = (fx_world [fx_payment Pay_HELD])\<lparr>w_db := (fx_db [fx_payment Pay_HELD])\<lparr>t_bookings := [fx_disputed_booking],
     t_jobs := [(fx_job COMPLETED)\<lparr>j_bookingId := Some 30\<rparr>], t_disputes := ds\<rparr>\<rparr>"

definition fx_admin :: user where
  "fx_admin = fx_user 3 ADMIN"

lemma fx_table: "good_table [fx_dispute 40 1]"
  by (simp add: good_table_def index_holds_def fx_dispute_def new_dispute_def well_typed_dispute_def ruling_ok_def active_iff unruled_def
      money_ok_def claim_fits_def response_ok_def)

lemma fx_refund:
  "fst (resolve_dispute fx_env fx_admin 40 (rules_for REFUND_CLIENT (Some 5000)) (fx_desk [fx_dispute 40 1]))
     = Inr \<lparr>rr_message = Refunded_to_client 5000, rr_outcome = REFUND_CLIENT, rr_moneyAction = Mn_REFUND,
            rr_moneyAmount = Some 5000, rr_moneyPaymentId = Some 9, rr_skippedReason = None\<rparr>"
  by code_simp

lemma fx_refund_run: "\<exists>x w'. resolve_dispute fx_env fx_admin 40 (rules_for REFUND_CLIENT (Some 5000)) (fx_desk [fx_dispute 40 1]) = (Inr x, w')
     \<and> rr_moneyPaymentId x = Some 9 \<and> rr_moneyAmount x = Some 5000 \<and> rr_moneyAction x = Mn_REFUND"
  using fx_refund by (cases "resolve_dispute fx_env fx_admin 40 (rules_for REFUND_CLIENT (Some 5000)) (fx_desk [fx_dispute 40 1])") auto

lemma fx_rows [simp]: "t_disputes (w_db (fx_desk ds)) = ds"
  by (simp add: fx_desk_def)

lemma fx_good: "good_table (t_disputes (w_db (fx_desk [fx_dispute 40 1])))"
  unfolding fx_rows by (rule fx_table)

lemma fx_steps: "\<exists>w'. desk_step\<^sup>*\<^sup>* (fx_desk [fx_dispute 40 1], {#}, []) (w', {#}, [(40, 9)])"
proof -
  obtain x w' where "resolve_dispute fx_env fx_admin 40 (rules_for REFUND_CLIENT (Some 5000)) (fx_desk [fx_dispute 40 1]) = (Inr x, w')"
    "rr_moneyPaymentId x = Some 9" using fx_refund_run by blast
  with steps_resolve [OF this(1), of "{#}" "[]"] show ?thesis by (auto simp: paid_for_def)
qed

theorem payment_moved_once_witness:
  "\<exists>w'. desk_step\<^sup>*\<^sup>* (fx_desk [fx_dispute 40 1], {#}, []) (w', {#}, [(40, 9)]) \<and> (\<exists>x \<in> set (t_disputes (w_db w')). dp_id x = 40 \<and> claims 9 x)"
proof -
  obtain w' where "desk_step\<^sup>*\<^sup>* (fx_desk [fx_dispute 40 1], {#}, []) (w', {#}, [(40, 9)])" using fx_steps by blast
  with payment_moved_once [OF this fx_good] show ?thesis by auto
qed


definition fx_settled :: dispute where
  "fx_settled = (fx_dispute 40 1)\<lparr>dp_status := Dp_RESOLVED, dp_outcome := Some MUTUAL, dp_resolution := Some ''Both agreed to end it'',
     dp_resolvedById := Some 3, dp_resolvedAt := Some 500, dp_moneyAction := Some Mn_NONE\<rparr>"

theorem settled_disputes_stay_witness:
  "\<exists>x' \<in> set (t_disputes (w_db (snd (write_close 40 (fx_user 4 ADMIN) None 900 (fx_desk [fx_settled]))))). x' = fx_settled \<or> closed_after fx_settled x'"
proof -
  let ?w' = "snd (write_close 40 (fx_user 4 ADMIN) None 900 (fx_desk [fx_settled]))"
  have good: "good_table (t_disputes (w_db (fx_desk [fx_settled])))"
    by (simp add: good_table_def index_holds_def fx_settled_def fx_dispute_def new_dispute_def well_typed_dispute_def ruling_ok_def active_iff
        money_ok_def claim_fits_def response_ok_def)
  obtain b where "write_close 40 (fx_user 4 ADMIN) None 900 (fx_desk [fx_settled]) = (Inr b, ?w')" by (simp add: write_close_def run_simps)
  from r_into_rtranclp [of desk_step, OF closes [OF this, of "{#}" "[]"]]
  have "desk_step\<^sup>*\<^sup>* (fx_desk [fx_settled], {#}, []) (?w', {#}, [])" .
  from settled_disputes_stay [OF this sound_start [OF good], of fx_settled] show ?thesis
    by (simp add: fx_settled_def holders_def)
qed

theorem handlers_refine_desk_witness:
  "\<exists>x w'. perform_dispute fx_env (Resolve fx_admin 40 (rules_for REFUND_CLIENT (Some 5000))) (fx_desk [fx_dispute 40 1]) = (Inr (Some x), w')
     \<and> desk_step\<^sup>*\<^sup>* (fx_desk [fx_dispute 40 1], {#}, []) (w', {#}, [(40, 9)])"
proof -
  obtain x w' where x: "resolve_dispute fx_env fx_admin 40 (rules_for REFUND_CLIENT (Some 5000)) (fx_desk [fx_dispute 40 1]) = (Inr x, w')"
    "rr_moneyPaymentId x = Some 9" using fx_refund_run by blast
  then have "perform_dispute fx_env (Resolve fx_admin 40 (rules_for REFUND_CLIENT (Some 5000))) (fx_desk [fx_dispute 40 1]) = (Inr (Some x), w')"
    by (simp add: bnd_def ret_def)
  moreover have "next_id (fx_desk [fx_dispute 40 1]) T_disputes \<notin> dp_id ` set (t_disputes (w_db (fx_desk [fx_dispute 40 1])))"
    by (simp add: fx_desk_def fx_world_def fx_dispute_def new_dispute_def)
  ultimately show ?thesis using handlers_refine_desk [of fx_env _ "fx_desk [fx_dispute 40 1]" "Inr (Some x)" w' "{#}" "[]"] x(2) by fastforce
qed

theorem ruling_all_or_nothing_witness:
  "\<exists>x w'. resolve_dispute fx_env fx_admin 40 (rules_for REFUND_CLIENT (Some 5000)) (fx_desk [fx_dispute 40 1]) = (Inr x, w')
     \<and> t_disputes (w_db w') = update_where (\<lambda>y. dp_id y = 40) (ruling_row fx_admin (rules_for REFUND_CLIENT (Some 5000)) x 1000) [fx_dispute 40 1]"
proof -
  obtain x w' where x: "resolve_dispute fx_env fx_admin 40 (rules_for REFUND_CLIENT (Some 5000)) (fx_desk [fx_dispute 40 1]) = (Inr x, w')"
    using fx_refund_run by blast
  from ruling_all_or_nothing [OF x fx_good] have "t_disputes (w_db w') =
      update_where (\<lambda>y. dp_id y = 40) (ruling_row fx_admin (rules_for REFUND_CLIENT (Some 5000)) x (clock (fx_desk [fx_dispute 40 1]))) [fx_dispute 40 1]"
    by auto
  moreover have "clock (fx_desk [fx_dispute 40 1]) = 1000" by (simp add: fx_desk_def fx_world_def)
  ultimately show ?thesis using x by auto
qed

definition fx_refund_plan :: money_plan where
  "fx_refund_plan = move_money Mn_REFUND 9 20000"

theorem failed_ruling_residue_witness:
  "\<exists>w4. find_dispute (w_db w4) 40 = Some (fx_dispute 40 1)
     \<and> w4 = snd (roll_back_ruling 40 fx_admin (before_of (fx_dispute 40 1))
         (snd (claim_for_ruling 40 fx_admin (rules_for REFUND_CLIENT None) fx_refund_plan (snd (write_review 40 (fx_desk [fx_dispute 40 1]))))))"
proof -
  let ?w = "fx_desk [fx_dispute 40 1]" and ?i = "rules_for REFUND_CLIENT None"
  let ?w1 = "snd (write_review 40 ?w)"
  let ?w2 = "snd (claim_for_ruling 40 fx_admin ?i fx_refund_plan ?w1)"
  let ?w5 = "snd (write_close 40 (fx_user 4 ADMIN) None 2000 ?w2)"
  have found: "find_dispute (w_db ?w) 40 = Some (fx_dispute 40 1)" by (simp add: find_dispute_def find_row_def fx_dispute_def new_dispute_def)
  have row: "unruled (fx_dispute 40 1)" "dp_status (fx_dispute 40 1) = Dp_OPEN" by (simp_all add: unruled_def fx_dispute_def new_dispute_def)
  obtain b where 1: "write_review 40 ?w = (Inr b, ?w1)" by (simp add: write_review_def run_simps)
  have "fst (claim_for_ruling 40 fx_admin ?i fx_refund_plan ?w1) = Inr CLAIMED"
    by (simp add: run_claim write_review_def run_conditional_update update_where_def fx_dispute_def new_dispute_def active_iff claimed_by_other_def)
  then have 2: "claim_for_ruling 40 fx_admin ?i fx_refund_plan ?w1 = (Inr CLAIMED, ?w2)" by (metis prod.collapse)
  obtain b3 where 3: "roll_back_ruling 40 fx_admin (before_of (fx_dispute 40 1)) ?w2 = (Inr b3, snd (roll_back_ruling 40 fx_admin (before_of (fx_dispute 40 1)) ?w2))"
    by (simp add: roll_back_ruling_def run_simps)
  obtain b5 where 5: "write_close 40 (fx_user 4 ADMIN) None 2000 ?w2 = (Inr b5, ?w5)" by (simp add: write_close_def run_simps)
  obtain b6 w6 where 6: "roll_back_ruling 40 fx_admin (before_of (fx_dispute 40 1)) ?w5 = (Inr b6, w6)"
    by (simp add: roll_back_ruling_def run_simps)
  from failed_ruling_residue [OF found row 1 2 elsewhere_refl 3 5 6] show ?thesis by blast
qed


theorem queue_counters_match_list_witness:
  "\<exists>counts sla. fst (get_queue_summary ascii \<lparr>dq_status = None, dq_category = None, dq_q = Some '' ko '', dq_page = 1, dq_limit = 20\<rparr>
     (fx_desk [fx_dispute 40 1])) = Inr (counts, sla) \<and> qc_open counts = 1 \<and> qc_total counts = 1"
proof -
  let ?q = "\<lparr>dq_status = None, dq_category = None, dq_q = Some '' ko '', dq_page = 1, dq_limit = 20\<rparr>" and ?w = "fx_desk [fx_dispute 40 1]"
  have "searchable ?q" by code_simp
  note counters = queue_counters_match_list [OF this, of ascii ?w]
  have "listed ascii (w_db ?w) ?q (Some Dp_OPEN) = 1 \<and> listed ascii (w_db ?w) ?q (Some Dp_UNDER_REVIEW) = 0
     \<and> listed ascii (w_db ?w) ?q (Some Dp_RESOLVED) = 0 \<and> listed ascii (w_db ?w) ?q (Some Dp_CLOSED) = 0" by code_simp
  with counters show ?thesis by auto
qed

end
