(* ===== verification/AuthCodes.thy ===== *)
theory AuthCodes
  imports PaymentMethods Clock Fixtures
begin

text \<open>
  Six-digit email codes (auth/codes/auth-code.service.ts, auth/codes/auth-code.entity.ts): reserving a send, issuing,
  checking, revoking and purging. Each SQL statement of the service is one definition; a check is its
  read of the live code followed by the decision on that snapshot, so that other requests can be put between
  the two. The keyed hashes of Node's crypto, bcrypt and the JSON web tokens of the sign-in services are the
  parameter \<open>auth_env\<close>; random values are arguments.
\<close>

section \<open>Parameters and constants\<close>

datatype token_use = Use_access | Use_refresh

record jwt_claims =
  jw_sub :: nat
  jw_email :: string
  jw_role :: role
  jw_typ :: "token_use option"
  jw_jti :: "string option"

record auth_env =
  ae_lower :: "char \<Rightarrow> char"
  ae_emailMac :: "string \<Rightarrow> string"
  ae_codeMac :: "string \<Rightarrow> string"
  ae_bcrypt :: "string \<Rightarrow> nat \<Rightarrow> string"
  ae_compare :: "string \<Rightarrow> string \<Rightarrow> bool"
  ae_sign :: "jwt_claims \<Rightarrow> int \<Rightarrow> string"
  ae_verify :: "string \<Rightarrow> int \<Rightarrow> jwt_claims option"
  ae_expiry :: "string \<Rightarrow> int"

definition AUTH_CODE_LENGTH :: nat where "AUTH_CODE_LENGTH = 6"

definition AUTH_CODE_TTL_MS :: int where "AUTH_CODE_TTL_MS = 10 * 60000"

definition AUTH_CODE_MAX_ATTEMPTS :: nat where "AUTH_CODE_MAX_ATTEMPTS = 5"

definition AUTH_CODE_COOLDOWN_MS :: int where "AUTH_CODE_COOLDOWN_MS = 60 * 1000"

definition AUTH_CODE_WINDOW_MS :: int where "AUTH_CODE_WINDOW_MS = 3600 * 1000"

definition AUTH_CODE_MAX_PER_HOUR :: nat where "AUTH_CODE_MAX_PER_HOUR = 5"

definition normalize_email :: "auth_env \<Rightarrow> string \<Rightarrow> string" where
  "normalize_email ae e = map (ae_lower ae) (js_trim e)"

definition hash_email :: "auth_env \<Rightarrow> string \<Rightarrow> string" where
  "hash_email ae e = ae_emailMac ae (normalize_email ae e)"

text \<open>\<open>draw\<close> is the value of \<open>randomInt(0, 10 ** 6)\<close>.\<close>

definition generate_code :: "nat \<Rightarrow> string" where
  "generate_code draw = pad_start AUTH_CODE_LENGTH (show_nat draw)"

fun purpose_text :: "code_purpose \<Rightarrow> string" where
  "purpose_text Cp_signup = ''signup''"
| "purpose_text Cp_login = ''login''"
| "purpose_text Cp_password_reset = ''password_reset''"

definition hash_code :: "auth_env \<Rightarrow> string \<Rightarrow> code_purpose \<Rightarrow> string \<Rightarrow> string" where
  "hash_code ae h p code = ae_codeMac ae (purpose_text p @ '':'' @ h @ '':'' @ code)"

text \<open>\<open>Buffer.from(s, 'hex')\<close> decodes pairs of digits up to the first that is none.\<close>

definition hex_value :: "char \<Rightarrow> nat option" where
  "hex_value c = (let n = (of_char c :: nat) in
     if 48 \<le> n \<and> n \<le> 57 then Some (n - 48)
     else if 97 \<le> n \<and> n \<le> 102 then Some (n - 87)
     else if 65 \<le> n \<and> n \<le> 70 then Some (n - 55) else None)"

fun hex_bytes :: "string \<Rightarrow> nat list" where
  "hex_bytes (x # y # zs) = (case (hex_value x, hex_value y) of
     (Some a, Some b) \<Rightarrow> (16 * a + b) # hex_bytes zs | _ \<Rightarrow> [])"
| "hex_bytes _ = []"

definition digests_match :: "string \<Rightarrow> string \<Rightarrow> bool" where
  "digests_match a b \<longleftrightarrow> (let l = hex_bytes a; r = hex_bytes b
     in if length l \<noteq> length r \<or> length l = 0 then False else l = r)"

section \<open>Reserving a send\<close>

definition is_request :: "string \<Rightarrow> code_purpose \<Rightarrow> code_request \<Rightarrow> bool" where
  "is_request h p r \<longleftrightarrow> cr_emailHash r = h \<and> cr_purpose r = p"

definition find_request :: "db \<Rightarrow> string \<Rightarrow> code_purpose \<Rightarrow> code_request option" where
  "find_request d h p = find (is_request h p) (t_codeRequests d)"

definition first_request :: "string \<Rightarrow> code_purpose \<Rightarrow> int \<Rightarrow> code_request" where
  "first_request h p now = \<lparr>cr_emailHash = h, cr_purpose = p, cr_windowStart = now, cr_sent = 1, cr_lastSent = now, cr_failed = 0\<rparr>"

text \<open>The \<open>WHERE\<close> and the \<open>SET\<close> of the upsert's \<open>ON CONFLICT\<close> branch.\<close>

definition may_send :: "int \<Rightarrow> code_request \<Rightarrow> bool" where
  "may_send now r \<longleftrightarrow> cr_lastSent r \<le> now - AUTH_CODE_COOLDOWN_MS
     \<and> (cr_windowStart r \<le> now - AUTH_CODE_WINDOW_MS \<or> cr_sent r < AUTH_CODE_MAX_PER_HOUR)"

definition sent_again :: "int \<Rightarrow> code_request \<Rightarrow> code_request" where
  "sent_again now r = (let over = cr_windowStart r \<le> now - AUTH_CODE_WINDOW_MS
     in r\<lparr>cr_windowStart := (if over then now else cr_windowStart r), cr_sent := (if over then 1 else cr_sent r + 1),
          cr_lastSent := now, cr_failed := 0\<rparr>)"

definition upsert_request :: "string \<Rightarrow> code_purpose \<Rightarrow> int \<Rightarrow> db \<Rightarrow> (bool \<times> db)" where
  "upsert_request h p now d =
     (case find_request d h p of
        None \<Rightarrow> (True, d\<lparr>t_codeRequests := t_codeRequests d @ [first_request h p now]\<rparr>)
      | Some r \<Rightarrow> if may_send now r
          then (True, d\<lparr>t_codeRequests := update_where (is_request h p) (sent_again now) (t_codeRequests d)\<rparr>)
          else (False, d))"

definition next_send_at :: "code_request option \<Rightarrow> int \<Rightarrow> int" where
  "next_send_at r0 now =
     (case r0 of None \<Rightarrow> now + AUTH_CODE_COOLDOWN_MS
      | Some r \<Rightarrow> max (max (cr_lastSent r + AUTH_CODE_COOLDOWN_MS)
          (if cr_sent r \<ge> AUTH_CODE_MAX_PER_HOUR then cr_windowStart r + AUTH_CODE_WINDOW_MS else 0)) (now + 1000))"

datatype send_reservation = Send_allowed int | Send_refused int nat

definition retry_after_seconds :: "int \<Rightarrow> int \<Rightarrow> nat" where
  "retry_after_seconds due now = nat (max 1 (- ((now - due) div 1000)))"

definition reserve_send :: "string \<Rightarrow> code_purpose \<Rightarrow> send_reservation act" where
  "reserve_send h p =
     bnd (asks clock) (\<lambda>now.
     bnd (asks (\<lambda>w. upsert_request h p now (w_db w))) (\<lambda>(reserved, d').
     andthen (with_db (\<lambda>_. d'))
     (if reserved then ret (Send_allowed (now + AUTH_CODE_COOLDOWN_MS))
      else bnd (asks (\<lambda>w. find_request (w_db w) h p)) (\<lambda>cur.
        let due = next_send_at cur now in ret (Send_refused due (retry_after_seconds due now))))))"

section \<open>Issuing and checking\<close>

definition new_code :: "nat \<Rightarrow> nat \<Rightarrow> string \<Rightarrow> code_purpose \<Rightarrow> string \<Rightarrow> int \<Rightarrow> auth_code" where
  "new_code k uid h p ch now = \<lparr>ac_id = k, ac_userId = Some uid, ac_emailHash = h, ac_purpose = p, ac_codeHash = ch,
     ac_attempts = 0, ac_expiresAt = now + AUTH_CODE_TTL_MS, ac_consumedAt = None, ac_createdAt = now\<rparr>"

definition is_code_for :: "string \<Rightarrow> code_purpose \<Rightarrow> auth_code \<Rightarrow> bool" where
  "is_code_for h p c \<longleftrightarrow> ac_emailHash c = h \<and> ac_purpose c = p"

definition replace_code :: "auth_code \<Rightarrow> db \<Rightarrow> db" where
  "replace_code c d = d\<lparr>t_codes := filter (\<lambda>x. \<not> is_code_for (ac_emailHash c) (ac_purpose c) x) (t_codes d) @ [c]\<rparr>"

definition issue :: "auth_env \<Rightarrow> string \<Rightarrow> code_purpose \<Rightarrow> nat option \<Rightarrow> nat \<Rightarrow> string act" where
  "issue ae h p uid0 draw =
     (let code = generate_code draw; ch = hash_code ae h p code in
      case uid0 of None \<Rightarrow> ret code
      | Some uid \<Rightarrow> bnd (asks clock) (\<lambda>now. bnd (fresh T_codes) (\<lambda>k.
          andthen (with_db (replace_code (new_code k uid h p ch now))) (ret code))))"

definition live_code :: "db \<Rightarrow> string \<Rightarrow> code_purpose \<Rightarrow> int \<Rightarrow> auth_code option" where
  "live_code d h p now =
     (case sort_key (\<lambda>c. - ac_createdAt c) (sort_key (\<lambda>c. - int (ac_id c))
         (filter (\<lambda>c. is_code_for h p c \<and> ac_consumedAt c = None \<and> ac_expiresAt c > now) (t_codes d))) of
        [] \<Rightarrow> None | c # _ \<Rightarrow> Some c)"

datatype refused_as = Ck_invalid | Ck_locked

datatype code_check = Check_ok nat | Check_failed refused_as "nat option" bool

definition update_codes :: "(auth_code \<Rightarrow> bool) \<Rightarrow> (auth_code \<Rightarrow> auth_code) \<Rightarrow> db \<Rightarrow> db" where
  "update_codes q f d = d\<lparr>t_codes := update_where q f (t_codes d)\<rparr>"

text \<open>The conditional \<open>UPDATE\<close> that uses a code up, answering whether it affected the row.\<close>

definition usable_code :: "nat \<Rightarrow> int \<Rightarrow> auth_code \<Rightarrow> bool" where
  "usable_code k now c \<longleftrightarrow> ac_id c = k \<and> ac_consumedAt c = None \<and> ac_attempts c < AUTH_CODE_MAX_ATTEMPTS \<and> ac_expiresAt c > now"

definition consume_code :: "nat \<Rightarrow> int \<Rightarrow> bool act" where
  "consume_code k now =
     bnd (asks (\<lambda>w. \<exists>c \<in> set (t_codes (w_db w)). usable_code k now c)) (\<lambda>hit.
     andthen (with_db (update_codes (usable_code k now) (\<lambda>c. c\<lparr>ac_consumedAt := Some now\<rparr>))) (ret hit))"

text \<open>A wrong try; answers the new count, or \<open>None\<close> when the row is gone or used.\<close>

definition count_try :: "nat \<Rightarrow> nat option act" where
  "count_try k =
     andthen (with_db (update_codes (\<lambda>c. ac_id c = k \<and> ac_consumedAt c = None) (\<lambda>c. c\<lparr>ac_attempts := ac_attempts c + 1\<rparr>)))
     (asks (\<lambda>w. map_option ac_attempts (find (\<lambda>c. ac_id c = k \<and> ac_consumedAt c = None) (t_codes (w_db w)))))"

definition counts_checks :: "string \<Rightarrow> code_purpose \<Rightarrow> int \<Rightarrow> code_request \<Rightarrow> bool" where
  "counts_checks h p now r \<longleftrightarrow> is_request h p r \<and> cr_lastSent r > now - AUTH_CODE_TTL_MS"

definition count_failed_check_without_code :: "string \<Rightarrow> code_purpose \<Rightarrow> int \<Rightarrow> code_check act" where
  "count_failed_check_without_code h p now =
     andthen (with_db (\<lambda>d. d\<lparr>t_codeRequests :=
        update_where (counts_checks h p now) (\<lambda>r. r\<lparr>cr_failed := min (cr_failed r + 1) 32000\<rparr>) (t_codeRequests d)\<rparr>))
     (bnd (asks (\<lambda>w. find (counts_checks h p now) (t_codeRequests (w_db w)))) (\<lambda>row.
      ret (Check_failed (case row of Some r \<Rightarrow> if cr_failed r \<ge> AUTH_CODE_MAX_ATTEMPTS then Ck_locked else Ck_invalid | None \<Rightarrow> Ck_invalid)
             None False)))"

text \<open>The decision on the snapshot \<open>c\<close> that was read.\<close>

definition decide_code :: "auth_env \<Rightarrow> string \<Rightarrow> code_purpose \<Rightarrow> string \<Rightarrow> bool \<Rightarrow> int \<Rightarrow> auth_code \<Rightarrow> code_check act" where
  "decide_code ae h p code consume now c =
     (if ac_attempts c \<ge> AUTH_CODE_MAX_ATTEMPTS then ret (Check_failed Ck_locked (ac_userId c) False)
      else if digests_match (ac_codeHash c) (hash_code ae h p code) then
        (if \<not> consume \<and> ac_userId c \<noteq> None then ret (Check_ok (the (ac_userId c)))
         else bnd (consume_code (ac_id c) now) (\<lambda>hit.
           ret (if hit \<and> ac_userId c \<noteq> None then Check_ok (the (ac_userId c)) else Check_failed Ck_invalid (ac_userId c) False)))
      else bnd (count_try (ac_id c)) (\<lambda>n.
        let attempts = (case n of Some a \<Rightarrow> a | None \<Rightarrow> AUTH_CODE_MAX_ATTEMPTS) in
        ret (if attempts \<ge> AUTH_CODE_MAX_ATTEMPTS then Check_failed Ck_locked (ac_userId c) (attempts = AUTH_CODE_MAX_ATTEMPTS)
             else Check_failed Ck_invalid (ac_userId c) False)))"

definition finish_check :: "auth_env \<Rightarrow> string \<Rightarrow> code_purpose \<Rightarrow> string \<Rightarrow> bool \<Rightarrow> int \<Rightarrow> auth_code option \<Rightarrow> code_check act" where
  "finish_check ae h p code consume now found =
     (case found of None \<Rightarrow> count_failed_check_without_code h p now | Some c \<Rightarrow> decide_code ae h p code consume now c)"

definition verify_code_of :: "auth_env \<Rightarrow> string \<Rightarrow> code_purpose \<Rightarrow> string \<Rightarrow> bool \<Rightarrow> code_check act" where
  "verify_code_of ae h p code consume =
     bnd (asks clock) (\<lambda>now. bnd (asks (\<lambda>w. live_code (w_db w) h p now)) (finish_check ae h p code consume now))"

section \<open>Removing\<close>

definition revoke_codes_of :: "nat \<Rightarrow> unit act" where
  "revoke_codes_of uid = with_db (\<lambda>d. d\<lparr>t_codes := filter (\<lambda>c. ac_userId c \<noteq> Some uid) (t_codes d)\<rparr>)"

definition purgeable_code :: "int \<Rightarrow> auth_code \<Rightarrow> bool" where
  "purgeable_code now c \<longleftrightarrow> ac_expiresAt c < now - AUTH_CODE_WINDOW_MS
     \<or> (case ac_consumedAt c of None \<Rightarrow> False | Some t \<Rightarrow> t < now - AUTH_CODE_WINDOW_MS)"

definition purgeable_request :: "int \<Rightarrow> code_request \<Rightarrow> bool" where
  "purgeable_request now r \<longleftrightarrow> cr_lastSent r < now - AUTH_CODE_WINDOW_MS \<and> cr_windowStart r < now - AUTH_CODE_WINDOW_MS"

definition purge_expired_codes :: "nat act" where
  "purge_expired_codes =
     bnd (asks clock) (\<lambda>now.
     bnd (asks (\<lambda>w. length (filter (purgeable_code now) (t_codes (w_db w)))
       + length (filter (purgeable_request now) (t_codeRequests (w_db w))))) (\<lambda>removed.
     andthen (with_db (\<lambda>d. d\<lparr>t_codes := filter (\<lambda>c. \<not> purgeable_code now c) (t_codes d)\<rparr>))
     (andthen (with_db (\<lambda>d. d\<lparr>t_codeRequests := filter (\<lambda>r. \<not> purgeable_request now r) (t_codeRequests d)\<rparr>))
      (ret removed))))"

end
