(* ===== verification/Sessions.thy ===== *)
theory Sessions
  imports AuthCodes
begin

text \<open>
  Accounts, one-time and refresh tokens, and sessions: users/token.service.ts, auth/auth-session.service.ts,
  auth/login-failure-tracker.service.ts, the password and restore operations of auth/auth.service.ts and what they
  call of users/users.service.ts. A refresh is its read of the token followed by the deletion and the decision.
\<close>

section \<open>Accounts\<close>

text \<open>The columns \<open>LOWER(email)\<close> compares; \<open>findOne\<close> leaves soft-deleted rows out.\<close>

definition same_email :: "auth_env \<Rightarrow> string \<Rightarrow> user \<Rightarrow> bool" where
  "same_email ae e u \<longleftrightarrow> map (ae_lower ae) (u_email u) = normalize_email ae e"

definition user_by_email :: "auth_env \<Rightarrow> db \<Rightarrow> string \<Rightarrow> user option" where
  "user_by_email ae d e = find (\<lambda>u. u_deletedAt u = None \<and> same_email ae e u) (t_users d)"

definition deleted_user_by_email :: "auth_env \<Rightarrow> db \<Rightarrow> string \<Rightarrow> user option" where
  "deleted_user_by_email ae d e = find (\<lambda>u. u_deletedAt u \<noteq> None \<and> u_purgedAt u = None \<and> same_email ae e u) (t_users d)"

definition find_user_by_email :: "auth_env \<Rightarrow> string \<Rightarrow> user option act" where
  "find_user_by_email ae e = andthen (guard (e \<noteq> []) (NotFound_auth Email_required)) (asks (\<lambda>w. user_by_email ae (w_db w) e))"

definition find_soft_deleted_user_by_email :: "auth_env \<Rightarrow> string \<Rightarrow> user option act" where
  "find_soft_deleted_user_by_email ae e =
     andthen (guard (e \<noteq> []) (NotFound_auth Email_required)) (asks (\<lambda>w. deleted_user_by_email ae (w_db w) e))"

text \<open>\<open>updateUserData(id, patch)\<close> is one \<open>UPDATE\<close>; some callers pass the whole entity they loaded.\<close>

definition update_user :: "nat \<Rightarrow> (user \<Rightarrow> user) \<Rightarrow> unit act" where
  "update_user uid f = with_db (\<lambda>d. d\<lparr>t_users := update_where (\<lambda>u. u_id u = uid) f (t_users d)\<rparr>)"

definition compare_password_hash :: "auth_env \<Rightarrow> string \<Rightarrow> string option \<Rightarrow> bool \<times> bool" where
  "compare_password_hash ae password hash =
     (case hash of Some (c # h) \<Rightarrow> (True, ae_compare ae password (c # h)) | _ \<Rightarrow> (False, False))"

text \<open>The password of an entity loaded without it is absent, so writing the entity back leaves the column.\<close>

definition saved_over :: "user \<Rightarrow> user \<Rightarrow> user" where
  "saved_over loaded row = loaded\<lparr>u_password := (if u_password loaded = None then u_password row else u_password loaded)\<rparr>"

definition without_password :: "user \<Rightarrow> user" where
  "without_password u = u\<lparr>u_password := None\<rparr>"

section \<open>Tokens\<close>

definition is_usable_token :: "string \<Rightarrow> bool" where
  "is_usable_token t \<longleftrightarrow> js_trim t \<noteq> []"

definition REFRESH_TOKEN_MS :: int where "REFRESH_TOKEN_MS = 7 * 24 * 60 * 60000"

definition EMAIL_VERIFICATION_MINUTES :: nat where "EMAIL_VERIFICATION_MINUTES = 7"

definition PASSWORD_RESET_MINUTES :: nat where "PASSWORD_RESET_MINUTES = 60"

definition RESEND_COOLDOWN_MS :: int where "RESEND_COOLDOWN_MS = 60 * 1000"

definition delete_tokens :: "(user_token \<Rightarrow> bool) \<Rightarrow> unit act" where
  "delete_tokens q = with_db (\<lambda>d. d\<lparr>t_tokens := filter (\<lambda>t. \<not> q t) (t_tokens d)\<rparr>)"

definition save_token :: "nat \<Rightarrow> token_type \<Rightarrow> string \<Rightarrow> int \<Rightarrow> user_token act" where
  "save_token uid ty value expires =
     bnd (asks clock) (\<lambda>now. bnd (fresh T_tokens) (\<lambda>k.
     let t = \<lparr>tk_id = k, tk_userId = uid, tk_type = ty, tk_token = value, tk_expiresAt = expires, tk_createdAt = now\<rparr>
     in andthen (with_db (\<lambda>d. d\<lparr>t_tokens := t_tokens d @ [t]\<rparr>)) (ret t)))"

text \<open>\<open>value\<close> is the hex text of 32 random bytes.\<close>

definition create_token :: "nat \<Rightarrow> token_type \<Rightarrow> nat \<Rightarrow> string \<Rightarrow> user_token act" where
  "create_token uid ty minutes value =
     andthen (delete_tokens (\<lambda>t. tk_userId t = uid \<and> tk_type t = ty))
     (bnd (asks clock) (\<lambda>now. save_token uid ty value (now + int minutes * 60000)))"

definition find_token :: "db \<Rightarrow> string \<Rightarrow> token_type \<Rightarrow> user_token option" where
  "find_token d value ty = find (\<lambda>t. tk_token t = value \<and> tk_type t = ty) (t_tokens d)"

text \<open>The log line after the lookup reads the id of the token's user, which is absent for a soft-deleted one.\<close>

definition validate_token :: "string \<Rightarrow> token_type \<Rightarrow> user act" where
  "validate_token value ty =
     andthen (guard (is_usable_token value) (BadRequest_auth Invalid_or_expired_token))
     (bnd (asks (\<lambda>w. find_token (w_db w) value ty)) (\<lambda>t0. case t0 of None \<Rightarrow> throw (BadRequest_auth Invalid_or_expired_token)
      | Some t \<Rightarrow> bnd (asks (\<lambda>w. find_user (w_db w) (tk_userId t))) (\<lambda>u0.
          bnd (some_or TypeError u0) (\<lambda>u.
          bnd (asks clock) (\<lambda>now.
          andthen (guard (\<not> tk_expiresAt t < now) (BadRequest_auth Invalid_or_expired_token)) (ret (without_password u)))))))"

definition read_refresh_token :: "string \<Rightarrow> (user_token \<times> user option) option act" where
  "read_refresh_token value = asks (\<lambda>w.
     map_option (\<lambda>t. (t, map_option without_password (find_user (w_db w) (tk_userId t)))) (find_token (w_db w) value Tok_REFRESH))"

definition delete_token :: "nat \<Rightarrow> bool act" where
  "delete_token k = bnd (asks (\<lambda>w. \<exists>t \<in> set (t_tokens (w_db w)). tk_id t = k)) (\<lambda>hit.
     andthen (delete_tokens (\<lambda>t. tk_id t = k)) (ret hit))"

definition redeem_refresh_token :: "auth_env \<Rightarrow> string \<Rightarrow> (user_token \<times> user option) option \<Rightarrow> user option act" where
  "redeem_refresh_token ae value found = (case found of None \<Rightarrow> ret None
     | Some (t, u0) \<Rightarrow>
         bnd (delete_token (tk_id t)) (\<lambda>hit.
         if \<not> hit then bnd (some_or TypeError u0) (\<lambda>_. ret None)
         else bnd (asks clock) (\<lambda>now.
           if tk_expiresAt t < now then bnd (some_or TypeError u0) (\<lambda>_. ret None)
           else case ae_verify ae value now of None \<Rightarrow> ret None
             | Some c \<Rightarrow> if jw_typ c \<noteq> None \<and> jw_typ c \<noteq> Some Use_refresh then ret None
                 else bnd (some_or TypeError u0) (\<lambda>u. ret (Some u)))))"

definition consume_refresh_token :: "auth_env \<Rightarrow> string \<Rightarrow> user option act" where
  "consume_refresh_token ae value =
     (if \<not> is_usable_token value then ret None
      else bnd (read_refresh_token value) (redeem_refresh_token ae value))"

definition newest_token :: "db \<Rightarrow> nat \<Rightarrow> token_type \<Rightarrow> user_token option" where
  "newest_token d uid ty =
     (case sort_key (\<lambda>t. - tk_createdAt t) (filter (\<lambda>t. tk_userId t = uid \<and> tk_type t = ty) (t_tokens d)) of
        [] \<Rightarrow> None | t # _ \<Rightarrow> Some t)"

definition valid_password_reset_token :: "nat \<Rightarrow> user_token option act" where
  "valid_password_reset_token uid =
     bnd (asks (\<lambda>w. newest_token (w_db w) uid Tok_PASSWORD_RESET)) (\<lambda>t0.
     asks (\<lambda>w. case t0 of None \<Rightarrow> None | Some t \<Rightarrow> if clock w > tk_expiresAt t then None else Some t))"

definition revoke_token :: "string \<Rightarrow> unit act" where
  "revoke_token value = only_if (is_usable_token value) (delete_tokens (\<lambda>t. tk_token t = value))"

definition revoke_tokens_of_type :: "nat \<Rightarrow> token_type \<Rightarrow> unit act" where
  "revoke_tokens_of_type uid ty = delete_tokens (\<lambda>t. tk_userId t = uid \<and> tk_type t = ty)"

definition revoke_refresh_tokens :: "nat \<Rightarrow> unit act" where
  "revoke_refresh_tokens uid = delete_tokens (\<lambda>t. tk_userId t = uid \<and> tk_type t = Tok_REFRESH)"

definition cleanup_expired_tokens :: "unit act" where
  "cleanup_expired_tokens = bnd (asks clock) (\<lambda>now. delete_tokens (\<lambda>t. tk_expiresAt t < now))"

record jwt_tokens =
  jt_access :: string
  jt_refresh :: string
  jt_expiresAt :: int

definition claims_of :: "user \<Rightarrow> token_use \<Rightarrow> string option \<Rightarrow> jwt_claims" where
  "claims_of u typ jti = \<lparr>jw_sub = u_id u, jw_email = u_email u, jw_role = u_role u, jw_typ = Some typ, jw_jti = jti\<rparr>"

text \<open>\<open>jti\<close> is the random id of the refresh token.\<close>

definition create_jwt_tokens :: "auth_env \<Rightarrow> user \<Rightarrow> string \<Rightarrow> jwt_tokens act" where
  "create_jwt_tokens ae u jti =
     bnd (asks clock) (\<lambda>now.
     let access = ae_sign ae (claims_of u Use_access None) now;
         refresh = ae_sign ae (claims_of u Use_refresh (Some jti)) now
     in bnd (save_token (u_id u) Tok_REFRESH refresh (now + REFRESH_TOKEN_MS)) (\<lambda>_.
        ret \<lparr>jt_access = access, jt_refresh = refresh, jt_expiresAt = ae_expiry ae access * 1000\<rparr>))"

section \<open>Sessions\<close>

type_synonym client = "string option \<times> string option"

datatype session_message = Logged_in | Code_verified | Reset_by_code | Refreshed | Changed_password

record session_reply =
  sn_tokens :: jwt_tokens
  sn_message :: session_message
  sn_userId :: nat

definition start_session :: "auth_env \<Rightarrow> user \<Rightarrow> sign_in \<Rightarrow> client \<Rightarrow> session_message \<Rightarrow> bool \<Rightarrow> string \<Rightarrow> session_reply act" where
  "start_session ae u how ctx message notify jti =
     bnd (create_jwt_tokens ae u jti) (\<lambda>ts.
     andthen (record_security (u_id u) (Signed_in how) ctx)
     (bnd (asks clock) (\<lambda>now.
      andthen (only_if notify (emit (MAIL_NEW_SIGN_IN (u_email u) (u_firstname u) now how)))
      (ret \<lparr>sn_tokens = ts, sn_message = message, sn_userId = u_id u\<rparr>))))"

section \<open>Failed sign-ins\<close>

text \<open>The tracker's map, oldest insertion first; keys are the digest of the address or the client's IP.\<close>

datatype failure_key = By_email string | By_ip string

record failure_entry =
  fe_count :: nat
  fe_firstAt :: int

type_synonym tracker = "(failure_key \<times> failure_entry) list"

definition MAX_KEYS :: nat where "MAX_KEYS = 50000"

definition LOGIN_FAILURES_BEFORE_TURNSTILE :: nat where "LOGIN_FAILURES_BEFORE_TURNSTILE = 3"

definition LOGIN_FAILURE_WINDOW_MS :: int where "LOGIN_FAILURE_WINDOW_MS = 15 * 60000"

definition forget_key :: "failure_key \<Rightarrow> tracker \<Rightarrow> tracker" where
  "forget_key k tr = filter (\<lambda>(x, _). x \<noteq> k) tr"

definition read_failures :: "failure_key option \<Rightarrow> int \<Rightarrow> tracker \<Rightarrow> nat \<times> tracker" where
  "read_failures k0 now tr = (case k0 of None \<Rightarrow> (0, tr) | Some k \<Rightarrow>
     (case map_of tr k of None \<Rightarrow> (0, tr)
      | Some e \<Rightarrow> if now - fe_firstAt e > LOGIN_FAILURE_WINDOW_MS then (0, forget_key k tr) else (fe_count e, tr)))"

definition bump_failures :: "failure_key option \<Rightarrow> int \<Rightarrow> tracker \<Rightarrow> tracker" where
  "bump_failures k0 now tr = (case k0 of None \<Rightarrow> tr | Some k \<Rightarrow>
     (case read_failures k0 now tr of (count, tr1) \<Rightarrow>
        if count = 0 then (if length tr1 \<ge> MAX_KEYS then tl tr1 else tr1) @ [(k, \<lparr>fe_count = 1, fe_firstAt = now\<rparr>)]
        else map (\<lambda>(x, e). if x = k then (x, e\<lparr>fe_count := count + 1\<rparr>) else (x, e)) tr1))"

definition ip_key :: "string option \<Rightarrow> failure_key option" where
  "ip_key ip = (if truthy ip then Some (By_ip (the ip)) else None)"

definition requires_challenge :: "auth_env \<Rightarrow> string \<Rightarrow> string option \<Rightarrow> int \<Rightarrow> tracker \<Rightarrow> bool \<times> tracker" where
  "requires_challenge ae e ip now tr =
     (case read_failures (Some (By_email (normalize_email ae e))) now tr of (n, tr1) \<Rightarrow>
        if n \<ge> LOGIN_FAILURES_BEFORE_TURNSTILE then (True, tr1)
        else case read_failures (ip_key ip) now tr1 of (m, tr2) \<Rightarrow> (m \<ge> LOGIN_FAILURES_BEFORE_TURNSTILE, tr2))"

definition record_login_failure :: "auth_env \<Rightarrow> string \<Rightarrow> string option \<Rightarrow> int \<Rightarrow> tracker \<Rightarrow> tracker" where
  "record_login_failure ae e ip now tr =
     bump_failures (ip_key ip) now (bump_failures (Some (By_email (normalize_email ae e))) now tr)"

definition record_login_success :: "auth_env \<Rightarrow> string \<Rightarrow> tracker \<Rightarrow> tracker" where
  "record_login_success ae e tr = forget_key (By_email (normalize_email ae e)) tr"

section \<open>Signing in with a password\<close>

definition SOFT_DELETE_RETENTION_MS :: int where "SOFT_DELETE_RETENTION_MS = 30 * DAY_MS"

definition purge_date_for :: "int \<Rightarrow> int" where
  "purge_date_for deleted = deleted + SOFT_DELETE_RETENTION_MS"

definition within_recovery_window :: "int \<Rightarrow> int \<Rightarrow> bool" where
  "within_recovery_window deleted now \<longleftrightarrow> now \<le> purge_date_for deleted"

definition no_live_account_rejection :: "auth_env \<Rightarrow> string \<Rightarrow> string \<Rightarrow> exn act" where
  "no_live_account_rejection ae e password =
     bnd (find_soft_deleted_user_by_email ae e) (\<lambda>u0. case u0 of None \<Rightarrow> ret (Unauthorized_auth Invalid_credentials)
     | Some u \<Rightarrow> bnd (asks clock) (\<lambda>now.
         if \<not> snd (compare_password_hash ae password (u_password u)) then ret (Unauthorized_auth Invalid_credentials)
         else if \<not> within_recovery_window (the (u_deletedAt u)) now then ret (Unauthorized_auth Invalid_credentials)
         else ret (Forbidden_auth (Account_pending_deletion (the (u_deletedAt u)) (purge_date_for (the (u_deletedAt u)))))))"

definition check_password_login :: "auth_env \<Rightarrow> string \<Rightarrow> string \<Rightarrow> client \<Rightarrow> string \<Rightarrow> session_reply act" where
  "check_password_login ae e password ctx jti =
     bnd (find_user_by_email ae e) (\<lambda>u0. case u0 of
       None \<Rightarrow> bnd (no_live_account_rejection ae e password) throw
     | Some u \<Rightarrow>
         andthen (guard (fst (compare_password_hash ae password (u_password u))) (Unauthorized_auth Invalid_credentials))
         (andthen (guard (snd (compare_password_hash ae password (u_password u))) (Unauthorized_auth Invalid_credentials))
         (andthen (guard (\<not> u_isBanned u) (Forbidden_auth Account_banned))
         (andthen (guard (u_accountVerified u) (Forbidden_auth Email_not_verified))
           (start_session ae u By_password ctx Logged_in True jti)))))"

text \<open>
  \<open>human\<close> is what the Turnstile check answers for the token sent, when it is enabled; the tracker lives in the
  process, not in the database.
\<close>

definition login_user :: "auth_env \<Rightarrow> bool \<Rightarrow> bool \<Rightarrow> string \<Rightarrow> string \<Rightarrow> client \<Rightarrow> string \<Rightarrow> tracker \<Rightarrow> world
    \<Rightarrow> (exn + session_reply) \<times> tracker \<times> world" where
  "login_user ae enabled human e password ctx jti tr w =
     (if e = [] \<or> password = [] then (Inl (BadRequest_auth Provide_email_and_password), tr, w)
      else case (if enabled then requires_challenge ae e (fst ctx) (clock w) tr else (False, tr)) of (challenged, tr1) \<Rightarrow>
        if challenged \<and> \<not> human then (Inl (Unauthorized_auth Turnstile_required), tr1, w)
        else case check_password_login ae e password ctx jti w of
          (Inr s, w') \<Rightarrow> (Inr s, record_login_success ae e tr1, w')
        | (Inl x, w') \<Rightarrow> (Inl x, if x = Unauthorized_auth Invalid_credentials
             then record_login_failure ae e (fst ctx) (clock w) tr1 else tr1, w'))"

definition restore_account_by_id :: "nat \<Rightarrow> user act" where
  "restore_account_by_id uid = transaction (
     bnd (asks (\<lambda>w. find_row u_id uid (t_users (w_db w)))) (\<lambda>u0.
     bnd (some_or (NotFound_auth Auth_user_not_found) u0) (\<lambda>u.
     andthen (guard (u_purgedAt u = None) (Forbidden_auth Permanently_deleted))
     (if u_deletedAt u = None then ret u
      else bnd (asks clock) (\<lambda>now.
        andthen (guard (within_recovery_window (the (u_deletedAt u)) now) (Forbidden_auth Window_expired))
        (andthen (update_user uid (\<lambda>x. x\<lparr>u_deletedAt := None\<rparr>))
        (bnd (asks (\<lambda>w. find_user (w_db w) uid)) (some_or (NotFound_auth Auth_user_not_found))))))))) "

definition restore_account :: "auth_env \<Rightarrow> string \<Rightarrow> string \<Rightarrow> string \<Rightarrow> (nat \<times> jwt_tokens option) act" where
  "restore_account ae e password jti =
     bnd (find_soft_deleted_user_by_email ae e) (\<lambda>u0.
     bnd (some_or (Unauthorized_auth Restore_invalid_credentials) u0) (\<lambda>u.
     andthen (guard (snd (compare_password_hash ae password (u_password u))) (Unauthorized_auth Restore_invalid_credentials))
     (bnd (restore_account_by_id (u_id u)) (\<lambda>r.
      andthen (emit (MAIL_ACCOUNT_RESTORED (u_email r) (u_firstname r)))
      (if \<not> u_accountVerified r then ret (u_id r, None)
       else bnd (create_jwt_tokens ae r jti) (\<lambda>ts. ret (u_id r, Some ts)))))))"

section \<open>Links, refreshing, changing the password\<close>

definition verify_email :: "string \<Rightarrow> unit act" where
  "verify_email value =
     bnd (validate_token value Tok_EMAIL_VERIFICATION) (\<lambda>u.
     bnd (asks clock) (\<lambda>now.
     andthen (update_user (u_id u) (saved_over (u\<lparr>u_accountVerified := True, u_verifiedAt := Some now\<rparr>)))
     (andthen (revoke_token value) (emit (MAIL_WELCOME_USER (u_email u) (u_firstname u))))))"

definition resend_verification :: "auth_env \<Rightarrow> string \<Rightarrow> string \<Rightarrow> unit act" where
  "resend_verification ae e value =
     bnd (find_user_by_email ae e) (\<lambda>u0. case u0 of None \<Rightarrow> ret ()
     | Some u \<Rightarrow> if u_accountVerified u then ret ()
         else bnd (asks (\<lambda>w. newest_token (w_db w) (u_id u) Tok_EMAIL_VERIFICATION)) (\<lambda>recent.
           bnd (asks clock) (\<lambda>now.
           if (case recent of None \<Rightarrow> False | Some t \<Rightarrow> now - tk_createdAt t < RESEND_COOLDOWN_MS) then ret ()
           else bnd (create_token (u_id u) Tok_EMAIL_VERIFICATION EMAIL_VERIFICATION_MINUTES value) (\<lambda>t.
             emit (MAIL_USER_REGISTERED (u_email u) (u_firstname u) (tk_token t))))))"

definition forgot_password_link :: "auth_env \<Rightarrow> string \<Rightarrow> string \<Rightarrow> unit act" where
  "forgot_password_link ae e value =
     bnd (find_user_by_email ae e) (\<lambda>u0. case u0 of None \<Rightarrow> ret ()
     | Some u \<Rightarrow> bnd (valid_password_reset_token (u_id u)) (\<lambda>t0. case t0 of
         Some t \<Rightarrow> emit (MAIL_PASSWORD_RESET (u_email u) (u_firstname u) (tk_token t))
       | None \<Rightarrow> bnd (create_token (u_id u) Tok_PASSWORD_RESET PASSWORD_RESET_MINUTES value) (\<lambda>t.
           emit (MAIL_PASSWORD_RESET (u_email u) (u_firstname u) (tk_token t)))))"

definition reset_password_link :: "auth_env \<Rightarrow> string \<Rightarrow> string \<Rightarrow> string \<Rightarrow> nat \<Rightarrow> unit act" where
  "reset_password_link ae value password confirm salt =
     andthen (guard (password = confirm) (BadRequest_auth Passwords_do_not_match))
     (bnd (validate_token value Tok_PASSWORD_RESET) (\<lambda>u.
      andthen (update_user (u_id u) (saved_over (u\<lparr>u_password := Some (ae_bcrypt ae password salt)\<rparr>)))
      (andthen (revoke_token value)
      (andthen (revoke_refresh_tokens (u_id u))
      (andthen (emit (MAIL_PASSWORD_RESET_SUCCESS (u_email u) (u_firstname u)))
        (emit (SECURITY_ALERT_RESET (u_id u))))))))"

definition refresh_tokens :: "auth_env \<Rightarrow> string \<Rightarrow> string \<Rightarrow> session_reply act" where
  "refresh_tokens ae value jti =
     bnd (consume_refresh_token ae value) (\<lambda>u0.
     bnd (some_or (BadRequest_auth Invalid_refresh_token) u0) (\<lambda>u.
     andthen (guard (\<not> u_isBanned u) (Forbidden_auth Account_banned))
     (bnd (create_jwt_tokens ae u jti) (\<lambda>ts. ret \<lparr>sn_tokens = ts, sn_message = Refreshed, sn_userId = u_id u\<rparr>))))"

definition logout :: "string \<Rightarrow> unit act" where
  "logout value = revoke_token value"

text \<open>The load and check, and, after the slow hash of the new password, the writes from the entity loaded.\<close>

definition change_password_load :: "auth_env \<Rightarrow> nat \<Rightarrow> string \<Rightarrow> string \<Rightarrow> string \<Rightarrow> user act" where
  "change_password_load ae uid current password confirm =
     andthen (guard (uid \<noteq> 0) (NotFound_auth Auth_user_not_found))
     (bnd (asks (\<lambda>w. find_user (w_db w) uid)) (\<lambda>u0.
      bnd (some_or (BadRequest_auth Auth_user_not_found) u0) (\<lambda>u.
      andthen (guard (password = confirm) (BadRequest_auth Passwords_do_not_match))
      (andthen (guard (snd (compare_password_hash ae current (u_password u))) (BadRequest_auth Wrong_current_password))
        (ret (without_password u))))))"

definition change_password_write :: "auth_env \<Rightarrow> user \<Rightarrow> string \<Rightarrow> nat \<Rightarrow> string \<Rightarrow> session_reply act" where
  "change_password_write ae u password salt jti =
     (let u' = u\<lparr>u_password := Some (ae_bcrypt ae password salt)\<rparr> in
      andthen (update_user (u_id u) (saved_over u'))
      (andthen (revoke_refresh_tokens (u_id u))
      (bnd (create_jwt_tokens ae u jti) (\<lambda>ts.
       andthen (emit (MAIL_PASSWORD_CHANGED (u_email u) (u_firstname u)))
       (andthen (emit (SECURITY_ALERT_CHANGED (u_id u)))
         (ret \<lparr>sn_tokens = ts, sn_message = Changed_password, sn_userId = u_id u\<rparr>))))))"

definition change_password :: "auth_env \<Rightarrow> nat \<Rightarrow> string \<Rightarrow> string \<Rightarrow> string \<Rightarrow> nat \<Rightarrow> string \<Rightarrow> session_reply act" where
  "change_password ae uid current password confirm salt jti =
     bnd (change_password_load ae uid current password confirm) (\<lambda>u. change_password_write ae u password salt jti)"

end
