(* ===== verification/CodeAuth.thy ===== *)
theory CodeAuth
  imports Sessions
begin

text \<open>
  The code flows (auth/code-auth.service.ts): asking for a code, forgetting a password, verifying a code, checking
  and resetting. The minimum response time is not modelled; what is answered is.
\<close>

definition reserve_or_throw :: "string \<Rightarrow> code_purpose \<Rightarrow> int act" where
  "reserve_or_throw h p = bnd (reserve_send h p) (\<lambda>r. case r of
     Send_allowed due \<Rightarrow> ret due | Send_refused due secs \<Rightarrow> throw (TooMany_auth (Code_send_limited due secs)))"

definition deliver_code :: "auth_env \<Rightarrow> string \<Rightarrow> code_purpose \<Rightarrow> user option \<Rightarrow> code_purpose \<Rightarrow> client \<Rightarrow> nat \<Rightarrow> unit act" where
  "deliver_code ae h p u0 kind ctx draw =
     bnd (issue ae h p (map_option u_id u0) draw) (\<lambda>code. case u0 of None \<Rightarrow> ret ()
     | Some u \<Rightarrow> andthen (emit (MAIL_AUTH_CODE (u_email u) (u_firstname u) code kind)) (record_security (u_id u) (Code_sent p) ctx))"

text \<open>Who gets the mail of a requested code, and how it is worded.\<close>

definition code_recipient :: "user option \<Rightarrow> code_purpose \<Rightarrow> user option \<times> code_purpose" where
  "code_recipient u0 p = (case u0 of None \<Rightarrow> (None, p)
     | Some u \<Rightarrow> if u_isBanned u then (None, p)
         else if p = Cp_login then (Some u, if \<not> u_accountVerified u then Cp_signup else p)
         else if \<not> u_accountVerified u then (Some u, p) else (None, p))"

definition request_code :: "auth_env \<Rightarrow> string \<Rightarrow> code_purpose \<Rightarrow> client \<Rightarrow> nat \<Rightarrow> int act" where
  "request_code ae e p ctx draw =
     (let address = normalize_email ae e; h = hash_email ae address in
      bnd (reserve_or_throw h p) (\<lambda>due.
      bnd (find_user_by_email ae address) (\<lambda>u0.
      andthen (deliver_code ae h p (fst (code_recipient u0 p)) (snd (code_recipient u0 p)) ctx draw) (ret due))))"

definition forgot_password_code :: "auth_env \<Rightarrow> string \<Rightarrow> client \<Rightarrow> nat \<Rightarrow> int act" where
  "forgot_password_code ae e ctx draw =
     (let address = normalize_email ae e; h = hash_email ae address in
      bnd (reserve_or_throw h Cp_password_reset) (\<lambda>due.
      bnd (find_user_by_email ae address) (\<lambda>u0.
      andthen (deliver_code ae h Cp_password_reset
        (case u0 of None \<Rightarrow> None | Some u \<Rightarrow> if u_isBanned u then None else Some u) Cp_password_reset ctx draw) (ret due))))"

definition note_failed_check :: "code_purpose \<Rightarrow> client \<Rightarrow> nat option \<Rightarrow> bool \<Rightarrow> unit act" where
  "note_failed_check p ctx uid0 just_locked = (case uid0 of None \<Rightarrow> ret ()
     | Some uid \<Rightarrow> andthen (record_security uid (Code_failed p) ctx)
         (only_if just_locked (record_security uid (Code_locked p) ctx)))"

definition consume_or_throw :: "auth_env \<Rightarrow> string \<Rightarrow> code_purpose \<Rightarrow> string \<Rightarrow> client \<Rightarrow> bool \<Rightarrow> user act" where
  "consume_or_throw ae e p code ctx consume =
     bnd (verify_code_of ae (hash_email ae e) p code consume) (\<lambda>r. case r of
       Check_failed why uid0 just_locked \<Rightarrow> andthen (note_failed_check p ctx uid0 just_locked)
         (throw (BadRequest_auth (if why = Ck_locked then Code_attempts_exceeded else Code_invalid)))
     | Check_ok uid \<Rightarrow>
         bnd (asks (\<lambda>w. find_user (w_db w) uid)) (\<lambda>u0.
         bnd (some_or (BadRequest_auth Code_invalid) u0) (\<lambda>u.
         andthen (guard (\<not> u_isBanned u) (Forbidden_auth Account_banned)) (ret (without_password u)))))"

definition confirm_email :: "user \<Rightarrow> (bool \<times> user) act" where
  "confirm_email u =
     (if u_accountVerified u then ret (False, u)
      else bnd (asks clock) (\<lambda>now.
        andthen (update_user (u_id u) (\<lambda>x. x\<lparr>u_accountVerified := True, u_verifiedAt := Some now\<rparr>))
        (ret (True, u\<lparr>u_accountVerified := True, u_verifiedAt := Some now\<rparr>))))"

definition sign_in_with_code :: "auth_env \<Rightarrow> string \<Rightarrow> string \<Rightarrow> code_purpose \<Rightarrow> client \<Rightarrow> string \<Rightarrow> session_reply act" where
  "sign_in_with_code ae e code p ctx jti =
     bnd (consume_or_throw ae (normalize_email ae e) p code ctx True) (\<lambda>u.
     bnd (confirm_email u) (\<lambda>(confirmed, u').
     andthen (only_if confirmed (emit (MAIL_WELCOME_USER (u_email u') (u_firstname u'))))
     (start_session ae u' By_code ctx Code_verified (\<not> confirmed) jti)))"

definition check_reset_code :: "auth_env \<Rightarrow> string \<Rightarrow> string \<Rightarrow> client \<Rightarrow> unit act" where
  "check_reset_code ae e code ctx =
     bnd (consume_or_throw ae (normalize_email ae e) Cp_password_reset code ctx False) (\<lambda>_. ret ())"

definition reset_password_code :: "auth_env \<Rightarrow> string \<Rightarrow> string \<Rightarrow> string \<Rightarrow> client \<Rightarrow> nat \<Rightarrow> string \<Rightarrow> session_reply act" where
  "reset_password_code ae e code password ctx salt jti =
     bnd (consume_or_throw ae (normalize_email ae e) Cp_password_reset code ctx True) (\<lambda>u.
     andthen (update_user (u_id u) (\<lambda>x. x\<lparr>u_password := Some (ae_bcrypt ae password salt)\<rparr>))
     (bnd (confirm_email u) (\<lambda>(_, u').
      andthen (revoke_refresh_tokens (u_id u))
      (andthen (revoke_tokens_of_type (u_id u) Tok_PASSWORD_RESET)
      (andthen (revoke_codes_of (u_id u))
      (andthen (record_security (u_id u) Password_reset_by_code ctx)
      (bnd (asks clock) (\<lambda>now.
       andthen (emit (MAIL_AUTH_PASSWORD_CHANGED (u_email u') (u_firstname u') now))
       (andthen (emit (SECURITY_ALERT_RESET (u_id u)))
         (start_session ae u' By_code ctx Reset_by_code False jti))))))))))"

end
