(* ===== verification/AuthCodeRules.thy ===== *)
theory AuthCodeRules
  imports CodeAuth
begin

text \<open>
  What the code flows guarantee: how often a code can be sent to one address, that an address without an account is
  answered like one with, that a code signs in at most once and only as it was issued, and what tries that
  overlap can do.
\<close>

section \<open>How often codes are sent\<close>

text \<open>
  The sends of one address and purpose, newest first, each with whether it opened a window. \<open>in_window\<close> counts
  those of the newest window and \<open>window_start\<close> is when it opened.
\<close>

fun in_window :: "(int \<times> bool) list \<Rightarrow> nat" where
  "in_window [] = 0"
| "in_window ((t, True) # xs) = 1"
| "in_window ((t, False) # xs) = Suc (in_window xs)"

fun window_start :: "(int \<times> bool) list \<Rightarrow> int" where
  "window_start [] = 0"
| "window_start ((t, True) # xs) = t"
| "window_start ((t, False) # xs) = window_start xs"

fun spaced :: "(int \<times> bool) list \<Rightarrow> bool" where
  "spaced [] = True"
| "spaced [(t, b)] = b"
| "spaced ((t, b) # x # xs) = (spaced (x # xs) \<and> fst x + AUTH_CODE_COOLDOWN_MS \<le> t
     \<and> (if b then window_start (x # xs) + AUTH_CODE_WINDOW_MS \<le> t else in_window (x # xs) < AUTH_CODE_MAX_PER_HOUR))"

lemmas code_consts = AUTH_CODE_COOLDOWN_MS_def AUTH_CODE_WINDOW_MS_def AUTH_CODE_MAX_PER_HOUR_def
  AUTH_CODE_TTL_MS_def AUTH_CODE_MAX_ATTEMPTS_def

lemma spaced_tl: "spaced (x # xs) \<Longrightarrow> spaced xs"
  by (cases x; cases xs) auto

lemma spaced_drop: "spaced xs \<Longrightarrow> spaced (drop n xs)"
proof (induction n arbitrary: xs)
  case (Suc n)
  then show ?case by (cases xs) (auto dest: spaced_tl)
qed simp

lemma spaced_gap: "spaced xs \<Longrightarrow> Suc i < length xs \<Longrightarrow> fst (xs ! Suc i) + AUTH_CODE_COOLDOWN_MS \<le> fst (xs ! i)"
proof (induction xs arbitrary: i rule: spaced.induct)
  case (3 t b x xs)
  then show ?case by (cases i) auto
qed auto

lemma spaced_mono: "spaced xs \<Longrightarrow> i \<le> j \<Longrightarrow> j < length xs \<Longrightarrow> fst (xs ! j) \<le> fst (xs ! i)"
proof (induction j)
  case (Suc j)
  show ?case
  proof (cases "i = Suc j")
    case False
    then have "fst (xs ! j) \<le> fst (xs ! i)" using Suc by simp
    with spaced_gap [OF Suc.prems(1), of j] Suc.prems(3) show ?thesis by (simp add: code_consts)
  qed simp
qed simp

text \<open>The newest window: at most five sends, the oldest of which opened it an hour or more after the previous one did.\<close>

lemma window_facts:
  assumes "spaced xs" and "xs \<noteq> []"
  shows "0 < in_window xs \<and> in_window xs \<le> AUTH_CODE_MAX_PER_HOUR \<and> in_window xs \<le> length xs
    \<and> fst (xs ! (in_window xs - 1)) = window_start xs
    \<and> (in_window xs < length xs \<longrightarrow> window_start (drop (in_window xs) xs) + AUTH_CODE_WINDOW_MS \<le> window_start xs)"
  using assms
proof (induction xs rule: spaced.induct)
  case (2 t b)
  then show ?case by (cases b) (auto simp: code_consts)
next
  case (3 t b x xs)
  then show ?case by (cases b) (auto simp: code_consts nth_Cons')
qed simp

lemma ten_sends_span:
  assumes ok: "spaced xs" and len: "9 < length xs"
  shows "fst (xs ! 9) + AUTH_CODE_WINDOW_MS \<le> fst (xs ! 0)"
proof -
  let ?a = "in_window xs" and ?ys = "drop (in_window xs) xs"
  let ?b = "in_window ?ys"
  have ne: "xs \<noteq> []" using len by auto
  note f = window_facts [OF ok ne]
  have a: "?a \<le> 5" "0 < ?a" using f by (auto simp: code_consts)
  then have lt: "?a < length xs" using len by simp
  then have ys: "?ys \<noteq> []" by simp
  note g = window_facts [OF spaced_drop [OF ok] ys]
  have b: "?b \<le> 5" "0 < ?b" "?b \<le> length ?ys" using g by (auto simp: code_consts)
  have "window_start ?ys = fst (?ys ! (?b - 1))" using g by simp
  also have "\<dots> = fst (xs ! (?a + (?b - 1)))" using b lt by (simp add: add.commute)
  finally have start: "window_start ?ys = fst (xs ! (?a + (?b - 1)))" .
  have "fst (xs ! 9) \<le> window_start ?ys" unfolding start using a b len by (intro spaced_mono [OF ok]) auto
  moreover have "window_start ?ys + AUTH_CODE_WINDOW_MS \<le> window_start xs" using f lt by simp
  moreover have "window_start xs \<le> fst (xs ! 0)"
  proof -
    have "window_start xs = fst (xs ! (?a - 1))" using f by simp
    also have "\<dots> \<le> fst (xs ! 0)" using a len by (intro spaced_mono [OF ok]) auto
    finally show ?thesis .
  qed
  ultimately show ?thesis by simp
qed

text \<open>
  The requests of everybody that can touch the counters of one address and purpose, with the times at which a send
  was allowed for it.
\<close>

inductive send_step :: "string \<Rightarrow> code_purpose \<Rightarrow> world \<times> int list \<Rightarrow> world \<times> int list \<Rightarrow> bool" for h p where
  time_passes: "clock w \<le> t \<Longrightarrow> send_step h p (w, sends) (w\<lparr>clock := t\<rparr>, sends)"
| send_allowed: "reserve_send h p w = (Inr (Send_allowed due), w') \<Longrightarrow> send_step h p (w, sends) (w', clock w # sends)"
| send_refused: "reserve_send h p w = (Inr (Send_refused due secs), w') \<Longrightarrow> send_step h p (w, sends) (w', sends)"
| send_other: "(h', p') \<noteq> (h, p) \<Longrightarrow> send_step h p (w, sends) (snd (reserve_send h' p' w), sends)"
| failed_check: "send_step h p (w, sends) (snd (count_failed_check_without_code h' p' (clock w) w), sends)"
| purge: "send_step h p (w, sends) (snd (purge_expired_codes w), sends)"
| elsewhere: "t_codeRequests (w_db w') = t_codeRequests (w_db w) \<Longrightarrow> clock w' = clock w \<Longrightarrow> send_step h p (w, sends) (w', sends)"

definition row_matches :: "(int \<times> bool) list \<Rightarrow> code_request \<Rightarrow> bool" where
  "row_matches F r \<longleftrightarrow> F \<noteq> [] \<and> cr_sent r = in_window F \<and> cr_windowStart r = window_start F \<and> cr_lastSent r = fst (hd F)"

definition idle_log :: "int \<Rightarrow> (int \<times> bool) list \<Rightarrow> bool" where
  "idle_log now F \<longleftrightarrow> F = [] \<or> (fst (hd F) < now - AUTH_CODE_WINDOW_MS \<and> window_start F < now - AUTH_CODE_WINDOW_MS)"

definition sends_ok :: "string \<Rightarrow> code_purpose \<Rightarrow> world \<Rightarrow> (int \<times> bool) list \<Rightarrow> bool" where
  "sends_ok h p w F \<longleftrightarrow> spaced F \<and> (\<forall>r \<in> set (t_codeRequests (w_db w)). is_request h p r \<longrightarrow> row_matches F r)
     \<and> ((\<exists>r \<in> set (t_codeRequests (w_db w)). is_request h p r) \<or> idle_log (clock w) F)"

lemma reserve_send_run:
  "reserve_send h p w =
     (case find_request (w_db w) h p of
        None \<Rightarrow> (Inr (Send_allowed (clock w + AUTH_CODE_COOLDOWN_MS)),
          w\<lparr>w_db := (w_db w)\<lparr>t_codeRequests := t_codeRequests (w_db w) @ [first_request h p (clock w)]\<rparr>\<rparr>)
      | Some r \<Rightarrow> if may_send (clock w) r
          then (Inr (Send_allowed (clock w + AUTH_CODE_COOLDOWN_MS)),
            w\<lparr>w_db := (w_db w)\<lparr>t_codeRequests := update_where (is_request h p) (sent_again (clock w)) (t_codeRequests (w_db w))\<rparr>\<rparr>)
          else (Inr (let due = next_send_at (Some r) (clock w) in Send_refused due (retry_after_seconds due (clock w))), w))"
  by (simp add: reserve_send_def upsert_request_def run_simps Let_def split: option.splits)

lemma find_requestE:
  assumes "find_request d h p = Some r"
  shows "r \<in> set (t_codeRequests d) \<and> is_request h p r"
  using assms by (auto simp: find_request_def find_Some_iff)

lemma find_request_None: "find_request d h p = None \<longleftrightarrow> (\<forall>r \<in> set (t_codeRequests d). \<not> is_request h p r)"
  by (auto simp: find_request_def find_None_iff)

lemma ball_update_where: "(\<forall>x \<in> set (update_where q f xs). P x) \<longleftrightarrow> (\<forall>x \<in> set xs. P (if q x then f x else x))"
  by (auto simp: update_where_def)

lemma bex_update_where: "(\<exists>x \<in> set (update_where q f xs). P x) \<longleftrightarrow> (\<exists>x \<in> set xs. P (if q x then f x else x))"
  by (auto simp: update_where_def)

lemmas in_update_where = ball_update_where bex_update_where

lemma is_request_sent_again [simp]: "is_request h p (sent_again now r) = is_request h p r"
  by (simp add: is_request_def sent_again_def Let_def)

lemma is_request_first [simp]: "is_request h p (first_request h' p' now) \<longleftrightarrow> h' = h \<and> p' = p"
  by (simp add: is_request_def first_request_def)

lemma row_matches_first: "row_matches ((now, True) # F) (first_request h p now)"
  by (simp add: row_matches_def first_request_def)

lemma row_matches_again:
  "row_matches F r \<Longrightarrow> row_matches ((now, cr_windowStart r \<le> now - AUTH_CODE_WINDOW_MS) # F) (sent_again now r)"
  by (simp add: row_matches_def sent_again_def Let_def)

lemma failed_check_run:
  "count_failed_check_without_code h p now w =
     (let rows = update_where (counts_checks h p now) (\<lambda>r. r\<lparr>cr_failed := min (cr_failed r + 1) 32000\<rparr>) (t_codeRequests (w_db w))
      in (Inr (Check_failed (case find (counts_checks h p now) rows of
             Some r \<Rightarrow> if cr_failed r \<ge> AUTH_CODE_MAX_ATTEMPTS then Ck_locked else Ck_invalid | None \<Rightarrow> Ck_invalid) None False),
          w\<lparr>w_db := (w_db w)\<lparr>t_codeRequests := rows\<rparr>\<rparr>))"
  by (simp add: count_failed_check_without_code_def run_simps Let_def)

lemma row_failed [simp]:
  "is_request h p (r\<lparr>cr_failed := n\<rparr>) = is_request h p r"
  "row_matches F (r\<lparr>cr_failed := n\<rparr>) = row_matches F r"
  by (simp_all add: is_request_def row_matches_def)

lemma sends_ok_new:
  assumes ok: "sends_ok h p w F" and none: "find_request (w_db w) h p = None"
  shows "spaced ((clock w, True) # F)"
  using assms by (cases F) (auto simp: sends_ok_def find_request_None idle_log_def code_consts)

lemma sends_ok_again:
  assumes ok: "sends_ok h p w F" and r: "find_request (w_db w) h p = Some r" and may: "may_send (clock w) r"
  shows "spaced ((clock w, cr_windowStart r \<le> clock w - AUTH_CODE_WINDOW_MS) # F)"
proof -
  have m: "row_matches F r" using ok find_requestE [OF r] by (simp add: sends_ok_def)
  then obtain x xs where F: "F = x # xs" by (cases F) (auto simp: row_matches_def)
  show ?thesis using m ok may by (auto simp: F row_matches_def sends_ok_def may_send_def)
qed

lemma send_step_ok:
  assumes "send_step h p s s'" and "\<exists>F. map fst F = snd s \<and> sends_ok h p (fst s) F"
  shows "\<exists>F. map fst F = snd s' \<and> sends_ok h p (fst s') F"
proof -
  obtain F where F: "map fst F = snd s" and ok: "sends_ok h p (fst s) F" using assms(2) by blast
  show ?thesis
    using assms(1)
  proof cases
    case (time_passes w t sends)
    then show ?thesis using F ok by (intro exI [of _ F]) (auto simp: sends_ok_def idle_log_def)
  next
    case (send_allowed w due w' sends)
    show ?thesis
    proof (cases "find_request (w_db w) h p")
      case None
      have "sends_ok h p w' ((clock w, True) # F)"
        using send_allowed None sends_ok_new [of h p w F] ok
        by (auto simp: reserve_send_run sends_ok_def find_request_None row_matches_first)
      then show ?thesis using send_allowed F by (intro exI [of _ "(clock w, True) # F"]) simp
    next
      case (Some r)
      let ?b = "cr_windowStart r \<le> clock w - AUTH_CODE_WINDOW_MS"
      have may: "may_send (clock w) r" using send_allowed Some by (auto simp: reserve_send_run Let_def split: if_splits)
      have m: "row_matches F x" if "x \<in> set (t_codeRequests (w_db w))" "is_request h p x" for x
        using ok send_allowed that by (auto simp: sends_ok_def)
      have same: "cr_windowStart x = cr_windowStart r" if "x \<in> set (t_codeRequests (w_db w))" "is_request h p x" for x
        using m [OF that] m find_requestE [OF Some] by (simp add: row_matches_def)
      have "row_matches ((clock w, ?b) # F) (sent_again (clock w) x)"
        if "x \<in> set (t_codeRequests (w_db w))" "is_request h p x" for x
        using row_matches_again [OF m [OF that]] same [OF that] by simp
      moreover have w': "t_codeRequests (w_db w') = update_where (is_request h p) (sent_again (clock w)) (t_codeRequests (w_db w))"
        using send_allowed(3) Some may by (auto simp: reserve_send_run)
      moreover have "spaced ((clock w, ?b) # F)" using sends_ok_again [OF _ Some may] ok send_allowed by simp
      ultimately have "sends_ok h p w' ((clock w, ?b) # F)"
        using find_requestE [OF Some] unfolding sends_ok_def w' in_update_where by (simp split: if_splits) blast
      then show ?thesis using send_allowed F by (intro exI [of _ "(clock w, ?b) # F"]) simp
    qed
  next
    case (send_refused w due secs w' sends)
    then show ?thesis using F ok
      by (intro exI [of _ F]) (auto simp: reserve_send_run split: option.splits if_splits)
  next
    case (send_other h' p' w sends)
    then have ne: "\<not> (is_request h p r \<and> is_request h' p' r)" for r by (auto simp: is_request_def)
    have "sends_ok h p (snd (reserve_send h' p' w)) F" using send_other ok ne
      by (auto simp: reserve_send_run sends_ok_def in_update_where split: option.splits)
    then show ?thesis using send_other F by (intro exI [of _ F]) simp
  next
    case (failed_check w sends h' p')
    have "sends_ok h p (snd (count_failed_check_without_code h' p' (clock w) w)) F"
      using failed_check ok unfolding sends_ok_def failed_check_run Let_def by (simp add: in_update_where)
    then show ?thesis using failed_check F by (intro exI [of _ F]) simp
  next
  case (purge w sends)
    then show ?thesis using F ok
      by (intro exI [of _ F])
        (auto simp: purge_expired_codes_def run_simps sends_ok_def row_matches_def idle_log_def purgeable_request_def)
  next
    case (elsewhere w' w sends)
    then show ?thesis using F ok by (intro exI [of _ F]) (simp add: sends_ok_def)
  qed
qed

lemma send_steps_ok:
  assumes "(send_step h p)\<^sup>*\<^sup>* s s'" and "\<exists>F. map fst F = snd s \<and> sends_ok h p (fst s) F"
  shows "\<exists>F. map fst F = snd s' \<and> sends_ok h p (fst s') F"
  using assms by (induction rule: rtranclp_induct) (auto intro: send_step_ok)


section \<open>A code works once, and as it was issued\<close>

text \<open>
  The codes issued so far, the checks that have read their code and not decided yet, and the codes that were
  accepted and used up: code, account and time.
\<close>

record attempt_read =
  ar_hash :: string
  ar_purpose :: code_purpose
  ar_code :: string
  ar_found :: "auth_code option"

record accepted_code =
  ok_id :: nat
  ok_user :: nat
  ok_hash :: string
  ok_purpose :: code_purpose
  ok_code :: string
  ok_time :: int

record code_desk =
  cd_world :: world
  cd_issued :: "auth_code list"
  cd_reading :: "attempt_read set"
  cd_accepted :: "accepted_code list"

text \<open>
  One statement at a time, of any number of requests: a read and a decision of a check that uses the code up belong to
  the same request but other statements may come between. A check that leaves the code usable decides without
  accepting it here.
\<close>

inductive code_step :: "auth_env \<Rightarrow> code_desk \<Rightarrow> code_desk \<Rightarrow> bool" for ae where
  later: "clock (cd_world s) \<le> t \<Longrightarrow> code_step ae s (s\<lparr>cd_world := (cd_world s)\<lparr>clock := t\<rparr>\<rparr>)"
| issue_code: "issue ae h p (Some uid) draw (cd_world s) = (Inr code, w') \<Longrightarrow>
    code_step ae s (s\<lparr>cd_world := w', cd_issued := cd_issued s
      @ [new_code (next_id (cd_world s) T_codes) uid h p (hash_code ae h p code) (clock (cd_world s))]\<rparr>)"
| read_code: "code_step ae s (s\<lparr>cd_reading := insert
    \<lparr>ar_hash = h, ar_purpose = p, ar_code = code, ar_found = live_code (w_db (cd_world s)) h p (clock (cd_world s))\<rparr> (cd_reading s)\<rparr>)"
| decide_accept: "a \<in> cd_reading s \<Longrightarrow> ar_found a = Some c \<Longrightarrow>
    finish_check ae (ar_hash a) (ar_purpose a) (ar_code a) True (clock (cd_world s)) (ar_found a) (cd_world s) = (Inr (Check_ok uid), w') \<Longrightarrow>
    code_step ae s (s\<lparr>cd_world := w', cd_accepted := cd_accepted s
      @ [\<lparr>ok_id = ac_id c, ok_user = uid, ok_hash = ar_hash a, ok_purpose = ar_purpose a, ok_code = ar_code a, ok_time = clock (cd_world s)\<rparr>]\<rparr>)"
| decide_refuse: "a \<in> cd_reading s \<Longrightarrow>
    finish_check ae (ar_hash a) (ar_purpose a) (ar_code a) True (clock (cd_world s)) (ar_found a) (cd_world s) = (Inr (Check_failed why u j), w') \<Longrightarrow>
    code_step ae s (s\<lparr>cd_world := w'\<rparr>)"
| decide_check_only: "a \<in> cd_reading s \<Longrightarrow>
    finish_check ae (ar_hash a) (ar_purpose a) (ar_code a) False (clock (cd_world s)) (ar_found a) (cd_world s) = (r, w') \<Longrightarrow>
    code_step ae s (s\<lparr>cd_world := w'\<rparr>)"
| revoke: "code_step ae s (s\<lparr>cd_world := snd (revoke_codes_of uid (cd_world s))\<rparr>)"
| purge_codes: "code_step ae s (s\<lparr>cd_world := snd (purge_expired_codes (cd_world s))\<rparr>)"
| other: "t_codes (w_db w') = t_codes (w_db (cd_world s)) \<Longrightarrow> clock w' = clock (cd_world s) \<Longrightarrow>
    next_id w' T_codes = next_id (cd_world s) T_codes \<Longrightarrow> code_step ae s (s\<lparr>cd_world := w'\<rparr>)"

text \<open>A row or a snapshot is an issued code but for its tries and its use.\<close>

definition from_issue :: "auth_code \<Rightarrow> auth_code \<Rightarrow> bool" where
  "from_issue c i \<longleftrightarrow> ac_id c = ac_id i \<and> ac_userId c = ac_userId i \<and> ac_emailHash c = ac_emailHash i
     \<and> ac_purpose c = ac_purpose i \<and> ac_codeHash c = ac_codeHash i \<and> ac_expiresAt c = ac_expiresAt i"

definition properly_accepted :: "auth_env \<Rightarrow> auth_code list \<Rightarrow> accepted_code \<Rightarrow> bool" where
  "properly_accepted ae issued k \<longleftrightarrow> (\<exists>i \<in> set issued. ac_id i = ok_id k \<and> ac_userId i = Some (ok_user k)
     \<and> ac_emailHash i = ok_hash k \<and> ac_purpose i = ok_purpose k
     \<and> digests_match (ac_codeHash i) (hash_code ae (ok_hash k) (ok_purpose k) (ok_code k)) \<and> ok_time k < ac_expiresAt i)"

definition codes_ok :: "auth_env \<Rightarrow> code_desk \<Rightarrow> bool" where
  "codes_ok ae s \<longleftrightarrow> (let rows = t_codes (w_db (cd_world s)) in
     (\<forall>c \<in> set rows. \<exists>i \<in> set (cd_issued s). from_issue c i) \<and> distinct (map ac_id rows)
     \<and> (\<forall>a \<in> cd_reading s. \<forall>c. ar_found a = Some c \<longrightarrow> (\<exists>i \<in> set (cd_issued s). from_issue c i)
          \<and> ac_emailHash c = ar_hash a \<and> ac_purpose c = ar_purpose a)
     \<and> (\<forall>i \<in> set (cd_issued s). ac_id i < next_id (cd_world s) T_codes \<and> ac_userId i \<noteq> None) \<and> distinct (map ac_id (cd_issued s))
     \<and> (\<forall>k \<in> set (cd_accepted s). properly_accepted ae (cd_issued s) k
          \<and> (\<forall>c \<in> set rows. ac_id c = ok_id k \<longrightarrow> ac_consumedAt c \<noteq> None))
     \<and> distinct (map ok_id (cd_accepted s)))"

lemma consume_code_run:
  "consume_code k now w = (Inr (\<exists>c \<in> set (t_codes (w_db w)). usable_code k now c),
     w\<lparr>w_db := update_codes (usable_code k now) (\<lambda>c. c\<lparr>ac_consumedAt := Some now\<rparr>) (w_db w)\<rparr>)"
  by (simp add: consume_code_def run_simps)

definition tried :: "nat \<Rightarrow> db \<Rightarrow> db" where
  "tried k = update_codes (\<lambda>c. ac_id c = k \<and> ac_consumedAt c = None) (\<lambda>c. c\<lparr>ac_attempts := ac_attempts c + 1\<rparr>)"

lemma count_try_run:
  "count_try k w = (Inr (map_option ac_attempts (find (\<lambda>c. ac_id c = k \<and> ac_consumedAt c = None) (t_codes (tried k (w_db w))))),
     w\<lparr>w_db := tried k (w_db w)\<rparr>)"
  by (simp add: count_try_def tried_def run_simps asks_def)

text \<open>What may happen to the codes of a world while nothing is issued.\<close>

definition codes_kept :: "world \<Rightarrow> world \<Rightarrow> bool" where
  "codes_kept w w' \<longleftrightarrow> (\<forall>c' \<in> set (t_codes (w_db w')). \<exists>c \<in> set (t_codes (w_db w)). from_issue c' c
       \<and> (ac_consumedAt c \<noteq> None \<longrightarrow> ac_consumedAt c' \<noteq> None))
     \<and> (distinct (map ac_id (t_codes (w_db w))) \<longrightarrow> distinct (map ac_id (t_codes (w_db w'))))
     \<and> clock w' = clock w \<and> next_id w' T_codes = next_id w T_codes"

lemma from_issue_refl [simp]: "from_issue c c"
  by (simp add: from_issue_def)

lemma from_issue_trans: "from_issue a b \<Longrightarrow> from_issue b c \<Longrightarrow> from_issue a c"
  by (simp add: from_issue_def)

lemma codes_kept_same: "t_codes (w_db w') = t_codes (w_db w) \<Longrightarrow> clock w' = clock w \<Longrightarrow> next_id w' T_codes = next_id w T_codes \<Longrightarrow> codes_kept w w'"
  unfolding codes_kept_def by (metis from_issue_refl)

lemma codes_kept_update:
  assumes "\<And>c. from_issue (f c) c" and "\<And>c. ac_consumedAt c \<noteq> None \<Longrightarrow> ac_consumedAt (f c) \<noteq> None"
  shows "codes_kept w (w\<lparr>w_db := update_codes q f (w_db w)\<rparr>)"
proof -
  have "map ac_id (update_where q f xs) = map ac_id xs" for xs
    using assms(1) by (auto simp: update_where_def from_issue_def)
  moreover have "\<exists>c \<in> set (t_codes (w_db w)). from_issue (if q x then f x else x) c
      \<and> (ac_consumedAt c \<noteq> None \<longrightarrow> ac_consumedAt (if q x then f x else x) \<noteq> None)" if "x \<in> set (t_codes (w_db w))" for x
    using assms(1) assms(2) [of x] that by (intro bexI [of _ x]) (auto simp del: not_None_eq)
  ultimately show ?thesis by (simp add: codes_kept_def update_codes_def ball_update_where)
qed

lemma codes_kept_filter: "codes_kept w (w\<lparr>w_db := (w_db w)\<lparr>t_codes := filter q (t_codes (w_db w))\<rparr>\<rparr>)"
proof -
  have "\<exists>c \<in> set (t_codes (w_db w)). from_issue c' c \<and> (ac_consumedAt c \<noteq> None \<longrightarrow> ac_consumedAt c' \<noteq> None)"
    if "c' \<in> set (t_codes (w_db w))" for c' using that by (intro bexI [of _ c']) auto
  then show ?thesis by (simp add: codes_kept_def distinct_map_filter)
qed

lemma codes_kept_consume: "codes_kept w (snd (consume_code k now w))"
  unfolding consume_code_run by (simp, rule codes_kept_update) (auto simp: from_issue_def)

lemma codes_kept_tried: "codes_kept w (snd (count_try k w))"
  unfolding count_try_run tried_def by (simp, rule codes_kept_update) (auto simp: from_issue_def)

lemma decide_code_world:
  "snd (decide_code ae h p code consume now c w) \<in> {w, snd (consume_code (ac_id c) now w), snd (count_try (ac_id c) w)}"
  by (auto simp: decide_code_def bnd_def ret_def Let_def consume_code_run count_try_run)

lemma codes_kept_finish: "codes_kept w (snd (finish_check ae h p code consume now found w))"
proof (cases found)
  case None
  then show ?thesis by (auto simp: finish_check_def failed_check_run Let_def intro: codes_kept_same)
next
  case (Some c)
  have "codes_kept w w" by (rule codes_kept_same) auto
  then show ?thesis using decide_code_world [of ae h p code consume now c w] codes_kept_consume [of w "ac_id c" now]
      codes_kept_tried [of w "ac_id c"]
    by (auto simp: finish_check_def Some)
qed

lemma finish_accepts:
  assumes "finish_check ae h p code True now (Some c) w = (Inr (Check_ok uid), w')"
  shows "digests_match (ac_codeHash c) (hash_code ae h p code) \<and> ac_userId c = Some uid
    \<and> (\<exists>x \<in> set (t_codes (w_db w)). usable_code (ac_id c) now x) \<and> w' = snd (consume_code (ac_id c) now w)"
  using assms
  by (auto simp: finish_check_def decide_code_def bnd_def ret_def Let_def consume_code_run count_try_run split: if_splits option.splits)

lemma codes_ok_kept:
  assumes "codes_ok ae s" and "codes_kept (cd_world s) w'"
  shows "codes_ok ae (s\<lparr>cd_world := w'\<rparr>)"
proof -
  let ?w = "cd_world s"
  have rows: "\<exists>c \<in> set (t_codes (w_db ?w)). from_issue c' c \<and> (ac_consumedAt c \<noteq> None \<longrightarrow> ac_consumedAt c' \<noteq> None)"
    if "c' \<in> set (t_codes (w_db w'))" for c' using assms(2) that by (simp add: codes_kept_def)
  have "\<exists>i \<in> set (cd_issued s). from_issue c' i" if "c' \<in> set (t_codes (w_db w'))" for c'
    using rows [OF that] assms(1) from_issue_trans unfolding codes_ok_def Let_def by blast
  moreover have "ac_consumedAt c' \<noteq> None" if "c' \<in> set (t_codes (w_db w'))" "k \<in> set (cd_accepted s)" "ac_id c' = ok_id k" for c' k
  proof -
    have "\<exists>c \<in> set (t_codes (w_db ?w)). ac_id c = ok_id k \<and> (ac_consumedAt c \<noteq> None \<longrightarrow> ac_consumedAt c' \<noteq> None)"
      using rows [OF that(1)] that(3) by (auto simp: from_issue_def simp del: not_None_eq)
    then show ?thesis using assms(1) that(2) unfolding codes_ok_def Let_def by blast
  qed
  ultimately show ?thesis using assms unfolding codes_ok_def codes_kept_def Let_def by simp
qed

lemma codes_ok_issue:
  assumes ok: "codes_ok ae s" and run: "issue ae h p (Some uid) draw (cd_world s) = (Inr code, w')"
  shows "codes_ok ae (s\<lparr>cd_world := w', cd_issued := cd_issued s
      @ [new_code (next_id (cd_world s) T_codes) uid h p (hash_code ae h p code) (clock (cd_world s))]\<rparr>)"
proof -
  let ?k = "next_id (cd_world s) T_codes"
  let ?n = "new_code ?k uid h p (hash_code ae h p code) (clock (cd_world s))"
  have code: "code = generate_code draw" and w': "w' = (cd_world s)\<lparr>w_db := replace_code ?n (w_db (cd_world s)), next_id := (next_id (cd_world s))(T_codes := Suc ?k)\<rparr>"
    using run by (auto simp: issue_def Let_def run_simps)
  have rows: "t_codes (w_db w') = filter (\<lambda>x. \<not> is_code_for h p x) (t_codes (w_db (cd_world s))) @ [?n]"
    by (simp add: w' replace_code_def new_code_def)
  have ids: "ac_id c < ?k" if "c \<in> set (t_codes (w_db (cd_world s))) \<or> c \<in> set (cd_issued s)" for c
    using ok that unfolding codes_ok_def Let_def by (auto simp: from_issue_def)
  have acc: "ok_id k < ?k" if "k \<in> set (cd_accepted s)" for k
    using ok that ids unfolding codes_ok_def Let_def properly_accepted_def by fastforce
  have n: "ac_id ?n = ?k" "ac_userId ?n = Some uid" by (simp_all add: new_code_def)
  have "properly_accepted ae (cd_issued s @ [?n]) k" if "properly_accepted ae (cd_issued s) k" for k
    using that by (auto simp: properly_accepted_def)
  moreover have "next_id w' T_codes = Suc ?k" by (simp add: w')
  moreover have "?k \<notin> ac_id ` set (t_codes (w_db (cd_world s)))" "?k \<notin> ac_id ` set (cd_issued s)" "?k \<notin> ok_id ` set (cd_accepted s)"
    using ids acc by fastforce+
  ultimately show ?thesis using ok n unfolding codes_ok_def Let_def
    by (auto simp: rows distinct_map_filter less_Suc_eq image_iff intro: from_issue_refl simp del: not_None_eq)
qed

lemma codes_ok_accept:
  assumes ok: "codes_ok ae s" and a: "a \<in> cd_reading s" "ar_found a = Some c"
    and run: "finish_check ae (ar_hash a) (ar_purpose a) (ar_code a) True (clock (cd_world s)) (ar_found a) (cd_world s) = (Inr (Check_ok uid), w')"
  shows "codes_ok ae (s\<lparr>cd_world := w', cd_accepted := cd_accepted s
      @ [\<lparr>ok_id = ac_id c, ok_user = uid, ok_hash = ar_hash a, ok_purpose = ar_purpose a, ok_code = ar_code a, ok_time = clock (cd_world s)\<rparr>]\<rparr>)"
    (is "codes_ok ae (s\<lparr>cd_world := w', cd_accepted := cd_accepted s @ [?k]\<rparr>)")
proof -
  let ?w = "cd_world s"
  note f = finish_accepts [OF run [unfolded a(2)]]
  obtain x where x: "x \<in> set (t_codes (w_db ?w))" "usable_code (ac_id c) (clock ?w) x" using f by blast
  obtain i where i: "i \<in> set (cd_issued s)" "from_issue c i" using ok a unfolding codes_ok_def Let_def by blast
  obtain j where j: "j \<in> set (cd_issued s)" "from_issue x j" using ok x unfolding codes_ok_def Let_def by blast
  have "ac_id i = ac_id j" using i j x by (simp add: from_issue_def usable_code_def)
  then have ij: "i = j" using i j ok unfolding codes_ok_def Let_def by (meson distinct_map inj_onD)
  have kept: "codes_ok ae (s\<lparr>cd_world := w'\<rparr>)" using codes_ok_kept [OF ok] codes_kept_consume f by metis
  have same: "ac_emailHash c = ar_hash a \<and> ac_purpose c = ar_purpose a" using ok a unfolding codes_ok_def Let_def by blast
  have proper: "properly_accepted ae (cd_issued s) ?k"
    unfolding properly_accepted_def
    by (rule bexI [OF _ i(1)]) (use i j x f ij same in \<open>auto simp: from_issue_def usable_code_def\<close>)
  have used: "ac_consumedAt c' \<noteq> None" if c': "c' \<in> set (t_codes (w_db w'))" "ac_id c' = ac_id c" for c'
  proof -
    obtain y where y: "y \<in> set (t_codes (w_db ?w))" "ac_id y = ac_id c"
        "c' = (if usable_code (ac_id c) (clock ?w) y then y\<lparr>ac_consumedAt := Some (clock ?w)\<rparr> else y)"
      using c' f by (auto simp: consume_code_run update_codes_def update_where_def split: if_splits)
    have "distinct (map ac_id (t_codes (w_db ?w)))" using ok unfolding codes_ok_def Let_def by blast
    then have "y = x" using x y by (auto simp: usable_code_def distinct_map inj_on_def)
    then show ?thesis using y x by simp
  qed
  have "ac_id c \<notin> ok_id ` set (cd_accepted s)"
    using ok x unfolding codes_ok_def Let_def usable_code_def by (metis imageE)
  then show ?thesis using kept proper used unfolding codes_ok_def Let_def by (auto simp del: not_None_eq)
qed

lemma live_codeD:
  assumes "live_code d h p now = Some c"
  shows "c \<in> set (t_codes d) \<and> is_code_for h p c \<and> ac_consumedAt c = None \<and> now < ac_expiresAt c"
proof -
  obtain xs where "sort_key (\<lambda>c. - ac_createdAt c) (sort_key (\<lambda>c. - int (ac_id c))
         (filter (\<lambda>c. is_code_for h p c \<and> ac_consumedAt c = None \<and> ac_expiresAt c > now) (t_codes d))) = c # xs"
    using assms by (auto simp: live_code_def split: list.splits)
  from arg_cong [OF this, of set] show ?thesis by auto
qed

lemma code_step_ok:
  assumes "code_step ae s s'" and ok: "codes_ok ae s"
  shows "codes_ok ae s'"
  using assms(1)
proof cases
  case (later t)
  have "codes_ok ae (s\<lparr>cd_world := (cd_world s)\<lparr>clock := t\<rparr>\<rparr>)" using ok by (simp add: codes_ok_def Let_def)
  then show ?thesis using later by simp
next
  case (issue_code h p uid draw code w')
  then show ?thesis using codes_ok_issue [OF ok] by simp
next
  case (read_code h p code)
  then show ?thesis using ok live_codeD unfolding codes_ok_def Let_def by (fastforce simp: is_code_for_def)
next
  case (decide_accept a c uid w')
  then show ?thesis using codes_ok_accept [OF ok] by simp
next
  case (decide_refuse a why u j w')
  then show ?thesis using codes_ok_kept [OF ok] codes_kept_finish by (metis snd_conv)
next
  case (decide_check_only a r w')
  then show ?thesis using codes_ok_kept [OF ok] codes_kept_finish by (metis snd_conv)
next
  case (revoke uid)
  then show ?thesis using codes_ok_kept [OF ok] codes_kept_filter by (simp add: revoke_codes_of_def run_simps)
next
  case purge_codes
  have "codes_kept (cd_world s) (snd (purge_expired_codes (cd_world s)))"
    using codes_kept_filter [of "cd_world s"] by (simp add: purge_expired_codes_def run_simps codes_kept_def)
  then show ?thesis using purge_codes codes_ok_kept [OF ok] by simp
next
  case (other w')
  then show ?thesis using codes_ok_kept [OF ok] codes_kept_same by simp
qed


section \<open>Tries that overlap\<close>

text \<open>The codes of an address and purpose that are not used up.\<close>

definition open_code :: "string \<Rightarrow> code_purpose \<Rightarrow> auth_code \<Rightarrow> bool" where
  "open_code h p c \<longleftrightarrow> is_code_for h p c \<and> ac_consumedAt c = None"

definition only_code :: "string \<Rightarrow> code_purpose \<Rightarrow> auth_code \<Rightarrow> db \<Rightarrow> bool" where
  "only_code h p c d \<longleftrightarrow> filter (open_code h p) (t_codes d) = [c] \<and> distinct (map ac_id (t_codes d))"

lemma live_code_filter:
  "live_code d h p now = (case sort_key (\<lambda>c. - ac_createdAt c) (sort_key (\<lambda>c. - int (ac_id c))
     (filter (\<lambda>c. ac_expiresAt c > now) (filter (open_code h p) (t_codes d)))) of [] \<Rightarrow> None | c # _ \<Rightarrow> Some c)"
  by (simp add: live_code_def open_code_def conj_ac)

lemma live_code_only: "filter (open_code h p) (t_codes d) = [c] \<Longrightarrow> live_code d h p now = (if now < ac_expiresAt c then Some c else None)"
  by (simp add: live_code_filter)

lemma live_code_none: "filter (open_code h p) (t_codes d) = [] \<Longrightarrow> live_code d h p now = None"
  by (simp add: live_code_filter)

definition one_more_try :: "auth_code \<Rightarrow> auth_code" where
  "one_more_try c = c\<lparr>ac_attempts := ac_attempts c + 1\<rparr>"

lemma one_more_try_simps [simp]:
  "ac_id (one_more_try c) = ac_id c" "ac_attempts (one_more_try c) = Suc (ac_attempts c)" "ac_userId (one_more_try c) = ac_userId c"
  "ac_codeHash (one_more_try c) = ac_codeHash c" "ac_expiresAt (one_more_try c) = ac_expiresAt c"
  "ac_consumedAt (one_more_try c) = ac_consumedAt c" "open_code h p (one_more_try c) = open_code h p c"
  by (simp_all add: one_more_try_def open_code_def is_code_for_def)

lemma only_codeD: "only_code h p c d \<Longrightarrow> c \<in> set (t_codes d) \<and> ac_consumedAt c = None \<and> open_code h p c"
proof -
  assume "only_code h p c d"
  then have "c \<in> set (filter (open_code h p) (t_codes d))" by (simp add: only_code_def)
  then show ?thesis by (auto simp: open_code_def)
qed

lemma tried_only:
  assumes "only_code h p c d"
  shows "only_code h p (one_more_try c) (tried (ac_id c) d)"
    and "find (\<lambda>x. ac_id x = ac_id c \<and> ac_consumedAt x = None) (t_codes (tried (ac_id c) d)) = Some (one_more_try c)"
proof -
  let ?g = "\<lambda>x. if ac_id x = ac_id c \<and> ac_consumedAt x = None then one_more_try x else x"
  have rows: "t_codes (tried (ac_id c) d) = map ?g (t_codes d)"
    by (simp add: tried_def update_codes_def update_where_def one_more_try_def)
  have ids: "ac_id (?g x) = ac_id x" for x by simp
  have dist: "distinct (map ac_id (map ?g (t_codes d)))" using assms by (simp add: only_code_def comp_def ids)
  have "filter (open_code h p) (map ?g (t_codes d)) = map ?g (filter (open_code h p) (t_codes d))"
  proof -
    have "(\<lambda>x. open_code h p (?g x)) = open_code h p" by (auto simp: fun_eq_iff)
    then show ?thesis by (simp only: filter_map comp_def)
  qed
  then show only: "only_code h p (one_more_try c) (tried (ac_id c) d)"
    using assms only_codeD [OF assms] dist by (simp add: only_code_def rows)
  show "find (\<lambda>x. ac_id x = ac_id c \<and> ac_consumedAt x = None) (t_codes (tried (ac_id c) d)) = Some (one_more_try c)"
  proof -
    have "inj_on ac_id (set (t_codes (tried (ac_id c) d)))" using dist unfolding rows distinct_map [of ac_id] by blast
    then show ?thesis by (rule find_by_key) (use only_codeD [OF only] only_codeD [OF assms] in auto)
  qed
qed

lemma wrong_check_run:
  assumes only: "only_code h p c (w_db w)" and live: "clock w < ac_expiresAt c" and few: "ac_attempts c < AUTH_CODE_MAX_ATTEMPTS"
    and wrong: "\<not> digests_match (ac_codeHash c) (hash_code ae h p code)"
  shows "verify_code_of ae h p code consume w =
    (Inr (if Suc (ac_attempts c) \<ge> AUTH_CODE_MAX_ATTEMPTS then Check_failed Ck_locked (ac_userId c) True else Check_failed Ck_invalid (ac_userId c) False),
     w\<lparr>w_db := tried (ac_id c) (w_db w)\<rparr>)"
proof -
  have "live_code (w_db w) h p (clock w) = Some c" using only live live_code_only by (simp add: only_code_def)
  moreover have "Suc (ac_attempts c) \<ge> AUTH_CODE_MAX_ATTEMPTS \<longrightarrow> Suc (ac_attempts c) = AUTH_CODE_MAX_ATTEMPTS" using few by simp
  ultimately show ?thesis using few wrong tried_only [OF only]
    by (auto simp: verify_code_of_def finish_check_def decide_code_def run_simps bnd_def asks_def ret_def count_try_run Let_def)
qed

lemma locked_check_run:
  assumes only: "only_code h p c (w_db w)" and live: "clock w < ac_expiresAt c" and many: "ac_attempts c \<ge> AUTH_CODE_MAX_ATTEMPTS"
  shows "verify_code_of ae h p code consume w = (Inr (Check_failed Ck_locked (ac_userId c) False), w)"
proof -
  have "live_code (w_db w) h p (clock w) = Some c" using only live live_code_only by (simp add: only_code_def)
  then show ?thesis using many by (simp add: verify_code_of_def finish_check_def decide_code_def run_simps bnd_def asks_def)
qed

text \<open>Checks of a reset code that leave it usable: one after the other, and all having read the code \<open>c\<close> before any decides.\<close>

fun checked_in_turn :: "auth_env \<Rightarrow> string \<Rightarrow> code_purpose \<Rightarrow> string list \<Rightarrow> world \<Rightarrow> (exn + code_check) list" where
  "checked_in_turn ae h p [] w = []"
| "checked_in_turn ae h p (g # gs) w = (case verify_code_of ae h p g False w of (r, w') \<Rightarrow> r # checked_in_turn ae h p gs w')"

fun checked_together :: "auth_env \<Rightarrow> string \<Rightarrow> code_purpose \<Rightarrow> int \<Rightarrow> auth_code \<Rightarrow> string list \<Rightarrow> world \<Rightarrow> (exn + code_check) list" where
  "checked_together ae h p now c [] w = []"
| "checked_together ae h p now c (g # gs) w =
     (case finish_check ae h p g False now (Some c) w of (r, w') \<Rightarrow> r # checked_together ae h p now c gs w')"

lemma locked_in_turn:
  assumes "only_code h p c (w_db w)" and "clock w < ac_expiresAt c" and "ac_attempts c \<ge> AUTH_CODE_MAX_ATTEMPTS"
  shows "j < length gs \<Longrightarrow> checked_in_turn ae h p gs w ! j = Inr (Check_failed Ck_locked (ac_userId c) False)"
proof (induction gs arbitrary: j)
  case (Cons g gs)
  then show ?case using locked_check_run [OF assms] by (cases j) auto
qed simp

lemma in_turn_limited:
  assumes "only_code h p c (w_db w)" and "clock w < ac_expiresAt c"
    and "\<forall>i < AUTH_CODE_MAX_ATTEMPTS - ac_attempts c. i < length gs \<longrightarrow> \<not> digests_match (ac_codeHash c) (hash_code ae h p (gs ! i))"
    and "AUTH_CODE_MAX_ATTEMPTS - ac_attempts c \<le> j" and "j < length gs"
  shows "checked_in_turn ae h p gs w ! j = Inr (Check_failed Ck_locked (ac_userId c) False)"
  using assms
proof (induction gs arbitrary: c w j)
  case (Cons g gs)
  show ?case
  proof (cases "ac_attempts c < AUTH_CODE_MAX_ATTEMPTS")
    case False
    then show ?thesis using Cons.prems by (intro locked_in_turn) auto
  next
    case True
    then obtain k where j: "j = Suc k" using Cons.prems(4) by (cases j) auto
    have "\<not> digests_match (ac_codeHash c) (hash_code ae h p g)" using Cons.prems(3) True by fastforce
    note run = wrong_check_run [OF Cons.prems(1,2) True this, of False]
    have "checked_in_turn ae h p gs (w\<lparr>w_db := tried (ac_id c) (w_db w)\<rparr>) ! k = Inr (Check_failed Ck_locked (ac_userId (one_more_try c)) False)"
    proof (rule Cons.IH)
      show "\<forall>i < AUTH_CODE_MAX_ATTEMPTS - ac_attempts (one_more_try c). i < length gs \<longrightarrow>
          \<not> digests_match (ac_codeHash (one_more_try c)) (hash_code ae h p (gs ! i))"
      proof (intro allI impI)
        fix i
        assume "i < AUTH_CODE_MAX_ATTEMPTS - ac_attempts (one_more_try c)" "i < length gs"
        then show "\<not> digests_match (ac_codeHash (one_more_try c)) (hash_code ae h p (gs ! i))"
          using Cons.prems(3) [rule_format, of "Suc i"] by simp
      qed
    qed (use Cons.prems True j in \<open>auto simp: tried_only(1)\<close>)
    then show ?thesis using run j by simp
  qed
qed simp

lemma checked_together_compares:
  assumes "ac_attempts c < AUTH_CODE_MAX_ATTEMPTS" and "ac_userId c = Some uid"
  shows "j < length gs \<Longrightarrow> (checked_together ae h p now c gs w ! j = Inr (Check_ok uid))
    = digests_match (ac_codeHash c) (hash_code ae h p (gs ! j))"
proof (induction gs arbitrary: j w)
  case (Cons g gs)
  obtain r w' where r: "finish_check ae h p g False now (Some c) w = (r, w')" by fastforce
  then have "(r = Inr (Check_ok uid)) = digests_match (ac_codeHash c) (hash_code ae h p g)"
    using assms by (auto simp: finish_check_def decide_code_def count_try_run bnd_def ret_def Let_def split: if_splits)
  then show ?case using Cons r by (cases j) auto
qed simp

text \<open>
  The five tries of a code bound tries one after the other, not tries that overlap. Once five checks in a row
  were wrong, every later one is told that the code is locked, right or wrong. But checks that all read the
  code before the first of them counts are every one compared with it, however many they are, and the right one
  among them is confirmed.
\<close>

theorem tries_overlap:
  assumes "only_code h p c (w_db w)" and "clock w < ac_expiresAt c" and "ac_attempts c = 0" and "ac_userId c = Some uid"
    and j: "5 \<le> j" "j < length gs"
  shows "((\<forall>i < 5. \<not> digests_match (ac_codeHash c) (hash_code ae h p (gs ! i))) \<longrightarrow>
      checked_in_turn ae h p gs w ! j = Inr (Check_failed Ck_locked (Some uid) False))
    \<and> (checked_together ae h p (clock w) (the (live_code (w_db w) h p (clock w))) gs w ! j = Inr (Check_ok uid)
        \<longleftrightarrow> digests_match (ac_codeHash c) (hash_code ae h p (gs ! j)))"
proof (intro conjI impI)
  show "checked_in_turn ae h p gs w ! j = Inr (Check_failed Ck_locked (Some uid) False)"
    if "\<forall>i < 5. \<not> digests_match (ac_codeHash c) (hash_code ae h p (gs ! i))"
    using in_turn_limited [OF assms(1,2), of gs ae j] that j assms(3,4) by (simp add: code_consts)
  have "live_code (w_db w) h p (clock w) = Some c" using assms(1,2) live_code_only by (simp add: only_code_def)
  then show "checked_together ae h p (clock w) (the (live_code (w_db w) h p (clock w))) gs w ! j = Inr (Check_ok uid)
      \<longleftrightarrow> digests_match (ac_codeHash c) (hash_code ae h p (gs ! j))"
    using checked_together_compares [of c uid j gs] assms by (simp add: code_consts)
qed

end
