(* ===== verification/AuthPrivacy.thy ===== *)
theory AuthPrivacy
  imports AuthCodeRules
begin

text \<open>
  The code flows tell nobody whether an address has an account: the same requests, whatever they are and whenever they
  are made, are answered the same for an address with an account and for one without, as long as no guess is right.
\<close>

text \<open>What anybody can send about an address, and the answers, request after request at the given times.\<close>

datatype probe = Ask_code code_purpose nat | Ask_reset nat
  | Try_code code_purpose string | Try_reset_code string | Try_reset string string nat

fun reply_to :: "auth_env \<Rightarrow> string \<Rightarrow> client \<Rightarrow> string \<Rightarrow> probe \<Rightarrow> int option act" where
  "reply_to ae e ctx jti (Ask_code p draw) = bnd (request_code ae e p ctx draw) (\<lambda>due. ret (Some due))"
| "reply_to ae e ctx jti (Ask_reset draw) = bnd (forgot_password_code ae e ctx draw) (\<lambda>due. ret (Some due))"
| "reply_to ae e ctx jti (Try_code p code) = bnd (sign_in_with_code ae e code p ctx jti) (\<lambda>_. ret None)"
| "reply_to ae e ctx jti (Try_reset_code code) = bnd (check_reset_code ae e code ctx) (\<lambda>_. ret None)"
| "reply_to ae e ctx jti (Try_reset code password salt) = bnd (reset_password_code ae e code password ctx salt jti) (\<lambda>_. ret None)"

fun answers :: "auth_env \<Rightarrow> string \<Rightarrow> client \<Rightarrow> string \<Rightarrow> (int \<times> probe) list \<Rightarrow> world \<Rightarrow> (exn + int option) list" where
  "answers ae e ctx jti [] w = []"
| "answers ae e ctx jti ((t, q) # qs) w =
     (case reply_to ae e ctx jti q (w\<lparr>clock := t\<rparr>) of (r, w') \<Rightarrow> r # answers ae e ctx jti qs w')"

fun guess_of :: "probe \<Rightarrow> (code_purpose \<times> string) option" where
  "guess_of (Try_code p code) = Some (p, code)"
| "guess_of (Try_reset_code code) = Some (Cp_password_reset, code)"
| "guess_of (Try_reset code _ _) = Some (Cp_password_reset, code)"
| "guess_of _ = None"

text \<open>The hash under which the flows keep an address.\<close>

definition address_hash :: "auth_env \<Rightarrow> string \<Rightarrow> string" where
  "address_hash ae e = hash_email ae (normalize_email ae e)"

text \<open>What the request validation admits: sign-up and login codes here, reset codes by their own routes.\<close>

fun admissible :: "probe \<Rightarrow> bool" where
  "admissible (Ask_code p _) = (p \<noteq> Cp_password_reset)"
| "admissible (Try_code p _) = (p \<noteq> Cp_password_reset)"
| "admissible _ = True"

definition wrong_guess :: "auth_env \<Rightarrow> string \<Rightarrow> db \<Rightarrow> probe \<Rightarrow> bool" where
  "wrong_guess ae h d q \<longleftrightarrow> (case guess_of q of None \<Rightarrow> True
     | Some (p, code) \<Rightarrow> \<forall>c \<in> set (t_codes d). open_code h p c \<longrightarrow> \<not> digests_match (ac_codeHash c) (hash_code ae h p code))"

fun all_wrong :: "auth_env \<Rightarrow> string \<Rightarrow> client \<Rightarrow> string \<Rightarrow> (int \<times> probe) list \<Rightarrow> world \<Rightarrow> bool" where
  "all_wrong ae e ctx jti [] w \<longleftrightarrow> True"
| "all_wrong ae e ctx jti ((t, q) # qs) w \<longleftrightarrow> admissible q \<and> wrong_guess ae (address_hash ae e) (w_db w) q
     \<and> all_wrong ae e ctx jti qs (snd (reply_to ae e ctx jti q (w\<lparr>clock := t\<rparr>)))"

section \<open>Counters and codes\<close>

definition request_key :: "code_request \<Rightarrow> string \<times> code_purpose" where
  "request_key r = (cr_emailHash r, cr_purpose r)"

definition keyed :: "db \<Rightarrow> bool" where
  "keyed d \<longleftrightarrow> distinct (map request_key (t_codeRequests d))"

text \<open>Whether the account behind an address, if there is one, is sent codes for a purpose.\<close>

definition gets_codes :: "auth_env \<Rightarrow> string \<Rightarrow> code_purpose \<Rightarrow> db \<Rightarrow> bool" where
  "gets_codes ae e p d \<longleftrightarrow> (case user_by_email ae d (normalize_email ae e) of None \<Rightarrow> False
     | Some u \<Rightarrow> \<not> u_isBanned u \<and> (p = Cp_signup \<longrightarrow> \<not> u_accountVerified u))"

definition sends_of :: "code_request option \<Rightarrow> (int \<times> nat \<times> int) option" where
  "sends_of r = map_option (\<lambda>r. (cr_windowStart r, cr_sent r, cr_lastSent r)) r"

text \<open>
  The tries left, told by the code in one world and by the counter in the other: either the code of the last send
  counts what the other world's counter counts, or there is no code and both counters agree.
\<close>

definition tries_agree :: "auth_env \<Rightarrow> string \<Rightarrow> code_purpose \<Rightarrow> db \<Rightarrow> db \<Rightarrow> bool" where
  "tries_agree ae e p d1 d2 \<longleftrightarrow> (let h = address_hash ae e in
     (\<exists>c r. only_code h p c d1 \<and> find_request d2 h p = Some r \<and> gets_codes ae e p d1
        \<and> ac_expiresAt c = cr_lastSent r + AUTH_CODE_TTL_MS
        \<and> min AUTH_CODE_MAX_ATTEMPTS (ac_attempts c) = min AUTH_CODE_MAX_ATTEMPTS (cr_failed r))
     \<or> filter (open_code h p) (t_codes d1) = []
        \<and> map_option cr_failed (find_request d1 h p) = map_option cr_failed (find_request d2 h p))"

definition alike :: "auth_env \<Rightarrow> string \<Rightarrow> world \<Rightarrow> world \<Rightarrow> bool" where
  "alike ae e w1 w2 \<longleftrightarrow> (let h = address_hash ae e; d1 = w_db w1; d2 = w_db w2 in
     user_by_email ae d2 (normalize_email ae e) = None \<and> keyed d1 \<and> keyed d2
     \<and> distinct (map ac_id (t_codes d1)) \<and> (\<forall>c \<in> set (t_codes d1). ac_id c < next_id w1 T_codes)
     \<and> (\<forall>p. filter (open_code h p) (t_codes d2) = [])
     \<and> (\<forall>p. sends_of (find_request d1 h p) = sends_of (find_request d2 h p) \<and> tries_agree ae e p d1 d2))"

subsection \<open>Request rows\<close>

lemma is_request_key: "is_request h p r \<longleftrightarrow> request_key r = (h, p)"
  by (auto simp: is_request_def request_key_def)

lemma find_map_same: "(\<And>x. P (g x) = P x) \<Longrightarrow> find P (map g xs) = map_option g (find P xs)"
  by (induction xs) auto

lemma find_request_update:
  assumes "\<And>r. request_key (f r) = request_key r"
  shows "find_request (d\<lparr>t_codeRequests := update_where q f (t_codeRequests d)\<rparr>) h p
      = map_option (\<lambda>r. if q r then f r else r) (find_request d h p)"
    and "keyed (d\<lparr>t_codeRequests := update_where q f (t_codeRequests d)\<rparr>) = keyed d"
proof -
  have "is_request h p (if q r then f r else r) = is_request h p r" for r using assms by (simp add: is_request_key)
  then show "find_request (d\<lparr>t_codeRequests := update_where q f (t_codeRequests d)\<rparr>) h p
      = map_option (\<lambda>r. if q r then f r else r) (find_request d h p)"
    by (simp add: find_request_def update_where_def find_map_same)
  have "request_key \<circ> (\<lambda>r. if q r then f r else r) = request_key" using assms by auto
  then show "keyed (d\<lparr>t_codeRequests := update_where q f (t_codeRequests d)\<rparr>) = keyed d"
    by (simp add: keyed_def update_where_def)
qed

lemma find_append: "find P (xs @ [x]) = (case find P xs of Some y \<Rightarrow> Some y | None \<Rightarrow> if P x then Some x else None)"
  by (induction xs) auto

lemma find_counts:
  assumes "keyed d"
  shows "find (counts_checks h p now) (t_codeRequests d)
    = (case find_request d h p of None \<Rightarrow> None | Some r \<Rightarrow> if cr_lastSent r > now - AUTH_CODE_TTL_MS then Some r else None)"
proof (cases "find_request d h p")
  case None
  then have "find (counts_checks h p now) (t_codeRequests d) = None"
    unfolding find_request_None find_None_iff by (auto simp: counts_checks_def)
  then show ?thesis using None by simp
next
  case (Some r)
  have inj: "inj_on request_key (set (t_codeRequests d))" using assms by (simp add: keyed_def distinct_map)
  have r: "r \<in> set (t_codeRequests d)" "request_key r = (h, p)" using find_requestE [OF Some] by (auto simp: is_request_key)
  show ?thesis
  proof (cases "cr_lastSent r > now - AUTH_CODE_TTL_MS")
    case True
    have "find (counts_checks h p now) (t_codeRequests d) = Some r"
      by (rule find_by_key [OF inj r(1)]) (use r True in \<open>auto simp: counts_checks_def is_request_key\<close>)
    then show ?thesis using Some True by simp
  next
    case False
    have "\<not> counts_checks h p now x" if "x \<in> set (t_codeRequests d)" for x
    proof
      assume x: "counts_checks h p now x"
      then have "x = r" using inj r that by (auto simp: counts_checks_def is_request_key inj_on_def)
      then show False using x False by (simp add: counts_checks_def)
    qed
    then show ?thesis using Some False by (simp add: find_None_iff)
  qed
qed

subsection \<open>A send\<close>

lemma request_key_sent_again [simp]: "request_key (sent_again now r) = request_key r"
  by (simp add: request_key_def sent_again_def Let_def)

text \<open>A send looks at the send counters only, and resets the failed checks of its own row only.\<close>

definition send_result :: "int \<Rightarrow> code_request option \<Rightarrow> send_reservation" where
  "send_result now r0 = (case r0 of None \<Rightarrow> Send_allowed (now + AUTH_CODE_COOLDOWN_MS)
     | Some r \<Rightarrow> if may_send now r then Send_allowed (now + AUTH_CODE_COOLDOWN_MS)
         else (let due = next_send_at (Some r) now in Send_refused due (retry_after_seconds due now)))"

definition row_after_send :: "string \<Rightarrow> code_purpose \<Rightarrow> int \<Rightarrow> code_request option \<Rightarrow> code_request" where
  "row_after_send h p now r0 = (case r0 of None \<Rightarrow> first_request h p now | Some r \<Rightarrow> sent_again now r)"

lemma send_result_cong: "sends_of r1 = sends_of r2 \<Longrightarrow> send_result now r1 = send_result now r2"
  by (cases r1; cases r2) (auto simp: sends_of_def send_result_def may_send_def next_send_at_def Let_def)

lemma sends_after_cong: "sends_of r1 = sends_of r2 \<Longrightarrow> sends_of (Some (row_after_send h p now r1)) = sends_of (Some (row_after_send h p now r2))"
  by (cases r1; cases r2) (auto simp: sends_of_def row_after_send_def sent_again_def Let_def first_request_def)

lemma row_after_send_simps [simp]:
  "cr_failed (row_after_send h p now r) = 0" "cr_lastSent (row_after_send h p now r) = now"
  by (cases r; simp add: row_after_send_def sent_again_def first_request_def Let_def)+

text \<open>A refused send changes nothing; an allowed one changes the requests table as told.\<close>

lemma reserve_send_result:
  assumes "keyed (w_db w)"
  shows "\<exists>rows. reserve_send h p w = (Inr (send_result (clock w) (find_request (w_db w) h p)), w\<lparr>w_db := (w_db w)\<lparr>t_codeRequests := rows\<rparr>\<rparr>)
    \<and> keyed ((w_db w)\<lparr>t_codeRequests := rows\<rparr>)
    \<and> (case send_result (clock w) (find_request (w_db w) h p) of
         Send_refused due secs \<Rightarrow> rows = t_codeRequests (w_db w)
       | Send_allowed due \<Rightarrow> \<forall>h' p'. find_request ((w_db w)\<lparr>t_codeRequests := rows\<rparr>) h' p'
           = (if h' = h \<and> p' = p then Some (row_after_send h p (clock w) (find_request (w_db w) h p)) else find_request (w_db w) h' p'))"
proof (cases "find_request (w_db w) h p")
  case None
  let ?rows = "t_codeRequests (w_db w) @ [first_request h p (clock w)]"
  have "keyed ((w_db w)\<lparr>t_codeRequests := ?rows\<rparr>)"
    using assms None by (auto simp: keyed_def find_request_None is_request_key first_request_def request_key_def)
  moreover have "find_request ((w_db w)\<lparr>t_codeRequests := ?rows\<rparr>) h' p'
      = (if h' = h \<and> p' = p then Some (first_request h p (clock w)) else find_request (w_db w) h' p')" for h' p'
    using None by (auto simp: find_request_def find_append split: option.splits)
  ultimately show ?thesis using None
    by (intro exI [of _ ?rows]) (simp add: reserve_send_run send_result_def row_after_send_def)
next
  case (Some r)
  show ?thesis
  proof (cases "may_send (clock w) r")
    case True
    let ?rows = "update_where (is_request h p) (sent_again (clock w)) (t_codeRequests (w_db w))"
    have "find_request ((w_db w)\<lparr>t_codeRequests := ?rows\<rparr>) h' p'
        = (if h' = h \<and> p' = p then Some (sent_again (clock w) r) else find_request (w_db w) h' p')" for h' p'
    proof -
      have "find_request ((w_db w)\<lparr>t_codeRequests := ?rows\<rparr>) h' p'
          = map_option (\<lambda>r. if is_request h p r then sent_again (clock w) r else r) (find_request (w_db w) h' p')"
        by (rule find_request_update) simp
      then show ?thesis using Some find_requestE [of "w_db w" h' p']
        by (cases "find_request (w_db w) h' p'") (auto simp: is_request_def)
    qed
    moreover have "keyed ((w_db w)\<lparr>t_codeRequests := ?rows\<rparr>)"
      using assms find_request_update(2) [where f = "sent_again (clock w)" and d = "w_db w" and q = "is_request h p"] by simp
    ultimately show ?thesis using Some True
      by (intro exI [of _ ?rows]) (simp add: reserve_send_run send_result_def row_after_send_def)
  next
    case False
    then show ?thesis using Some assms
      by (intro exI [of _ "t_codeRequests (w_db w)"]) (simp add: reserve_send_run send_result_def Let_def)
  qed
qed

text \<open>Two alike worlds stay so when what concerns the other purposes is left alone.\<close>

lemma alike_change:
  assumes alike: "alike ae e w1 w2"
    and users: "t_users (w_db w1') = t_users (w_db w1)" "t_users (w_db w2') = t_users (w_db w2)"
    and keyed: "keyed (w_db w1')" "keyed (w_db w2')"
    and ids: "distinct (map ac_id (t_codes (w_db w1')))" "\<forall>c \<in> set (t_codes (w_db w1')). ac_id c < next_id w1' T_codes"
    and codes: "t_codes (w_db w2') = t_codes (w_db w2)"
    and others: "\<And>p'. p' \<noteq> p \<Longrightarrow> find_request (w_db w1') (address_hash ae e) p' = find_request (w_db w1) (address_hash ae e) p'
        \<and> find_request (w_db w2') (address_hash ae e) p' = find_request (w_db w2) (address_hash ae e) p'
        \<and> filter (open_code (address_hash ae e) p') (t_codes (w_db w1')) = filter (open_code (address_hash ae e) p') (t_codes (w_db w1))"
    and here: "sends_of (find_request (w_db w1') (address_hash ae e) p) = sends_of (find_request (w_db w2') (address_hash ae e) p)"
      "tries_agree ae e p (w_db w1') (w_db w2')"
  shows "alike ae e w1' w2'"
proof -
  have ue: "user_by_email ae (w_db w1') x = user_by_email ae (w_db w1) x" "user_by_email ae (w_db w2') x = user_by_email ae (w_db w2) x" for x
    using users by (simp_all add: user_by_email_def)
  have "sends_of (find_request (w_db w1') (address_hash ae e) p') = sends_of (find_request (w_db w2') (address_hash ae e) p')
      \<and> tries_agree ae e p' (w_db w1') (w_db w2')" for p'
  proof (cases "p' = p")
    case False
    note same = others [OF False]
    have "only_code (address_hash ae e) p' c (w_db w1') = only_code (address_hash ae e) p' c (w_db w1)" for c
      using same ids(1) alike by (simp add: only_code_def alike_def Let_def)
    moreover have "gets_codes ae e p' (w_db w1') = gets_codes ae e p' (w_db w1)" by (simp add: gets_codes_def ue)
    ultimately have "tries_agree ae e p' (w_db w1') (w_db w2') = tries_agree ae e p' (w_db w1) (w_db w2)"
      using same by (simp add: tries_agree_def Let_def)
    then show ?thesis using same alike by (simp add: alike_def Let_def)
  qed (use here in simp)
  then show ?thesis using alike keyed ids codes by (simp add: alike_def Let_def ue)
qed

text \<open>Asking: the shape the two routes share. \<open>rcp\<close> picks who is mailed.\<close>

definition ask_for :: "auth_env \<Rightarrow> string \<Rightarrow> code_purpose \<Rightarrow> (user option \<Rightarrow> user option) \<Rightarrow> (user option \<Rightarrow> code_purpose) \<Rightarrow> client \<Rightarrow> nat \<Rightarrow> int act" where
  "ask_for ae e p rcp kind ctx draw =
     bnd (reserve_or_throw (address_hash ae e) p) (\<lambda>due.
     bnd (find_user_by_email ae (normalize_email ae e)) (\<lambda>u0.
     andthen (deliver_code ae (address_hash ae e) p (rcp u0) (kind u0) ctx draw) (ret due)))"

lemma deliver_nobody [simp]: "deliver_code ae h p None kind ctx draw w = (Inr (), w)"
  by (simp add: deliver_code_def issue_def Let_def run_simps)

lemma deliver_somebody:
  "\<exists>w'. deliver_code ae h p (Some u) kind ctx draw w = (Inr (), w')
    \<and> t_users (w_db w') = t_users (w_db w) \<and> t_codeRequests (w_db w') = t_codeRequests (w_db w) \<and> clock w' = clock w
    \<and> t_codes (w_db w') = filter (\<lambda>x. \<not> is_code_for h p x) (t_codes (w_db w))
        @ [new_code (next_id w T_codes) (u_id u) h p (hash_code ae h p (generate_code draw)) (clock w)]
    \<and> next_id w' T_codes = Suc (next_id w T_codes)"
  by (simp add: deliver_code_def issue_def Let_def run_simps record_security_def replace_code_def new_code_def)

lemma ask_result:
  fixes p :: code_purpose
  assumes "keyed (w_db w)" and "normalize_email ae e \<noteq> []"
  defines "r \<equiv> send_result (clock w) (find_request (w_db w) (address_hash ae e) p)"
  shows "\<exists>rows. keyed ((w_db w)\<lparr>t_codeRequests := rows\<rparr>) \<and> (case r of
      Send_refused due secs \<Rightarrow> ask_for ae e p rcp kind ctx draw w = (Inl (TooMany_auth (Code_send_limited due secs)), w)
    | Send_allowed due \<Rightarrow>
        (\<forall>h' p'. find_request ((w_db w)\<lparr>t_codeRequests := rows\<rparr>) h' p' = (if h' = address_hash ae e \<and> p' = p
           then Some (row_after_send (address_hash ae e) p (clock w) (find_request (w_db w) (address_hash ae e) p)) else find_request (w_db w) h' p'))
        \<and> ask_for ae e p rcp kind ctx draw w = (Inr due, snd (deliver_code ae (address_hash ae e) p
            (rcp (user_by_email ae (w_db w) (normalize_email ae e))) (kind (user_by_email ae (w_db w) (normalize_email ae e)))
            ctx draw (w\<lparr>w_db := (w_db w)\<lparr>t_codeRequests := rows\<rparr>\<rparr>))))"
proof -
  obtain rows where rows: "reserve_send (address_hash ae e) p w = (Inr r, w\<lparr>w_db := (w_db w)\<lparr>t_codeRequests := rows\<rparr>\<rparr>)"
      "keyed ((w_db w)\<lparr>t_codeRequests := rows\<rparr>)"
      "case r of Send_refused due secs \<Rightarrow> rows = t_codeRequests (w_db w) | Send_allowed due \<Rightarrow>
         \<forall>h' p'. find_request ((w_db w)\<lparr>t_codeRequests := rows\<rparr>) h' p' = (if h' = address_hash ae e \<and> p' = p
           then Some (row_after_send (address_hash ae e) p (clock w) (find_request (w_db w) (address_hash ae e) p)) else find_request (w_db w) h' p')"
    using reserve_send_result [OF assms(1)] unfolding r_def by blast
  show ?thesis
  proof (cases r)
    case (Send_refused due secs)
    then show ?thesis using rows by (intro exI [of _ rows]) (simp add: ask_for_def reserve_or_throw_def bnd_def throw_def)
  next
    case (Send_allowed due)
    let ?w = "w\<lparr>w_db := (w_db w)\<lparr>t_codeRequests := rows\<rparr>\<rparr>" and ?u = "user_by_email ae (w_db w) (normalize_email ae e)"
    have u: "user_by_email ae ((w_db w)\<lparr>t_codeRequests := rows\<rparr>) x = user_by_email ae (w_db w) x" for x by (simp add: user_by_email_def)
    obtain w' where d: "deliver_code ae (address_hash ae e) p (rcp ?u) (kind ?u) ctx draw ?w = (Inr (), w')"
      using deliver_somebody by (cases "rcp ?u") fastforce+
    show ?thesis using rows Send_allowed d assms(2)
      by (intro exI [of _ rows]) (simp add: ask_for_def reserve_or_throw_def bnd_def ret_def andthen_def find_user_by_email_def guard_def asks_def u)
  qed
qed

lemma alike_ask:
  assumes alike: "alike ae e w1 w2" and clocks: "clock w1 = clock w2" and address: "normalize_email ae e \<noteq> []"
    and nobody: "rcp None = None"
    and somebody: "\<And>u. user_by_email ae (w_db w1) (normalize_email ae e) = Some u \<Longrightarrow> rcp (Some u) = (if gets_codes ae e p (w_db w1) then Some u else None)"
  shows "\<exists>r w1' w2'. ask_for ae e p rcp kind ctx draw w1 = (r, w1') \<and> ask_for ae e p rcp kind ctx draw w2 = (r, w2') \<and> alike ae e w1' w2'"
proof -
  let ?h = "address_hash ae e" and ?now = "clock w1"
  let ?r1 = "find_request (w_db w1) ?h p" and ?r2 = "find_request (w_db w2) ?h p"
  let ?a1 = "row_after_send ?h p ?now ?r1" and ?a2 = "row_after_send ?h p ?now ?r2"
  note A = alike [unfolded alike_def Let_def]
  have sends: "sends_of ?r1 = sends_of ?r2" using A by blast
  have none: "user_by_email ae (w_db w2) (normalize_email ae e) = None" using A by blast
  have k: "keyed (w_db w1)" "keyed (w_db w2)" using A by blast+
  obtain rows1 where rows1: "keyed ((w_db w1)\<lparr>t_codeRequests := rows1\<rparr>)"
      "case send_result ?now ?r1 of Send_refused due secs \<Rightarrow> ask_for ae e p rcp kind ctx draw w1 = (Inl (TooMany_auth (Code_send_limited due secs)), w1)
       | Send_allowed due \<Rightarrow>
          (\<forall>h' p'. find_request ((w_db w1)\<lparr>t_codeRequests := rows1\<rparr>) h' p' = (if h' = ?h \<and> p' = p then Some ?a1 else find_request (w_db w1) h' p'))
          \<and> ask_for ae e p rcp kind ctx draw w1 = (Inr due, snd (deliver_code ae ?h p (rcp (user_by_email ae (w_db w1) (normalize_email ae e)))
              (kind (user_by_email ae (w_db w1) (normalize_email ae e))) ctx draw (w1\<lparr>w_db := (w_db w1)\<lparr>t_codeRequests := rows1\<rparr>\<rparr>)))"
    using ask_result [OF k(1) address, of p rcp kind ctx draw] by blast
  obtain rows2 where rows2: "keyed ((w_db w2)\<lparr>t_codeRequests := rows2\<rparr>)"
      "case send_result ?now ?r2 of Send_refused due secs \<Rightarrow> ask_for ae e p rcp kind ctx draw w2 = (Inl (TooMany_auth (Code_send_limited due secs)), w2)
       | Send_allowed due \<Rightarrow>
          (\<forall>h' p'. find_request ((w_db w2)\<lparr>t_codeRequests := rows2\<rparr>) h' p' = (if h' = ?h \<and> p' = p then Some ?a2 else find_request (w_db w2) h' p'))
          \<and> ask_for ae e p rcp kind ctx draw w2 = (Inr due, w2\<lparr>w_db := (w_db w2)\<lparr>t_codeRequests := rows2\<rparr>\<rparr>)"
    using ask_result [OF k(2) address, of p rcp kind ctx draw] unfolding none nobody deliver_nobody snd_conv clocks [symmetric] by blast
  show ?thesis
  proof (cases "send_result ?now ?r1")
    case (Send_refused due secs)
    then show ?thesis using rows1(2) rows2(2) send_result_cong [OF sends, of ?now] alike by auto
  next
    case (Send_allowed due)
    let ?w1 = "w1\<lparr>w_db := (w_db w1)\<lparr>t_codeRequests := rows1\<rparr>\<rparr>" and ?w2 = "w2\<lparr>w_db := (w_db w2)\<lparr>t_codeRequests := rows2\<rparr>\<rparr>"
    have f1: "find_request (w_db ?w1) h' p' = (if h' = ?h \<and> p' = p then Some ?a1 else find_request (w_db w1) h' p')" for h' p'
      using rows1(2) Send_allowed by simp
    have f2: "find_request (w_db ?w2) h' p' = (if h' = ?h \<and> p' = p then Some ?a2 else find_request (w_db w2) h' p')" for h' p'
      using rows2(2) Send_allowed send_result_cong [OF sends, of ?now] by simp
    have after: "sends_of (Some ?a1) = sends_of (Some ?a2)" by (rule sends_after_cong [OF sends])
    show ?thesis
    proof (cases "gets_codes ae e p (w_db w1)")
      case True
      then obtain u where u: "user_by_email ae (w_db w1) (normalize_email ae e) = Some u"
        by (auto simp: gets_codes_def split: option.splits)
      obtain w1' where d: "deliver_code ae ?h p (Some u) (kind (Some u)) ctx draw ?w1 = (Inr (), w1')"
          "t_users (w_db w1') = t_users (w_db w1)" "t_codeRequests (w_db w1') = rows1" "clock w1' = clock w1"
          "t_codes (w_db w1') = filter (\<lambda>x. \<not> is_code_for ?h p x) (t_codes (w_db w1))
            @ [new_code (next_id w1 T_codes) (u_id u) ?h p (hash_code ae ?h p (generate_code draw)) (clock w1)]"
          "next_id w1' T_codes = Suc (next_id w1 T_codes)"
        using deliver_somebody [of ae ?h p u "kind (Some u)" ctx draw ?w1] by auto
      let ?n = "new_code (next_id w1 T_codes) (u_id u) ?h p (hash_code ae ?h p (generate_code draw)) (clock w1)"
      have fr: "find_request (w_db w1') h' p' = find_request (w_db ?w1) h' p'" for h' p' using d(3) by (simp add: find_request_def)
      have nopen: "open_code ?h p' ?n \<longleftrightarrow> p' = p" for p' by (auto simp: open_code_def is_code_for_def new_code_def)
      have nid: "ac_id ?n = next_id w1 T_codes" "ac_expiresAt ?n = ?now + AUTH_CODE_TTL_MS" "ac_attempts ?n = 0" by (simp_all add: new_code_def)
      have gone: "filter (open_code ?h p) (filter (\<lambda>x. \<not> is_code_for ?h p x) xs) = []" for xs by (auto simp: open_code_def filter_empty_conv)
      have stay: "filter (open_code ?h p') (filter (\<lambda>x. \<not> is_code_for ?h p x) xs) = filter (open_code ?h p') xs" if "p' \<noteq> p" for xs p'
        using that by (auto simp: open_code_def is_code_for_def intro!: filter_cong)
      have fresh: "next_id w1 T_codes \<notin> ac_id ` set (t_codes (w_db w1))" using A by fastforce
      have ids: "distinct (map ac_id (t_codes (w_db w1')))" "\<forall>c \<in> set (t_codes (w_db w1')). ac_id c < next_id w1' T_codes"
        using A fresh nid by (auto simp: d(5,6) distinct_map_filter less_Suc_eq)
      have "alike ae e w1' ?w2"
      proof (rule alike_change [OF alike, where p = p])
        show "tries_agree ae e p (w_db w1') (w_db ?w2)"
          unfolding tries_agree_def Let_def
        proof (rule disjI1, intro exI conjI)
          show "only_code ?h p ?n (w_db w1')" unfolding only_code_def d(5) using ids(1) gone nopen by (simp add: d(5))
          show "find_request (w_db ?w2) ?h p = Some ?a2" using f2 by simp
          show "gets_codes ae e p (w_db w1')" using True d(2) by (simp add: gets_codes_def user_by_email_def)
        qed (use nid in simp_all)
        show "find_request (w_db w1') ?h p' = find_request (w_db w1) ?h p'
            \<and> find_request (w_db ?w2) ?h p' = find_request (w_db w2) ?h p'
            \<and> filter (open_code ?h p') (t_codes (w_db w1')) = filter (open_code ?h p') (t_codes (w_db w1))" if "p' \<noteq> p" for p'
          using that f1 f2 fr nopen stay [OF that] by (simp add: d(5))
        show "sends_of (find_request (w_db w1') ?h p) = sends_of (find_request (w_db ?w2) ?h p)" using after f1 f2 fr by simp
        show "keyed (w_db w1')" using rows1(1) d(3) by (simp add: keyed_def)
      qed (use d ids rows2(1) in simp_all)
      then show ?thesis using rows1(2) rows2(2) Send_allowed send_result_cong [OF sends, of ?now] d(1) somebody [OF u] True u by auto
    next
      case False
      have rcp: "rcp (user_by_email ae (w_db w1) (normalize_email ae e)) = None"
        using False nobody somebody by (cases "user_by_email ae (w_db w1) (normalize_email ae e)") auto
      have "filter (open_code ?h p) (t_codes (w_db w1)) = []" using A False unfolding tries_agree_def Let_def by metis
      then have "alike ae e ?w1 ?w2"
        using A rows1(1) rows2(1) after f1 f2 by (intro alike_change [OF alike, where p = p]) (auto simp: tries_agree_def Let_def)
      then show ?thesis using rows1(2) rows2(2) Send_allowed send_result_cong [OF sends, of ?now] rcp by auto
    qed
  qed
qed

subsection \<open>A wrong guess\<close>

definition counts_now :: "int \<Rightarrow> code_request \<Rightarrow> bool" where
  "counts_now now r \<longleftrightarrow> cr_lastSent r > now - AUTH_CODE_TTL_MS"

definition bumped :: "int \<Rightarrow> code_request \<Rightarrow> code_request" where
  "bumped now r = (if counts_now now r then r\<lparr>cr_failed := min (cr_failed r + 1) 32000\<rparr> else r)"

definition refusal :: "int \<Rightarrow> code_request option \<Rightarrow> refused_as" where
  "refusal now r0 = (case r0 of None \<Rightarrow> Ck_invalid
     | Some r \<Rightarrow> if counts_now now r \<and> cr_failed (bumped now r) \<ge> AUTH_CODE_MAX_ATTEMPTS then Ck_locked else Ck_invalid)"

lemma failed_check_result:
  assumes keyed: "keyed (w_db w)"
  shows "\<exists>rows. count_failed_check_without_code h p (clock w) w
      = (Inr (Check_failed (refusal (clock w) (find_request (w_db w) h p)) None False), w\<lparr>w_db := (w_db w)\<lparr>t_codeRequests := rows\<rparr>\<rparr>)
    \<and> keyed ((w_db w)\<lparr>t_codeRequests := rows\<rparr>)
    \<and> (\<forall>h' p'. find_request ((w_db w)\<lparr>t_codeRequests := rows\<rparr>) h' p'
         = (if h' = h \<and> p' = p then map_option (bumped (clock w)) (find_request (w_db w) h p) else find_request (w_db w) h' p'))"
proof -
  let ?f = "\<lambda>r. r\<lparr>cr_failed := min (cr_failed r + 1) 32000\<rparr>" and ?q = "counts_checks h p (clock w)"
  let ?rows = "update_where ?q ?f (t_codeRequests (w_db w))"
  let ?d = "(w_db w)\<lparr>t_codeRequests := ?rows\<rparr>"
  have key: "request_key (?f r) = request_key r" for r by (simp add: request_key_def)
  have found: "find_request ?d h' p' = map_option (\<lambda>r. if ?q r then ?f r else r) (find_request (w_db w) h' p')" for h' p'
    by (rule find_request_update(1) [OF key])
  have keyed': "keyed ?d" using keyed find_request_update(2) [where f = ?f and d = "w_db w" and q = ?q] key by simp
  have view: "find_request ?d h' p' = (if h' = h \<and> p' = p then map_option (bumped (clock w)) (find_request (w_db w) h p) else find_request (w_db w) h' p')" for h' p'
  proof (cases "find_request (w_db w) h' p'")
    case (Some r)
    then have "is_request h' p' r" using find_requestE by blast
    then show ?thesis using found [of h' p'] Some
      by (auto simp: counts_checks_def is_request_def bumped_def counts_now_def)
  qed (use found [of h' p'] in auto)
  have "find ?q ?rows = (case find_request ?d h p of None \<Rightarrow> None | Some r \<Rightarrow> if counts_now (clock w) r then Some r else None)"
    unfolding counts_now_def using find_counts [OF keyed', of h p "clock w"] by simp
  then have "(case find ?q ?rows of Some r \<Rightarrow> if cr_failed r \<ge> AUTH_CODE_MAX_ATTEMPTS then Ck_locked else Ck_invalid | None \<Rightarrow> Ck_invalid)
      = refusal (clock w) (find_request (w_db w) h p)"
    using view [of h p] by (cases "find_request (w_db w) h p") (auto simp: refusal_def bumped_def counts_now_def)
  then show ?thesis using keyed' view by (intro exI [of _ ?rows]) (simp add: failed_check_run Let_def)
qed

lemma sends_of_bumped [simp]: "sends_of (map_option (bumped now) r) = sends_of r"
  by (cases r) (auto simp: sends_of_def bumped_def)

lemma verify_none: "live_code (w_db w) h p (clock w) = None \<Longrightarrow>
    verify_code_of ae h p code consume w = count_failed_check_without_code h p (clock w) w"
  by (simp add: verify_code_of_def finish_check_def run_simps bnd_def asks_def)

lemma alike_counted:
  assumes alike: "alike ae e w1 w2"
    and w1': "keyed (w_db w1')" "t_users (w_db w1') = t_users (w_db w1)" "next_id w1' = next_id w1"
      "\<And>h' p'. h' \<noteq> address_hash ae e \<or> p' \<noteq> p \<Longrightarrow> find_request (w_db w1') h' p' = find_request (w_db w1) h' p'"
      "t_codes (w_db w1') = t_codes (w_db w1)"
      "sends_of (find_request (w_db w1') (address_hash ae e) p) = sends_of (find_request (w_db w1) (address_hash ae e) p)"
    and w2': "keyed (w_db w2')" "t_users (w_db w2') = t_users (w_db w2)" "t_codes (w_db w2') = t_codes (w_db w2)"
      "\<And>h' p'. find_request (w_db w2') h' p'
        = (if h' = address_hash ae e \<and> p' = p then map_option (bumped now) (find_request (w_db w2) (address_hash ae e) p) else find_request (w_db w2) h' p')"
    and tries: "tries_agree ae e p (w_db w1') (w_db w2')"
  shows "alike ae e w1' w2'"
proof (rule alike_change [OF alike, where p = p])
  note A = alike [unfolded alike_def Let_def]
  show "distinct (map ac_id (t_codes (w_db w1')))" "\<forall>c \<in> set (t_codes (w_db w1')). ac_id c < next_id w1' T_codes"
    using A w1'(3,5) by simp_all
  show "sends_of (find_request (w_db w1') (address_hash ae e) p) = sends_of (find_request (w_db w2') (address_hash ae e) p)"
    using A w1'(6) w2'(4) by simp
qed (use w1' w2' tries in auto)

lemma alike_check:
  assumes alike: "alike ae e w1 w2" and clocks: "clock w1 = clock w2"
    and wrong: "\<And>c. c \<in> set (t_codes (w_db w1)) \<Longrightarrow> open_code (address_hash ae e) p c \<Longrightarrow>
      \<not> digests_match (ac_codeHash c) (hash_code ae (address_hash ae e) p code)"
  shows "\<exists>why uid j w1' w2'. verify_code_of ae (address_hash ae e) p code consume w1 = (Inr (Check_failed why uid j), w1')
    \<and> verify_code_of ae (address_hash ae e) p code consume w2 = (Inr (Check_failed why None False), w2') \<and> alike ae e w1' w2'"
proof -
  let ?h = "address_hash ae e" and ?now = "clock w1"
  let ?r1 = "find_request (w_db w1) ?h p" and ?r2 = "find_request (w_db w2) ?h p"
  note A = alike [unfolded alike_def Let_def]
  have k: "keyed (w_db w1)" "keyed (w_db w2)" using A by blast+
  have sends: "sends_of ?r1 = sends_of ?r2" using A by blast
  have "live_code (w_db w2) ?h p (clock w2) = None" using A by (intro live_code_none) blast
  note v2 = verify_none [OF this, of ae code consume]
  obtain rows2 where f2: "count_failed_check_without_code ?h p (clock w2) w2
      = (Inr (Check_failed (refusal ?now ?r2) None False), w2\<lparr>w_db := (w_db w2)\<lparr>t_codeRequests := rows2\<rparr>\<rparr>)"
      "keyed ((w_db w2)\<lparr>t_codeRequests := rows2\<rparr>)"
      "\<And>h' p'. find_request ((w_db w2)\<lparr>t_codeRequests := rows2\<rparr>) h' p'
         = (if h' = ?h \<and> p' = p then map_option (bumped ?now) ?r2 else find_request (w_db w2) h' p')"
    using failed_check_result [OF k(2), of ?h p] clocks by auto
  let ?w2 = "w2\<lparr>w_db := (w_db w2)\<lparr>t_codeRequests := rows2\<rparr>\<rparr>"
  have w2: "verify_code_of ae ?h p code consume w2 = (Inr (Check_failed (refusal ?now ?r2) None False), ?w2)" using v2 f2 by simp
  have uncounted: "\<exists>w1'. verify_code_of ae ?h p code consume w1 = (Inr (Check_failed (refusal ?now ?r1) None False), w1')
      \<and> (refusal ?now ?r1 = refusal ?now ?r2 \<and> (tries_agree ae e p (w_db w1') (w_db ?w2) \<longrightarrow> alike ae e w1' ?w2))
      \<and> t_users (w_db w1') = t_users (w_db w1) \<and> t_codes (w_db w1') = t_codes (w_db w1)
      \<and> find_request (w_db w1') ?h p = map_option (bumped ?now) ?r1"
    if dead: "live_code (w_db w1) ?h p ?now = None" and same: "refusal ?now ?r1 = refusal ?now ?r2"
  proof -
    obtain rows1 where f1: "count_failed_check_without_code ?h p ?now w1
        = (Inr (Check_failed (refusal ?now ?r1) None False), w1\<lparr>w_db := (w_db w1)\<lparr>t_codeRequests := rows1\<rparr>\<rparr>)"
        "keyed ((w_db w1)\<lparr>t_codeRequests := rows1\<rparr>)"
        "\<And>h' p'. find_request ((w_db w1)\<lparr>t_codeRequests := rows1\<rparr>) h' p'
           = (if h' = ?h \<and> p' = p then map_option (bumped ?now) ?r1 else find_request (w_db w1) h' p')"
      using failed_check_result [OF k(1), of ?h p] by auto
    let ?w1 = "w1\<lparr>w_db := (w_db w1)\<lparr>t_codeRequests := rows1\<rparr>\<rparr>"
    have "alike ae e ?w1 ?w2" if "tries_agree ae e p (w_db ?w1) (w_db ?w2)"
      using that f1(2,3) f2(2,3) by (intro alike_counted [OF alike, where p = p and now = ?now]) auto
    then show ?thesis using verify_none [OF dead, of ae code consume] f1 same by (intro exI [of _ ?w1]) auto
  qed
  have "tries_agree ae e p (w_db w1) (w_db w2)" using A by blast
  then consider (code) c r where "only_code ?h p c (w_db w1)" "?r2 = Some r" "gets_codes ae e p (w_db w1)"
      "ac_expiresAt c = cr_lastSent r + AUTH_CODE_TTL_MS"
      "min AUTH_CODE_MAX_ATTEMPTS (ac_attempts c) = min AUTH_CODE_MAX_ATTEMPTS (cr_failed r)"
    | (none) "filter (open_code ?h p) (t_codes (w_db w1)) = []" "map_option cr_failed ?r1 = map_option cr_failed ?r2"
    unfolding tries_agree_def Let_def by blast
  then show ?thesis
  proof cases
    case none
    have same: "refusal ?now ?r1 = refusal ?now ?r2" using none(2) sends
      by (cases ?r1; cases ?r2) (auto simp: refusal_def bumped_def counts_now_def sends_of_def)
    have "map_option cr_failed (map_option (bumped ?now) ?r1) = map_option cr_failed (map_option (bumped ?now) ?r2)" using none(2) sends
      by (cases ?r1; cases ?r2) (auto simp: bumped_def counts_now_def sends_of_def)
    then show ?thesis using uncounted [OF live_code_none [OF none(1)] same] none(1) f2(3) [of ?h p] w2 same
      by (auto simp: tries_agree_def Let_def)
  next
    case code
    show ?thesis
    proof (cases "?now < ac_expiresAt c")
      case False
      obtain r1 where r1: "?r1 = Some r1" "cr_lastSent r1 = cr_lastSent r" using sends code(2) by (cases ?r1) (auto simp: sends_of_def)
      have idle: "\<not> counts_now ?now r" "\<not> counts_now ?now r1" using False code(4) r1 by (auto simp: counts_now_def)
      have same: "refusal ?now ?r1 = refusal ?now ?r2" using idle r1 code(2) by (simp add: refusal_def)
      have dead: "live_code (w_db w1) ?h p ?now = None" using code(1) False live_code_only by (simp add: only_code_def)
      obtain w1' where w1': "verify_code_of ae ?h p code consume w1 = (Inr (Check_failed (refusal ?now ?r1) None False), w1')"
          "tries_agree ae e p (w_db w1') (w_db ?w2) \<longrightarrow> alike ae e w1' ?w2"
          "t_users (w_db w1') = t_users (w_db w1)" "t_codes (w_db w1') = t_codes (w_db w1)"
        using uncounted [OF dead same] by blast
      have "tries_agree ae e p (w_db w1') (w_db ?w2)"
        unfolding tries_agree_def Let_def
        using code w1'(3,4) f2(3) [of ?h p] idle
        by (intro disjI1 exI [of _ c] exI [of _ r]) (simp add: only_code_def gets_codes_def user_by_email_def bumped_def)
      then show ?thesis using w1' w2 same by auto
    next
      case True
      have counts: "counts_now ?now r" using True code(4) by (simp add: counts_now_def)
      let ?r' = "bumped ?now r"
      have r': "cr_lastSent ?r' = cr_lastSent r" "cr_failed ?r' = min (cr_failed r + 1) 32000" using counts by (simp_all add: bumped_def)
      have fr2: "find_request (w_db ?w2) ?h p = Some ?r'" using f2(3) [of ?h p] code(2) by simp
      show ?thesis
      proof (cases "ac_attempts c < AUTH_CODE_MAX_ATTEMPTS")
        case True': True
        have eq: "cr_failed r = ac_attempts c" using code(5) True' by (simp add: min_def split: if_splits)
        have c: "c \<in> set (t_codes (w_db w1))" "open_code ?h p c" using only_codeD [OF code(1)] by auto
        note run = wrong_check_run [OF code(1) True True' wrong [OF c], of consume]
        let ?w1 = "w1\<lparr>w_db := tried (ac_id c) (w_db w1)\<rparr>"
        have only': "only_code ?h p (one_more_try c) (w_db ?w1)" using tried_only(1) [OF code(1)] by simp
        have t: "t_users (tried k d) = t_users d" "t_codeRequests (tried k d) = t_codeRequests d"
          "map ac_id (t_codes (tried k d)) = map ac_id (t_codes d)" for k d
          by (auto simp: tried_def update_codes_def update_where_def comp_def)
        have ids: "\<forall>x \<in> set (t_codes (w_db ?w1)). ac_id x < next_id w1 T_codes"
        proof -
          have eq: "ac_id ` set (t_codes (w_db ?w1)) = ac_id ` set (t_codes (w_db w1))" using arg_cong [OF t(3), of set] by simp
          have "\<forall>k \<in> ac_id ` set (t_codes (w_db ?w1)). k < next_id w1 T_codes" unfolding eq using A by blast
          then show ?thesis by blast
        qed
        have other: "filter (open_code ?h p') (t_codes (w_db ?w1)) = filter (open_code ?h p') (t_codes (w_db w1))" if "p' \<noteq> p" for p'
        proof -
          let ?g = "\<lambda>x. if ac_id x = ac_id c \<and> ac_consumedAt x = None then one_more_try x else x"
          have g: "(\<lambda>x. open_code ?h p' (?g x)) = open_code ?h p'" by (auto simp: fun_eq_iff)
          have "ac_id x \<noteq> ac_id c" if x: "x \<in> set (filter (open_code ?h p') (t_codes (w_db w1)))" for x
          proof
            assume "ac_id x = ac_id c"
            then have "x = c" using x c code(1) by (auto simp: only_code_def distinct_map inj_on_def)
            then show False using x c \<open>p' \<noteq> p\<close> by (simp add: open_code_def is_code_for_def)
          qed
          then have "map ?g (filter (open_code ?h p') (t_codes (w_db w1))) = filter (open_code ?h p') (t_codes (w_db w1))"
            by (intro map_idI) auto
          moreover have "t_codes (w_db ?w1) = map ?g (t_codes (w_db w1))"
            by (simp add: tried_def update_codes_def update_where_def one_more_try_def)
          ultimately show ?thesis by (simp only: filter_map comp_def g)
        qed
        have "tries_agree ae e p (w_db ?w1) (w_db ?w2)"
          unfolding tries_agree_def Let_def
          using only' fr2 code r' eq True'
          by (intro disjI1 exI [of _ "one_more_try c"] exI [of _ ?r']) (auto simp: gets_codes_def user_by_email_def t code_consts)
        then have "alike ae e ?w1 ?w2"
          using A code(1) f2 other ids by (intro alike_change [OF alike, where p = p]) (auto simp: t find_request_def only_code_def keyed_def)
        moreover have "(if Suc (ac_attempts c) \<ge> AUTH_CODE_MAX_ATTEMPTS then Ck_locked else Ck_invalid) = refusal ?now ?r2"
          using code(2) counts r' eq by (simp add: refusal_def code_consts)
        ultimately show ?thesis using run w2 by (auto split: if_splits)
      next
        case False
        then have "ac_attempts c \<ge> AUTH_CODE_MAX_ATTEMPTS" by simp
        note run = locked_check_run [OF code(1) True this, of ae code consume]
        have many: "cr_failed r \<ge> AUTH_CODE_MAX_ATTEMPTS" using code(5) False by (simp add: min_def split: if_splits)
        have "tries_agree ae e p (w_db w1) (w_db ?w2)"
          unfolding tries_agree_def Let_def
          using fr2 code r' many False by (intro disjI1 exI [of _ c] exI [of _ ?r']) (auto simp: code_consts)
        then have "alike ae e w1 ?w2" using f2 k sends code(2) r'
          by (intro alike_counted [OF alike, where p = p and now = ?now]) auto
        moreover have "refusal ?now ?r2 = Ck_locked" using code(2) counts r' many by (simp add: refusal_def code_consts)
        ultimately show ?thesis using run w2 by auto
      qed
    qed
  qed
qed


subsection \<open>One request\<close>

lemma alike_clock [simp]: "alike ae e (w1\<lparr>clock := t\<rparr>) (w2\<lparr>clock := t'\<rparr>) = alike ae e w1 w2"
  by (simp add: alike_def)

lemma alike_noted:
  assumes "alike ae e w1 w2"
  shows "alike ae e (w1\<lparr>w_db := (w_db w1)\<lparr>t_security := rows\<rparr>\<rparr>) w2"
proof -
  let ?d = "(w_db w1)\<lparr>t_security := rows\<rparr>"
  have "find_request ?d h p = find_request (w_db w1) h p" "only_code h p c ?d = only_code h p c (w_db w1)"
      "gets_codes ae e p ?d = gets_codes ae e p (w_db w1)" "keyed ?d = keyed (w_db w1)" for h p c
    by (simp_all add: find_request_def only_code_def gets_codes_def user_by_email_def keyed_def)
  then show ?thesis using assms by (simp add: alike_def Let_def tries_agree_def)
qed

lemma request_code_asks:
  "request_code ae e p ctx draw = ask_for ae e p (\<lambda>u0. fst (code_recipient u0 p)) (\<lambda>u0. snd (code_recipient u0 p)) ctx draw"
  by (simp add: request_code_def ask_for_def address_hash_def Let_def)

lemma forgot_password_asks:
  "forgot_password_code ae e ctx draw = ask_for ae e Cp_password_reset
     (\<lambda>u0. case u0 of None \<Rightarrow> None | Some u \<Rightarrow> if u_isBanned u then None else Some u) (\<lambda>_. Cp_password_reset) ctx draw"
  by (simp add: forgot_password_code_def ask_for_def address_hash_def Let_def)

lemma note_failed_check_run: "\<exists>rows. note_failed_check p ctx uid j w = (Inr (), w\<lparr>w_db := (w_db w)\<lparr>t_security := rows\<rparr>\<rparr>)"
proof (cases uid)
  case None
  then show ?thesis by (intro exI [of _ "t_security (w_db w)"]) (simp add: note_failed_check_def run_simps)
next
  case (Some k)
  then show ?thesis by (cases j) (auto simp: note_failed_check_def record_security_def run_simps)
qed

lemma alike_consume:
  assumes "alike ae e w1 w2" "clock w1 = clock w2"
    and "\<And>c. c \<in> set (t_codes (w_db w1)) \<Longrightarrow> open_code (address_hash ae e) p c \<Longrightarrow>
      \<not> digests_match (ac_codeHash c) (hash_code ae (address_hash ae e) p code)"
  shows "\<exists>x w1' w2'. consume_or_throw ae (normalize_email ae e) p code ctx consume w1 = (Inl x, w1')
    \<and> consume_or_throw ae (normalize_email ae e) p code ctx consume w2 = (Inl x, w2') \<and> alike ae e w1' w2'"
proof -
  obtain why uid j w1' w2' where v: "verify_code_of ae (address_hash ae e) p code consume w1 = (Inr (Check_failed why uid j), w1')"
      "verify_code_of ae (address_hash ae e) p code consume w2 = (Inr (Check_failed why None False), w2')" "alike ae e w1' w2'"
    using alike_check [OF assms] by blast
  obtain rows where rows: "note_failed_check p ctx uid j w1' = (Inr (), w1'\<lparr>w_db := (w_db w1')\<lparr>t_security := rows\<rparr>\<rparr>)"
    using note_failed_check_run by blast
  have quiet: "note_failed_check p ctx None False w2' = (Inr (), w2')" by (simp add: note_failed_check_def ret_def)
  show ?thesis using v(1,2) alike_noted [OF v(3), of rows] rows quiet
    unfolding consume_or_throw_def address_hash_def [symmetric]
    by (intro exI [of _ "BadRequest_auth (if why = Ck_locked then Code_attempts_exceeded else Code_invalid)"] exI conjI)
      (auto simp: bnd_def andthen_def throw_def)
qed

lemma alike_reply:
  assumes alike: "alike ae e w1 w2" and address: "normalize_email ae e \<noteq> []"
    and ok: "admissible q" and wrong: "wrong_guess ae (address_hash ae e) (w_db w1) q"
  shows "\<exists>r w1' w2'. reply_to ae e ctx jti q (w1\<lparr>clock := t\<rparr>) = (r, w1') \<and> reply_to ae e ctx jti q (w2\<lparr>clock := t\<rparr>) = (r, w2')
    \<and> alike ae e w1' w2'"
proof -
  let ?w1 = "w1\<lparr>clock := t\<rparr>" and ?w2 = "w2\<lparr>clock := t\<rparr>"
  have start: "alike ae e ?w1 ?w2" "clock ?w1 = clock ?w2" using alike by simp_all
  note asked = alike_ask [OF start address]
  have guess: "\<exists>x w1' w2'. consume_or_throw ae (normalize_email ae e) p code ctx consume ?w1 = (Inl x, w1')
      \<and> consume_or_throw ae (normalize_email ae e) p code ctx consume ?w2 = (Inl x, w2') \<and> alike ae e w1' w2'"
    if "guess_of q = Some (p, code)" for p code consume
    using alike_consume [OF start, of p code ctx consume] wrong that by (auto simp: wrong_guess_def)
  show ?thesis
  proof (cases q)
    case (Ask_code p draw)
    have "\<exists>r w1' w2'. request_code ae e p ctx draw ?w1 = (r, w1') \<and> request_code ae e p ctx draw ?w2 = (r, w2') \<and> alike ae e w1' w2'"
      unfolding request_code_asks
    proof (rule asked)
      show "fst (code_recipient None p) = None" by (simp add: code_recipient_def)
      show "fst (code_recipient (Some u) p) = (if gets_codes ae e p (w_db ?w1) then Some u else None)"
        if "user_by_email ae (w_db ?w1) (normalize_email ae e) = Some u" for u
        using that ok Ask_code by (cases p) (auto simp: code_recipient_def gets_codes_def)
    qed
    then show ?thesis using Ask_code by (auto simp: bnd_def ret_def split: sum.splits)
  next
    case (Ask_reset draw)
    have "\<exists>r w1' w2'. forgot_password_code ae e ctx draw ?w1 = (r, w1') \<and> forgot_password_code ae e ctx draw ?w2 = (r, w2') \<and> alike ae e w1' w2'"
      unfolding forgot_password_asks by (rule asked) (auto simp: gets_codes_def)
    then show ?thesis using Ask_reset by (auto simp: bnd_def ret_def split: sum.splits)
  next
    case (Try_code p code)
    then show ?thesis using guess [of p code True] by (auto simp: sign_in_with_code_def bnd_def)
  next
    case (Try_reset_code code)
    then show ?thesis using guess [of Cp_password_reset code False] by (auto simp: check_reset_code_def bnd_def)
  next
    case (Try_reset code password salt)
    then show ?thesis using guess [of Cp_password_reset code True] by (auto simp: reset_password_code_def bnd_def)
  qed
qed

lemma alike_answers:
  "alike ae e w1 w2 \<Longrightarrow> normalize_email ae e \<noteq> [] \<Longrightarrow> all_wrong ae e ctx jti qs w1
    \<Longrightarrow> answers ae e ctx jti qs w1 = answers ae e ctx jti qs w2"
proof (induction qs arbitrary: w1 w2)
  case (Cons tq qs)
  obtain t q where tq: "tq = (t, q)" by fastforce
  have now: "admissible q" "wrong_guess ae (address_hash ae e) (w_db w1) q"
      "all_wrong ae e ctx jti qs (snd (reply_to ae e ctx jti q (w1\<lparr>clock := t\<rparr>)))" using Cons.prems(3) tq by simp_all
  obtain r w1' w2' where r: "reply_to ae e ctx jti q (w1\<lparr>clock := t\<rparr>) = (r, w1')"
      "reply_to ae e ctx jti q (w2\<lparr>clock := t\<rparr>) = (r, w2')" "alike ae e w1' w2'"
    using alike_reply [OF Cons.prems(1,2) now(1,2)] by blast
  have "all_wrong ae e ctx jti qs w1'" using now(3) unfolding r(1) snd_conv .
  then have "answers ae e ctx jti qs w1' = answers ae e ctx jti qs w2'" by (rule Cons.IH [OF r(3) Cons.prems(2)])
  then show ?case by (simp only: tq answers.simps r(1,2) prod.case)
qed simp

subsection \<open>No account fishing\<close>

text \<open>Nobody asked about the address yet, and the two tables of codes are as the database's constraints keep them.\<close>

definition unasked :: "auth_env \<Rightarrow> string \<Rightarrow> world \<Rightarrow> bool" where
  "unasked ae e w \<longleftrightarrow> (let h = address_hash ae e; d = w_db w in
     keyed d \<and> distinct (map ac_id (t_codes d)) \<and> (\<forall>c \<in> set (t_codes d). ac_id c < next_id w T_codes)
     \<and> (\<forall>r \<in> set (t_codeRequests d). cr_emailHash r \<noteq> h) \<and> (\<forall>c \<in> set (t_codes d). ac_emailHash c \<noteq> h))"

lemma unasked_alike:
  assumes "unasked ae e w1" "unasked ae e w2" "user_by_email ae (w_db w2) (normalize_email ae e) = None"
  shows "alike ae e w1 w2"
proof -
  have none: "find_request (w_db w) (address_hash ae e) p = None" "filter (open_code (address_hash ae e) p) (t_codes (w_db w)) = []"
    if "unasked ae e w" for w p
    using that by (auto simp: unasked_def Let_def find_request_None is_request_def open_code_def is_code_for_def filter_empty_conv)
  show ?thesis using assms none [OF assms(1)] none [OF assms(2)] by (auto simp: alike_def unasked_def Let_def tries_agree_def)
qed

text \<open>C5. No account fishing: whatever somebody asks and guesses about an address, and whenever, the answers with an
  account behind the address and without one are the same, the waits, the limits and the point at which the guesses
  are locked out included, as long as no guess is the code that was mailed.\<close>

theorem code_flows_hide_accounts:
  assumes "unasked ae e w1" and "unasked ae e w2"
    and "user_by_email ae (w_db w2) (normalize_email ae e) = None"
    and "normalize_email ae e \<noteq> []" and "all_wrong ae e ctx jti probes w1"
  shows "answers ae e ctx jti probes w1 = answers ae e ctx jti probes w2"
  using alike_answers [OF unasked_alike [OF assms(1-3)] assms(4,5)] .

end
