(* ===== verification/SessionRules.thy ===== *)
theory SessionRules
  imports Sessions
begin

text \<open>
  What refresh tokens, password sign-in and password changes guarantee, and what overlapping requests can do to them.
\<close>

section \<open>Refresh tokens\<close>

text \<open>
  What happened to tokens, newest first. A token \<open>stands\<close> when it was issued and, since, neither redeemed nor revoked.
\<close>

datatype token_event = Issued user_token | Redeemed user_token nat int | Revoked_value string
  | Revoked_kind nat token_type | Expired_before int

fun stands :: "token_event list \<Rightarrow> user_token \<Rightarrow> bool" where
  "stands [] t = False"
| "stands (Issued t' # l) t = (t' = t \<or> stands l t)"
| "stands (Redeemed t' _ _ # l) t = (tk_id t' \<noteq> tk_id t \<and> stands l t)"
| "stands (Revoked_value v # l) t = (tk_token t \<noteq> v \<and> stands l t)"
| "stands (Revoked_kind u ty # l) t = (\<not> (tk_userId t = u \<and> tk_type t = ty) \<and> stands l t)"
| "stands (Expired_before now # l) t = (\<not> tk_expiresAt t < now \<and> stands l t)"

text \<open>A redemption is sound when the token still stood, is a refresh token, went to its owner and had not expired.\<close>

fun sound_redeems :: "token_event list \<Rightarrow> bool" where
  "sound_redeems [] = True"
| "sound_redeems (Redeemed t u now # l) = (stands l t \<and> tk_type t = Tok_REFRESH \<and> u = tk_userId t \<and> now \<le> tk_expiresAt t \<and> sound_redeems l)"
| "sound_redeems (_ # l) = sound_redeems l"

record token_desk =
  td_world :: world
  td_reading :: "(string \<times> user_token \<times> user option) set"
  td_log :: "token_event list"

definition issued_now :: "world \<Rightarrow> nat \<Rightarrow> token_type \<Rightarrow> string \<Rightarrow> int \<Rightarrow> user_token" where
  "issued_now w uid ty value expires = \<lparr>tk_id = next_id w T_tokens, tk_userId = uid, tk_type = ty, tk_token = value,
     tk_expiresAt = expires, tk_createdAt = clock w\<rparr>"

text \<open>
  One statement at a time, of any number of requests: the lookup of a refresh token and its redemption belong to the same
  request, but other statements may come between.
\<close>

inductive token_step :: "auth_env \<Rightarrow> token_desk \<Rightarrow> token_desk \<Rightarrow> bool" for ae where
  token_later: "clock (td_world s) \<le> t \<Longrightarrow> token_step ae s (s\<lparr>td_world := (td_world s)\<lparr>clock := t\<rparr>\<rparr>)"
| token_issued: "save_token uid ty value expires (td_world s) = (Inr t, w') \<Longrightarrow>
    token_step ae s (s\<lparr>td_world := w', td_log := Issued t # td_log s\<rparr>)"
| token_read: "read_refresh_token value (td_world s) = (Inr (Some (t, u0)), w') \<Longrightarrow>
    token_step ae s (s\<lparr>td_reading := insert (value, t, u0) (td_reading s)\<rparr>)"
| token_redeemed: "(value, t, u0) \<in> td_reading s \<Longrightarrow>
    redeem_refresh_token ae value (Some (t, u0)) (td_world s) = (Inr (Some u), w') \<Longrightarrow>
    token_step ae s (s\<lparr>td_world := w', td_log := Redeemed t (u_id u) (clock (td_world s)) # td_log s\<rparr>)"
| token_not_redeemed: "(value, t, u0) \<in> td_reading s \<Longrightarrow>
    redeem_refresh_token ae value (Some (t, u0)) (td_world s) = (r, w') \<Longrightarrow> (\<And>u. r \<noteq> Inr (Some u)) \<Longrightarrow>
    token_step ae s (s\<lparr>td_world := w'\<rparr>)"
| token_revoked: "is_usable_token value \<Longrightarrow>
    token_step ae s (s\<lparr>td_world := snd (revoke_token value (td_world s)), td_log := Revoked_value value # td_log s\<rparr>)"
| kind_revoked: "token_step ae s (s\<lparr>td_world := snd (revoke_tokens_of_type uid ty (td_world s)), td_log := Revoked_kind uid ty # td_log s\<rparr>)"
| refresh_revoked: "token_step ae s (s\<lparr>td_world := snd (revoke_refresh_tokens uid (td_world s)),
    td_log := Revoked_kind uid Tok_REFRESH # td_log s\<rparr>)"
| tokens_purged: "token_step ae s (s\<lparr>td_world := snd (cleanup_expired_tokens (td_world s)),
    td_log := Expired_before (clock (td_world s)) # td_log s\<rparr>)"
| token_elsewhere: "t_tokens (w_db w') = t_tokens (w_db (td_world s)) \<Longrightarrow> clock w' = clock (td_world s) \<Longrightarrow>
    next_id w' T_tokens = next_id (td_world s) T_tokens \<Longrightarrow> token_step ae s (s\<lparr>td_world := w'\<rparr>)"

text \<open>The statements the services run are such steps.\<close>

lemma save_token_run: "save_token uid ty value expires w = (Inr (issued_now w uid ty value expires),
    w\<lparr>next_id := (next_id w)(T_tokens := Suc (next_id w T_tokens)),
      w_db := (w_db w)\<lparr>t_tokens := t_tokens (w_db w) @ [issued_now w uid ty value expires]\<rparr>\<rparr>)"
  by (simp add: save_token_def issued_now_def run_simps Let_def)

lemma delete_tokens_run: "delete_tokens q w = (Inr (), w\<lparr>w_db := (w_db w)\<lparr>t_tokens := filter (\<lambda>t. \<not> q t) (t_tokens (w_db w))\<rparr>\<rparr>)"
  by (simp add: delete_tokens_def run_simps)

lemma delete_token_run: "delete_token k w = (Inr (\<exists>t \<in> set (t_tokens (w_db w)). tk_id t = k),
    w\<lparr>w_db := (w_db w)\<lparr>t_tokens := filter (\<lambda>t. tk_id t \<noteq> k) (t_tokens (w_db w))\<rparr>\<rparr>)"
  by (simp add: delete_token_def delete_tokens_def run_simps)

definition without_token :: "nat \<Rightarrow> world \<Rightarrow> world" where
  "without_token k w = w\<lparr>w_db := (w_db w)\<lparr>t_tokens := filter (\<lambda>t. tk_id t \<noteq> k) (t_tokens (w_db w))\<rparr>\<rparr>"

lemma redeem_world: "snd (redeem_refresh_token ae value (Some (t, u0)) w) = without_token (tk_id t) w"
  unfolding redeem_refresh_token_def option.case prod.case without_token_def
  by (cases u0) (auto simp: bnd_def delete_token_run asks_def some_or_def ret_def throw_def split: option.splits)

lemma redeem_accepts:
  assumes "redeem_refresh_token ae value (Some (t, u0)) w = (Inr (Some u), w')"
  shows "(\<exists>x \<in> set (t_tokens (w_db w)). tk_id x = tk_id t) \<and> clock w \<le> tk_expiresAt t \<and> u0 = Some u"
  using assms unfolding redeem_refresh_token_def option.case prod.case
  by (cases u0) (auto simp: bnd_def delete_token_run asks_def some_or_def ret_def throw_def split: option.splits if_splits)

lemma read_accepts:
  assumes "read_refresh_token value w = (Inr (Some (t, u0)), w')"
  shows "t \<in> set (t_tokens (w_db w)) \<and> tk_token t = value \<and> tk_type t = Tok_REFRESH \<and> (\<forall>u. u0 = Some u \<longrightarrow> u_id u = tk_userId t)"
  using assms by (auto simp: read_refresh_token_def asks_def find_token_def find_Some_iff find_user_def without_password_def
    dest!: find_row_SomeD split: option.splits if_splits)

definition issued_in :: "token_event list \<Rightarrow> user_token set" where
  "issued_in l = {t. Issued t \<in> set l}"

definition tokens_ok :: "token_desk \<Rightarrow> bool" where
  "tokens_ok s \<longleftrightarrow> (\<forall>t \<in> set (t_tokens (w_db (td_world s))). stands (td_log s) t)
     \<and> (\<forall>t \<in> issued_in (td_log s). tk_id t < next_id (td_world s) T_tokens) \<and> inj_on tk_id (issued_in (td_log s))
     \<and> (\<forall>(v, t, u0) \<in> td_reading s. t \<in> issued_in (td_log s) \<and> tk_token t = v \<and> tk_type t = Tok_REFRESH
          \<and> (\<forall>u. u0 = Some u \<longrightarrow> u_id u = tk_userId t))
     \<and> sound_redeems (td_log s)"

lemma stands_issued: "stands l t \<Longrightarrow> t \<in> issued_in l"
  by (induction l t rule: stands.induct) (auto simp: issued_in_def)

lemma issued_in_simps [simp]:
  "issued_in (Issued t # l) = insert t (issued_in l)" "issued_in (Redeemed t u now # l) = issued_in l"
  "issued_in (Revoked_value v # l) = issued_in l" "issued_in (Revoked_kind k ty # l) = issued_in l"
  "issued_in (Expired_before now # l) = issued_in l"
  by (auto simp: issued_in_def)

lemma without_token_fields [simp]:
  "t_tokens (w_db (without_token k w)) = filter (\<lambda>t. tk_id t \<noteq> k) (t_tokens (w_db w))" "clock (without_token k w) = clock w"
  "next_id (without_token k w) = next_id w"
  by (simp_all add: without_token_def)

lemma token_step_ok:
  assumes "token_step ae s s'" and "tokens_ok s"
  shows "tokens_ok s'"
  using assms(1)
proof cases
  case (token_issued uid ty v expires t w')
  then have t: "t = issued_now (td_world s) uid ty v expires" by (simp add: save_token_run)
  have fresh: "tk_id t \<notin> tk_id ` issued_in (td_log s)" using assms(2) by (fastforce simp: tokens_ok_def t issued_now_def)
  show ?thesis using token_issued assms(2) fresh
    by (auto simp: tokens_ok_def save_token_run t issued_now_def less_Suc_eq)
next
  case (token_read v t u0 w')
  then show ?thesis using assms(2) read_accepts [OF token_read(2)] stands_issued by (auto simp: tokens_ok_def)
next
  case (token_redeemed v t u0 u w')
  note a = redeem_accepts [OF token_redeemed(3)]
  have w': "w' = without_token (tk_id t) (td_world s)" using token_redeemed(3) redeem_world by (metis snd_conv)
  obtain x where x: "x \<in> set (t_tokens (w_db (td_world s)))" "tk_id x = tk_id t" using a by blast
  have "t \<in> issued_in (td_log s)" "stands (td_log s) x" using assms(2) token_redeemed(2) x(1) by (auto simp: tokens_ok_def)
  then have "stands (td_log s) t" using assms(2) x(2) stands_issued unfolding tokens_ok_def inj_on_def by metis
  then show ?thesis using assms(2) token_redeemed a by (auto simp: tokens_ok_def w')
next
  case (token_not_redeemed v t u0 r w')
  have "w' = without_token (tk_id t) (td_world s)" using token_not_redeemed(3) redeem_world by (metis snd_conv)
  then show ?thesis using assms(2) token_not_redeemed(1) by (auto simp: tokens_ok_def)
qed (use assms(2) in \<open>auto simp: tokens_ok_def revoke_token_def only_if_def revoke_tokens_of_type_def revoke_refresh_tokens_def
      cleanup_expired_tokens_def delete_tokens_run asks_def bnd_def\<close>)


text \<open>Ids are given out once, so what was redeemed no longer stands.\<close>

fun fresh_issues :: "token_event list \<Rightarrow> bool" where
  "fresh_issues [] = True"
| "fresh_issues (Issued t # l) = (tk_id t \<notin> tk_id ` issued_in l \<and> fresh_issues l)"
| "fresh_issues (_ # l) = fresh_issues l"

lemma redeemed_issued: "sound_redeems l \<Longrightarrow> Redeemed t u now \<in> set l \<Longrightarrow> t \<in> issued_in l"
proof (induction l rule: sound_redeems.induct)
  case (2 t' u' now' l)
  then show ?case using stands_issued by auto
qed auto

lemma redeemed_fallen:
  "sound_redeems l \<Longrightarrow> fresh_issues l \<Longrightarrow> stands l t \<Longrightarrow> Redeemed t' u now \<in> set l \<Longrightarrow> tk_id t' \<noteq> tk_id t"
proof (induction l t rule: stands.induct)
  case (2 t1 l t)
  then have "t' \<in> issued_in l" using redeemed_issued by auto
  then have "tk_id t' \<in> tk_id ` issued_in l" by (rule imageI)
  then have "tk_id t' \<noteq> tk_id t1" using 2(3) by (metis fresh_issues.simps(2))
  then show ?case using 2 by (cases "t1 = t") simp_all
qed auto

lemma fresh_step:
  assumes "token_step ae s s'" and "tokens_ok s" and "fresh_issues (td_log s)"
  shows "fresh_issues (td_log s')"
  using assms(1)
proof cases
  case (token_issued uid ty v expires t w')
  then have t: "t = issued_now (td_world s) uid ty v expires" by (simp add: save_token_run)
  have "tk_id t \<notin> tk_id ` issued_in (td_log s)" using assms(2) by (fastforce simp: tokens_ok_def t issued_now_def)
  then show ?thesis using token_issued assms(3) by simp
qed (use assms(3) in simp_all)

lemma token_steps_ok:
  assumes "(token_step ae)\<^sup>*\<^sup>* s s'" and "tokens_ok s" and "fresh_issues (td_log s)"
  shows "tokens_ok s' \<and> fresh_issues (td_log s')"
  using assms(1)
proof (induction rule: rtranclp_induct)
  case base
  then show ?case using assms by simp
next
  case (step y z)
  then show ?case using token_step_ok fresh_step by blast
qed

lemma sound_at: "sound_redeems (later @ Redeemed t u now # earlier) \<Longrightarrow>
    stands earlier t \<and> tk_type t = Tok_REFRESH \<and> u = tk_userId t \<and> now \<le> tk_expiresAt t \<and> sound_redeems earlier"
  by (induction later rule: sound_redeems.induct) auto

lemma fresh_tail: "fresh_issues (later @ earlier) \<Longrightarrow> fresh_issues earlier"
  by (induction later rule: fresh_issues.induct) auto

text \<open>
  C3. A refresh token is good for one refresh. Whatever requests run and however their statements fall between each
  other, a token that is redeemed was issued as a refresh token to the account that gets the new session, has not
  expired, was not redeemed before, and was not revoked before, by value, with the account's sessions, or by the purge, not
  even between the lookup and the redemption.
\<close>

theorem refresh_redeemed_once:
  assumes "(token_step ae)\<^sup>*\<^sup>* \<lparr>td_world = w0, td_reading = {}, td_log = []\<rparr> s" and "t_tokens (w_db w0) = []"
    and "td_log s = later @ Redeemed t u now # earlier"
  shows "stands earlier t \<and> tk_type t = Tok_REFRESH \<and> u = tk_userId t \<and> now \<le> tk_expiresAt t
    \<and> (\<forall>t' u' now'. Redeemed t' u' now' \<in> set earlier \<longrightarrow> tk_id t' \<noteq> tk_id t)"
proof -
  have "tokens_ok \<lparr>td_world = w0, td_reading = {}, td_log = []\<rparr>" using assms(2) by (simp add: tokens_ok_def issued_in_def)
  then have s: "tokens_ok s" "fresh_issues (td_log s)" using token_steps_ok [OF assms(1)] by auto
  note at_redeem = sound_at [of later t u now earlier]
  have sound: "stands earlier t \<and> tk_type t = Tok_REFRESH \<and> u = tk_userId t \<and> now \<le> tk_expiresAt t \<and> sound_redeems earlier"
    using at_redeem s(1) assms(3) by (simp add: tokens_ok_def)
  have "fresh_issues earlier" using fresh_tail [of later "Redeemed t u now # earlier"] s(2) assms(3) by simp
  then show ?thesis using sound redeemed_fallen by blast
qed


section \<open>Signing in with a password\<close>

definition right_password :: "auth_env \<Rightarrow> string \<Rightarrow> user \<Rightarrow> bool" where
  "right_password ae password u \<longleftrightarrow> (\<exists>h. u_password u = Some h \<and> h \<noteq> [] \<and> ae_compare ae password h)"

lemma compare_right: "compare_password_hash ae password (u_password u) = (u_password u \<noteq> None \<and> u_password u \<noteq> Some [], right_password ae password u)"
  by (auto simp: compare_password_hash_def right_password_def split: option.splits list.splits)

lemma start_session_run:
  "\<exists>s w'. start_session ae u how ctx message notify jti w = (Inr s, w') \<and> sn_userId s = u_id u
    \<and> t_tokens (w_db w') = t_tokens (w_db w) @ [issued_now w (u_id u) Tok_REFRESH (jt_refresh (sn_tokens s)) (clock w + REFRESH_TOKEN_MS)]
    \<and> t_users (w_db w') = t_users (w_db w)"
  by (simp add: start_session_def create_jwt_tokens_def save_token_run run_simps record_security_def Let_def bnd_def asks_def andthen_def ret_def)

text \<open>
  C36. Signing in with a password. A session starts only for a live account with that address whose password it is, that
  is not banned and has confirmed its address, and it adds one refresh token, of that account. Every refusal leaves the
  world as it was, and without the password the answer is the same for any account, live, deleted or none.
\<close>

theorem password_sign_in:
  assumes "check_password_login ae e password ctx jti w = (r, w')"
  shows "case r of
      Inr s \<Rightarrow> (\<exists>u. user_by_email ae (w_db w) e = Some u \<and> sn_userId s = u_id u \<and> right_password ae password u
          \<and> \<not> u_isBanned u \<and> u_accountVerified u
          \<and> t_tokens (w_db w') = t_tokens (w_db w) @ [issued_now w (u_id u) Tok_REFRESH (jt_refresh (sn_tokens s)) (clock w + REFRESH_TOKEN_MS)])
    | Inl x \<Rightarrow> w' = w \<and> ((\<forall>u \<in> set (t_users (w_db w)). same_email ae e u \<longrightarrow> \<not> right_password ae password u) \<longrightarrow> e \<noteq> []
        \<longrightarrow> x = Unauthorized_auth Invalid_credentials)"
proof (cases "e = []")
  case True
  then show ?thesis using assms by (auto simp: check_password_login_def find_user_by_email_def run_simps bnd_def andthen_def guard_def)
next
  case False
  show ?thesis
  proof (cases "user_by_email ae (w_db w) e")
    case None
    have "\<exists>u \<in> set (t_users (w_db w)). same_email ae e u \<and> right_password ae password u"
      if "deleted_user_by_email ae (w_db w) e = Some u" "right_password ae password u" for u
      using that by (auto simp: deleted_user_by_email_def find_Some_iff)
    then show ?thesis using assms None False
      by (auto simp: check_password_login_def no_live_account_rejection_def find_user_by_email_def find_soft_deleted_user_by_email_def
        bnd_def andthen_def guard_def asks_def ret_def throw_def compare_right split: option.splits if_splits)
  next
    case (Some u)
    then have u: "u \<in> set (t_users (w_db w))" "same_email ae e u" by (auto simp: user_by_email_def find_Some_iff)
    obtain s v where st: "start_session ae u By_password ctx Logged_in True jti w = (Inr s, v)" "sn_userId s = u_id u"
        "t_tokens (w_db v) = t_tokens (w_db w) @ [issued_now w (u_id u) Tok_REFRESH (jt_refresh (sn_tokens s)) (clock w + REFRESH_TOKEN_MS)]"
      using start_session_run by blast
    have hash: "right_password ae password u \<Longrightarrow> u_password u \<noteq> None \<and> u_password u \<noteq> Some []" by (auto simp: right_password_def)
    have "check_password_login ae e password ctx jti w =
        (if \<not> right_password ae password u then (Inl (Unauthorized_auth Invalid_credentials), w)
         else if u_isBanned u then (Inl (Forbidden_auth Account_banned), w)
         else if \<not> u_accountVerified u then (Inl (Forbidden_auth Email_not_verified), w) else (Inr s, v))"
      using Some False hash st(1)
      by (simp add: check_password_login_def find_user_by_email_def bnd_def andthen_def guard_def asks_def ret_def throw_def compare_right)
    then show ?thesis using assms Some st u by (auto split: if_splits)
  qed
qed


section \<open>How many passwords can be tried\<close>

text \<open>Sign-ins at the given times that solve no challenge, and their answers; the tracker starts as given.\<close>

type_synonym login_attempt = "int \<times> string \<times> string \<times> client \<times> string"

fun unchallenged_logins :: "auth_env \<Rightarrow> login_attempt list \<Rightarrow> tracker \<Rightarrow> world \<Rightarrow> (string \<times> (exn + session_reply)) list" where
  "unchallenged_logins ae [] tr w = []"
| "unchallenged_logins ae ((t, e, password, ctx, jti) # qs) tr w =
     (case login_user ae True False e password ctx jti tr (w\<lparr>clock := t\<rparr>) of (r, tr', w') \<Rightarrow>
        (normalize_email ae e, r) # unchallenged_logins ae qs tr' w')"

abbreviation refused_password :: "exn + session_reply" where
  "refused_password \<equiv> Inl (Unauthorized_auth Invalid_credentials)"

lemma map_of_forget: "map_of (forget_key k tr) x = (if x = k then None else map_of tr x)"
  by (induction tr) (auto simp: forget_key_def)

lemma length_forget: "length (forget_key k tr) \<le> length tr"
  by (simp add: forget_key_def)

lemma read_other: "k0 \<noteq> Some a \<Longrightarrow> read_failures k0 now tr = (n, tr') \<Longrightarrow> map_of tr' a = map_of tr a \<and> length tr' \<le> length tr"
  by (auto simp: read_failures_def map_of_forget length_forget split: option.splits if_splits)

lemma map_of_same_keys: "map_of (map (\<lambda>(x, e). if x = k then (x, f e) else (x, e)) tr) a = (if a = k then map_option f (map_of tr a) else map_of tr a)"
  by (induction tr) auto

lemma bump_other:
  assumes "k0 \<noteq> Some a" and "length tr < MAX_KEYS"
  shows "map_of (bump_failures k0 now tr) a = map_of tr a \<and> length (bump_failures k0 now tr) \<le> Suc (length tr)"
proof (cases k0)
  case (Some k)
  obtain n tr' where r: "read_failures k0 now tr = (n, tr')" by fastforce
  show ?thesis using read_other [OF assms(1) r] assms r Some
    by (auto simp: bump_failures_def map_add_def map_of_same_keys split: option.splits)
qed (simp add: bump_failures_def)

text \<open>What the tracker knows of an address within one window that starts at \<open>t0\<close>: the failures so far.\<close>

definition failed_so_far :: "int \<Rightarrow> failure_key \<Rightarrow> tracker \<Rightarrow> nat \<Rightarrow> bool" where
  "failed_so_far t0 a tr n \<longleftrightarrow> (case map_of tr a of None \<Rightarrow> n = 0 | Some e \<Rightarrow> n > 0 \<and> fe_count e = n \<and> t0 \<le> fe_firstAt e)"

lemma failed_cong: "map_of tr' a = map_of tr a \<Longrightarrow> failed_so_far t0 a tr' n = failed_so_far t0 a tr n"
  by (simp add: failed_so_far_def)

lemma read_own: "failed_so_far t0 a tr n \<Longrightarrow> now \<le> t0 + LOGIN_FAILURE_WINDOW_MS \<Longrightarrow> read_failures (Some a) now tr = (n, tr)"
  by (auto simp: failed_so_far_def read_failures_def split: option.splits)

lemma bump_own:
  assumes "failed_so_far t0 a tr n" and "t0 \<le> now" and "now \<le> t0 + LOGIN_FAILURE_WINDOW_MS" and "length tr < MAX_KEYS"
  shows "failed_so_far t0 a (bump_failures (Some a) now tr) (Suc n) \<and> length (bump_failures (Some a) now tr) \<le> Suc (length tr)"
  using assms
  by (auto simp: bump_failures_def read_own [OF assms(1,3)] failed_so_far_def map_add_def
    map_of_same_keys split: option.splits)

lemma challenge_keeps:
  assumes "requires_challenge ae e ip now tr = (c, tr')" and "failed_so_far t0 (By_email x) tr n" and "now \<le> t0 + LOGIN_FAILURE_WINDOW_MS"
  shows "failed_so_far t0 (By_email x) tr' n \<and> length tr' \<le> length tr
    \<and> (normalize_email ae e = x \<longrightarrow> LOGIN_FAILURES_BEFORE_TURNSTILE \<le> n \<longrightarrow> c)"
proof -
  obtain k tr1 where r1: "read_failures (Some (By_email (normalize_email ae e))) now tr = (k, tr1)" by fastforce
  have ip: "ip_key ip \<noteq> Some (By_email x)" by (simp add: ip_key_def)
  obtain m tr2 where r2: "read_failures (ip_key ip) now tr1 = (m, tr2)" by fastforce
  have one: "failed_so_far t0 (By_email x) tr1 n \<and> length tr1 \<le> length tr \<and> (normalize_email ae e = x \<longrightarrow> k = n)"
  proof (cases "normalize_email ae e = x")
    case True
    then show ?thesis using read_own [OF assms(2,3)] r1 assms(2) by simp
  next
    case False
    then have other: "map_of tr1 (By_email x) = map_of tr (By_email x)" "length tr1 \<le> length tr" using read_other [OF _ r1, of "By_email x"] by auto
    show ?thesis using other assms(2) failed_cong [OF other(1)] False by simp
  qed
  have two: "failed_so_far t0 (By_email x) tr2 n \<and> length tr2 \<le> length tr"
    using read_other [OF ip r2] failed_cong [of tr2 "By_email x" tr1] one by simp
  show ?thesis using assms(1) one two r1 r2 by (auto simp: requires_challenge_def split: if_splits)
qed

lemma failure_recorded:
  assumes "failed_so_far t0 (By_email x) tr n" and "t0 \<le> now" and "now \<le> t0 + LOGIN_FAILURE_WINDOW_MS" and "length tr + 2 \<le> MAX_KEYS"
  shows "failed_so_far t0 (By_email x) (record_login_failure ae e ip now tr) (if normalize_email ae e = x then Suc n else n)
    \<and> length (record_login_failure ae e ip now tr) \<le> length tr + 2"
proof -
  let ?tr1 = "bump_failures (Some (By_email (normalize_email ae e))) now tr"
  have one: "failed_so_far t0 (By_email x) ?tr1 (if normalize_email ae e = x then Suc n else n) \<and> length ?tr1 \<le> Suc (length tr)"
  proof (cases "normalize_email ae e = x")
    case True
    then show ?thesis using bump_own [OF assms(1-3)] assms(4) by simp
  next
    case False
    then have other: "map_of ?tr1 (By_email x) = map_of tr (By_email x)" "length ?tr1 \<le> Suc (length tr)"
      using bump_other [of "Some (By_email (normalize_email ae e))" "By_email x" tr now] assms(4) by auto
    show ?thesis using other(2) failed_cong [OF other(1)] assms(1) False by simp
  qed
  have "ip_key ip \<noteq> Some (By_email x)" by (simp add: ip_key_def)
  then have "map_of (bump_failures (ip_key ip) now ?tr1) (By_email x) = map_of ?tr1 (By_email x)
      \<and> length (bump_failures (ip_key ip) now ?tr1) \<le> Suc (length ?tr1)"
    using one assms(4) by (intro bump_other) auto
  then show ?thesis using one failed_cong [of "bump_failures (ip_key ip) now ?tr1" "By_email x" ?tr1]
    unfolding record_login_failure_def by simp
qed

lemma login_step:
  assumes "login_user ae True False e password ctx jti tr w = (r, tr', w')"
    and "failed_so_far t0 (By_email x) tr n" and "t0 \<le> clock w" "clock w \<le> t0 + LOGIN_FAILURE_WINDOW_MS" and "length tr + 2 \<le> MAX_KEYS"
    and "normalize_email ae e = x \<Longrightarrow> \<exists>y. r = Inl y"
  shows "length tr' \<le> length tr + 2 \<and> (if normalize_email ae e = x \<and> r = refused_password
    then n < LOGIN_FAILURES_BEFORE_TURNSTILE \<and> failed_so_far t0 (By_email x) tr' (Suc n) else failed_so_far t0 (By_email x) tr' n)"
proof (cases "e = [] \<or> password = []")
  case True
  then show ?thesis using assms by (auto simp: login_user_def)
next
  case False
  obtain c tr1 where ch: "requires_challenge ae e (fst ctx) (clock w) tr = (c, tr1)" by fastforce
  note k = challenge_keeps [OF ch assms(2,4)]
  show ?thesis
  proof (cases c)
    case True
    then show ?thesis using assms(1) False ch k by (auto simp: login_user_def)
  next
    case unchallenged: False
    have below: "normalize_email ae e = x \<Longrightarrow> n < LOGIN_FAILURES_BEFORE_TURNSTILE" using k unchallenged by auto
    obtain r1 w1 where c1: "check_password_login ae e password ctx jti w = (r1, w1)" by fastforce
    show ?thesis
    proof (cases r1)
      case (Inl y)
      have rec: "failed_so_far t0 (By_email x) (record_login_failure ae e (fst ctx) (clock w) tr1) (if normalize_email ae e = x then Suc n else n)
          \<and> length (record_login_failure ae e (fst ctx) (clock w) tr1) \<le> length tr1 + 2"
        using failure_recorded [of t0 x tr1 n "clock w" ae e "fst ctx"] k assms(3-5) by simp
      show ?thesis using assms(1) False ch unchallenged c1 Inl rec k below
        by (auto simp: login_user_def split: if_splits)
    next
      case (Inr sess)
      then have r: "r = Inr sess" "tr' = forget_key (By_email (normalize_email ae e)) tr1"
        using assms(1) False ch unchallenged c1 by (auto simp: login_user_def record_login_success_def)
      then have "normalize_email ae e \<noteq> x" using assms(6) by auto
      then show ?thesis using r k length_forget [of "By_email (normalize_email ae e)" tr1]
          failed_cong [of tr' "By_email x" tr1] by (auto simp: map_of_forget)
    qed
  qed
qed

lemma logins_bounded:
  assumes "failed_so_far t0 (By_email x) tr n" and "\<forall>q \<in> set qs. t0 \<le> fst q \<and> fst q \<le> t0 + LOGIN_FAILURE_WINDOW_MS"
    and "length tr + 2 * length qs \<le> MAX_KEYS" and "\<forall>s. (x, Inr s) \<notin> set (unchallenged_logins ae qs tr w)"
  shows "count_list (unchallenged_logins ae qs tr w) (x, refused_password) + min n LOGIN_FAILURES_BEFORE_TURNSTILE
    \<le> LOGIN_FAILURES_BEFORE_TURNSTILE"
  using assms
proof (induction qs arbitrary: tr w n)
  case (Cons q qs)
  obtain t e password ctx jti where q: "q = (t, e, password, ctx, jti)" by (metis prod.collapse)
  obtain r tr' w' where run: "login_user ae True False e password ctx jti tr (w\<lparr>clock := t\<rparr>) = (r, tr', w')" by (metis prod.collapse)
  have step: "length tr' \<le> length tr + 2 \<and> (if normalize_email ae e = x \<and> r = refused_password
      then n < LOGIN_FAILURES_BEFORE_TURNSTILE \<and> failed_so_far t0 (By_email x) tr' (Suc n) else failed_so_far t0 (By_email x) tr' n)"
  proof (rule login_step [OF run Cons.prems(1)])
    show "\<exists>y. r = Inl y" if "normalize_email ae e = x"
      using Cons.prems(4) that run by (cases r) (auto simp: q)
  qed (use Cons.prems(2,3) q in auto)
  have rest: "\<forall>q \<in> set qs. t0 \<le> fst q \<and> fst q \<le> t0 + LOGIN_FAILURE_WINDOW_MS" "length tr' + 2 * length qs \<le> MAX_KEYS"
      "\<forall>s. (x, Inr s) \<notin> set (unchallenged_logins ae qs tr' w')"
    using Cons.prems step run by (auto simp: q)
  show ?case
  proof (cases "normalize_email ae e = x \<and> r = refused_password")
    case True
    then have "failed_so_far t0 (By_email x) tr' (Suc n)" and n: "n < LOGIN_FAILURES_BEFORE_TURNSTILE" using step by simp_all
    then show ?thesis using Cons.IH [OF _ rest, of "Suc n"] True run n by (simp add: q)
  next
    case False
    then have "failed_so_far t0 (By_email x) tr' n" using step by (simp split: if_splits)
    then show ?thesis using Cons.IH [OF _ rest, of n] False run by (auto simp: q)
  qed
qed simp



section \<open>Changing the password\<close>

definition refresh_tokens_of :: "nat \<Rightarrow> db \<Rightarrow> user_token list" where
  "refresh_tokens_of uid d = filter (\<lambda>t. tk_userId t = uid \<and> tk_type t = Tok_REFRESH) (t_tokens d)"

lemma change_load_run:
  assumes "change_password_load ae uid current password confirm w = (Inr u, w1)"
  shows "\<exists>u0. find_user (w_db w) uid = Some u0 \<and> u = without_password u0 \<and> password = confirm \<and> right_password ae current u0 \<and> w1 = w"
  using assms by (auto simp: change_password_load_def run_simps compare_right bnd_def asks_def andthen_def guard_def some_or_def ret_def throw_def
    split: option.splits if_splits)

lemma change_write_run:
  "\<exists>s w'. change_password_write ae u password salt jti w = (Inr s, w')
    \<and> t_users (w_db w') = update_where (\<lambda>x. u_id x = u_id u) (saved_over (u\<lparr>u_password := Some (ae_bcrypt ae password salt)\<rparr>)) (t_users (w_db w))
    \<and> t_tokens (w_db w') = filter (\<lambda>t. \<not> (tk_userId t = u_id u \<and> tk_type t = Tok_REFRESH)) (t_tokens (w_db w))
        @ [issued_now w (u_id u) Tok_REFRESH (jt_refresh (sn_tokens s)) (clock w + REFRESH_TOKEN_MS)]"
  by (simp add: change_password_write_def update_user_def revoke_refresh_tokens_def delete_tokens_def create_jwt_tokens_def save_token_def
    run_simps Let_def bnd_def asks_def andthen_def ret_def issued_now_def with_db_def emit_def fresh_def)

text \<open>
  Changing the password signs the account out everywhere else. A change goes through only for the current password
  and a new one typed twice alike; then the account's only refresh token is the one of the answer, its row differs in
  the password only, which is the hash of the new one, and everybody else's row and tokens are as before.
\<close>

theorem password_change_signs_out:
  assumes "change_password ae uid current password confirm salt jti w = (Inr s, w')" and "distinct (map u_id (t_users (w_db w)))"
  shows "(\<exists>u \<in> set (t_users (w_db w)). u_id u = uid \<and> u_deletedAt u = None \<and> right_password ae current u) \<and> password = confirm
    \<and> refresh_tokens_of uid (w_db w') = [issued_now w uid Tok_REFRESH (jt_refresh (sn_tokens s)) (clock w + REFRESH_TOKEN_MS)]
    \<and> t_users (w_db w') = map (\<lambda>x. if u_id x = uid then x\<lparr>u_password := Some (ae_bcrypt ae password salt)\<rparr> else x) (t_users (w_db w))
    \<and> (\<forall>v. v \<noteq> uid \<longrightarrow> refresh_tokens_of v (w_db w') = refresh_tokens_of v (w_db w))"
proof -
  obtain u w1 where load: "change_password_load ae uid current password confirm w = (Inr u, w1)"
      "change_password_write ae u password salt jti w1 = (Inr s, w')"
    using assms(1) unfolding change_password_def
    by (cases "change_password_load ae uid current password confirm w"; cases "fst (change_password_load ae uid current password confirm w)")
      (auto simp: bnd_def)
  obtain u0 where u0: "find_user (w_db w) uid = Some u0" "u = without_password u0" "password = confirm" "right_password ae current u0" "w1 = w"
    using change_load_run [OF load(1)] by blast
  have row: "u0 \<in> set (t_users (w_db w))" "u_id u0 = uid" "u_deletedAt u0 = None"
    using u0(1) by (auto simp: find_user_def dest: find_row_SomeD split: option.splits if_splits)
  have id: "u_id u = uid" using u0(2) row by (simp add: without_password_def)
  let ?h = "Some (ae_bcrypt ae password salt)"
  have written: "t_users (w_db w') = update_where (\<lambda>x. u_id x = uid) (saved_over (u\<lparr>u_password := ?h\<rparr>)) (t_users (w_db w))"
      "t_tokens (w_db w') = filter (\<lambda>t. \<not> (tk_userId t = uid \<and> tk_type t = Tok_REFRESH)) (t_tokens (w_db w))
        @ [issued_now w uid Tok_REFRESH (jt_refresh (sn_tokens s)) (clock w + REFRESH_TOKEN_MS)]"
    using change_write_run [of ae u password salt jti w] load(2) unfolding u0(5) id by auto
  have same: "saved_over (u\<lparr>u_password := ?h\<rparr>) x = x\<lparr>u_password := ?h\<rparr>" if "x \<in> set (t_users (w_db w))" "u_id x = uid" for x
  proof -
    have "x = u0" using that row(1,2) assms(2) by (auto simp: distinct_map inj_on_def)
    then show ?thesis using u0(2) by (simp add: saved_over_def without_password_def)
  qed
  have "t_users (w_db w') = map (\<lambda>x. if u_id x = uid then x\<lparr>u_password := ?h\<rparr> else x) (t_users (w_db w))"
    unfolding written(1) update_where_def using same by (intro map_cong) auto
  moreover have "refresh_tokens_of v (w_db w') = (if v = uid then [issued_now w uid Tok_REFRESH (jt_refresh (sn_tokens s)) (clock w + REFRESH_TOKEN_MS)]
      else refresh_tokens_of v (w_db w))" for v
    unfolding refresh_tokens_of_def written(2) by (auto simp: issued_now_def filter_empty_conv intro!: filter_cong)
  ultimately show ?thesis using row u0 by auto
qed


end
