(* ===== verification/AuthWitnesses.thy ===== *)
theory AuthWitnesses
  imports AuthPrivacy SessionRules
begin

text \<open>
  The theorems on codes, tokens and sign-in, evaluated on concrete worlds: a parameter \<open>fx_auth\<close> whose digests
  are the hexadecimal digits of what is hashed, and the accounts of the other fixtures.
\<close>

definition hex_digest :: "string \<Rightarrow> string" where
  "hex_digest s = CHR ''0'' # filter (\<lambda>c. hex_value c \<noteq> None) s"

definition fx_auth :: auth_env where
  "fx_auth = \<lparr>ae_lower = (\<lambda>c. c), ae_emailMac = (\<lambda>s. s), ae_codeMac = hex_digest, ae_bcrypt = (\<lambda>p salt. p),
     ae_compare = (\<lambda>p h. p = h), ae_sign = (\<lambda>c now. case jw_jti c of None \<Rightarrow> ''access'' | Some j \<Rightarrow> j),
     ae_verify = (\<lambda>v now. Some \<lparr>jw_sub = 1, jw_email = ''a@b.c'', jw_role = CUSTOMER, jw_typ = Some Use_refresh, jw_jti = Some v\<rparr>),
     ae_expiry = (\<lambda>_. 900)\<rparr>"

text \<open>One account, with the password \<open>pw\<close>.\<close>

definition fx_account :: user where
  "fx_account = (fx_user 1 CUSTOMER)\<lparr>u_password := Some ''pw''\<rparr>"

definition fx_signed :: world where
  "fx_signed = (fx_world [])\<lparr>w_db := (fx_db [])\<lparr>t_users := [fx_account]\<rparr>\<rparr>"

text \<open>A code \<open>123456\<close> to sign in with, issued at 1000.\<close>

definition fx_code :: auth_code where
  "fx_code = new_code 100 1 ''a@b.c'' Cp_login (hash_code fx_auth ''a@b.c'' Cp_login ''123456'') 1000"

definition fx_coded :: world where
  "fx_coded = fx_signed\<lparr>w_db := (w_db fx_signed)\<lparr>t_codes := [fx_code]\<rparr>, next_id := (\<lambda>_. 101)\<rparr>"

lemmas fx_auth_defs = fx_auth_def fx_account_def fx_signed_def fx_code_def fx_coded_def fx_defs hex_digest_def


lemma fx_generated: "generate_code 123456 = ''123456''"
  by (simp add: generate_code_def AUTH_CODE_LENGTH_def pad_start_def show_nat.simps digit_char_def) code_simp

lemma fx_hashed: "hash_code fx_auth ''a@b.c'' Cp_login ''123456'' = ''0abc123456''"
    "digests_match ''0abc123456'' ''0abc123456''"
  by (code_simp)+

lemma fx_code_fields [simp]:
  "ac_codeHash fx_code = ''0abc123456''" "ac_id fx_code = 100" "ac_userId fx_code = Some 1" "ac_attempts fx_code = 0"
  "ac_consumedAt fx_code = None" "ac_expiresAt fx_code = 601000" "ac_emailHash fx_code = ''a@b.c''" "ac_purpose fx_code = Cp_login"
  by (simp_all add: fx_code_def new_code_def fx_hashed code_consts)



lemma fx_wrong: "hash_code fx_auth ''a@b.c'' Cp_login ''000000'' = ''0abc000000''" "\<not> digests_match ''0abc123456'' ''0abc000000''"
  by (code_simp)+

lemma fx_coded_facts: "t_codes (w_db fx_coded) = [fx_code]" "clock fx_coded = 1000" "t_codeRequests (w_db fx_coded) = []"
  by (simp_all add: fx_coded_def fx_signed_def fx_world_def fx_db_def)

lemma tries_overlap_witness:
  "checked_in_turn fx_auth ''a@b.c'' Cp_login (replicate 5 ''000000'' @ [''123456'']) fx_coded ! 5 = Inr (Check_failed Ck_locked (Some 1) False)
    \<and> checked_together fx_auth ''a@b.c'' Cp_login 1000 fx_code (replicate 5 ''000000'' @ [''123456'']) fx_coded ! 5 = Inr (Check_ok 1)"
proof -
  let ?gs = "replicate 5 ''000000'' @ [''123456'']"
  have only: "only_code ''a@b.c'' Cp_login fx_code (w_db fx_coded)"
    by (simp add: only_code_def open_code_def is_code_for_def fx_coded_facts)
  have live: "live_code (w_db fx_coded) ''a@b.c'' Cp_login 1000 = Some fx_code"
    by (simp add: live_code_def is_code_for_def fx_coded_facts)
  have gs: "?gs ! 5 = ''123456''" "\<And>i. i < 5 \<Longrightarrow> ?gs ! i = ''000000''" by (simp_all add: nth_append)
  show ?thesis
    using tries_overlap [OF only, of 1 5 ?gs fx_auth] gs by (simp add: fx_coded_facts live fx_hashed fx_wrong)
qed

definition fx_nobody :: world where
  "fx_nobody = fx_signed\<lparr>w_db := (w_db fx_signed)\<lparr>t_users := []\<rparr>\<rparr>"

lemma fx_emails: "normalize_email fx_auth ''a@b.c'' = ''a@b.c''" "hash_email fx_auth ''a@b.c'' = ''a@b.c''"
    "address_hash fx_auth ''a@b.c'' = ''a@b.c''"
  by (code_simp)+

lemma fx_asked:
  "t_codes (w_db (snd (request_code fx_auth ''a@b.c'' Cp_login (None, None) 123456 (fx_signed\<lparr>clock := 1000\<rparr>)))) = [fx_code]"
proof -
  have "user_by_email fx_auth (w_db fx_signed) ''a@b.c'' = Some fx_account" by code_simp
  then have u: "user_by_email fx_auth ((w_db fx_signed)\<lparr>t_codeRequests := rows\<rparr>) ''a@b.c'' = Some fx_account" for rows
    by (simp add: user_by_email_def)
  have w: "t_codes (w_db fx_signed) = []" "t_codeRequests (w_db fx_signed) = []" "next_id fx_signed = (\<lambda>_. 100)"
      "u_id fx_account = 1" "u_isBanned fx_account = False" "u_accountVerified fx_account"
    by (simp_all add: fx_signed_def fx_world_def fx_db_def fx_account_def fx_user_def)
  let ?w = "fx_signed\<lparr>clock := 1000\<rparr>" and ?rcp = "\<lambda>u0. fst (code_recipient u0 Cp_login)" and ?kind = "\<lambda>u0. snd (code_recipient u0 Cp_login)"
  have start: "keyed (w_db ?w)" "normalize_email fx_auth ''a@b.c'' \<noteq> []" "find_request (w_db ?w) h p = None" for h p
    by (simp_all add: keyed_def find_request_def w fx_emails)
  have who: "?rcp (Some fx_account) = Some fx_account" by (simp add: code_recipient_def w)
  obtain rows where ask: "ask_for fx_auth ''a@b.c'' Cp_login ?rcp ?kind (None, None) 123456 ?w = (Inr 61000,
      snd (deliver_code fx_auth ''a@b.c'' Cp_login (Some fx_account) (?kind (Some fx_account)) (None, None) 123456
        (?w\<lparr>w_db := (w_db ?w)\<lparr>t_codeRequests := rows\<rparr>\<rparr>)))"
    using ask_result [OF start(1,2), of Cp_login ?rcp ?kind "(None, None)" 123456] start(3) u [of "t_codeRequests (w_db fx_signed)"] who
    by (auto simp: send_result_def fx_emails code_consts)
  show ?thesis
    using ask deliver_somebody [of fx_auth "''a@b.c''" Cp_login fx_account "?kind (Some fx_account)" "(None, None)" 123456
        "?w\<lparr>w_db := (w_db ?w)\<lparr>t_codeRequests := rows\<rparr>\<rparr>"]
    by (auto simp: request_code_asks w fx_code_def fx_generated)
qed

lemma code_flows_hide_accounts_witness:
  "answers fx_auth ''a@b.c'' (None, None) ''jti'' [(1000, Ask_code Cp_login 123456), (2000, Try_code Cp_login ''000000'')] fx_signed
    = answers fx_auth ''a@b.c'' (None, None) ''jti'' [(1000, Ask_code Cp_login 123456), (2000, Try_code Cp_login ''000000'')] fx_nobody"
proof (rule code_flows_hide_accounts)
  have w: "t_codes (w_db fx_signed) = []" "t_codeRequests (w_db fx_signed) = []" "t_users (w_db fx_nobody) = []"
      "t_codes (w_db fx_nobody) = []" "t_codeRequests (w_db fx_nobody) = []"
    by (simp_all add: fx_nobody_def fx_signed_def fx_world_def fx_db_def)
  show "unasked fx_auth ''a@b.c'' fx_signed" "unasked fx_auth ''a@b.c'' fx_nobody" by (simp_all add: unasked_def keyed_def w)
  show "user_by_email fx_auth (w_db fx_nobody) (normalize_email fx_auth ''a@b.c'') = None" by (simp add: user_by_email_def w)
  show "normalize_email fx_auth ''a@b.c'' \<noteq> []" by (simp add: fx_emails)
  have "snd (reply_to fx_auth ''a@b.c'' (None, None) ''jti'' (Ask_code Cp_login 123456) (fx_signed\<lparr>clock := 1000\<rparr>))
      = snd (request_code fx_auth ''a@b.c'' Cp_login (None, None) 123456 (fx_signed\<lparr>clock := 1000\<rparr>))"
    by (simp add: bnd_def ret_def split: prod.splits sum.splits)
  then show "all_wrong fx_auth ''a@b.c'' (None, None) ''jti'' [(1000, Ask_code Cp_login 123456), (2000, Try_code Cp_login ''000000'')] fx_signed"
    using fx_asked by (simp add: wrong_guess_def fx_emails fx_wrong del: reply_to.simps)
qed


section \<open>Sessions\<close>

lemma refresh_redeemed_once_witness:
  "\<exists>s t. (token_step fx_auth)\<^sup>*\<^sup>* \<lparr>td_world = fx_signed, td_reading = {}, td_log = []\<rparr> s
    \<and> td_log s = [Redeemed t 1 1000, Issued t] \<and> stands [Issued t] t \<and> tk_type t = Tok_REFRESH"
proof -
  let ?s0 = "\<lparr>td_world = fx_signed, td_reading = {}, td_log = []\<rparr>"
  let ?t = "issued_now fx_signed 1 Tok_REFRESH ''r'' 2000"
  have w: "t_tokens (w_db fx_signed) = []" "clock fx_signed = 1000" "find_user (w_db fx_signed) 1 = Some fx_account"
    by (simp_all add: fx_signed_def fx_world_def fx_db_def find_user_def find_row_def fx_account_def fx_user_def)
  obtain w1 where issue: "save_token 1 Tok_REFRESH ''r'' 2000 fx_signed = (Inr ?t, w1)" "t_tokens (w_db w1) = [?t]" "clock w1 = 1000"
      "find_user (w_db w1) 1 = Some fx_account"
    using w by (simp add: save_token_run find_user_def)
  let ?s1 = "?s0\<lparr>td_world := w1, td_log := [Issued ?t]\<rparr>"
  have one: "token_step fx_auth ?s0 ?s1" using token_issued [of 1 Tok_REFRESH "''r''" 2000 ?s0 ?t w1 fx_auth] issue(1) by simp
  obtain w1' where read: "read_refresh_token ''r'' w1 = (Inr (Some (?t, Some (without_password fx_account))), w1')"
    using issue by (simp add: read_refresh_token_def asks_def find_token_def issued_now_def)
  let ?s2 = "?s1\<lparr>td_reading := {(''r'', ?t, Some (without_password fx_account))}\<rparr>"
  have two: "token_step fx_auth ?s1 ?s2"
    using token_read [of "''r''" ?s1 ?t "Some (without_password fx_account)" w1' fx_auth] read by simp
  obtain w2 where redeem: "redeem_refresh_token fx_auth ''r'' (Some (?t, Some (without_password fx_account))) w1
      = (Inr (Some (without_password fx_account)), w2)"
    using issue by (simp add: redeem_refresh_token_def delete_token_run bnd_def asks_def ret_def some_or_def fx_auth_def issued_now_def)
  let ?s3 = "?s2\<lparr>td_world := w2, td_log := [Redeemed ?t 1 1000, Issued ?t]\<rparr>"
  have "u_id (without_password fx_account) = 1" by (simp add: without_password_def fx_account_def fx_user_def)
  then have three: "token_step fx_auth ?s2 ?s3"
    using token_redeemed [of "''r''" ?t "Some (without_password fx_account)" ?s2 fx_auth "without_password fx_account" w2] redeem issue(3) by simp
  have run: "(token_step fx_auth)\<^sup>*\<^sup>* ?s0 ?s3" using one two three by (meson converse_rtranclp_into_rtranclp r_into_rtranclp)
  show ?thesis
    using run refresh_redeemed_once [OF run w(1), of "[]" ?t 1 1000 "[Issued ?t]"] by (intro exI [of _ ?s3] exI [of _ ?t]) simp
qed

lemma fx_login:
  "\<exists>s w'. check_password_login fx_auth ''a@b.c'' ''pw'' (None, None) ''jti'' fx_signed = (Inr s, w')"
proof -
  have "user_by_email fx_auth (w_db fx_signed) ''a@b.c'' = Some fx_account" by code_simp
  moreover have "compare_password_hash fx_auth ''pw'' (u_password fx_account) = (True, True)" by code_simp
  moreover have "\<not> u_isBanned fx_account" "u_accountVerified fx_account" by (simp_all add: fx_account_def fx_user_def)
  ultimately show ?thesis using start_session_run [of fx_auth fx_account By_password "(None, None)" Logged_in True "''jti''" fx_signed]
    by (auto simp: check_password_login_def find_user_by_email_def bnd_def andthen_def guard_def asks_def ret_def)
qed

lemma password_sign_in_witness:
  "\<exists>s w'. check_password_login fx_auth ''a@b.c'' ''pw'' (None, None) ''jti'' fx_signed = (Inr s, w')
    \<and> (\<exists>u. user_by_email fx_auth (w_db fx_signed) ''a@b.c'' = Some u \<and> sn_userId s = u_id u \<and> u_accountVerified u)"
proof -
  obtain s w' where "check_password_login fx_auth ''a@b.c'' ''pw'' (None, None) ''jti'' fx_signed = (Inr s, w')" using fx_login by blast
  then show ?thesis using password_sign_in [of fx_auth "''a@b.c''" "''pw''" "(None, None)" "''jti''" fx_signed "Inr s" w'] by auto
qed


lemma fx_change_load:
  "\<exists>w1. change_password_load fx_auth 1 ''pw'' ''new'' ''new'' fx_signed = (Inr (without_password fx_account), w1)"
proof -
  have "find_user (w_db fx_signed) 1 = Some fx_account" by code_simp
  moreover have "compare_password_hash fx_auth ''pw'' (u_password fx_account) = (True, True)" by code_simp
  ultimately show ?thesis
    by (simp add: change_password_load_def bnd_def andthen_def guard_def asks_def ret_def some_or_def)
qed

lemma password_change_signs_out_witness:
  "\<exists>s w'. change_password fx_auth 1 ''pw'' ''new'' ''new'' 0 ''jti'' fx_signed = (Inr s, w') \<and> length (refresh_tokens_of 1 (w_db w')) = 1"
proof -
  obtain w1 where load: "change_password_load fx_auth 1 ''pw'' ''new'' ''new'' fx_signed = (Inr (without_password fx_account), w1)"
    using fx_change_load by blast
  obtain s w' where "change_password fx_auth 1 ''pw'' ''new'' ''new'' 0 ''jti'' fx_signed = (Inr s, w')"
    using load change_write_run [of fx_auth "without_password fx_account" "''new''" 0 "''jti''" w1] by (auto simp: change_password_def bnd_def)
  moreover have "distinct (map u_id (t_users (w_db fx_signed)))" by (simp add: fx_signed_def fx_world_def fx_db_def)
  ultimately show ?thesis
    using password_change_signs_out [of fx_auth 1 "''pw''" "''new''" "''new''" 0 "''jti''" fx_signed s w'] by auto
qed

definition fx_banned :: world where
  "fx_banned = fx_signed\<lparr>w_db := (w_db fx_signed)\<lparr>t_users := [fx_account\<lparr>u_isBanned := True\<rparr>]\<rparr>\<rparr>"


end
