(* ===== verification/Idempotency.thy ===== *)
theory Idempotency
  imports Fixtures Clock
begin

text \<open>
  \<open>Idempotency-Key\<close> on the payment requests: the key's format, the fingerprint of a request, the service that starts,
  stores, releases and purges keys (common/idempotency/idempotency.service.ts), the interceptor that wraps a handler
  (common/idempotency/idempotency.interceptor.ts) and the filter that renders an error
  (common/filters/all-exceptions.filter.ts). Every SQL statement is one definition. SHA-256, upper-casing and the message
  NestJS gives an exception are the parameter \<open>idem_env\<close>.
\<close>

record idem_env =
  ie_sha :: "string \<Rightarrow> string"
  ie_upper :: "char \<Rightarrow> char"
  ie_message :: "string \<Rightarrow> json \<Rightarrow> string"

definition IDEMPOTENCY_TTL_MS :: int where "IDEMPOTENCY_TTL_MS = 24 * 60 * 60000"

definition IDEMPOTENCY_STALE_MS :: int where "IDEMPOTENCY_STALE_MS = 2 * 60000"

section \<open>Keys and fingerprints\<close>

definition char_in :: "char \<Rightarrow> char \<Rightarrow> char \<Rightarrow> bool" where
  "char_in a b c \<longleftrightarrow> (of_char a :: nat) \<le> of_char c \<and> (of_char c :: nat) \<le> of_char b"

definition hex_digit :: "char \<Rightarrow> bool" where
  "hex_digit c \<longleftrightarrow> char_in CHR ''0'' CHR ''9'' c \<or> char_in CHR ''a'' CHR ''f'' c \<or> char_in CHR ''A'' CHR ''F'' c"

definition is_uuid :: "string \<Rightarrow> bool" where
  "is_uuid s \<longleftrightarrow> length s = 36 \<and> (\<forall>i < 36. if i \<in> {8, 13, 18, 23} then s ! i = CHR ''-'' else hex_digit (s ! i))"

definition is_token :: "string \<Rightarrow> bool" where
  "is_token s \<longleftrightarrow> 16 \<le> length s \<and> length s \<le> 64 \<and> (\<forall>c \<in> set s. char_in CHR ''A'' CHR ''Z'' c \<or> char_in CHR ''a'' CHR ''z'' c
     \<or> char_in CHR ''0'' CHR ''9'' c \<or> c = CHR ''_'' \<or> c = CHR ''-'')"

definition is_valid_idempotency_key :: "string \<Rightarrow> bool" where
  "is_valid_idempotency_key s \<longleftrightarrow> is_uuid s \<or> is_token s"

text \<open>\<open>JSON.stringify\<close> of a string.\<close>

definition hex_of :: "nat \<Rightarrow> char" where
  "hex_of n = (char_of (if n < 10 then 48 + n else 87 + n) :: char)"

definition json_escape :: "char \<Rightarrow> string" where
  "json_escape c = (let n = (of_char c :: nat) in
     if n = 34 then [CHR 0x5C, CHR 0x22] else if n = 92 then [CHR 0x5C, CHR 0x5C]
     else if n = 8 then [CHR 0x5C, CHR ''b''] else if n = 9 then [CHR 0x5C, CHR ''t'']
     else if n = 10 then [CHR 0x5C, CHR ''n''] else if n = 12 then [CHR 0x5C, CHR ''f'']
     else if n = 13 then [CHR 0x5C, CHR ''r'']
     else if n < 32 then [CHR 0x5C, CHR ''u'', CHR ''0'', CHR ''0'', hex_of (n div 16), hex_of (n mod 16)]
     else [c])"

definition json_string :: "string \<Rightarrow> string" where
  "json_string s = CHR 0x22 # concat (map json_escape s) @ [CHR 0x22]"

fun join_with :: "string \<Rightarrow> string list \<Rightarrow> string" where
  "join_with sep [] = []"
| "join_with sep [x] = x"
| "join_with sep (x # y # xs) = x @ sep @ join_with sep (y # xs)"

text \<open>
  Keys in the order of \<open>sort()\<close>. A number is kept as the text JavaScript prints for it; a parsed body has no
  \<open>undefined\<close> member for the filter to drop.
\<close>

fun canonical_json :: "json \<Rightarrow> string" where
  "canonical_json J_null = ''null''"
| "canonical_json (J_bool b) = (if b then ''true'' else ''false'')"
| "canonical_json (J_num n) = n"
| "canonical_json (J_str s) = json_string s"
| "canonical_json (J_arr xs) = ''['' @ join_with '','' (map canonical_json xs) @ '']''"
| "canonical_json (J_obj kvs) = ''{'' @ join_with '','' (map (\<lambda>(k, s). json_string k @ '':'' @ s)
     (sort_key fst (map (\<lambda>(k, v). (k, canonical_json v)) kvs))) @ ''}''"

definition fingerprint_text :: "idem_env \<Rightarrow> string \<Rightarrow> string \<Rightarrow> json option \<Rightarrow> string" where
  "fingerprint_text ie mthd path body = map (ie_upper ie) mthd @ '' '' @ path @ [CHR 10]
     @ canonical_json (case body of None \<Rightarrow> J_obj [] | Some J_null \<Rightarrow> J_obj [] | Some b \<Rightarrow> b)"

definition request_fingerprint :: "idem_env \<Rightarrow> string \<Rightarrow> string \<Rightarrow> json option \<Rightarrow> string" where
  "request_fingerprint ie mthd path body = ie_sha ie (fingerprint_text ie mthd path body)"

section \<open>The table\<close>

definition is_key :: "nat \<Rightarrow> string \<Rightarrow> string \<Rightarrow> idem_key \<Rightarrow> bool" where
  "is_key uid route key r \<longleftrightarrow> ik_userId r = uid \<and> ik_route r = route \<and> ik_key r = key"

definition new_key :: "nat \<Rightarrow> nat \<Rightarrow> string \<Rightarrow> string \<Rightarrow> string \<Rightarrow> int \<Rightarrow> int \<Rightarrow> idem_key" where
  "new_key k uid key route fp now at_insert = \<lparr>ik_id = k, ik_userId = uid, ik_key = key, ik_route = route, ik_fingerprint = fp,
     ik_state = In_progress, ik_responseStatus = None, ik_responseBody = None, ik_updatedAt = at_insert,
     ik_expiresAt = now + IDEMPOTENCY_TTL_MS\<rparr>"

text \<open>\<open>INSERT ... ON CONFLICT DO NOTHING RETURNING id\<close>; \<open>updated_at\<close> is the database's clock.\<close>

definition insert_key :: "nat \<Rightarrow> string \<Rightarrow> string \<Rightarrow> string \<Rightarrow> int \<Rightarrow> nat option act" where
  "insert_key uid key route fp now =
     bnd (asks (\<lambda>w. \<exists>r \<in> set (t_keys (w_db w)). is_key uid route key r)) (\<lambda>taken.
     if taken then ret None
     else bnd (asks clock) (\<lambda>t. bnd (fresh T_keys) (\<lambda>k.
       andthen (with_db (\<lambda>d. d\<lparr>t_keys := t_keys d @ [new_key k uid key route fp now t]\<rparr>)) (ret (Some k)))))"

definition find_key :: "db \<Rightarrow> nat \<Rightarrow> string \<Rightarrow> string \<Rightarrow> idem_key option" where
  "find_key d uid route key = find (is_key uid route key) (t_keys d)"

definition delete_expired_key :: "nat \<Rightarrow> unit act" where
  "delete_expired_key k = bnd (asks clock) (\<lambda>now.
     with_db (\<lambda>d. d\<lparr>t_keys := filter (\<lambda>r. \<not> (ik_id r = k \<and> ik_expiresAt r < now)) (t_keys d)\<rparr>))"

definition stale_key :: "nat \<Rightarrow> int \<Rightarrow> idem_key \<Rightarrow> bool" where
  "stale_key k now r \<longleftrightarrow> ik_id r = k \<and> ik_state r = In_progress \<and> ik_updatedAt r < now - IDEMPOTENCY_STALE_MS"

definition take_over_key :: "nat \<Rightarrow> int \<Rightarrow> bool act" where
  "take_over_key k now =
     bnd (asks (\<lambda>w. \<exists>r \<in> set (t_keys (w_db w)). stale_key k now r)) (\<lambda>hit.
     andthen (with_db (\<lambda>d. d\<lparr>t_keys := update_where (stale_key k now) (\<lambda>r. r\<lparr>ik_updatedAt := now\<rparr>) (t_keys d)\<rparr>)) (ret hit))"

datatype begin_result = Key_started nat | Key_replay nat stored_response

text \<open>What is left of a round once the insert found the key taken and the row was looked up; \<open>again\<close> is the next round.\<close>

definition judge_key :: "string \<Rightarrow> int \<Rightarrow> begin_result act \<Rightarrow> idem_key option \<Rightarrow> begin_result act" where
  "judge_key fp now again row0 = (case row0 of None \<Rightarrow> again
     | Some row \<Rightarrow>
         if ik_expiresAt row \<le> now then andthen (delete_expired_key (ik_id row)) again
         else if ik_fingerprint row \<noteq> fp then throw (Idempotency_error Key_reused)
         else if ik_state row = Completed \<and> ik_responseBody row \<noteq> None
           then ret (Key_replay (case ik_responseStatus row of Some st \<Rightarrow> st | None \<Rightarrow> 200) (the (ik_responseBody row)))
         else if now - ik_updatedAt row > IDEMPOTENCY_STALE_MS
           then bnd (take_over_key (ik_id row) now) (\<lambda>hit.
             if hit then ret (Key_started (ik_id row)) else throw (Idempotency_error Key_in_progress))
         else throw (Idempotency_error Key_in_progress))"

fun begin_rounds :: "nat \<Rightarrow> nat \<Rightarrow> string \<Rightarrow> string \<Rightarrow> string \<Rightarrow> begin_result act" where
  "begin_rounds 0 uid key route fp = throw (Idempotency_error Key_in_progress)"
| "begin_rounds (Suc n) uid key route fp =
     bnd (asks clock) (\<lambda>now.
     bnd (insert_key uid key route fp now) (\<lambda>id0. case id0 of Some k \<Rightarrow> ret (Key_started k)
     | None \<Rightarrow> bnd (asks (\<lambda>w. find_key (w_db w) uid route key)) (judge_key fp now (begin_rounds n uid key route fp))))"

definition begin_key :: "nat \<Rightarrow> string \<Rightarrow> string \<Rightarrow> string \<Rightarrow> begin_result act" where
  "begin_key = begin_rounds 3"

text \<open>Every \<open>update\<close> of a row stamps its \<open>updated_at\<close>.\<close>

definition store_response :: "nat \<Rightarrow> nat \<Rightarrow> stored_response \<Rightarrow> unit act" where
  "store_response k st stored = bnd (asks clock) (\<lambda>now.
     with_db (\<lambda>d. d\<lparr>t_keys := update_where (\<lambda>r. ik_id r = k)
       (\<lambda>r. r\<lparr>ik_state := Completed, ik_responseStatus := Some st, ik_responseBody := Some stored, ik_updatedAt := now\<rparr>) (t_keys d)\<rparr>))"

definition release_key :: "nat \<Rightarrow> unit act" where
  "release_key k = with_db (\<lambda>d. d\<lparr>t_keys := filter (\<lambda>r. ik_id r \<noteq> k) (t_keys d)\<rparr>)"

definition purge_expired_keys :: "nat act" where
  "purge_expired_keys = bnd (asks clock) (\<lambda>now.
     bnd (asks (\<lambda>w. length (filter (\<lambda>r. ik_expiresAt r < now) (t_keys (w_db w))))) (\<lambda>removed.
     andthen (with_db (\<lambda>d. d\<lparr>t_keys := filter (\<lambda>r. \<not> ik_expiresAt r < now) (t_keys d)\<rparr>)) (ret removed)))"

section \<open>Outcomes\<close>

text \<open>What a handler does: a body, an HTTP exception with its status, class name and response, or any other error.\<close>

datatype handler_outcome = Replied json | Http_error nat string json | Crashed

definition json_field :: "string \<Rightarrow> json \<Rightarrow> json option" where
  "json_field k v = (case v of J_obj kvs \<Rightarrow> map_of kvs k | _ \<Rightarrow> None)"

definition OWN_CODES :: "string set" where
  "OWN_CODES = {''IDEMPOTENCY_KEY_INVALID'', ''IDEMPOTENCY_KEY_REUSED'', ''IDEMPOTENCY_IN_PROGRESS''}"

definition storable :: "nat \<Rightarrow> json \<Rightarrow> bool" where
  "storable st response \<longleftrightarrow> \<not> (500 \<le> st \<or> st \<in> {401, 403, 408, 425, 429})
     \<and> (case json_field ''errorCode'' response of Some (J_str code) \<Rightarrow> code \<notin> OWN_CODES | _ \<Rightarrow> True)"

definition complete_key :: "nat \<Rightarrow> nat \<Rightarrow> json \<Rightarrow> unit act" where
  "complete_key k st body = store_response k st (Stored_success body)"

definition fail_key :: "nat \<Rightarrow> handler_outcome \<Rightarrow> unit act" where
  "fail_key k out = (case out of
     Http_error st name response \<Rightarrow> if storable st response then store_response k st (Stored_error name response) else release_key k
   | _ \<Rightarrow> release_key k)"

text \<open>\<open>{ ...body, errorCode: body.errorCode ?? name }\<close>.\<close>

definition set_field :: "string \<Rightarrow> json \<Rightarrow> (string \<times> json) list \<Rightarrow> (string \<times> json) list" where
  "set_field k v kvs = (if k \<in> fst ` set kvs then map (\<lambda>(x, y). if x = k then (x, v) else (x, y)) kvs else kvs @ [(k, v)])"

definition or_name :: "json option \<Rightarrow> string \<Rightarrow> json" where
  "or_name v name = (case v of None \<Rightarrow> J_str name | Some J_null \<Rightarrow> J_str name | Some x \<Rightarrow> x)"

definition to_exception :: "nat \<Rightarrow> stored_response \<Rightarrow> handler_outcome" where
  "to_exception st stored =
     (let name = (case stored of Stored_error n _ \<Rightarrow> n | Stored_success _ \<Rightarrow> ''HttpException'');
          body = (case stored of Stored_error _ b \<Rightarrow> b | Stored_success b \<Rightarrow> b);
          errorCode = ''errorCode'';
          response = (case body of
              J_obj kvs \<Rightarrow> J_obj (set_field errorCode (or_name (json_field errorCode body) name) kvs)
            | J_arr xs \<Rightarrow> J_obj (map (\<lambda>(i, x). (show_nat i, x)) (enumerate 0 xs) @ [(errorCode, J_str name)])
            | J_str s \<Rightarrow> J_obj [(''message'', J_str s), (errorCode, J_str name)]
            | _ \<Rightarrow> J_obj [(''message'', J_str []), (errorCode, J_str name)])
      in Http_error st ''HttpException'' response)"

text \<open>The interceptor: with no key or no user the handler runs as it is.\<close>

definition intercept :: "idem_env \<Rightarrow> nat option \<Rightarrow> string option \<Rightarrow> string \<Rightarrow> string \<Rightarrow> string \<Rightarrow> json option \<Rightarrow> nat
    \<Rightarrow> handler_outcome act \<Rightarrow> (bool \<times> handler_outcome) act" where
  "intercept ie uid0 key0 mthd template path body st handle =
     (let plain = bnd handle (\<lambda>out. ret (False, out)) in
      case key0 of None \<Rightarrow> plain
      | Some key \<Rightarrow> andthen (guard (is_valid_idempotency_key key) (Idempotency_error Key_invalid))
          (case uid0 of None \<Rightarrow> plain
           | Some uid \<Rightarrow>
               bnd (begin_key uid key (take 80 (mthd @ '' '' @ template)) (request_fingerprint ie mthd path body)) (\<lambda>begun.
               case begun of
                 Key_replay stored_st stored \<Rightarrow> (case stored of
                     Stored_error _ _ \<Rightarrow> ret (True, to_exception stored_st stored) | Stored_success b \<Rightarrow> ret (True, Replied b))
               | Key_started k \<Rightarrow> bnd handle (\<lambda>out.
                   case out of Replied b \<Rightarrow> andthen (complete_key k st b) (ret (False, out))
                   | _ \<Rightarrow> andthen (fail_key k out) (ret (False, out))))))"

section \<open>Rendering an error\<close>

text \<open>The envelope, but for the time and the path: status, message, error, seconds to wait, details and data.\<close>

record envelope =
  en_status :: nat
  en_message :: json
  en_error :: "string option"
  en_retryAfter :: "string option"
  en_details :: "(string \<times> json) list option"
  en_data :: "json option"

definition truthy_json :: "json \<Rightarrow> bool" where
  "truthy_json v \<longleftrightarrow> (case v of J_null \<Rightarrow> False | J_bool b \<Rightarrow> b | J_num n \<Rightarrow> n \<noteq> ''0'' | J_str s \<Rightarrow> s \<noteq> [] | _ \<Rightarrow> True)"

definition sanitize_details :: "json option \<Rightarrow> (string \<times> json) list option" where
  "sanitize_details d = (let safe = (case d of
        Some (J_obj kvs) \<Rightarrow> filter (\<lambda>(k, v). case v of J_str _ \<Rightarrow> True | J_bool _ \<Rightarrow> True | J_num _ \<Rightarrow> True | _ \<Rightarrow> False) kvs
      | Some (J_arr xs) \<Rightarrow> filter (\<lambda>(k, v). case v of J_str _ \<Rightarrow> True | J_bool _ \<Rightarrow> True | J_num _ \<Rightarrow> True | _ \<Rightarrow> False)
          (map (\<lambda>(i, x). (show_nat i, x)) (enumerate 0 xs))
      | _ \<Rightarrow> [])
    in if safe = [] then None else Some safe)"

definition render_error :: "idem_env \<Rightarrow> bool \<Rightarrow> nat \<Rightarrow> string \<Rightarrow> json \<Rightarrow> envelope" where
  "render_error ie production st name response =
     (let text = ie_message ie name response;
          message = (case json_field ''message'' response of
              Some m \<Rightarrow> if truthy_json m then m else J_str (if text \<noteq> [] then text else ''An error occurred'')
            | None \<Rightarrow> J_str (if text \<noteq> [] then text else ''An error occurred''));
          code = (case json_field ''errorCode'' response of Some (J_str c) \<Rightarrow> if c \<noteq> [] then c else name | _ \<Rightarrow> name);
          retry = (case json_field ''retryAfterSeconds'' response of Some (J_num n) \<Rightarrow> Some n | _ \<Rightarrow> None);
          details = sanitize_details (json_field ''details'' response);
          data = (case json_field ''data'' response of Some J_null \<Rightarrow> None | d \<Rightarrow> d)
      in if 400 \<le> st \<and> st < 500
         then \<lparr>en_status = st, en_message = message, en_error = Some code, en_retryAfter = retry, en_details = details, en_data = data\<rparr>
         else \<lparr>en_status = st, en_message = (if production then J_str ''Something went wrong. Please try again later.'' else message),
           en_error = (if production then None else Some code), en_retryAfter = (if production then None else retry),
           en_details = (if production then None else details), en_data = None\<rparr>)"

end
