(* ===== verification/Fingerprints.thy ===== *)
theory Fingerprints
  imports Idempotency
begin

text \<open>
  The canonical text of a request body determines the body up to the order of object members, so two requests have the
  same fingerprint exactly when they are the same request.
\<close>

section \<open>Reading back\<close>

lemma char_code: "(of_char c :: nat) = n \<Longrightarrow> c = char_of n"
  by (metis char_of_char)

lemma hex_of_inj: "m < 16 \<Longrightarrow> n < 16 \<Longrightarrow> hex_of m = hex_of n \<Longrightarrow> m = n"
proof -
  assume "m < 16" "n < 16" "hex_of m = hex_of n"
  then have "(if m < 10 then 48 + m else 87 + m) mod 256 = (if n < 10 then 48 + n else 87 + n) mod (256 :: nat)"
    unfolding hex_of_def by (metis of_char_of)
  then show "m = n" using \<open>m < 16\<close> \<open>n < 16\<close> by (auto split: if_splits)
qed

lemma of_char_inj: "(of_char c :: nat) = of_char d \<Longrightarrow> c = d"
  by (metis char_of_char)

lemma json_escape_cases:
  obtains (plain) "json_escape c = [c]" "c \<noteq> CHR 0x5C" "c \<noteq> CHR 0x22"
  | (short) x where "json_escape c = [CHR 0x5C, x]" "x \<noteq> CHR ''u''"
  | (long) "json_escape c = [CHR 0x5C, CHR ''u'', CHR ''0'', CHR ''0'', hex_of (of_char c div 16), hex_of (of_char c mod 16)]" "of_char c < (32 :: nat)"
proof -
  consider "of_char c \<in> {34, 92, 8, 9, 10, 12, 13 :: nat}" | "of_char c \<notin> {34, 92, 8, 9, 10, 12, 13 :: nat}" "of_char c < (32 :: nat)"
    | "of_char c \<notin> {34, 92 :: nat}" "\<not> of_char c < (32 :: nat)" by fastforce
  then show thesis
  proof cases
    case 1
    then show ?thesis by (intro short [of "json_escape c ! 1"]) (auto simp: json_escape_def)
  next
    case 2
    then show ?thesis by (intro long) (auto simp: json_escape_def Let_def)
  next
    case 3
    have "c \<noteq> CHR 0x5C" "c \<noteq> CHR 0x22" using 3 by auto
    then show ?thesis using 3 by (intro plain) (auto simp: json_escape_def Let_def)
  qed
qed

lemma short_escape_inj:
  assumes "json_escape c = [CHR 0x5C, x]" and "json_escape d = [CHR 0x5C, x]"
  shows "c = d"
proof -
  have "(of_char c :: nat) = of_char d" using assms by (auto simp: json_escape_def Let_def simp del: of_char_eq_iff split: if_splits)
  then show ?thesis by (rule of_char_inj)
qed

lemma json_escape_prefix:
  assumes "json_escape c @ r = json_escape d @ s"
  shows "c = d \<and> r = s"
proof (cases c rule: json_escape_cases)
  case plain
  then show ?thesis using assms by (cases d rule: json_escape_cases) auto
next
  case (short x)
  then show ?thesis using assms short_escape_inj [of c x d] by (cases d rule: json_escape_cases) auto
next
  case long
  then show ?thesis
  proof (cases d rule: json_escape_cases)
    case long2: long
    have a: "hex_of (of_char c div 16) = hex_of (of_char d div 16)" "hex_of (of_char c mod 16) = hex_of (of_char d mod 16)" "r = s"
      using assms long long2 by auto
    have "(of_char c :: nat) div 16 = of_char d div 16" using a(1) long(2) long2(2) by (intro hex_of_inj) auto
    moreover have "(of_char c :: nat) mod 16 = of_char d mod 16" using a(2) by (intro hex_of_inj) auto
    ultimately have "(of_char c :: nat) = of_char d" by (metis div_mult_mod_eq)
    then show ?thesis using a(3) of_char_inj by simp
  qed (use assms in auto)
qed

lemma json_escape_start: "json_escape c \<noteq> [] \<and> hd (json_escape c) \<noteq> CHR 0x22"
  by (cases c rule: json_escape_cases) auto

lemma escaped_prefix:
  "concat (map json_escape s) @ CHR 0x22 # r = concat (map json_escape t) @ CHR 0x22 # r' \<Longrightarrow> s = t \<and> r = r'"
proof (induction s arbitrary: t)
  case Nil
  then show ?case
  proof (cases t)
    case (Cons d t')
    then show ?thesis using Nil json_escape_start [of d] by (cases "json_escape d") auto
  qed simp
next
  case (Cons c s)
  show ?case
  proof (cases t)
    case Nil
    then show ?thesis using Cons.prems json_escape_start [of c] by (cases "json_escape c") auto
  next
    case t: (Cons d t')
    have "json_escape c @ (concat (map json_escape s) @ CHR 0x22 # r) = json_escape d @ (concat (map json_escape t') @ CHR 0x22 # r')"
      using Cons.prems t by simp
    from json_escape_prefix [OF this] show ?thesis using Cons.IH [of t'] t by simp
  qed
qed

lemma json_string_prefix: "json_string s @ r = json_string t @ r' \<Longrightarrow> s = t \<and> r = r'"
  using escaped_prefix [of s r t r'] by (simp add: json_string_def)

section \<open>Values\<close>

definition num_char :: "char \<Rightarrow> bool" where
  "num_char c \<longleftrightarrow> c \<in> set ''0123456789+-.e''"

text \<open>Values a parsed body can be: numbers print as such, and an object's keys are distinct.\<close>

fun wf_json :: "json \<Rightarrow> bool" where
  "wf_json (J_num n) = (n \<noteq> [] \<and> (\<forall>c \<in> set n. num_char c))"
| "wf_json (J_arr xs) = (\<forall>x \<in> set xs. wf_json x)"
| "wf_json (J_obj kvs) = (distinct (map fst kvs) \<and> (\<forall>(k, v) \<in> set kvs. wf_json v))"
| "wf_json _ = True"

text \<open>The same value with its members in order: what the order of members does not matter for.\<close>

fun ordered :: "json \<Rightarrow> json" where
  "ordered (J_arr xs) = J_arr (map ordered xs)"
| "ordered (J_obj kvs) = J_obj (sort_key fst (map (\<lambda>(k, v). (k, ordered v)) kvs))"
| "ordered v = v"

definition delimited :: "string \<Rightarrow> bool" where
  "delimited r \<longleftrightarrow> r = [] \<or> hd r \<in> {CHR '','', CHR '']'', CHR ''}''}"

lemma sort_key_map_snd: "sort_key fst (map (\<lambda>(k, v). (k, f v)) kvs) = map (\<lambda>(k, v). (k, f v)) (sort_key fst kvs)"
proof (induction kvs)
  case (Cons kv kvs)
  have "insort_key fst (case x of (k, v) \<Rightarrow> (k, f v)) (map (\<lambda>(k, v). (k, f v)) ys) = map (\<lambda>(k, v). (k, f v)) (insort_key fst x ys)" for x ys
    by (induction ys) (auto split: prod.splits)
  then show ?case using Cons by (simp add: insort_key_def)
qed simp


lemma join_Cons: "join_with sep (x # xs) = x @ concat (map (\<lambda>y. sep @ y) xs)"
proof (induction xs arbitrary: x)
  case (Cons y ys)
  then show ?case by simp
qed simp

text \<open>A list printed with commas and a closing bracket reads back when its elements do.\<close>

definition reads_back :: "('a \<Rightarrow> string) \<Rightarrow> ('a \<Rightarrow> 'b) \<Rightarrow> ('a \<Rightarrow> bool) \<Rightarrow> 'a \<Rightarrow> bool" where
  "reads_back f g Q x \<longleftrightarrow> (\<forall>y r s. Q y \<longrightarrow> delimited r \<longrightarrow> delimited s \<longrightarrow> f x @ r = f y @ s \<longrightarrow> g x = g y \<and> r = s)"

lemma tail_prefix:
  assumes "\<forall>x \<in> set xs. reads_back f g Q x" and "\<forall>y \<in> set ys. Q y" and "e \<in> {CHR '']'', CHR ''}''}"
    and "concat (map (\<lambda>x. '','' @ f x) xs) @ e # r = concat (map (\<lambda>x. '','' @ f x) ys) @ e # s"
  shows "map g xs = map g ys \<and> r = s"
  using assms
proof (induction xs arbitrary: ys)
  case Nil
  then show ?case by (cases ys) auto
next
  case (Cons x xs)
  show ?case
  proof (cases ys)
    case Nil
    then show ?thesis using Cons.prems by auto
  next
    case ys: (Cons y ys')
    have d: "delimited (concat (map (\<lambda>x. '','' @ f x) zs) @ e # t)" for zs t
      using Cons.prems(3) by (cases zs) (auto simp: delimited_def)
    have "f x @ (concat (map (\<lambda>x. '','' @ f x) xs) @ e # r) = f y @ (concat (map (\<lambda>x. '','' @ f x) ys') @ e # s)"
      using Cons.prems(4) ys by simp
    then have "g x = g y \<and> concat (map (\<lambda>x. '','' @ f x) xs) @ e # r = concat (map (\<lambda>x. '','' @ f x) ys') @ e # s"
      using Cons.prems(1,2) ys d unfolding reads_back_def by (metis list.set_intros(1))
    then show ?thesis using Cons.IH [of ys'] Cons.prems(1-3) ys by auto
  qed
qed

lemma joined_prefix:
  assumes "\<forall>x \<in> set xs. reads_back f g Q x" and "\<forall>y \<in> set ys. Q y" and e: "e \<in> {CHR '']'', CHR ''}''}"
    and start: "\<forall>x \<in> set xs \<union> set ys. f x \<noteq> [] \<and> hd (f x) \<noteq> e"
    and eq: "join_with '','' (map f xs) @ e # r = join_with '','' (map f ys) @ e # s"
  shows "map g xs = map g ys \<and> r = s"
proof (cases xs)
  case Nil
  then show ?thesis using eq start by (cases ys) (auto simp: join_Cons neq_Nil_conv)
next
  case (Cons x xs')
  show ?thesis
  proof (cases ys)
    case Nil
    then show ?thesis using eq start Cons by (auto simp: join_Cons neq_Nil_conv)
  next
    case ys: (Cons y ys')
    have comma: "map ((@) '','' \<circ> f) zs = map (\<lambda>x. '','' @ f x) zs" for zs by simp
    have d: "delimited (concat (map (\<lambda>x. '','' @ f x) zs) @ e # t)" for zs t using e by (cases zs) (auto simp: delimited_def)
    have eq': "f x @ (concat (map (\<lambda>x. '','' @ f x) xs') @ e # r) = f y @ (concat (map (\<lambda>x. '','' @ f x) ys') @ e # s)"
      using eq unfolding Cons ys by (simp add: join_Cons comp_def)
    have "reads_back f g Q x" "Q y" using assms(1,2) Cons ys by auto
    then have "g x = g y \<and> concat (map (\<lambda>x. '','' @ f x) xs') @ e # r = concat (map (\<lambda>x. '','' @ f x) ys') @ e # s"
      using eq' d [of xs' r] d [of ys' s] unfolding reads_back_def by blast
    then show ?thesis using tail_prefix [of xs' f g Q ys' e r s] assms(1,2) e Cons ys by auto
  qed
qed

text \<open>What a value starts with tells its kind.\<close>

fun starts_as :: "json \<Rightarrow> char \<Rightarrow> bool" where
  "starts_as J_null c = (c = CHR ''n'')"
| "starts_as (J_bool b) c = (c = (if b then CHR ''t'' else CHR ''f''))"
| "starts_as (J_num n) c = num_char c"
| "starts_as (J_str s) c = (c = CHR 0x22)"
| "starts_as (J_arr xs) c = (c = CHR ''['')"
| "starts_as (J_obj kvs) c = (c = CHR ''{'')"

lemma canonical_starts: "wf_json v \<Longrightarrow> \<exists>c cs. canonical_json v = c # cs \<and> starts_as v c"
  by (cases v) (auto simp: json_string_def neq_Nil_conv)

lemma number_prefix:
  assumes "\<forall>c \<in> set m. num_char c" "\<forall>c \<in> set n. num_char c" "delimited r" "delimited s" "m @ r = n @ s"
  shows "m = n \<and> r = s"
proof -
  have stop: "takeWhile num_char (k @ t) = k" if "\<forall>c \<in> set k. num_char c" "delimited t" for k t
    using that by (cases t) (auto simp: delimited_def num_char_def)
  have "m = n" using stop [OF assms(1,3)] stop [OF assms(2,4)] assms(5) by simp
  then show ?thesis using assms(5) by simp
qed

definition member_text :: "string \<times> json \<Rightarrow> string" where
  "member_text kv = json_string (fst kv) @ '':'' @ canonical_json (snd kv)"

lemma canonical_object: "canonical_json (J_obj kvs) = ''{'' @ join_with '','' (map member_text (sort_key fst kvs)) @ ''}''"
proof -
  have "(\<lambda>(k, s). json_string k @ '':'' @ s) \<circ> (\<lambda>(k, v). (k, canonical_json v)) = member_text"
    by (auto simp: member_text_def fun_eq_iff)
  then show ?thesis by (simp only: canonical_json.simps sort_key_map_snd map_map)
qed

lemma same_start:
  assumes "wf_json a" "wf_json y" "canonical_json a @ r = canonical_json y @ s"
  shows "\<exists>c. starts_as a c \<and> starts_as y c"
  using canonical_starts [OF assms(1)] canonical_starts [OF assms(2)] assms(3) by auto

lemma kinds:
  "starts_as y CHR ''n'' \<longleftrightarrow> y = J_null" "starts_as y CHR ''t'' \<longleftrightarrow> y = J_bool True" "starts_as y CHR ''f'' \<longleftrightarrow> y = J_bool False"
  "starts_as y CHR 0x22 \<longleftrightarrow> (\<exists>t. y = J_str t)" "starts_as y CHR ''['' \<longleftrightarrow> (\<exists>ys. y = J_arr ys)" "starts_as y CHR ''{'' \<longleftrightarrow> (\<exists>kvs. y = J_obj kvs)"
  by (cases y; simp add: num_char_def)+

lemma num_kind: "num_char c \<Longrightarrow> starts_as y c \<Longrightarrow> \<exists>n. y = J_num n"
  by (cases y) (auto simp: num_char_def split: if_splits)

lemma canonical_reads_back: "wf_json a \<Longrightarrow> reads_back canonical_json ordered wf_json a"
proof (induction a)
  case J_null
  show ?case unfolding reads_back_def
  proof (intro allI impI)
    fix y r s assume y: "wf_json y" "delimited r" "delimited s" "canonical_json J_null @ r = canonical_json y @ s"
    have "y = J_null" using same_start [OF J_null y(1,4)] by (auto simp: kinds)
    then show "ordered J_null = ordered y \<and> r = s" using y(4) by simp
  qed
next
  case (J_bool b)
  show ?case unfolding reads_back_def
  proof (intro allI impI)
    fix y r s assume y: "wf_json y" "delimited r" "delimited s" "canonical_json (J_bool b) @ r = canonical_json y @ s"
    have "y = J_bool b" using same_start [OF J_bool y(1,4)] by (cases b) (auto simp: kinds)
    then show "ordered (J_bool b) = ordered y \<and> r = s" using y(4) by simp
  qed
next
  case (J_num n)
  show ?case unfolding reads_back_def
  proof (intro allI impI)
    fix y r s assume y: "wf_json y" "delimited r" "delimited s" "canonical_json (J_num n) @ r = canonical_json y @ s"
    obtain m where m: "y = J_num m" using same_start [OF J_num y(1,4)] num_kind by auto
    have "n = m \<and> r = s" by (rule number_prefix) (use y J_num m in auto)
    then show "ordered (J_num n) = ordered y \<and> r = s" using m by simp
  qed
next
  case (J_str t)
  show ?case unfolding reads_back_def
  proof (intro allI impI)
    fix y r s assume y: "wf_json y" "delimited r" "delimited s" "canonical_json (J_str t) @ r = canonical_json y @ s"
    obtain m where m: "y = J_str m" using same_start [OF J_str y(1,4)] by (auto simp: kinds)
    have "json_string t @ r = json_string m @ s" using y(4) m by simp
    from json_string_prefix [OF this] show "ordered (J_str t) = ordered y \<and> r = s" using m by simp
  qed
next
  case (J_arr xs)
  show ?case unfolding reads_back_def
  proof (intro allI impI)
    fix y r s assume y: "wf_json y" "delimited r" "delimited s" "canonical_json (J_arr xs) @ r = canonical_json y @ s"
    obtain ys where ys: "y = J_arr ys" using same_start [OF J_arr.prems y(1,4)] by (auto simp: kinds)
    have start: "\<forall>x \<in> set xs \<union> set ys. canonical_json x \<noteq> [] \<and> hd (canonical_json x) \<noteq> CHR '']''"
    proof
      fix x assume "x \<in> set xs \<union> set ys"
      then have "wf_json x" using J_arr.prems y(1) ys by auto
      then obtain c cs where c: "canonical_json x = c # cs" "starts_as x c" using canonical_starts by blast
      have "c \<noteq> CHR '']''" using c(2) by (cases x) (auto simp: num_char_def)
      then show "canonical_json x \<noteq> [] \<and> hd (canonical_json x) \<noteq> CHR '']''" using c(1) by simp
    qed
    have "map ordered xs = map ordered ys \<and> r = s"
      by (rule joined_prefix [where f = canonical_json and g = ordered and Q = wf_json and e = "CHR '']''"])
        (use J_arr y ys start in auto)
    then show "ordered (J_arr xs) = ordered y \<and> r = s" using ys by simp
  qed
next
  case (J_obj kvs)
  have ih: "reads_back canonical_json ordered wf_json v" if "(k, v) \<in> set kvs" for k v
    using J_obj.IH [of "(k, v)" v] J_obj.prems that by (auto simp: snds.intros)
  show ?case unfolding reads_back_def
  proof (intro allI impI)
    fix y r s assume y: "wf_json y" "delimited r" "delimited s" "canonical_json (J_obj kvs) @ r = canonical_json y @ s"
    obtain ys where ys: "y = J_obj ys" using same_start [OF J_obj.prems y(1,4)] by (auto simp: kinds)
    let ?xs = "sort_key fst kvs" and ?ys = "sort_key fst ys" and ?g = "\<lambda>(k, v). (k :: string, ordered v)"
    have members: "\<forall>x \<in> set ?xs. reads_back member_text ?g (\<lambda>(k, v). wf_json v) x"
    proof
      fix x assume "x \<in> set ?xs"
      then have "x \<in> set kvs" by simp
      moreover obtain k v where "x = (k, v)" by fastforce
      ultimately have x: "x = (k, v)" "(k, v) \<in> set kvs" by simp_all
      show "reads_back member_text ?g (\<lambda>(k, v). wf_json v) x"
        unfolding reads_back_def
      proof (intro allI impI)
        fix z p q assume z: "(\<lambda>(k, v). wf_json v) z" "delimited p" "delimited q" "member_text x @ p = member_text z @ q"
        obtain k' v' where kv: "z = (k', v')" by fastforce
        have "json_string k @ (CHR '':'' # canonical_json v @ p) = json_string k' @ (CHR '':'' # canonical_json v' @ q)"
          using z(4) x kv by (simp add: member_text_def)
        from json_string_prefix [OF this] have "k = k'" "canonical_json v @ p = canonical_json v' @ q" by auto
        then show "?g x = ?g z \<and> p = q" using ih [OF x(2)] z(1-3) x kv unfolding reads_back_def by auto
      qed
    qed
    have "map ?g ?xs = map ?g ?ys \<and> r = s"
    proof (rule joined_prefix [OF members])
      show "\<forall>z \<in> set ?ys. (\<lambda>(k, v). wf_json v) z" using y(1) ys by auto
      show "\<forall>x \<in> set ?xs \<union> set ?ys. member_text x \<noteq> [] \<and> hd (member_text x) \<noteq> CHR ''}''"
        by (auto simp: member_text_def json_string_def)
      show "join_with '','' (map member_text ?xs) @ CHR ''}'' # r = join_with '','' (map member_text ?ys) @ CHR ''}'' # s"
        using y(4) unfolding ys canonical_object by simp
    qed simp
    then show "ordered (J_obj kvs) = ordered y \<and> r = s" using ys by (simp add: sort_key_map_snd)
  qed
qed


section \<open>Fingerprints\<close>

lemma sort_key_again: "sort_key f (sort_key f xs) = sort_key f xs"
  by (rule sort_key_id_if_sorted) simp

lemma canonical_ordered: "canonical_json (ordered a) = canonical_json a"
proof (induction a)
  case (J_arr xs)
  then have "map (canonical_json \<circ> ordered) xs = map canonical_json xs" by simp
  then show ?case by (simp only: ordered.simps canonical_json.simps map_map)
next
  case (J_obj kvs)
  have "member_text (k, ordered v) = member_text (k, v)" if "(k, v) \<in> set kvs" for k v
    using J_obj.IH [of "(k, v)" v] that by (auto simp: member_text_def snds.intros)
  then have "map (member_text \<circ> (\<lambda>(k, v). (k, ordered v))) (sort_key fst kvs) = map member_text (sort_key fst kvs)"
    by (intro map_cong) auto
  then show ?case by (simp only: ordered.simps canonical_object sort_key_again) (simp only: sort_key_map_snd map_map)
qed simp_all

lemma canonical_exact:
  assumes "wf_json a" "wf_json b"
  shows "canonical_json a = canonical_json b \<longleftrightarrow> ordered a = ordered b"
proof
  assume "canonical_json a = canonical_json b"
  then have "canonical_json a @ [] = canonical_json b @ []" by simp
  then show "ordered a = ordered b" using canonical_reads_back [OF assms(1)] assms(2) unfolding reads_back_def
    by (metis delimited_def)
next
  assume "ordered a = ordered b"
  then show "canonical_json a = canonical_json b" by (metis canonical_ordered)
qed

lemma members_unordered:
  assumes "distinct (map fst kvs)" "distinct (map fst kvs')" "set kvs = set kvs'"
  shows "ordered (J_obj kvs) = ordered (J_obj kvs')"
proof -
  have "inj_on fst (set (sort_key fst kvs) \<union> set (sort_key fst kvs'))" using assms by (simp add: distinct_map)
  then have "sort_key fst kvs = sort_key fst kvs'"
    using assms by (intro map_sorted_distinct_set_unique [of fst]) (auto simp: distinct_map)
  then show ?thesis by (simp add: sort_key_map_snd)
qed

definition body_of :: "json option \<Rightarrow> json" where
  "body_of body = (case body of None \<Rightarrow> J_obj [] | Some J_null \<Rightarrow> J_obj [] | Some b \<Rightarrow> b)"

lemma split_at: "a \<notin> set xs \<Longrightarrow> a \<notin> set ys \<Longrightarrow> xs @ a # r = ys @ a # s \<Longrightarrow> xs = ys \<and> r = s"
proof (induction xs arbitrary: ys)
  case Nil
  then show ?case by (cases ys) auto
next
  case (Cons x xs)
  then show ?case by (cases ys) auto
qed


end
