(* ===== verification/IdempotencyRules.thy ===== *)
theory IdempotencyRules
  imports Fingerprints
begin

text \<open>
  What a key guarantees: while a handler runs no other one starts for the same key, but for a takeover after two
  minutes; and once it finished, repeats are answered with what it answered.
\<close>

section \<open>Overlapping requests\<close>

type_synonym key_name = "nat \<times> string \<times> string"

definition name_of :: "idem_key \<Rightarrow> key_name" where
  "name_of r = (ik_userId r, ik_route r, ik_key r)"

text \<open>What happened to keys, newest first: a handler began at the time its round read, a key was released, a row expired.\<close>

datatype key_event = Began key_name int | Let_go key_name | Ran_out key_name int

record key_desk =
  kd_world :: world
  kd_log :: "key_event list"

definition expired_rows :: "(idem_key \<Rightarrow> bool) \<Rightarrow> world \<Rightarrow> key_event list" where
  "expired_rows q w = map (\<lambda>r. Ran_out (name_of r) (clock w)) (filter (\<lambda>r. q r \<and> ik_expiresAt r < clock w) (t_keys (w_db w)))"

definition released_rows :: "nat \<Rightarrow> world \<Rightarrow> key_event list" where
  "released_rows k w = map (\<lambda>r. Let_go (name_of r)) (filter (\<lambda>r. ik_id r = k) (t_keys (w_db w)))"

text \<open>One statement at a time, of any number of requests; \<open>now\<close> is what a request's round read before.\<close>

inductive key_step :: "key_desk \<Rightarrow> key_desk \<Rightarrow> bool" where
  key_later: "clock (kd_world s) \<le> t \<Longrightarrow> key_step s (s\<lparr>kd_world := (kd_world s)\<lparr>clock := t\<rparr>\<rparr>)"
| key_inserted: "now \<le> clock (kd_world s) \<Longrightarrow> insert_key uid key route fp now (kd_world s) = (Inr (Some k), w') \<Longrightarrow>
    key_step s (s\<lparr>kd_world := w', kd_log := Began (uid, route, key) now # kd_log s\<rparr>)"
| key_taken_over: "now \<le> clock (kd_world s) \<Longrightarrow> r \<in> set (t_keys (w_db (kd_world s))) \<Longrightarrow>
    take_over_key (ik_id r) now (kd_world s) = (Inr True, w') \<Longrightarrow>
    key_step s (s\<lparr>kd_world := w', kd_log := Began (name_of r) now # kd_log s\<rparr>)"
| key_expired: "key_step s (s\<lparr>kd_world := snd (delete_expired_key k (kd_world s)),
    kd_log := expired_rows (\<lambda>r. ik_id r = k) (kd_world s) @ kd_log s\<rparr>)"
| keys_purged: "key_step s (s\<lparr>kd_world := snd (purge_expired_keys (kd_world s)),
    kd_log := expired_rows (\<lambda>_. True) (kd_world s) @ kd_log s\<rparr>)"
| key_stored: "key_step s (s\<lparr>kd_world := snd (store_response k st stored (kd_world s))\<rparr>)"
| key_released: "key_step s (s\<lparr>kd_world := snd (release_key k (kd_world s)), kd_log := released_rows k (kd_world s) @ kd_log s\<rparr>)"
| key_elsewhere: "t_keys (w_db w') = t_keys (w_db (kd_world s)) \<Longrightarrow> clock w' = clock (kd_world s) \<Longrightarrow>
    next_id w' T_keys = next_id (kd_world s) T_keys \<Longrightarrow> key_step s (s\<lparr>kd_world := w'\<rparr>)"

text \<open>When the newest handler of a key began, unless the key was released or expired since.\<close>

fun open_since :: "key_event list \<Rightarrow> key_name \<Rightarrow> int option" where
  "open_since [] x = None"
| "open_since (Began y t # l) x = (if y = x then Some t else open_since l x)"
| "open_since (Let_go y # l) x = (if y = x then None else open_since l x)"
| "open_since (Ran_out y t # l) x = (if y = x then None else open_since l x)"

fun sound_keys :: "key_event list \<Rightarrow> bool" where
  "sound_keys [] = True"
| "sound_keys (Began x t # l) = ((\<forall>t'. open_since l x = Some t' \<longrightarrow> t' + IDEMPOTENCY_STALE_MS < t) \<and> sound_keys l)"
| "sound_keys (Let_go x # l) = sound_keys l"
| "sound_keys (Ran_out x t # l) = ((\<exists>t0. Began x t0 \<in> set l \<and> t0 + IDEMPOTENCY_TTL_MS < t) \<and> sound_keys l)"

definition keys_ok :: "key_desk \<Rightarrow> bool" where
  "keys_ok s \<longleftrightarrow> (let rows = t_keys (w_db (kd_world s)) in
     distinct (map ik_id rows) \<and> distinct (map name_of rows) \<and> (\<forall>r \<in> set rows. ik_id r < next_id (kd_world s) T_keys)
     \<and> (\<forall>r \<in> set rows. \<exists>t0. Began (name_of r) t0 \<in> set (kd_log s) \<and> ik_expiresAt r = t0 + IDEMPOTENCY_TTL_MS)
     \<and> (\<forall>x t. open_since (kd_log s) x = Some t \<longrightarrow> (\<exists>r \<in> set rows. name_of r = x \<and> t \<le> ik_updatedAt r \<and> t \<le> clock (kd_world s)))
     \<and> sound_keys (kd_log s))"

subsection \<open>Runs of the statements\<close>

lemma is_key_name: "is_key uid route key r \<longleftrightarrow> name_of r = (uid, route, key)"
  by (auto simp: is_key_def name_of_def)

lemma insert_key_run: "insert_key uid key route fp now w =
    (if \<exists>r \<in> set (t_keys (w_db w)). name_of r = (uid, route, key) then (Inr None, w)
     else (Inr (Some (next_id w T_keys)), w\<lparr>next_id := (next_id w)(T_keys := Suc (next_id w T_keys)),
       w_db := (w_db w)\<lparr>t_keys := t_keys (w_db w) @ [new_key (next_id w T_keys) uid key route fp now (clock w)]\<rparr>\<rparr>))"
  by (simp add: insert_key_def run_simps is_key_name)

lemma take_over_run: "take_over_key k now w = (Inr (\<exists>r \<in> set (t_keys (w_db w)). stale_key k now r),
    w\<lparr>w_db := (w_db w)\<lparr>t_keys := update_where (stale_key k now) (\<lambda>r. r\<lparr>ik_updatedAt := now\<rparr>) (t_keys (w_db w))\<rparr>\<rparr>)"
  by (simp add: take_over_key_def run_simps)

lemma delete_expired_run: "delete_expired_key k w =
    (Inr (), w\<lparr>w_db := (w_db w)\<lparr>t_keys := filter (\<lambda>r. \<not> (ik_id r = k \<and> ik_expiresAt r < clock w)) (t_keys (w_db w))\<rparr>\<rparr>)"
  by (simp add: delete_expired_key_def run_simps)

lemma purge_run: "snd (purge_expired_keys w) = w\<lparr>w_db := (w_db w)\<lparr>t_keys := filter (\<lambda>r. \<not> (True \<and> ik_expiresAt r < clock w)) (t_keys (w_db w))\<rparr>\<rparr>"
  by (simp add: purge_expired_keys_def run_simps)

lemma store_run: "store_response k st stored w = (Inr (), w\<lparr>w_db := (w_db w)\<lparr>t_keys := update_where (\<lambda>r. ik_id r = k)
       (\<lambda>r. r\<lparr>ik_state := Completed, ik_responseStatus := Some st, ik_responseBody := Some stored, ik_updatedAt := clock w\<rparr>)
       (t_keys (w_db w))\<rparr>\<rparr>)"
  by (simp add: store_response_def run_simps)

lemma release_run: "release_key k w = (Inr (), w\<lparr>w_db := (w_db w)\<lparr>t_keys := filter (\<lambda>r. ik_id r \<noteq> k) (t_keys (w_db w))\<rparr>\<rparr>)"
  by (simp add: release_key_def run_simps)

subsection \<open>Closing events\<close>

lemma open_since_closed:
  assumes "\<And>e. e \<in> set es \<Longrightarrow> (\<exists>x. e = Let_go x) \<or> (\<exists>x t. e = Ran_out x t)"
  shows "open_since (es @ l) x = Some t \<longleftrightarrow> open_since l x = Some t \<and> Let_go x \<notin> set es \<and> (\<forall>u. Ran_out x u \<notin> set es)"
  using assms
proof (induction es)
  case (Cons e es)
  have ih: "open_since (es @ l) x = Some t \<longleftrightarrow> open_since l x = Some t \<and> Let_go x \<notin> set es \<and> (\<forall>u. Ran_out x u \<notin> set es)"
    by (rule Cons.IH) (use Cons.prems in auto)
  from Cons.prems [of e] consider (a) y where "e = Let_go y" | (b) y u where "e = Ran_out y u" by auto
  then show ?case using ih by cases auto
qed simp

lemma sound_closed:
  assumes "\<And>e. e \<in> set es \<Longrightarrow> (\<exists>x. e = Let_go x) \<or> (\<exists>x t t0. e = Ran_out x t \<and> Began x t0 \<in> set l \<and> t0 + IDEMPOTENCY_TTL_MS < t)"
  shows "sound_keys (es @ l) = sound_keys l"
  using assms
proof (induction es)
  case (Cons e es)
  have ih: "sound_keys (es @ l) = sound_keys l" by (rule Cons.IH) (use Cons.prems in auto)
  from Cons.prems [of e] consider (a) y where "e = Let_go y"
    | (b) y u t0 where "e = Ran_out y u" "Began y t0 \<in> set l" "t0 + IDEMPOTENCY_TTL_MS < u" by auto
  then show ?case using ih by cases auto
qed simp

text \<open>Rows that go, each with its closing event.\<close>

lemma keys_ok_drop:
  assumes ok: "keys_ok s"
    and w': "t_keys (w_db w') = filter (\<lambda>r. \<not> q r) (t_keys (w_db (kd_world s)))" "clock w' = clock (kd_world s)"
      "next_id w' T_keys = next_id (kd_world s) T_keys"
    and closing: "\<And>e. e \<in> set es \<longleftrightarrow> (\<exists>r \<in> set (t_keys (w_db (kd_world s))). q r \<and> e = f r)"
    and kind: "(\<forall>r. f r = Let_go (name_of r)) \<or> (\<forall>r. f r = Ran_out (name_of r) (clock w')) \<and> (\<forall>r. q r \<longrightarrow> ik_expiresAt r < clock w')"
  shows "keys_ok (s\<lparr>kd_world := w', kd_log := es @ kd_log s\<rparr>)"
proof -
  note K = ok [unfolded keys_ok_def Let_def]
  let ?rows = "t_keys (w_db (kd_world s))"
  have es: "(\<exists>x. e = Let_go x) \<or> (\<exists>x t. e = Ran_out x t)" if "e \<in> set es" for e
    using that closing kind by metis
  have "\<exists>r \<in> set (filter (\<lambda>r. \<not> q r) ?rows). name_of r = x \<and> t \<le> ik_updatedAt r \<and> t \<le> clock (kd_world s)"
    if "open_since (es @ kd_log s) x = Some t" for x t
  proof -
    have still: "open_since (kd_log s) x = Some t" "Let_go x \<notin> set es" "\<And>u. Ran_out x u \<notin> set es"
      using open_since_closed [OF es] that by auto
    obtain r where r: "r \<in> set ?rows" "name_of r = x" "t \<le> ik_updatedAt r" "t \<le> clock (kd_world s)" using K still(1) by blast
    have "\<not> q r" using still(2,3) r(1,2) closing kind by metis
    then show ?thesis using r by auto
  qed
  moreover have "sound_keys (es @ kd_log s)"
  proof -
    have "sound_keys (es @ kd_log s) = sound_keys (kd_log s)"
    proof (rule sound_closed)
      fix e assume "e \<in> set es"
      then obtain r where r: "r \<in> set ?rows" "q r" "e = f r" using closing by blast
      obtain t0 where "Began (name_of r) t0 \<in> set (kd_log s)" "ik_expiresAt r = t0 + IDEMPOTENCY_TTL_MS" using K r(1) by blast
      then show "(\<exists>x. e = Let_go x) \<or> (\<exists>x t t0. e = Ran_out x t \<and> Began x t0 \<in> set (kd_log s) \<and> t0 + IDEMPOTENCY_TTL_MS < t)"
        using kind r by (metis)
    qed
    then show ?thesis using K by blast
  qed
  ultimately show ?thesis using K w' by (auto simp: keys_ok_def Let_def distinct_map_filter)
qed


lemma keys_ok_update:
  assumes ok: "keys_ok s"
    and rows: "t_keys (w_db w') = update_where q f (t_keys (w_db (kd_world s)))" "clock w' = clock (kd_world s)"
      "next_id w' T_keys = next_id (kd_world s) T_keys"
    and f: "\<And>r. ik_id (f r) = ik_id r" "\<And>r. name_of (f r) = name_of r" "\<And>r. ik_expiresAt (f r) = ik_expiresAt r"
    and later: "\<And>r t. r \<in> set (t_keys (w_db (kd_world s))) \<Longrightarrow> q r \<Longrightarrow> open_since (kd_log s) (name_of r) = Some t \<Longrightarrow> t \<le> ik_updatedAt (f r)"
  shows "keys_ok (s\<lparr>kd_world := w'\<rparr>)"
proof -
  note K = ok [unfolded keys_ok_def Let_def]
  let ?rows = "t_keys (w_db (kd_world s))"
  have maps: "map ik_id (update_where q f ?rows) = map ik_id ?rows" "map name_of (update_where q f ?rows) = map name_of ?rows"
    using f by (simp_all add: update_where_keys)
  have "\<exists>r \<in> set (update_where q f ?rows). name_of r = x \<and> t \<le> ik_updatedAt r \<and> t \<le> clock (kd_world s)"
    if still: "open_since (kd_log s) x = Some t" for x t
  proof -
    obtain r where r: "r \<in> set ?rows" "name_of r = x" "t \<le> ik_updatedAt r" "t \<le> clock (kd_world s)" using K still by blast
    let ?r = "if q r then f r else r"
    have "?r \<in> set (update_where q f ?rows)" using r(1) by (auto simp: in_update_where)
    moreover have "name_of ?r = x" "t \<le> ik_updatedAt ?r" using r f later [OF r(1)] still by auto
    ultimately show ?thesis using r(4) by blast
  qed
  moreover have "\<forall>r \<in> set (update_where q f ?rows). ik_id r < next_id (kd_world s) T_keys
      \<and> (\<exists>t0. Began (name_of r) t0 \<in> set (kd_log s) \<and> ik_expiresAt r = t0 + IDEMPOTENCY_TTL_MS)"
    using K f by (fastforce simp: in_update_where)
  ultimately show ?thesis using K rows maps by (simp add: keys_ok_def Let_def)
qed

lemma keys_ok_began:
  assumes ok: "keys_ok s" and r: "r \<in> set (t_keys (w_db (kd_world s)))" "ik_updatedAt r = now" "now \<le> clock (kd_world s)"
    and after: "\<And>t. open_since (kd_log s) (name_of r) = Some t \<Longrightarrow> t + IDEMPOTENCY_STALE_MS < now"
  shows "keys_ok (s\<lparr>kd_log := Began (name_of r) now # kd_log s\<rparr>)"
  using ok r after unfolding keys_ok_def Let_def by (auto split: if_splits)

lemma key_step_ok:
  assumes "key_step s s'" and ok: "keys_ok s"
  shows "keys_ok s'"
  using assms(1)
proof cases
  case (key_later t)
  then show ?thesis using ok by (fastforce simp: keys_ok_def Let_def)
next
  case (key_inserted now uid key route fp k w')
  note K = ok [unfolded keys_ok_def Let_def]
  let ?w = "kd_world s" and ?r = "new_key (next_id (kd_world s) T_keys) uid key route fp now (clock (kd_world s))"
  have none: "\<forall>r \<in> set (t_keys (w_db ?w)). name_of r \<noteq> (uid, route, key)" and w': "t_keys (w_db w') = t_keys (w_db ?w) @ [?r]"
      "clock w' = clock ?w" "next_id w' T_keys = Suc (next_id ?w T_keys)"
    using key_inserted(3) by (auto simp: insert_key_run split: if_splits)
  have nm: "name_of ?r = (uid, route, key)" "ik_id ?r = next_id ?w T_keys" "ik_expiresAt ?r = now + IDEMPOTENCY_TTL_MS" "ik_updatedAt ?r = clock ?w"
    by (simp_all add: new_key_def name_of_def)
  have closed: "open_since (kd_log s) (uid, route, key) = None" using K none by (metis not_Some_eq)
  have fresh: "next_id ?w T_keys \<notin> ik_id ` set (t_keys (w_db ?w))" "(uid, route, key) \<notin> name_of ` set (t_keys (w_db ?w))" using K none by fastforce+
  have rows: "\<forall>r \<in> set (t_keys (w_db w')). \<exists>t0. Began (name_of r) t0 \<in> set (Began (uid, route, key) now # kd_log s) \<and> ik_expiresAt r = t0 + IDEMPOTENCY_TTL_MS"
    using K nm by (auto simp: w')
  have opens: "\<exists>r \<in> set (t_keys (w_db w')). name_of r = x \<and> t \<le> ik_updatedAt r \<and> t \<le> clock w'"
    if "open_since (Began (uid, route, key) now # kd_log s) x = Some t" for x t
  proof (cases "x = (uid, route, key)")
    case True
    then show ?thesis using that nm key_inserted(2) w' by (intro bexI [of _ ?r]) auto
  next
    case False
    then have "open_since (kd_log s) x = Some t" using that by simp
    then obtain r where "r \<in> set (t_keys (w_db ?w))" "name_of r = x" "t \<le> ik_updatedAt r" "t \<le> clock ?w" using K by blast
    then show ?thesis using w' by auto
  qed
  have ids: "distinct (map ik_id (t_keys (w_db w')))" "distinct (map name_of (t_keys (w_db w')))"
      "\<forall>r \<in> set (t_keys (w_db w')). ik_id r < next_id w' T_keys"
    using K fresh nm by (auto simp: w' less_Suc_eq)
  have "sound_keys (Began (uid, route, key) now # kd_log s)" using K closed by simp
  then have "keys_ok \<lparr>kd_world = w', kd_log = Began (uid, route, key) now # kd_log s\<rparr>"
    using ids rows opens by (simp add: keys_ok_def Let_def)
  then show ?thesis using key_inserted(1) by (cases s) simp
next
  case (key_taken_over now r w')
  note K = ok [unfolded keys_ok_def Let_def]
  let ?w = "kd_world s" and ?f = "\<lambda>r. r\<lparr>ik_updatedAt := now\<rparr>" and ?q = "stale_key (ik_id r) now"
  have w': "w' = ?w\<lparr>w_db := (w_db ?w)\<lparr>t_keys := update_where ?q ?f (t_keys (w_db ?w))\<rparr>\<rparr>" and hit: "\<exists>x \<in> set (t_keys (w_db ?w)). ?q x"
    using key_taken_over(4) by (auto simp: take_over_run)
  obtain x where x: "x \<in> set (t_keys (w_db ?w))" "?q x" using hit by blast
  have "x = r" using K x key_taken_over(3) by (auto simp: stale_key_def distinct_map inj_on_def)
  then have stale: "?q r" using x by simp
  have before: "t + IDEMPOTENCY_STALE_MS < now" if still: "open_since (kd_log s) (name_of r) = Some t" for t
  proof -
    obtain y where y: "y \<in> set (t_keys (w_db ?w))" "name_of y = name_of r" "t \<le> ik_updatedAt y" using K still by blast
    have "y = r" using K y(1,2) key_taken_over(3) by (auto simp: distinct_map inj_on_def)
    then show ?thesis using y(3) stale by (simp add: stale_key_def)
  qed
  have ok': "keys_ok (s\<lparr>kd_world := w'\<rparr>)"
  proof (rule keys_ok_update [OF ok, where q = ?q and f = ?f])
    fix r' t assume r': "r' \<in> set (t_keys (w_db ?w))" "?q r'" "open_since (kd_log s) (name_of r') = Some t"
    have "r' = r" using K r'(1,2) key_taken_over(3) by (auto simp: stale_key_def distinct_map inj_on_def)
    then show "t \<le> ik_updatedAt (?f r')" using before [of t] r'(3) by (simp add: IDEMPOTENCY_STALE_MS_def)
  qed (simp_all add: w' name_of_def)
  have "keys_ok ((s\<lparr>kd_world := w'\<rparr>)\<lparr>kd_log := Began (name_of (?f r)) now # kd_log (s\<lparr>kd_world := w'\<rparr>)\<rparr>)"
  proof (rule keys_ok_began [OF ok'])
    show "?f r \<in> set (t_keys (w_db (kd_world (s\<lparr>kd_world := w'\<rparr>))))" using key_taken_over(3) stale by (auto simp: w' in_update_where)
    show "now \<le> clock (kd_world (s\<lparr>kd_world := w'\<rparr>))" using key_taken_over(2) by (simp add: w')
    show "t + IDEMPOTENCY_STALE_MS < now" if "open_since (kd_log (s\<lparr>kd_world := w'\<rparr>)) (name_of (?f r)) = Some t" for t
      using before [of t] that by (simp add: name_of_def)
  qed simp
  then show ?thesis using key_taken_over(1) by (simp add: name_of_def)
next
  case (key_expired k)
  have "keys_ok (s\<lparr>kd_world := snd (delete_expired_key k (kd_world s)), kd_log := expired_rows (\<lambda>r. ik_id r = k) (kd_world s) @ kd_log s\<rparr>)"
    by (rule keys_ok_drop [OF ok, where q = "\<lambda>r. ik_id r = k \<and> ik_expiresAt r < clock (kd_world s)"
        and f = "\<lambda>r. Ran_out (name_of r) (clock (kd_world s))"]) (auto simp: delete_expired_run expired_rows_def)
  then show ?thesis using key_expired by simp
next
  case keys_purged
  have "keys_ok (s\<lparr>kd_world := snd (purge_expired_keys (kd_world s)), kd_log := expired_rows (\<lambda>_. True) (kd_world s) @ kd_log s\<rparr>)"
    by (rule keys_ok_drop [OF ok, where q = "\<lambda>r. True \<and> ik_expiresAt r < clock (kd_world s)"
        and f = "\<lambda>r. Ran_out (name_of r) (clock (kd_world s))"]) (auto simp: purge_run expired_rows_def)
  then show ?thesis using keys_purged by simp
next
  case (key_stored k st stored)
  note K = ok [unfolded keys_ok_def Let_def]
  have "keys_ok (s\<lparr>kd_world := snd (store_response k st stored (kd_world s))\<rparr>)"
  proof (rule keys_ok_update [OF ok])
    show "t_keys (w_db (snd (store_response k st stored (kd_world s)))) = update_where (\<lambda>r. ik_id r = k)
       (\<lambda>r. r\<lparr>ik_state := Completed, ik_responseStatus := Some st, ik_responseBody := Some stored, ik_updatedAt := clock (kd_world s)\<rparr>)
       (t_keys (w_db (kd_world s)))" by (simp add: store_run)
    fix r t assume "open_since (kd_log s) (name_of r) = Some t"
    then show "t \<le> ik_updatedAt (r\<lparr>ik_state := Completed, ik_responseStatus := Some st, ik_responseBody := Some stored, ik_updatedAt := clock (kd_world s)\<rparr>)"
      using K by fastforce
  qed (simp_all add: store_run name_of_def)
  then show ?thesis using key_stored by simp
next
  case (key_released k)
  have "keys_ok (s\<lparr>kd_world := snd (release_key k (kd_world s)), kd_log := released_rows k (kd_world s) @ kd_log s\<rparr>)"
    by (rule keys_ok_drop [OF ok, where q = "\<lambda>r. ik_id r = k" and f = "\<lambda>r. Let_go (name_of r)"])
      (auto simp: release_run released_rows_def)
  then show ?thesis using key_released by simp
next
  case (key_elsewhere w')
  then show ?thesis using ok by (simp add: keys_ok_def Let_def)
qed

lemma open_kept:
  assumes "sound_keys (middle @ Began x t1 # older)" and "Let_go x \<notin> set middle" and "\<forall>u. Ran_out x u \<notin> set middle"
  shows "\<exists>t. open_since (middle @ Began x t1 # older) x = Some t \<and> t1 \<le> t"
  using assms
proof (induction middle)
  case (Cons e middle)
  have "sound_keys (middle @ Began x t1 # older)" using Cons.prems(1) by (cases e) auto
  then obtain t where t: "open_since (middle @ Began x t1 # older) x = Some t" "t1 \<le> t" using Cons.IH Cons.prems(2,3) by auto
  show ?case
  proof (cases e)
    case (Began y u)
    then show ?thesis using t Cons.prems(1) by (auto simp: IDEMPOTENCY_STALE_MS_def)
  next
    case (Let_go y)
    then show ?thesis using t Cons.prems(2) by auto
  next
    case (Ran_out y u)
    then show ?thesis using t Cons.prems(3) by auto
  qed
qed simp

lemma sound_keys_tail: "sound_keys (newer @ l) \<Longrightarrow> sound_keys l"
  by (induction newer rule: sound_keys.induct) auto



section \<open>Replies kept and replayed\<close>

text \<open>What the unique index and the sequence keep of the table.\<close>

definition keys_wf :: "world \<Rightarrow> bool" where
  "keys_wf w \<longleftrightarrow> distinct (map ik_id (t_keys (w_db w))) \<and> distinct (map name_of (t_keys (w_db w)))
     \<and> (\<forall>r \<in> set (t_keys (w_db w)). ik_id r < next_id w T_keys)"

definition holds_key :: "nat \<Rightarrow> key_name \<Rightarrow> string \<Rightarrow> world \<Rightarrow> bool" where
  "holds_key k x fp w \<longleftrightarrow> keys_wf w \<and> (\<exists>r \<in> set (t_keys (w_db w)). ik_id r = k \<and> name_of r = x \<and> ik_fingerprint r = fp)"

lemma find_key_name: "find_key d uid route key = Some r \<Longrightarrow> r \<in> set (t_keys d) \<and> name_of r = (uid, route, key)"
  by (auto simp: find_key_def find_Some_iff is_key_name)

lemma keys_wf_filter: "keys_wf w \<Longrightarrow> keys_wf (w\<lparr>w_db := (w_db w)\<lparr>t_keys := filter q (t_keys (w_db w))\<rparr>\<rparr>)"
  by (auto simp: keys_wf_def distinct_map_filter)

lemma keys_wf_update:
  assumes "keys_wf w" "\<And>r. ik_id (f r) = ik_id r" "\<And>r. name_of (f r) = name_of r"
  shows "keys_wf (w\<lparr>w_db := (w_db w)\<lparr>t_keys := update_where q f (t_keys (w_db w))\<rparr>\<rparr>)"
  using assms by (fastforce simp: keys_wf_def update_where_keys in_update_where)

lemma begin_rounds_holds:
  "begin_rounds n uid key route fp w = (Inr (Key_started k), w') \<Longrightarrow> keys_wf w \<Longrightarrow> holds_key k (uid, route, key) fp w'"
proof (induction n arbitrary: w)
  case (Suc n)
  show ?case
  proof (cases "\<exists>r \<in> set (t_keys (w_db w)). name_of r = (uid, route, key)")
    case False
    let ?r = "new_key (next_id w T_keys) uid key route fp (clock w) (clock w)"
    have "name_of ?r = (uid, route, key)" "ik_id ?r = next_id w T_keys" "ik_fingerprint ?r = fp" by (simp_all add: new_key_def name_of_def)
    moreover have "next_id w T_keys \<notin> ik_id ` set (t_keys (w_db w))" using Suc.prems(2) by (fastforce simp: keys_wf_def)
    moreover have "(uid, route, key) \<notin> name_of ` set (t_keys (w_db w))" using False by (metis imageE)
    moreover have "k = next_id w T_keys" "t_keys (w_db w') = t_keys (w_db w) @ [?r]" "next_id w' T_keys = Suc (next_id w T_keys)"
      using Suc.prems(1) False by (auto simp: run_simps bnd_def insert_key_run asks_def ret_def)
    ultimately show ?thesis using Suc.prems(2) by (auto simp: holds_key_def keys_wf_def less_Suc_eq)
  next
    case True
    have "find_key (w_db w) uid route key \<noteq> None" using True by (auto simp: find_key_def find_None_iff is_key_name)
    then obtain r where r: "find_key (w_db w) uid route key = Some r" by blast
    have judged: "judge_key fp (clock w) (begin_rounds n uid key route fp) (Some r) w = (Inr (Key_started k), w')"
      using Suc.prems(1) True r by (simp add: bnd_def insert_key_run asks_def)
    have row: "r \<in> set (t_keys (w_db w))" "name_of r = (uid, route, key)" using find_key_name [OF r] by auto
    show ?thesis
    proof (cases "ik_expiresAt r \<le> clock w")
      case True
      let ?w = "w\<lparr>w_db := (w_db w)\<lparr>t_keys := filter (\<lambda>x. \<not> (ik_id x = ik_id r \<and> ik_expiresAt x < clock w)) (t_keys (w_db w))\<rparr>\<rparr>"
      have "begin_rounds n uid key route fp ?w = (Inr (Key_started k), w')"
        using judged True by (simp add: judge_key_def andthen_def bnd_def delete_expired_run)
      then show ?thesis using Suc.IH keys_wf_filter [OF Suc.prems(2)] by blast
    next
      case False
      have live: "ik_fingerprint r = fp" "k = ik_id r"
        "w' = w\<lparr>w_db := (w_db w)\<lparr>t_keys := update_where (stale_key (ik_id r) (clock w)) (\<lambda>r. r\<lparr>ik_updatedAt := clock w\<rparr>) (t_keys (w_db w))\<rparr>\<rparr>"
        using judged False by (auto simp: judge_key_def throw_def ret_def bnd_def take_over_run split: if_splits option.splits)
      let ?r = "if stale_key (ik_id r) (clock w) r then r\<lparr>ik_updatedAt := clock w\<rparr> else r"
      have "?r \<in> set (t_keys (w_db w'))" unfolding live(3) using row(1) by (auto simp: in_update_where)
      moreover have "ik_id ?r = k" "name_of ?r = (uid, route, key)" "ik_fingerprint ?r = fp" using live row by (auto simp: name_of_def)
      moreover have "keys_wf w'" unfolding live(3) by (rule keys_wf_update [OF Suc.prems(2)]) (auto simp: name_of_def)
      ultimately show ?thesis unfolding holds_key_def by blast
    qed
  qed
qed (simp add: throw_def)

lemma begin_replays:
  assumes "keys_wf w" and "r \<in> set (t_keys (w_db w))" "name_of r = (uid, route, key)" "ik_fingerprint r = fp"
    and "ik_state r = Completed" "ik_responseStatus r = Some st" "ik_responseBody r = Some stored" "clock w < ik_expiresAt r"
  shows "begin_key uid key route fp w = (Inr (Key_replay st stored), w)"
proof -
  have "find_key (w_db w) uid route key = Some r"
    unfolding find_key_def
    by (rule find_by_key [where key = name_of]) (use assms in \<open>auto simp: keys_wf_def distinct_map is_key_name\<close>)
  moreover have "\<exists>r \<in> set (t_keys (w_db w)). name_of r = (uid, route, key)" using assms(2,3) by blast
  ultimately show ?thesis using assms(4-8)
    by (simp add: begin_key_def numeral_3_eq_3 bnd_def asks_def insert_key_run judge_key_def ret_def)
qed

subsection \<open>A stored error reads as the first one\<close>

lemma map_of_replaced:
  "map_of (map (\<lambda>(y, z). if y = k then (y, v) else (y, z)) kvs) x = (if x = k \<and> k \<in> fst ` set kvs then Some v else map_of kvs x)"
proof (induction kvs)
  case (Cons p kvs)
  obtain y z where "p = (y, z)" by fastforce
  then show ?case using Cons by (cases "x = k"; cases "y = k"; cases "y = x") simp_all
qed simp

lemma map_of_set_field: "map_of (set_field k v kvs) x = (if x = k then Some v else map_of kvs x)"
proof (cases "k \<in> fst ` set kvs")
  case True
  then show ?thesis by (simp add: set_field_def map_of_replaced)
next
  case False
  then have "map_of kvs k = None" by (simp add: map_of_eq_None_iff)
  then show ?thesis using False by (simp add: set_field_def map_add_def split: option.splits)
qed

text \<open>
  Responses as the services throw them: a text, or an object with a message and, when it has one, a textual code. NestJS
  gives an exception made with a text that message.
\<close>

definition regular_response :: "idem_env \<Rightarrow> string \<Rightarrow> json \<Rightarrow> bool" where
  "regular_response ie name response \<longleftrightarrow> name \<noteq> [] \<and> (case response of
      J_str s \<Rightarrow> s \<noteq> [] \<and> ie_message ie name (J_str s) = s
    | J_obj kvs \<Rightarrow> (\<exists>m. map_of kvs ''message'' = Some m \<and> truthy_json m)
        \<and> (map_of kvs ''errorCode'' \<in> {None, Some J_null} \<or> (\<exists>c. map_of kvs ''errorCode'' = Some (J_str c) \<and> c \<noteq> []))
    | _ \<Rightarrow> False)"

lemma replayed_error_reads:
  assumes "regular_response ie name response" and "to_exception st (Stored_error name response) = Http_error st' name' response'"
  shows "render_error ie production st' name' response' = render_error ie production st name response"
proof (cases response)
  case (J_str s)
  have r': "st' = st" "name' = ''HttpException''" "response' = J_obj [(''message'', J_str s), (''errorCode'', J_str name)]"
    using assms(2) J_str by (auto simp: to_exception_def Let_def)
  have "s \<noteq> []" "name \<noteq> []" "ie_message ie name (J_str s) = s" using assms(1) J_str by (auto simp: regular_response_def)
  then show ?thesis using J_str r' by (simp add: render_error_def json_field_def truthy_json_def)
next
  case (J_obj kvs)
  obtain m where m: "map_of kvs ''message'' = Some m" "truthy_json m" using assms(1) J_obj by (auto simp: regular_response_def)
  have r': "st' = st" "name' = ''HttpException''"
      "response' = J_obj (set_field ''errorCode'' (or_name (map_of kvs ''errorCode'') name) kvs)"
    using assms(2) J_obj by (auto simp: to_exception_def Let_def json_field_def)
  have f: "json_field x response' = (if x = ''errorCode'' then Some (or_name (map_of kvs ''errorCode'') name) else map_of kvs x)" for x
    by (simp add: r' json_field_def map_of_set_field)
  have code: "(case or_name (map_of kvs ''errorCode'') name of J_str c \<Rightarrow> if c \<noteq> [] then c else name' | _ \<Rightarrow> name')
      = (case map_of kvs ''errorCode'' of Some (J_str c) \<Rightarrow> if c \<noteq> [] then c else name | _ \<Rightarrow> name)"
    using assms(1) J_obj by (auto simp: regular_response_def or_name_def)
  have "json_field x response = map_of kvs x" for x using J_obj by (simp add: json_field_def)
  then show ?thesis using m code by (simp add: render_error_def f r'(1) Let_def)
qed (use assms(1) in \<open>auto simp: regular_response_def\<close>)


end
