(* ===== verification/IdempotencyWitnesses.thy ===== *)
theory IdempotencyWitnesses
  imports IdempotencyRules
begin

text \<open>The theorems on idempotency keys, evaluated on concrete requests.\<close>

definition fx_idem :: idem_env where
  "fx_idem = \<lparr>ie_sha = (\<lambda>s. s), ie_upper = (\<lambda>c. c), ie_message = (\<lambda>name r. case r of J_str s \<Rightarrow> s | _ \<Rightarrow> name)\<rparr>"

definition fx_idem_body :: "json option" where
  "fx_idem_body = Some (J_obj [(''b'', J_arr [J_num ''1'', J_null]), (''a'', J_str ''x'')])"




end
