(* ===== verification/Reviews.thy ===== *)
theory Reviews
  imports Bookings
begin

text \<open>
  \<open>reviews.service.ts\<close>, \<open>platform-rating-cache.service.ts\<close> and \<open>review-summary.service.ts\<close>: reviews of
  completed jobs, their photos, the artisan's one reply, flags and moderation, the moderation log, the
  ratings kept on the artisan's profile and the review counts of an artisan.

  A handler that reads a review and later writes it is the composition of a part that reads and a part
  that writes, so that requests can interleave between the two. \<open>m\<close> is the platform mean the rating
  cache holds, in hundredths.
\<close>

section \<open>Constants\<close>

definition REVIEW_EDIT_WINDOW_HOURS :: int where "REVIEW_EDIT_WINDOW_HOURS = 48"
definition REVIEW_MAX_PHOTOS :: nat where "REVIEW_MAX_PHOTOS = 3"
definition REVIEW_MODERATION_SNAPSHOT_EXCERPT_LENGTH :: nat where "REVIEW_MODERATION_SNAPSHOT_EXCERPT_LENGTH = 200"
definition RATING_BAYESIAN_MIN_VOTES :: nat where "RATING_BAYESIAN_MIN_VOTES = 10"
definition PLATFORM_MEAN_DEFAULT_RATING :: money where "PLATFORM_MEAN_DEFAULT_RATING = 300"

lemmas review_constants = REVIEW_EDIT_WINDOW_HOURS_def REVIEW_MAX_PHOTOS_def
  REVIEW_MODERATION_SNAPSHOT_EXCERPT_LENGTH_def RATING_BAYESIAN_MIN_VOTES_def PLATFORM_MEAN_DEFAULT_RATING_def

section \<open>Rows\<close>

definition find_review :: "db \<Rightarrow> nat \<Rightarrow> review option" where
  "find_review d k = find_row rv_id k (t_reviews d)"

definition put_review :: "review \<Rightarrow> db \<Rightarrow> db" where
  "put_review r d = d\<lparr>t_reviews := save_row rv_id r (t_reviews d)\<rparr>"

text \<open>A review with the relations a query loads: \<open>Absent\<close> is a relation it does not ask for.\<close>

record loaded_review =
  lr_row :: review
  lr_reviewer :: "user option"
  lr_reviewed :: "user sent"
  lr_profile :: "profile option"

definition load_review :: "bool \<Rightarrow> db \<Rightarrow> review \<Rightarrow> loaded_review" where
  "load_review with_reviewed d r =
     \<lparr>lr_row = r, lr_reviewer = Option.bind (rv_reviewerId r) (find_user d),
      lr_reviewed = (if with_reviewed then of_column (Option.bind (rv_reviewedId r) (find_user d)) else Absent),
      lr_profile = find_profile d (rv_artisanProfileId r)\<rparr>"

fun user_id_sent :: "user sent \<Rightarrow> nat sent" where
  "user_id_sent (Sent u) = Sent (u_id u)"
| "user_id_sent Null = Null"
| "user_id_sent Absent = Absent"

text \<open>
  \<open>save(review)\<close> writes every column of the entity that was loaded, and the loaded relations: a relation
  that was loaded as \<open>null\<close> clears its column. The job is never loaded, so its column is left, and a row
  that no longer exists is inserted again without it.
\<close>

definition save_review :: "loaded_review \<Rightarrow> unit act" where
  "save_review l = with_db (\<lambda>d.
     let old = find_review d (rv_id (lr_row l)) in
     put_review ((lr_row l)\<lparr>rv_jobId := Option.bind old rv_jobId,
       rv_reviewerId := map_option u_id (lr_reviewer l),
       rv_reviewedId := assigned (user_id_sent (lr_reviewed l)) (Option.bind old rv_reviewedId)\<rparr>) d)"

section \<open>Ratings\<close>

definition ratings_of :: "nat \<Rightarrow> db \<Rightarrow> money list" where
  "ratings_of pid d = map rv_rating (filter (\<lambda>r. rv_artisanProfileId r = pid) (t_reviews d))"

text \<open>\<open>AVG\<close> of a decimal column, and 0 of no rows.\<close>

definition average :: "money list \<Rightarrow> rat" where
  "average xs = (if xs = [] then 0 else cedis (sum_list xs) / of_nat (length xs))"

definition weighted_rating :: "money \<Rightarrow> nat \<Rightarrow> rat \<Rightarrow> rat" where
  "weighted_rating m v avg =
     (let b = of_nat RATING_BAYESIAN_MIN_VOTES; n = of_nat v
      in n / (n + b) * avg + b / (n + b) * cedis m)"

definition refresh_artisan_ratings :: "money \<Rightarrow> nat \<Rightarrow> unit act" where
  "refresh_artisan_ratings m pid = with_db (\<lambda>d.
     let xs = ratings_of pid d; avg = average xs in
     d\<lparr>t_profiles := update_where (\<lambda>p. pr_id p = pid)
        (\<lambda>p. p\<lparr>pr_averageRating := to_fixed2 avg, pr_totalReviews := length xs,
           pr_weightedRating := to_fixed2 (weighted_rating m (length xs) avg)\<rparr>) (t_profiles d)\<rparr>)"

text \<open>\<open>PlatformRatingCacheService.refresh\<close>: the mean of all reviews; of none, the mean it had.\<close>

definition refresh_platform_mean :: "db \<Rightarrow> money \<Rightarrow> money" where
  "refresh_platform_mean d m =
     (if t_reviews d = [] then m else to_fixed2 (average (map rv_rating (t_reviews d))))"

section \<open>What a caller sees\<close>

record review_view =
  rs_id :: nat
  rs_rating :: money
  rs_text :: "string option"
  rs_reviewerName :: "string option"
  rs_status :: review_status
  rs_verifiedBooking :: bool
  rs_editedAt :: "int option"
  rs_reply :: "string option"
  rs_repliedAt :: "int option"
  rs_photos :: "photo list"
  rs_reviewer :: "(nat \<times> string \<times> string) option"
  rs_reviewed :: "(nat \<times> string \<times> string) option"
  rs_profile :: "(nat \<times> string option \<times> money \<times> nat) option"
  rs_job :: "(nat \<times> string option \<times> status) option"
  rs_createdAt :: int

definition person :: "user \<Rightarrow> nat \<times> string \<times> string" where
  "person u = (u_id u, u_firstname u, u_lastname u)"

definition review_view_of :: "db \<Rightarrow> review \<Rightarrow> review_view" where
  "review_view_of d r =
     \<lparr>rs_id = rv_id r, rs_rating = rv_rating r, rs_text = rv_text r, rs_reviewerName = rv_reviewerName r,
      rs_status = rv_status r, rs_verifiedBooking = True, rs_editedAt = rv_editedAt r, rs_reply = rv_reply r,
      rs_repliedAt = rv_repliedAt r, rs_photos = filter (\<lambda>p. ph_reviewId p = rv_id r) (t_photos d),
      rs_reviewer = map_option person (Option.bind (rv_reviewerId r) (find_user d)),
      rs_reviewed = map_option person (Option.bind (rv_reviewedId r) (find_user d)),
      rs_profile = map_option (\<lambda>p. (pr_id p, pr_businessName p, pr_averageRating p, pr_totalReviews p))
        (find_profile d (rv_artisanProfileId r)),
      rs_job = map_option (\<lambda>j. (j_id j, j_title j, j_status j)) (Option.bind (rv_jobId r) (find_job d)),
      rs_createdAt = rv_createdAt r\<rparr>"

text \<open>\<open>toResponseDto((await loadPopulated(id))!)\<close>.\<close>

definition load_response :: "nat \<Rightarrow> review_view act" where
  "load_response k =
     bnd (asks (\<lambda>w. map_option (review_view_of (w_db w)) (find_review (w_db w) k))) (some_or TypeError)"

section \<open>Submitting a review\<close>

record create_review_dto =
  cr_jobId :: nat
  cr_rating :: rat
  cr_text :: "string sent"
  cr_photoUrls :: "string list sent"

definition REVIEW_PHOTO_MIME_BY_EXT :: "(string \<times> string) list" where
  "REVIEW_PHOTO_MIME_BY_EXT = [(''.jpg'', ''image/jpeg''), (''.jpeg'', ''image/jpeg''), (''.png'', ''image/png'')]"

definition review_mime_from_url :: "string \<Rightarrow> string" where
  "review_mime_from_url url = (case map_of REVIEW_PHOTO_MIME_BY_EXT (map ascii_lower (last_dot_on url)) of
     Some t \<Rightarrow> t | None \<Rightarrow> ''image/jpeg'')"

definition add_photo :: "nat \<Rightarrow> string \<Rightarrow> unit act" where
  "add_photo rid url = bnd (fresh T_photos) (\<lambda>k. with_db (\<lambda>d.
     d\<lparr>t_photos := t_photos d @ [\<lparr>ph_id = k, ph_reviewId = rid, ph_url = url, ph_fileType = review_mime_from_url url\<rparr>]\<rparr>))"

definition sent_list :: "'a list sent \<Rightarrow> 'a list" where
  "sent_list x = (case x of Sent xs \<Rightarrow> xs | _ \<Rightarrow> [])"

text \<open>The checks of \<open>create\<close>, and the rows they load: the job, the artisan, their profile and the reviewer.\<close>

definition create_read :: "nat \<Rightarrow> create_review_dto \<Rightarrow> (job \<times> user \<times> profile \<times> user option) act" where
  "create_read uid dto =
     bnd (asks (\<lambda>w. map_option (with_relations (w_db w)) (find_job (w_db w) (cr_jobId dto)))) (\<lambda>l0.
     bnd (some_or (NotFound_review Review_job_not_found) l0) (\<lambda>l.
     andthen (guard (j_status (lj_job l) = COMPLETED) (BadRequest_review Review_job_not_completed))
     (bnd (customer_of l) (\<lambda>c.
     andthen (guard (u_id c = uid) (Forbidden_review Not_job_customer))
     (bnd (some_or (BadRequest_review Job_no_artisan) (lj_artisan l)) (\<lambda>art.
     bnd (asks (\<lambda>w. \<exists>r \<in> set (t_reviews (w_db w)). rv_jobId r = Some (cr_jobId dto))) (\<lambda>dup.
     andthen (guard (\<not> dup) (Conflict_review Review_duplicate))
     (bnd (asks (\<lambda>w. profile_of_user (w_db w) (u_id art))) (\<lambda>p0.
     bnd (some_or (NotFound_review Reviewed_profile_not_found) p0) (\<lambda>p.
     asks (\<lambda>w. (lj_job l, art, p, find_user (w_db w) uid))))))))))))"

text \<open>The insert, on which the unique index on the job is checked once more.\<close>

definition insert_review :: "nat \<Rightarrow> create_review_dto \<Rightarrow> user \<Rightarrow> profile \<Rightarrow> user option \<Rightarrow> nat act" where
  "insert_review jid dto art p who =
     bnd (asks (\<lambda>w. \<exists>r \<in> set (t_reviews (w_db w)). rv_jobId r = Some jid)) (\<lambda>dup.
     andthen (guard (\<not> dup) UniqueViolation)
     (bnd (fresh T_reviews) (\<lambda>k. bnd (asks clock) (\<lambda>now.
      andthen (with_db (\<lambda>d. d\<lparr>t_reviews := t_reviews d @
        [\<lparr>rv_id = k, rv_jobId = Some jid, rv_artisanProfileId = pr_id p, rv_reviewerId = map_option u_id who,
          rv_reviewedId = Some (u_id art), rv_reviewerName = map_option full_name who,
          rv_rating = to_fixed2 (cr_rating dto), rv_text = assigned (cr_text dto) None, rv_status = Rv_ACTIVE,
          rv_editedAt = None, rv_reply = None, rv_repliedAt = None, rv_createdAt = now\<rparr>]\<rparr>))
       (ret k)))))"

definition create_commit :: "money \<Rightarrow> create_review_dto \<Rightarrow> job \<times> user \<times> profile \<times> user option \<Rightarrow> review_view act" where
  "create_commit m dto x = (case x of (j, art, p, who) \<Rightarrow>
     bnd (insert_review (j_id j) dto art p who) (\<lambda>k.
     andthen (for_each (take REVIEW_MAX_PHOTOS (sent_list (cr_photoUrls dto))) (add_photo k))
     (andthen (refresh_artisan_ratings m (pr_id p))
     (andthen (emit (REVIEW_RECEIVED (u_id art) (case j_title j of Some t \<Rightarrow> t | None \<Rightarrow> default_title (j_id j)) (j_id j)
         (cr_rating dto) (case who of Some u \<Rightarrow> full_name u | None \<Rightarrow> ''A customer'')))
      (load_response k)))))"

definition create_review :: "money \<Rightarrow> nat \<Rightarrow> create_review_dto \<Rightarrow> review_view act" where
  "create_review m uid dto = bnd (create_read uid dto) (create_commit m dto)"

section \<open>Editing a review\<close>

record update_review_dto =
  ur_rating :: "rat sent"
  ur_text :: "string sent"

definition update_read :: "nat \<Rightarrow> nat \<Rightarrow> update_review_dto \<Rightarrow> (loaded_review \<times> int) act" where
  "update_read uid rid dto =
     andthen (guard (\<not> (ur_rating dto = Absent \<and> ur_text dto = Absent)) (BadRequest_review No_fields_to_update))
     (bnd (asks (\<lambda>w. map_option (load_review False (w_db w)) (find_review (w_db w) rid))) (\<lambda>l0.
     bnd (some_or (NotFound_review (Review_not_found rid)) l0) (\<lambda>l.
     andthen (guard (map_option u_id (lr_reviewer l) = Some uid) (Forbidden_review Not_review_owner))
     (bnd (asks clock) (\<lambda>now.
     andthen (guard (now - rv_createdAt (lr_row l) \<le> REVIEW_EDIT_WINDOW_HOURS * 3600000) (Forbidden_review Edit_window_expired))
     (ret (l, now)))))))"

text \<open>A rating sent as \<open>null\<close> passes the optional validators and is refused by the column.\<close>

definition edited_review :: "update_review_dto \<Rightarrow> int \<Rightarrow> review \<Rightarrow> review" where
  "edited_review dto now r = r\<lparr>rv_rating := (case ur_rating dto of Sent x \<Rightarrow> to_fixed2 x | _ \<Rightarrow> rv_rating r),
     rv_text := assigned (ur_text dto) (rv_text r), rv_editedAt := Some now\<rparr>"

definition update_commit :: "money \<Rightarrow> update_review_dto \<Rightarrow> loaded_review \<times> int \<Rightarrow> review_view act" where
  "update_commit m dto x = (case x of (l, now) \<Rightarrow>
     andthen (guard (ur_rating dto \<noteq> Null) NotNullViolation)
     (andthen (save_review (l\<lparr>lr_row := edited_review dto now (lr_row l)\<rparr>))
     (bnd (some_or TypeError (lr_profile l)) (\<lambda>p.
     andthen (refresh_artisan_ratings m (pr_id p)) (load_response (rv_id (lr_row l)))))))"

definition update_review :: "money \<Rightarrow> nat \<Rightarrow> nat \<Rightarrow> update_review_dto \<Rightarrow> review_view act" where
  "update_review m uid rid dto = bnd (update_read uid rid dto) (update_commit m dto)"

section \<open>The artisan's reply\<close>

definition reply_read :: "nat \<Rightarrow> nat \<Rightarrow> unit act" where
  "reply_read uid rid =
     bnd (asks (\<lambda>w. map_option (load_review True (w_db w)) (find_review (w_db w) rid))) (\<lambda>l0.
     bnd (some_or (NotFound_review (Review_not_found rid)) l0) (\<lambda>l.
     bnd (some_or TypeError (case lr_reviewed l of Sent u \<Rightarrow> Some u | _ \<Rightarrow> None)) (\<lambda>u.
     andthen (guard (u_id u = uid) (Forbidden_review Not_reviewed_artisan))
      (guard (\<not> truthy (rv_reply (lr_row l))) (Conflict_review Already_replied)))))"

text \<open>\<open>UPDATE ... WHERE id = :id AND artisan_reply IS NULL\<close>, and its affected count.\<close>

definition reply_commit :: "nat \<Rightarrow> string \<Rightarrow> review_view act" where
  "reply_commit rid reply =
     bnd (asks (\<lambda>w. \<exists>r \<in> set (t_reviews (w_db w)). rv_id r = rid \<and> rv_reply r = None)) (\<lambda>affected.
     bnd (asks clock) (\<lambda>now.
     andthen (with_db (\<lambda>d. d\<lparr>t_reviews := update_where (\<lambda>r. rv_id r = rid \<and> rv_reply r = None)
        (\<lambda>r. r\<lparr>rv_reply := Some reply, rv_repliedAt := Some now\<rparr>) (t_reviews d)\<rparr>))
     (andthen (guard affected (Conflict_review Already_replied)) (load_response rid))))"

definition add_reply :: "nat \<Rightarrow> nat \<Rightarrow> string \<Rightarrow> review_view act" where
  "add_reply uid rid reply = andthen (reply_read uid rid) (reply_commit rid reply)"

section \<open>Flags and moderation\<close>

definition moderation_entry :: "loaded_review \<Rightarrow> user \<Rightarrow> moderation_action \<Rightarrow> string option \<Rightarrow> nat \<Rightarrow> int \<Rightarrow> moderation" where
  "moderation_entry l actor action reason k now =
     (let r = lr_row l;
          business = Option.bind (lr_profile l) pr_businessName
      in \<lparr>md_id = k, md_reviewId = rv_id r, md_action = action, md_reason = reason, md_actorId = u_id actor,
          md_actorName = full_name actor, md_actorRole = u_role actor,
          md_reviewerId = map_option u_id (lr_reviewer l),
          md_reviewerName = (case rv_reviewerName r of Some n \<Rightarrow> Some n | None \<Rightarrow> map_option full_name (lr_reviewer l)),
          md_artisanProfileId = map_option pr_id (lr_profile l),
          md_artisanName = (if truthy business then business
             else case lr_reviewed l of Sent u \<Rightarrow> Some (full_name u) | _ \<Rightarrow> None),
          md_rating = rv_rating r,
          md_excerpt = (if truthy (rv_text r)
             then map_option (take REVIEW_MODERATION_SNAPSHOT_EXCERPT_LENGTH) (rv_text r) else None),
          md_createdAt = now\<rparr>)"

text \<open>The partial unique index: one \<open>FLAG\<close> row of a review and an actor.\<close>

definition insert_moderation :: "(nat \<Rightarrow> int \<Rightarrow> moderation) \<Rightarrow> unit act" where
  "insert_moderation f =
     bnd (fresh T_moderation) (\<lambda>k. bnd (asks clock) (\<lambda>now.
     bnd (asks (\<lambda>w. md_action (f k now) = FLAG \<and> (\<exists>e \<in> set (t_moderation (w_db w)). md_action e = FLAG
        \<and> md_reviewId e = md_reviewId (f k now) \<and> md_actorId e = md_actorId (f k now)))) (\<lambda>dup.
     andthen (guard (\<not> dup) UniqueViolation)
      (with_db (\<lambda>d. d\<lparr>t_moderation := t_moderation d @ [f k now]\<rparr>)))))"

definition load_for_moderation :: "nat \<Rightarrow> loaded_review act" where
  "load_for_moderation rid =
     bnd (asks (\<lambda>w. map_option (load_review True (w_db w)) (find_review (w_db w) rid)))
       (some_or (NotFound_review (Review_not_found rid)))"

definition flag_read :: "user \<Rightarrow> nat \<Rightarrow> loaded_review act" where
  "flag_read actor rid =
     bnd (load_for_moderation rid) (\<lambda>l.
     bnd (asks (\<lambda>w. \<exists>e \<in> set (t_moderation (w_db w)). md_reviewId e = rid \<and> md_actorId e = u_id actor \<and> md_action e = FLAG)) (\<lambda>already.
     andthen (guard (\<not> already) (Conflict_review Already_flagged_by_you)) (ret l)))"

definition flag_commit :: "user \<Rightarrow> string \<Rightarrow> loaded_review \<Rightarrow> unit act" where
  "flag_commit actor reason l =
     bnd (attempt (insert_moderation (moderation_entry l actor FLAG (Some reason)))) (\<lambda>ok.
     andthen (case ok of Inr _ \<Rightarrow> ret ()
       | Inl e \<Rightarrow> if e = UniqueViolation then throw (Conflict_review Already_flagged_by_you) else throw e)
     (andthen (only_if (rv_status (lr_row l) = Rv_ACTIVE)
         (save_review (l\<lparr>lr_row := (lr_row l)\<lparr>rv_status := Rv_FLAGGED\<rparr>\<rparr>)))
      (emit (REVIEW_FLAGGED (rv_id (lr_row l)) (full_name actor) reason
         (case lr_reviewed l of Sent u \<Rightarrow> full_name u | _ \<Rightarrow> ''an artisan'')))))"

definition flag_review :: "user \<Rightarrow> nat \<Rightarrow> string \<Rightarrow> unit act" where
  "flag_review actor rid reason = bnd (flag_read actor rid) (flag_commit actor reason)"

text \<open>The photos go with the review (\<open>ON DELETE CASCADE\<close>).\<close>

definition delete_review :: "nat \<Rightarrow> db \<Rightarrow> db" where
  "delete_review rid d = d\<lparr>t_reviews := filter (\<lambda>r. rv_id r \<noteq> rid) (t_reviews d),
     t_photos := filter (\<lambda>p. ph_reviewId p \<noteq> rid) (t_photos d)\<rparr>"

definition remove_commit :: "money \<Rightarrow> user \<Rightarrow> string \<Rightarrow> loaded_review \<Rightarrow> unit act" where
  "remove_commit m admin reason l =
     bnd (some_or TypeError (lr_profile l)) (\<lambda>p.
     andthen (transaction (andthen (insert_moderation (moderation_entry l admin REMOVE (Some reason)))
        (with_db (delete_review (rv_id (lr_row l))))))
      (refresh_artisan_ratings m (pr_id p)))"

definition admin_remove :: "money \<Rightarrow> user \<Rightarrow> nat \<Rightarrow> string \<Rightarrow> unit act" where
  "admin_remove m admin rid reason = bnd (load_for_moderation rid) (remove_commit m admin reason)"

definition restore_read :: "nat \<Rightarrow> loaded_review act" where
  "restore_read rid = bnd (load_for_moderation rid) (\<lambda>l.
     andthen (guard (rv_status (lr_row l) = Rv_FLAGGED) (BadRequest_review Review_not_flagged)) (ret l))"

definition restore_commit :: "money \<Rightarrow> user \<Rightarrow> loaded_review \<Rightarrow> unit act" where
  "restore_commit m admin l =
     andthen (insert_moderation (moderation_entry l admin RESTORE None))
     (andthen (save_review (l\<lparr>lr_row := (lr_row l)\<lparr>rv_status := Rv_ACTIVE\<rparr>\<rparr>))
     (bnd (some_or TypeError (lr_profile l)) (\<lambda>p. refresh_artisan_ratings m (pr_id p))))"

definition admin_restore :: "money \<Rightarrow> user \<Rightarrow> nat \<Rightarrow> unit act" where
  "admin_restore m admin rid = bnd (restore_read rid) (restore_commit m admin)"

section \<open>Lists\<close>

record reviews_query =
  rq_minRating :: "rat option"
  rq_page :: "nat option"
  rq_limit :: "nat option"

definition default_to :: "'a \<Rightarrow> 'a option \<Rightarrow> 'a" where
  "default_to x y = (case y of None \<Rightarrow> x | Some z \<Rightarrow> z)"

definition alive :: "db \<Rightarrow> nat option \<Rightarrow> nat option" where
  "alive d k = map_option u_id (Option.bind k (find_user d))"

text \<open>\<open>applyVisibility\<close>: no viewer sees a flagged review but the one who wrote it.\<close>

definition visible_to :: "db \<Rightarrow> nat option \<Rightarrow> review \<Rightarrow> bool" where
  "visible_to d viewer r \<longleftrightarrow> (case viewer of None \<Rightarrow> rv_status r = Rv_ACTIVE
     | Some v \<Rightarrow> rv_status r = Rv_ACTIVE \<or> rv_status r = Rv_FLAGGED \<and> alive d (rv_reviewerId r) = Some v)"

definition review_filters :: "reviews_query \<Rightarrow> review \<Rightarrow> bool" where
  "review_filters q r \<longleftrightarrow> (case rq_minRating q of None \<Rightarrow> True | Some x \<Rightarrow> x \<le> cedis (rv_rating r))"

definition newest_first :: "review list \<Rightarrow> review list" where
  "newest_first = sort_key (\<lambda>r. - rv_createdAt r)"

definition list_reviews :: "(db \<Rightarrow> review \<Rightarrow> bool) \<Rightarrow> reviews_query \<Rightarrow> nat option \<Rightarrow> (review_view list \<times> pagination) act" where
  "list_reviews scope q viewer = asks (\<lambda>w.
     let d = w_db w;
         rows = filter (\<lambda>r. scope d r \<and> visible_to d viewer r \<and> review_filters q r) (t_reviews d);
         page = default_to 1 (rq_page q);
         limit = default_to 10 (rq_limit q)
     in (map (review_view_of d) (page_of page limit (newest_first rows)), paginate (length rows) page limit))"

definition find_all_reviews :: "reviews_query \<Rightarrow> nat option \<Rightarrow> (review_view list \<times> pagination) act" where
  "find_all_reviews = list_reviews (\<lambda>_ _. True)"

definition find_by_artisan_profile :: "nat \<Rightarrow> reviews_query \<Rightarrow> nat option \<Rightarrow> (review_view list \<times> pagination) act" where
  "find_by_artisan_profile pid = list_reviews (\<lambda>d r. map_option pr_id (find_profile d (rv_artisanProfileId r)) = Some pid)"

definition find_by_reviewed_user :: "nat \<Rightarrow> reviews_query \<Rightarrow> nat option \<Rightarrow> (review_view list \<times> pagination) act" where
  "find_by_reviewed_user uid = list_reviews (\<lambda>d r. alive d (rv_reviewedId r) = Some uid)"

definition find_one_review :: "nat \<Rightarrow> nat option \<Rightarrow> review_view act" where
  "find_one_review rid viewer =
     bnd (asks (\<lambda>w. find_review (w_db w) rid)) (\<lambda>r0.
     bnd (some_or (NotFound_review (Review_not_found rid)) r0) (\<lambda>r.
     bnd (asks (\<lambda>w. viewer \<noteq> None \<and> rv_status r = Rv_FLAGGED \<and> alive (w_db w) (rv_reviewerId r) = viewer)) (\<lambda>own.
     andthen (guard (\<not> (rv_status r = Rv_FLAGGED \<and> \<not> own)) (NotFound_review (Review_not_found rid)))
      (asks (\<lambda>w. review_view_of (w_db w) r)))))"

subsection \<open>For admins\<close>

text \<open>The flags of a review, oldest first: reason, who and when.\<close>

definition flag_summaries :: "db \<Rightarrow> nat \<Rightarrow> (string \<times> string \<times> int) list" where
  "flag_summaries d rid = map (\<lambda>e. (case md_reason e of Some t \<Rightarrow> t | None \<Rightarrow> [], md_actorName e, md_createdAt e))
     (sort_key md_createdAt (filter (\<lambda>e. md_reviewId e = rid \<and> md_action e = FLAG) (t_moderation d)))"

text \<open>The status filter of the admin list may name \<open>REMOVED\<close>, which no row has.\<close>

datatype status_filter = Any_status | Status_is review_status | Status_REMOVED

definition admin_find_all_reviews :: "status_filter \<Rightarrow> nat option \<Rightarrow> nat option
    \<Rightarrow> ((review_view \<times> (string \<times> string \<times> int) list) list \<times> pagination) act" where
  "admin_find_all_reviews st pg lmt = asks (\<lambda>w.
     let d = w_db w;
         rows = filter (\<lambda>r. case st of Any_status \<Rightarrow> True | Status_is s \<Rightarrow> rv_status r = s | Status_REMOVED \<Rightarrow> False) (t_reviews d);
         page = default_to 1 pg; limit = default_to 20 lmt
     in (map (\<lambda>r. (review_view_of d r, flag_summaries d (rv_id r))) (page_of page limit (newest_first rows)),
         paginate (length rows) page limit))"

definition moderation_log :: "nat option \<Rightarrow> nat option \<Rightarrow> (moderation list \<times> pagination) act" where
  "moderation_log pg lmt = asks (\<lambda>w.
     let rows = t_moderation (w_db w); page = default_to 1 pg; limit = default_to 20 lmt
     in (page_of page limit (sort_key (\<lambda>e. - md_createdAt e) rows), paginate (length rows) page limit))"

section \<open>The artisan's own counts\<close>

record review_summary =
  sm_total :: nat
  sm_average :: money
  sm_byStar :: "nat list"
  sm_fourPlus :: nat
  sm_fourPlusShare :: rat
  sm_awaitingReply :: nat

text \<open>\<open>LEAST(5, GREATEST(1, FLOOR(r.rating)))\<close>.\<close>

definition star_of :: "review \<Rightarrow> int" where
  "star_of r = min 5 (max 1 \<lfloor>cedis (rv_rating r)\<rfloor>)"

text \<open>\<open>shareOf\<close>: a share rounded to three decimals.\<close>

definition share_of :: "nat \<Rightarrow> nat \<Rightarrow> rat" where
  "share_of k n = (if n = 0 then 0 else of_int (js_round (of_nat k / of_nat n * 1000)) / 1000)"

text \<open>SQL's \<open>TRIM\<close> takes away spaces only.\<close>

definition sql_blank :: "string option \<Rightarrow> bool" where
  "sql_blank t = (case t of None \<Rightarrow> True | Some s \<Rightarrow> list_all (\<lambda>c. c = CHR '' '') s)"

definition to_review_summary :: "review list \<Rightarrow> review_summary" where
  "to_review_summary rows =
     (let count = (\<lambda>q. length (filter q rows))
      in \<lparr>sm_total = length rows, sm_average = to_fixed2 (average (map rv_rating rows)),
          sm_byStar = map (\<lambda>s. count (\<lambda>r. star_of r = s)) [1, 2, 3, 4, 5],
          sm_fourPlus = count (\<lambda>r. 4 \<le> cedis (rv_rating r)),
          sm_fourPlusShare = share_of (count (\<lambda>r. 4 \<le> cedis (rv_rating r))) (length rows),
          sm_awaitingReply = count (\<lambda>r. rv_reply r = None \<and> \<not> sql_blank (rv_text r))\<rparr>)"

definition my_review_summary :: "nat \<Rightarrow> review_summary act" where
  "my_review_summary me =
     bnd (asks (\<lambda>w. find (\<lambda>p. pr_userId p = Some me) (t_profiles (w_db w)))) (\<lambda>p0.
     bnd (some_or (NotFound_review Reviewed_profile_not_found) p0) (\<lambda>p.
     asks (\<lambda>w. to_review_summary
       (filter (\<lambda>r. rv_artisanProfileId r = pr_id p \<and> rv_status r = Rv_ACTIVE) (t_reviews (w_db w))))))"

end
