(* ===== verification/ReviewRules.thy ===== *)
theory ReviewRules
  imports Reviews
begin

text \<open>
  What the parts of the review handlers write, one lemma each, and the sequences of requests over
  which the theorems on reviews are stated.
\<close>

section \<open>The parts that write\<close>

definition refreshed :: "money \<Rightarrow> nat \<Rightarrow> db \<Rightarrow> db" where
  "refreshed m pid d = d\<lparr>t_profiles := update_where (\<lambda>p. pr_id p = pid)
     (\<lambda>p. p\<lparr>pr_averageRating := to_fixed2 (average (ratings_of pid d)), pr_totalReviews := length (ratings_of pid d),
        pr_weightedRating := to_fixed2 (weighted_rating m (length (ratings_of pid d)) (average (ratings_of pid d)))\<rparr>)
     (t_profiles d)\<rparr>"

lemma refresh_run: "refresh_artisan_ratings m pid w = (Inr (), w\<lparr>w_db := refreshed m pid (w_db w)\<rparr>)"
  by (simp add: refresh_artisan_ratings_def refreshed_def with_db_def Let_def)

lemma refreshed_simps [simp]:
  "t_reviews (refreshed m pid d) = t_reviews d" "t_photos (refreshed m pid d) = t_photos d"
  "t_moderation (refreshed m pid d) = t_moderation d" "t_users (refreshed m pid d) = t_users d"
  "t_jobs (refreshed m pid d) = t_jobs d"
  by (simp_all add: refreshed_def)

definition saved_review :: "db \<Rightarrow> loaded_review \<Rightarrow> review" where
  "saved_review d l = (let old = find_review d (rv_id (lr_row l)) in
     (lr_row l)\<lparr>rv_jobId := Option.bind old rv_jobId, rv_reviewerId := map_option u_id (lr_reviewer l),
       rv_reviewedId := assigned (user_id_sent (lr_reviewed l)) (Option.bind old rv_reviewedId)\<rparr>)"

lemma save_review_run: "save_review l w = (Inr (), w\<lparr>w_db := put_review (saved_review (w_db w) l) (w_db w)\<rparr>)"
  by (simp add: save_review_def with_db_def saved_review_def Let_def)

lemma saved_review_simps [simp]:
  "rv_id (saved_review d l) = rv_id (lr_row l)" "rv_rating (saved_review d l) = rv_rating (lr_row l)"
  "rv_text (saved_review d l) = rv_text (lr_row l)" "rv_status (saved_review d l) = rv_status (lr_row l)"
  "rv_reply (saved_review d l) = rv_reply (lr_row l)" "rv_createdAt (saved_review d l) = rv_createdAt (lr_row l)"
  "rv_artisanProfileId (saved_review d l) = rv_artisanProfileId (lr_row l)"
  "rv_editedAt (saved_review d l) = rv_editedAt (lr_row l)" "rv_repliedAt (saved_review d l) = rv_repliedAt (lr_row l)"
  "rv_jobId (saved_review d l) = Option.bind (find_review d (rv_id (lr_row l))) rv_jobId"
  "rv_reviewerName (saved_review d l) = rv_reviewerName (lr_row l)"
  by (simp_all add: saved_review_def Let_def)

lemma put_review_simps [simp]:
  "t_reviews (put_review r d) = save_row rv_id r (t_reviews d)" "t_photos (put_review r d) = t_photos d"
  "t_moderation (put_review r d) = t_moderation d" "t_profiles (put_review r d) = t_profiles d"
  "t_users (put_review r d) = t_users d"
  by (simp_all add: put_review_def)

lemma load_response_keeps: "snd (load_response k w) = w"
  by (auto simp: load_response_def run_simps some_or_def throw_def ret_def split: option.splits)

subsection \<open>Submitting\<close>

definition photo_row :: "nat \<Rightarrow> nat \<times> string \<Rightarrow> photo" where
  "photo_row rid x = \<lparr>ph_id = fst x, ph_reviewId = rid, ph_url = snd x, ph_fileType = review_mime_from_url (snd x)\<rparr>"

lemma add_photo_run:
  "add_photo rid url w = (Inr (), w\<lparr>w_db := (w_db w)\<lparr>t_photos := t_photos (w_db w) @ [photo_row rid (next_id w T_photos, url)]\<rparr>,
     next_id := (next_id w)(T_photos := Suc (next_id w T_photos))\<rparr>)"
  by (simp add: add_photo_def run_simps photo_row_def)

lemma add_photos_run:
  "for_each urls (add_photo rid) w = (Inr (), w\<lparr>w_db := (w_db w)\<lparr>t_photos := t_photos (w_db w)
      @ map (photo_row rid) (zip [next_id w T_photos..<next_id w T_photos + length urls] urls)\<rparr>,
     next_id := (next_id w)(T_photos := next_id w T_photos + length urls)\<rparr>)"
proof (induction urls arbitrary: w)
  case Nil
  then show ?case by (simp add: ret_def)
next
  case (Cons u us)
  have upt: "[k..<k + length (u # us)] = k # [Suc k..<Suc k + length us]" for k
    using upt_conv_Cons [of k "k + length (u # us)"] by (simp del: upt_Suc)
  have "for_each (u # us) (add_photo rid) w = for_each us (add_photo rid) (snd (add_photo rid u w))"
    by (simp only: for_each.simps andthen_def bnd_def add_photo_run prod.case sum.case snd_conv)
  also have "\<dots> = (Inr (), (snd (add_photo rid u w))\<lparr>w_db := (w_db (snd (add_photo rid u w)))\<lparr>
      t_photos := t_photos (w_db (snd (add_photo rid u w))) @ map (photo_row rid)
        (zip [next_id (snd (add_photo rid u w)) T_photos..<next_id (snd (add_photo rid u w)) T_photos + length us] us)\<rparr>,
     next_id := (next_id (snd (add_photo rid u w)))(T_photos := next_id (snd (add_photo rid u w)) T_photos + length us)\<rparr>)"
    by (rule Cons)
  also have "\<dots> = (Inr (), w\<lparr>w_db := (w_db w)\<lparr>t_photos := t_photos (w_db w)
      @ map (photo_row rid) (zip [next_id w T_photos..<next_id w T_photos + length (u # us)] (u # us))\<rparr>,
     next_id := (next_id w)(T_photos := next_id w T_photos + length (u # us))\<rparr>)"
    by (simp only: upt) (simp add: add_photo_run del: upt_Suc)
  finally show ?case .
qed

definition new_review :: "nat \<Rightarrow> int \<Rightarrow> nat \<Rightarrow> create_review_dto \<Rightarrow> user \<Rightarrow> profile \<Rightarrow> user option \<Rightarrow> review" where
  "new_review k now jid dto art p who =
     \<lparr>rv_id = k, rv_jobId = Some jid, rv_artisanProfileId = pr_id p, rv_reviewerId = map_option u_id who,
      rv_reviewedId = Some (u_id art), rv_reviewerName = map_option full_name who,
      rv_rating = to_fixed2 (cr_rating dto), rv_text = assigned (cr_text dto) None, rv_status = Rv_ACTIVE,
      rv_editedAt = None, rv_reply = None, rv_repliedAt = None, rv_createdAt = now\<rparr>"

definition with_new_review :: "world \<Rightarrow> create_review_dto \<Rightarrow> review \<Rightarrow> db" where
  "with_new_review w dto r = (w_db w)\<lparr>t_reviews := t_reviews (w_db w) @ [r], t_photos := t_photos (w_db w)
     @ map (photo_row (rv_id r)) (zip [next_id w T_photos..<next_id w T_photos
         + length (take REVIEW_MAX_PHOTOS (sent_list (cr_photoUrls dto)))]
       (take REVIEW_MAX_PHOTOS (sent_list (cr_photoUrls dto))))\<rparr>"

lemma create_commit_run:
  "(\<exists>r \<in> set (t_reviews (w_db w)). rv_jobId r = Some (j_id j)) \<Longrightarrow>
     create_commit m dto (j, art, p, who) w = (Inl UniqueViolation, w)"
  "\<not> (\<exists>r \<in> set (t_reviews (w_db w)). rv_jobId r = Some (j_id j)) \<Longrightarrow>
     \<exists>out ids. snd (create_commit m dto (j, art, p, who) w) = w\<lparr>
       w_db := refreshed m (pr_id p)
         (with_new_review w dto (new_review (next_id w T_reviews) (clock w) (j_id j) dto art p who)),
       outbox := out, next_id := ids\<rparr>
     \<and> ids T_reviews = Suc (next_id w T_reviews)"
proof -
  assume "\<exists>r \<in> set (t_reviews (w_db w)). rv_jobId r = Some (j_id j)"
  then show "create_commit m dto (j, art, p, who) w = (Inl UniqueViolation, w)"
    by (simp add: create_commit_def insert_review_def run_simps)
next
  assume no: "\<not> (\<exists>r \<in> set (t_reviews (w_db w)). rv_jobId r = Some (j_id j))"
  let ?r = "new_review (next_id w T_reviews) (clock w) (j_id j) dto art p who"
  let ?urls = "take REVIEW_MAX_PHOTOS (sent_list (cr_photoUrls dto))"
  have insert: "insert_review (j_id j) dto art p who w = (Inr (next_id w T_reviews),
      w\<lparr>w_db := (w_db w)\<lparr>t_reviews := t_reviews (w_db w) @ [?r]\<rparr>,
        next_id := (next_id w)(T_reviews := Suc (next_id w T_reviews))\<rparr>)"
    using no by (simp add: insert_review_def run_simps new_review_def)
  show "\<exists>out ids. snd (create_commit m dto (j, art, p, who) w) = w\<lparr>
       w_db := refreshed m (pr_id p) (with_new_review w dto ?r), outbox := out, next_id := ids\<rparr>
     \<and> ids T_reviews = Suc (next_id w T_reviews)"
    by (rule exI [of _ "outbox (snd (create_commit m dto (j, art, p, who) w))"],
        rule exI [of _ "next_id (snd (create_commit m dto (j, art, p, who) w))"])
      (simp add: create_commit_def bnd_def insert andthen_def add_photos_run refresh_run emit_def load_response_keeps
        with_new_review_def new_review_def)
qed

subsection \<open>Editing, replying\<close>

lemma update_commit_run:
  "snd (update_commit m dto (l, now) w) =
     (if ur_rating dto = Null then w
      else let d = put_review (saved_review (w_db w) (l\<lparr>lr_row := edited_review dto now (lr_row l)\<rparr>)) (w_db w)
        in w\<lparr>w_db := (case lr_profile l of None \<Rightarrow> d | Some p \<Rightarrow> refreshed m (pr_id p) d)\<rparr>)"
  by (simp add: update_commit_def run_simps andthen_def bnd_def guard_def throw_def ret_def save_review_run refresh_run
      some_or_def load_response_keeps Let_def split: option.splits)

definition replied :: "nat \<Rightarrow> string \<Rightarrow> int \<Rightarrow> review list \<Rightarrow> review list" where
  "replied rid reply now = update_where (\<lambda>r. rv_id r = rid \<and> rv_reply r = None)
     (\<lambda>r. r\<lparr>rv_reply := Some reply, rv_repliedAt := Some now\<rparr>)"

lemma reply_commit_run:
  "snd (reply_commit rid reply w) = w\<lparr>w_db := (w_db w)\<lparr>t_reviews := replied rid reply (clock w) (t_reviews (w_db w))\<rparr>\<rparr>"
  by (simp add: reply_commit_def run_simps andthen_def bnd_def guard_def throw_def ret_def asks_def with_db_def
      load_response_keeps replied_def)

subsection \<open>Flags and moderation\<close>

lemma moderation_entry_simps [simp]:
  "md_id (moderation_entry l a x rs k t) = k" "md_reviewId (moderation_entry l a x rs k t) = rv_id (lr_row l)"
  "md_action (moderation_entry l a x rs k t) = x" "md_actorId (moderation_entry l a x rs k t) = u_id a"
  "md_reason (moderation_entry l a x rs k t) = rs" "md_createdAt (moderation_entry l a x rs k t) = t"
  "md_rating (moderation_entry l a x rs k t) = rv_rating (lr_row l)" "md_actorRole (moderation_entry l a x rs k t) = u_role a"
  by (simp_all add: moderation_entry_def Let_def)

definition flagged_by :: "db \<Rightarrow> nat \<Rightarrow> nat \<Rightarrow> bool" where
  "flagged_by d rid uid \<longleftrightarrow> (\<exists>e \<in> set (t_moderation d). md_action e = FLAG \<and> md_reviewId e = rid \<and> md_actorId e = uid)"

definition logged :: "moderation \<Rightarrow> db \<Rightarrow> db" where
  "logged e d = d\<lparr>t_moderation := t_moderation d @ [e]\<rparr>"

lemma logged_simps [simp]:
  "t_reviews (logged e d) = t_reviews d" "t_photos (logged e d) = t_photos d" "t_profiles (logged e d) = t_profiles d"
  "t_users (logged e d) = t_users d" "t_moderation (logged e d) = t_moderation d @ [e]"
  by (simp_all add: logged_def)

lemma find_review_logged [simp]: "find_review (logged e d) k = find_review d k"
  by (simp add: find_review_def)

abbreviation after_moderation :: "world \<Rightarrow> world" where
  "after_moderation w \<equiv> w\<lparr>next_id := (next_id w)(T_moderation := Suc (next_id w T_moderation))\<rparr>"

lemma insert_moderation_run:
  "insert_moderation (moderation_entry l a x rs) w =
     (if x = FLAG \<and> flagged_by (w_db w) (rv_id (lr_row l)) (u_id a) then (Inl UniqueViolation, after_moderation w)
      else (Inr (), (after_moderation w)\<lparr>w_db := logged (moderation_entry l a x rs (next_id w T_moderation) (clock w)) (w_db w)\<rparr>))"
  by (auto simp: insert_moderation_def run_simps flagged_by_def logged_def)

lemma flag_commit_run:
  "flagged_by (w_db w) (rv_id (lr_row l)) (u_id a) \<Longrightarrow>
     flag_commit a reason l w = (Inl (Conflict_review Already_flagged_by_you), after_moderation w)"
  "\<not> flagged_by (w_db w) (rv_id (lr_row l)) (u_id a) \<Longrightarrow> \<exists>out.
     flag_commit a reason l w = (Inr (), (after_moderation w)\<lparr>
       w_db := (let d = logged (moderation_entry l a FLAG (Some reason) (next_id w T_moderation) (clock w)) (w_db w)
         in if rv_status (lr_row l) = Rv_ACTIVE
            then put_review (saved_review d (l\<lparr>lr_row := (lr_row l)\<lparr>rv_status := Rv_FLAGGED\<rparr>\<rparr>)) d else d),
       outbox := out\<rparr>)"
  by (auto simp: flag_commit_def run_attempt insert_moderation_run run_simps save_review_run andthen_def bnd_def emit_def
      only_if_def ret_def throw_def Let_def)

lemma remove_commit_run:
  "lr_profile l = Some p \<Longrightarrow> remove_commit m a reason l w = (Inr (), (after_moderation w)\<lparr>
     w_db := refreshed m (pr_id p) (delete_review (rv_id (lr_row l))
       (logged (moderation_entry l a REMOVE (Some reason) (next_id w T_moderation) (clock w)) (w_db w)))\<rparr>)"
  "lr_profile l = None \<Longrightarrow> remove_commit m a reason l w = (Inl TypeError, w)"
  by (simp_all add: remove_commit_def some_or_def run_simps andthen_def bnd_def transaction_def insert_moderation_run with_db_def refresh_run)

lemma restore_commit_run:
  "snd (restore_commit m a l w) = (after_moderation w)\<lparr>
     w_db := (let d0 = logged (moderation_entry l a RESTORE None (next_id w T_moderation) (clock w)) (w_db w);
                  d = put_review (saved_review d0 (l\<lparr>lr_row := (lr_row l)\<lparr>rv_status := Rv_ACTIVE\<rparr>\<rparr>)) d0
       in case lr_profile l of None \<Rightarrow> d | Some p \<Rightarrow> refreshed m (pr_id p) d)\<rparr>"
  by (simp add: restore_commit_def insert_moderation_run andthen_def bnd_def save_review_run some_or_def throw_def refresh_run Let_def
      ret_def split: option.splits)

section \<open>The rows, whatever interleaves\<close>

definition review_rows_ok :: "world \<Rightarrow> bool" where
  "review_rows_ok w \<longleftrightarrow> (let d = w_db w in
     distinct (map rv_id (t_reviews d))
     \<and> (\<forall>r \<in> set (t_reviews d). rv_id r < next_id w T_reviews)
     \<and> (\<forall>r \<in> set (t_reviews d). \<forall>s \<in> set (t_reviews d). rv_jobId r = rv_jobId s \<and> rv_jobId r \<noteq> None \<longrightarrow> rv_id r = rv_id s)
     \<and> (\<forall>p \<in> set (t_photos d). \<exists>r \<in> set (t_reviews d). rv_id r = ph_reviewId p)
     \<and> (\<forall>k. length (filter (\<lambda>p. ph_reviewId p = k) (t_photos d)) \<le> REVIEW_MAX_PHOTOS)
     \<and> (\<forall>k u. length (filter (\<lambda>e. md_action e = FLAG \<and> md_reviewId e = k \<and> md_actorId e = u) (t_moderation d)) \<le> 1))"

lemma review_rows_okI:
  assumes "distinct (map rv_id (t_reviews (w_db w)))"
    and "\<And>r. r \<in> set (t_reviews (w_db w)) \<Longrightarrow> rv_id r < next_id w T_reviews"
    and "\<And>r s. r \<in> set (t_reviews (w_db w)) \<Longrightarrow> s \<in> set (t_reviews (w_db w)) \<Longrightarrow> rv_jobId r = rv_jobId s \<Longrightarrow>
           rv_jobId r \<noteq> None \<Longrightarrow> rv_id r = rv_id s"
    and "\<And>p. p \<in> set (t_photos (w_db w)) \<Longrightarrow> \<exists>r \<in> set (t_reviews (w_db w)). rv_id r = ph_reviewId p"
    and "\<And>k. length (filter (\<lambda>p. ph_reviewId p = k) (t_photos (w_db w))) \<le> REVIEW_MAX_PHOTOS"
    and "\<And>k u. length (filter (\<lambda>e. md_action e = FLAG \<and> md_reviewId e = k \<and> md_actorId e = u) (t_moderation (w_db w))) \<le> 1"
  shows "review_rows_ok w"
  unfolding review_rows_ok_def Let_def using assms by blast

lemma review_rows_okD:
  assumes "review_rows_ok w"
  shows "distinct (map rv_id (t_reviews (w_db w)))"
    and "r \<in> set (t_reviews (w_db w)) \<Longrightarrow> rv_id r < next_id w T_reviews"
    and "r \<in> set (t_reviews (w_db w)) \<Longrightarrow> s \<in> set (t_reviews (w_db w)) \<Longrightarrow> rv_jobId r = rv_jobId s \<Longrightarrow>
           rv_jobId r \<noteq> None \<Longrightarrow> rv_id r = rv_id s"
    and "p \<in> set (t_photos (w_db w)) \<Longrightarrow> \<exists>r \<in> set (t_reviews (w_db w)). rv_id r = ph_reviewId p"
    and "length (filter (\<lambda>p. ph_reviewId p = k) (t_photos (w_db w))) \<le> REVIEW_MAX_PHOTOS"
    and "length (filter (\<lambda>e. md_action e = FLAG \<and> md_reviewId e = k \<and> md_actorId e = u) (t_moderation (w_db w))) \<le> 1"
  using assms unfolding review_rows_ok_def Let_def by blast+

text \<open>Only these parts of the world matter.\<close>

lemma review_rows_ok_cong:
  assumes "review_rows_ok w" and "t_reviews (w_db w') = t_reviews (w_db w)" and "t_photos (w_db w') = t_photos (w_db w)"
    and "t_moderation (w_db w') = t_moderation (w_db w)" and "next_id w' T_reviews = next_id w T_reviews"
  shows "review_rows_ok w'"
  using assms(1) unfolding review_rows_ok_def Let_def assms(2-5) .

lemma find_review_iff:
  "distinct (map rv_id (t_reviews d)) \<Longrightarrow> find_review d k = Some r \<longleftrightarrow> r \<in> set (t_reviews d) \<and> rv_id r = k"
  by (simp add: find_review_def find_row_Some_iff)

lemma find_review_None: "find_review d k = None \<longleftrightarrow> (\<forall>r \<in> set (t_reviews d). rv_id r \<noteq> k)"
  by (simp add: find_review_def find_row_None_iff)

text \<open>Saving a loaded review, stale or not.\<close>

lemma saved_review_job:
  assumes "distinct (map rv_id (t_reviews d))" and "rv_jobId (saved_review d l) = Some j"
  shows "\<exists>r \<in> set (t_reviews d). rv_id r = rv_id (lr_row l) \<and> rv_jobId r = Some j"
  using assms by (auto simp: find_review_iff bind_eq_Some_conv)

lemma saved_rows_ok:
  assumes ok: "review_rows_ok w" and id: "rv_id (lr_row l) < next_id w T_reviews"
    and w': "t_reviews (w_db w') = save_row rv_id (saved_review d l) (t_reviews (w_db w))"
      "t_photos (w_db w') = t_photos (w_db w)" "next_id w' T_reviews = next_id w T_reviews"
    and d: "t_reviews d = t_reviews (w_db w)"
    and log: "\<And>k u. length (filter (\<lambda>e. md_action e = FLAG \<and> md_reviewId e = k \<and> md_actorId e = u) (t_moderation (w_db w'))) \<le> 1"
  shows "review_rows_ok w'"
proof (rule review_rows_okI)
  note ok' = review_rows_okD [OF ok]
  let ?s = "saved_review d l"
  have rows: "set (t_reviews (w_db w')) = insert ?s {x \<in> set (t_reviews (w_db w)). rv_id x \<noteq> rv_id (lr_row l)}"
    using set_save_row [OF ok'(1), of ?s] w'(1) by simp
  show "distinct (map rv_id (t_reviews (w_db w')))" using save_row_distinct [OF ok'(1)] w'(1) by simp
  show "rv_id r < next_id w' T_reviews" if "r \<in> set (t_reviews (w_db w'))" for r
    using that ok'(2) id w'(3) rows by auto
  have job: "\<exists>r \<in> set (t_reviews (w_db w)). rv_id r = rv_id (lr_row l) \<and> rv_jobId r = Some j" if "rv_jobId ?s = Some j" for j
    using saved_review_job [of d l j] that d ok'(1) by simp
  have clash: "rv_id x = rv_id (lr_row l)" if "x \<in> set (t_reviews (w_db w))" and "rv_jobId x = rv_jobId ?s" and "rv_jobId ?s \<noteq> None" for x
  proof -
    from that(3) obtain j where j: "rv_jobId ?s = Some j" by blast
    from job [OF j] obtain r where "r \<in> set (t_reviews (w_db w))" "rv_id r = rv_id (lr_row l)" "rv_jobId r = Some j" by blast
    with ok'(3) [of x r] that j show ?thesis by metis
  qed
  have "rv_id a = rv_id b" if "a \<in> insert ?s {x \<in> set (t_reviews (w_db w)). rv_id x \<noteq> rv_id (lr_row l)}"
      "b \<in> insert ?s {x \<in> set (t_reviews (w_db w)). rv_id x \<noteq> rv_id (lr_row l)}" "rv_jobId a = rv_jobId b" "rv_jobId a \<noteq> None" for a b
    using that clash [of a] clash [of b] ok'(3) [of a b] by (metis (no_types, lifting) insert_iff mem_Collect_eq saved_review_simps(1))
  then show "rv_id r = rv_id s" if "r \<in> set (t_reviews (w_db w'))" "s \<in> set (t_reviews (w_db w'))" "rv_jobId r = rv_jobId s" "rv_jobId r \<noteq> None" for r s
    using that rows by blast
  show "\<exists>r \<in> set (t_reviews (w_db w')). rv_id r = ph_reviewId p" if "p \<in> set (t_photos (w_db w'))" for p
  proof -
    from ok'(4) [of p] that w'(2) obtain r where r: "r \<in> set (t_reviews (w_db w))" "rv_id r = ph_reviewId p" by auto
    then show ?thesis unfolding rows by (cases "rv_id r = rv_id (lr_row l)") auto
  qed
  show "length (filter (\<lambda>p. ph_reviewId p = k) (t_photos (w_db w'))) \<le> REVIEW_MAX_PHOTOS" for k using ok'(5) w'(2) by simp
qed (rule log)

subsection \<open>Each part that writes\<close>

lemma create_commit_ok:
  assumes ok: "review_rows_ok w"
  shows "review_rows_ok (snd (create_commit m dto (j, art, p, who) w))"
proof (cases "\<exists>r \<in> set (t_reviews (w_db w)). rv_jobId r = Some (j_id j)")
  case True
  with ok show ?thesis by (simp add: create_commit_run)
next
  case no: False
  note ok' = review_rows_okD [OF ok]
  let ?r = "new_review (next_id w T_reviews) (clock w) (j_id j) dto art p who" and ?w = "snd (create_commit m dto (j, art, p, who) w)"
  from create_commit_run(2) [OF no] obtain out ids where run: "?w = w\<lparr>w_db := refreshed m (pr_id p) (with_new_review w dto ?r), outbox := out, next_id := ids\<rparr>"
    and ids: "ids T_reviews = Suc (next_id w T_reviews)" by blast
  have r: "rv_id ?r = next_id w T_reviews" "rv_jobId ?r = Some (j_id j)" by (simp_all add: new_review_def)
  have rows: "t_reviews (w_db ?w) = t_reviews (w_db w) @ [?r]" "t_moderation (w_db ?w) = t_moderation (w_db w)" "next_id ?w T_reviews = Suc (next_id w T_reviews)"
    using run ids by (simp_all add: with_new_review_def)
  let ?urls = "take REVIEW_MAX_PHOTOS (sent_list (cr_photoUrls dto))"
  let ?ps = "map (photo_row (next_id w T_reviews)) (zip [next_id w T_photos..<next_id w T_photos + length ?urls] ?urls)"
  have photos: "t_photos (w_db ?w) = t_photos (w_db w) @ ?ps" using run by (simp add: with_new_review_def r)
  have few: "length ?ps \<le> REVIEW_MAX_PHOTOS" by simp
  have mine: "ph_reviewId x = next_id w T_reviews" if "x \<in> set ?ps" for x using that by (auto simp: photo_row_def)
  have old: "ph_reviewId x < next_id w T_reviews" if "x \<in> set (t_photos (w_db w))" for x using ok'(4) [OF that] ok'(2) by fastforce
  show ?thesis
  proof (rule review_rows_okI)
    have "next_id w T_reviews \<notin> set (map rv_id (t_reviews (w_db w)))" using ok'(2) by (metis imageE less_irrefl list.set_map)
    then show "distinct (map rv_id (t_reviews (w_db ?w)))" using ok'(1) unfolding rows(1) by (simp add: r)
    show "rv_id x < next_id ?w T_reviews" if "x \<in> set (t_reviews (w_db ?w))" for x
      using that ok'(2) [of x] r(1) unfolding rows(1,3) by (auto simp: less_Suc_eq)
    show "rv_id x = rv_id y" if "x \<in> set (t_reviews (w_db ?w))" "y \<in> set (t_reviews (w_db ?w))" "rv_jobId x = rv_jobId y" "rv_jobId x \<noteq> None" for x y
    proof -
      from that rows(1) have "x = ?r \<or> x \<in> set (t_reviews (w_db w))" "y = ?r \<or> y \<in> set (t_reviews (w_db w))" by (simp_all only: set_append) auto
      then show ?thesis using no ok'(3) [of x y] that(3, 4) r(2) by metis
    qed
    show "\<exists>x \<in> set (t_reviews (w_db ?w)). rv_id x = ph_reviewId q" if "q \<in> set (t_photos (w_db ?w))" for q
    proof (cases "q \<in> set ?ps")
      case True
      then show ?thesis using mine [of q] r(1) unfolding rows(1) by simp
    next
      case False
      with that photos ok'(4) [of q] show ?thesis unfolding rows(1) by auto
    qed
    show "length (filter (\<lambda>q. ph_reviewId q = k) (t_photos (w_db ?w))) \<le> REVIEW_MAX_PHOTOS" for k
    proof (cases "k = next_id w T_reviews")
      case True
      have "filter (\<lambda>q. ph_reviewId q = k) (t_photos (w_db w)) = []" using True old by (fastforce simp: filter_empty_conv)
      with few photos show ?thesis by (simp add: le_trans [OF length_filter_le])
    next
      case False
      then have "filter (\<lambda>q. ph_reviewId q = k) ?ps = []" using mine by (fastforce simp: filter_empty_conv)
      with photos ok'(5) [of k] show ?thesis by simp
    qed
  qed (use ok'(6) rows(2) in simp)
qed

lemma update_commit_ok:
  assumes "review_rows_ok w" and "rv_id (lr_row l) < next_id w T_reviews"
  shows "review_rows_ok (snd (update_commit m dto (l, now) w))"
proof (cases "ur_rating dto = Null")
  case False
  show ?thesis
    by (rule saved_rows_ok [where l = "l\<lparr>lr_row := edited_review dto now (lr_row l)\<rparr>" and d = "w_db w" and w = w])
      (use assms False review_rows_okD(6) [OF assms(1)] in \<open>auto simp: update_commit_run Let_def edited_review_def split: option.splits\<close>)
qed (simp add: update_commit_run assms)

lemma reply_commit_ok: "review_rows_ok w \<Longrightarrow> review_rows_ok (snd (reply_commit rid t w))"
proof -
  assume ok: "review_rows_ok w"
  note ok' = review_rows_okD [OF ok]
  have ids: "map rv_id (replied rid t now rows) = map rv_id rows" for now rows
    by (simp add: replied_def update_where_keys)
  have same: "\<exists>y \<in> set rows. rv_id x = rv_id y \<and> rv_jobId x = rv_jobId y" if "x \<in> set (replied rid t now rows)" for x now rows
    using that by (auto simp: replied_def in_update_where)
  show ?thesis
  proof (rule review_rows_okI, simp_all add: reply_commit_run ids ok'(1) ok'(5))
    show "length (filter (\<lambda>e. md_action e = FLAG \<and> md_reviewId e = k \<and> md_actorId e = u) (t_moderation (w_db w))) \<le> Suc 0" for k u
      using ok'(6) [of k u] by simp
    show "rv_id x < next_id w T_reviews" if "x \<in> set (replied rid t (clock w) (t_reviews (w_db w)))" for x
      using same [OF that] ok'(2) by auto
    show "rv_id x = rv_id y" if "x \<in> set (replied rid t (clock w) (t_reviews (w_db w)))"
        "y \<in> set (replied rid t (clock w) (t_reviews (w_db w)))" "rv_jobId x = rv_jobId y" "\<exists>j. rv_jobId y = Some j" for x y
      using same [OF that(1)] same [OF that(2)] ok'(3) that(3,4) by (metis option.distinct(1))
    show "\<exists>r \<in> set (replied rid t (clock w) (t_reviews (w_db w))). rv_id r = ph_reviewId p" if "p \<in> set (t_photos (w_db w))" for p
      using ok'(4) [OF that] ids by (metis (no_types, lifting) image_iff list.set_map)
  qed
qed

lemma log_grows_ok:
  assumes "\<And>k u. length (filter (\<lambda>e. md_action e = FLAG \<and> md_reviewId e = k \<and> md_actorId e = u) (t_moderation d)) \<le> 1"
    and "md_action e = FLAG \<Longrightarrow> \<not> flagged_by d (md_reviewId e) (md_actorId e)"
  shows "length (filter (\<lambda>x. md_action x = FLAG \<and> md_reviewId x = k \<and> md_actorId x = u) (t_moderation d @ [e])) \<le> 1"
proof (cases "md_action e = FLAG \<and> md_reviewId e = k \<and> md_actorId e = u")
  case True
  then have "filter (\<lambda>x. md_action x = FLAG \<and> md_reviewId x = k \<and> md_actorId x = u) (t_moderation d) = []"
    using assms(2) by (auto simp: flagged_by_def filter_empty_conv)
  with True show ?thesis by simp
next
  case False
  then have "filter (\<lambda>x. md_action x = FLAG \<and> md_reviewId x = k \<and> md_actorId x = u) (t_moderation d @ [e])
      = filter (\<lambda>x. md_action x = FLAG \<and> md_reviewId x = k \<and> md_actorId x = u) (t_moderation d)" by auto
  then show ?thesis using assms(1) [of k u] by (simp only:)
qed

lemma flag_commit_ok:
  assumes ok: "review_rows_ok w" and id: "rv_id (lr_row l) < next_id w T_reviews"
  shows "review_rows_ok (snd (flag_commit a reason l w))"
proof (cases "flagged_by (w_db w) (rv_id (lr_row l)) (u_id a)")
  case True
  then show ?thesis by (simp add: flag_commit_run) (rule review_rows_ok_cong [OF ok], simp_all)
next
  case no: False
  note ok' = review_rows_okD [OF ok]
  let ?e = "moderation_entry l a FLAG (Some reason) (next_id w T_moderation) (clock w)" and ?w = "snd (flag_commit a reason l w)"
  from flag_commit_run(2) [OF no, of reason] obtain out where run: "?w = (after_moderation w)\<lparr>
       w_db := (let d = logged ?e (w_db w) in if rv_status (lr_row l) = Rv_ACTIVE
            then put_review (saved_review d (l\<lparr>lr_row := (lr_row l)\<lparr>rv_status := Rv_FLAGGED\<rparr>\<rparr>)) d else d), outbox := out\<rparr>" by force
  have log: "length (filter (\<lambda>e. md_action e = FLAG \<and> md_reviewId e = k \<and> md_actorId e = u) (t_moderation (w_db ?w))) \<le> 1" for k u
    using log_grows_ok [OF ok'(6), of ?e k u] no by (simp add: run Let_def)
  show ?thesis
  proof (cases "rv_status (lr_row l) = Rv_ACTIVE")
    case True
    let ?l = "l\<lparr>lr_row := (lr_row l)\<lparr>rv_status := Rv_FLAGGED\<rparr>\<rparr>"
    have w': "t_reviews (w_db ?w) = save_row rv_id (saved_review (logged ?e (w_db w)) ?l) (t_reviews (w_db w))"
      "t_photos (w_db ?w) = t_photos (w_db w)" "next_id ?w T_reviews = next_id w T_reviews"
      using True by (simp_all add: run Let_def)
    show ?thesis by (rule saved_rows_ok [OF ok _ w' _ log]) (use id in simp_all)
  next
    case False
    have w': "t_reviews (w_db ?w) = t_reviews (w_db w)" "t_photos (w_db ?w) = t_photos (w_db w)" "next_id ?w T_reviews = next_id w T_reviews"
      using False by (simp_all add: run Let_def)
    show ?thesis by (rule review_rows_okI) (use ok' log w' in \<open>simp_all only:\<close>)
  qed
qed

lemma length_filter_both: "length (filter (\<lambda>x. P x \<and> Q x) xs) \<le> length (filter Q xs)"
  by (induction xs) auto

lemma remove_commit_ok:
  assumes ok: "review_rows_ok w"
  shows "review_rows_ok (snd (remove_commit m a reason l w))"
proof (cases "lr_profile l")
  case None
  with ok show ?thesis by (simp add: remove_commit_run)
next
  case (Some p)
  note ok' = review_rows_okD [OF ok]
  show ?thesis
  proof (rule review_rows_okI, simp_all add: remove_commit_run(1) [OF Some] delete_review_def ok'(2))
    show "distinct (map rv_id (filter (\<lambda>r. rv_id r \<noteq> rv_id (lr_row l)) (t_reviews (w_db w))))" by (rule distinct_map_filter [OF ok'(1)])
    show "\<exists>r. r \<in> set (t_reviews (w_db w)) \<and> rv_id r \<noteq> rv_id (lr_row l) \<and> rv_id r = ph_reviewId q"
      if "q \<in> set (t_photos (w_db w)) \<and> ph_reviewId q \<noteq> rv_id (lr_row l)" for q
      using ok'(4) [of q] that by auto
    show "length (filter (\<lambda>q. ph_reviewId q \<noteq> rv_id (lr_row l) \<and> ph_reviewId q = k) (t_photos (w_db w))) \<le> REVIEW_MAX_PHOTOS" for k
      using ok'(5) [of k] by (rule le_trans [OF length_filter_both])
    show "length (filter (\<lambda>e. md_action e = FLAG \<and> md_reviewId e = k \<and> md_actorId e = u) (t_moderation (w_db w))) \<le> Suc 0" for k u
      using ok'(6) [of k u] by simp
    show "rv_id r = rv_id s" if "r \<in> set (t_reviews (w_db w)) \<and> rv_id r \<noteq> rv_id (lr_row l)" "s \<in> set (t_reviews (w_db w)) \<and> rv_id s \<noteq> rv_id (lr_row l)"
        "rv_jobId r = rv_jobId s" "\<exists>y. rv_jobId s = Some y" for r s
      using ok'(3) [of r s] that by auto
  qed
qed

lemma restore_commit_ok:
  assumes ok: "review_rows_ok w" and id: "rv_id (lr_row l) < next_id w T_reviews"
  shows "review_rows_ok (snd (restore_commit m a l w))"
proof (rule saved_rows_ok [OF ok])
  let ?e = "moderation_entry l a RESTORE None (next_id w T_moderation) (clock w)"
  show "rv_id (lr_row (l\<lparr>lr_row := (lr_row l)\<lparr>rv_status := Rv_ACTIVE\<rparr>\<rparr>)) < next_id w T_reviews" using id by simp
  show "t_reviews (w_db (snd (restore_commit m a l w)))
     = save_row rv_id (saved_review (logged ?e (w_db w)) (l\<lparr>lr_row := (lr_row l)\<lparr>rv_status := Rv_ACTIVE\<rparr>\<rparr>)) (t_reviews (w_db w))"
    by (simp add: restore_commit_run Let_def split: option.splits)
  show "length (filter (\<lambda>e. md_action e = FLAG \<and> md_reviewId e = k \<and> md_actorId e = u)
      (t_moderation (w_db (snd (restore_commit m a l w))))) \<le> 1" for k u
    using review_rows_okD(6) [OF ok, of k u] by (simp add: restore_commit_run Let_def split: option.splits)
qed (simp_all add: restore_commit_run Let_def split: option.splits)

end
