(* ===== verification/ReviewSafety.thy ===== *)
theory ReviewSafety
  imports ReviewRules
begin

text \<open>
  Reviews over sequences of requests: requests served one after the other (\<open>review_step\<close>), for the
  ratings, the moderation trail and the life of a review, and requests that interleave between what they read
  and what they write (\<open>review_race\<close>), for what the tables keep.
\<close>

section \<open>A whole request\<close>

lemma snd_bnd: "snd (m w) = w \<Longrightarrow> snd (bnd m f w) = (case fst (m w) of Inl e \<Rightarrow> w | Inr x \<Rightarrow> snd (f x w))"
  by (cases "m w") (auto simp: bnd_def split: sum.splits)

lemma create_read_run:
  "snd (create_read uid dto w) = w"
  "fst (create_read uid dto w) = Inr (j, art, p, who) \<Longrightarrow> find_job (w_db w) (cr_jobId dto) = Some j \<and> j_status j = COMPLETED
     \<and> profile_of_user (w_db w) (u_id art) = Some p \<and> who = find_user (w_db w) uid"
  by (auto simp: create_read_def run_simps customer_of_def asks_def with_relations_def Let_def split: option.splits if_splits)

lemma update_read_run:
  "snd (update_read uid rid dto w) = w"
  "fst (update_read uid rid dto w) = Inr (l, now) \<Longrightarrow> \<exists>r. find_review (w_db w) rid = Some r \<and> l = load_review False (w_db w) r
     \<and> now = clock w \<and> now - rv_createdAt r \<le> REVIEW_EDIT_WINDOW_HOURS * 3600000 \<and> map_option u_id (lr_reviewer l) = Some uid"
  by (auto simp: update_read_def run_simps load_review_def split: option.splits if_splits)

lemma reply_read_run: "snd (reply_read uid rid w) = w"
  by (auto simp: reply_read_def run_simps split: option.splits sent.splits)

lemma load_for_moderation_run:
  "load_for_moderation rid w = ((case find_review (w_db w) rid of None \<Rightarrow> Inl (NotFound_review (Review_not_found rid))
     | Some r \<Rightarrow> Inr (load_review True (w_db w) r)), w)"
  by (simp add: load_for_moderation_def run_simps some_or_def throw_def ret_def split: option.splits)

lemma flag_read_run:
  "snd (flag_read a rid w) = w"
  "fst (flag_read a rid w) = Inr l \<Longrightarrow> \<exists>r. find_review (w_db w) rid = Some r \<and> l = load_review True (w_db w) r"
  by (auto simp: flag_read_def bnd_def load_for_moderation_run asks_def andthen_def guard_def throw_def ret_def split: option.splits if_splits)

lemma restore_read_run:
  "snd (restore_read rid w) = w"
  "fst (restore_read rid w) = Inr l \<Longrightarrow> \<exists>r. find_review (w_db w) rid = Some r \<and> l = load_review True (w_db w) r \<and> rv_status r = Rv_FLAGGED"
  by (auto simp: restore_read_def bnd_def load_for_moderation_run load_review_def andthen_def guard_def throw_def ret_def split: option.splits if_splits)

text \<open>A request that is refused when it reads changes nothing; otherwise it writes what it read.\<close>

lemma whole_requests:
  "snd (create_review m uid dto w) = (case fst (create_read uid dto w) of Inl e \<Rightarrow> w | Inr x \<Rightarrow> snd (create_commit m dto x w))"
  "snd (update_review m uid rid udto w) = (case fst (update_read uid rid udto w) of Inl e \<Rightarrow> w | Inr x \<Rightarrow> snd (update_commit m udto x w))"
  "snd (add_reply uid rid t w) = (case fst (reply_read uid rid w) of Inl e \<Rightarrow> w | Inr x \<Rightarrow> snd (reply_commit rid t w))"
  "snd (flag_review a rid reason w) = (case fst (flag_read a rid w) of Inl e \<Rightarrow> w | Inr l \<Rightarrow> snd (flag_commit a reason l w))"
  "snd (admin_restore m a rid w) = (case fst (restore_read rid w) of Inl e \<Rightarrow> w | Inr l \<Rightarrow> snd (restore_commit m a l w))"
  by (simp_all add: create_review_def update_review_def add_reply_def andthen_def flag_review_def admin_restore_def
      snd_bnd create_read_run(1) update_read_run(1) reply_read_run flag_read_run(1) restore_read_run(1))

lemma create_review_cases:
  obtains "snd (create_review m uid dto w) = w"
  | j art p who where "snd (create_review m uid dto w) = snd (create_commit m dto (j, art, p, who) w)"
  using that by (cases "fst (create_read uid dto w)") (auto simp: whole_requests)

lemma update_review_cases:
  obtains "snd (update_review m uid rid dto w) = w"
  | r where "snd (update_review m uid rid dto w) = snd (update_commit m dto (load_review False (w_db w) r, clock w) w)"
      "find_review (w_db w) rid = Some r" "clock w - rv_createdAt r \<le> REVIEW_EDIT_WINDOW_HOURS * 3600000" "alive (w_db w) (rv_reviewerId r) = Some uid"
proof (cases "fst (update_read uid rid dto w)")
  case (Inl e)
  then have "snd (update_review m uid rid dto w) = w" by (simp add: whole_requests)
  then show ?thesis by (rule that(1))
next
  case (Inr x)
  then obtain l now where x: "fst (update_read uid rid dto w) = Inr (l, now)" by (cases x) simp
  from update_read_run(2) [OF x] obtain r where "find_review (w_db w) rid = Some r" "l = load_review False (w_db w) r" "now = clock w"
    "now - rv_createdAt r \<le> REVIEW_EDIT_WINDOW_HOURS * 3600000" "map_option u_id (lr_reviewer l) = Some uid" by blast
  with that(2) [of r] x show ?thesis
    by (simp add: whole_requests load_review_def alive_def)
qed

lemma add_reply_cases:
  obtains "snd (add_reply uid rid t w) = w" | "snd (add_reply uid rid t w) = snd (reply_commit rid t w)"
  using that by (cases "fst (reply_read uid rid w)") (auto simp: whole_requests)

lemma flag_review_cases:
  obtains "snd (flag_review a rid reason w) = w"
  | r where "snd (flag_review a rid reason w) = snd (flag_commit a reason (load_review True (w_db w) r) w)" "find_review (w_db w) rid = Some r"
proof (cases "fst (flag_read a rid w)")
  case (Inl e)
  then have "snd (flag_review a rid reason w) = w" by (simp add: whole_requests)
  then show ?thesis by (rule that(1))
next
  case (Inr l)
  from flag_read_run(2) [OF Inr] that(2) Inr show ?thesis by (auto simp: whole_requests)
qed

lemma admin_remove_cases:
  obtains "snd (admin_remove m a rid reason w) = w"
  | r where "snd (admin_remove m a rid reason w) = snd (remove_commit m a reason (load_review True (w_db w) r) w)" "find_review (w_db w) rid = Some r"
  using that by (cases "find_review (w_db w) rid") (auto simp: admin_remove_def bnd_def load_for_moderation_run)

lemma admin_restore_cases:
  obtains "snd (admin_restore m a rid w) = w"
  | r where "snd (admin_restore m a rid w) = snd (restore_commit m a (load_review True (w_db w) r) w)" "find_review (w_db w) rid = Some r"
      "rv_status r = Rv_FLAGGED"
proof (cases "fst (restore_read rid w)")
  case (Inl e)
  then have "snd (admin_restore m a rid w) = w" by (simp add: whole_requests)
  then show ?thesis by (rule that(1))
next
  case (Inr l)
  from restore_read_run(2) [OF Inr] that(2) Inr show ?thesis by (auto simp: whole_requests)
qed

section \<open>Sequences\<close>

text \<open>What the validators let through: the rating, the length of the review text and the number of photos.\<close>

definition valid_text :: "string sent \<Rightarrow> bool" where
  "valid_text t \<longleftrightarrow> (case t of Sent s \<Rightarrow> 20 \<le> length s \<and> length s \<le> 2000 | _ \<Rightarrow> True)"

definition valid_create_review :: "create_review_dto \<Rightarrow> bool" where
  "valid_create_review dto \<longleftrightarrow> 1 \<le> cr_rating dto \<and> cr_rating dto \<le> 5 \<and> valid_text (cr_text dto)
     \<and> length (sent_list (cr_photoUrls dto)) \<le> REVIEW_MAX_PHOTOS"

definition valid_update_review :: "update_review_dto \<Rightarrow> bool" where
  "valid_update_review dto \<longleftrightarrow> (case ur_rating dto of Sent x \<Rightarrow> 1 \<le> x \<and> x \<le> 5 | _ \<Rightarrow> True) \<and> valid_text (ur_text dto)"

text \<open>
  What the rest of the program may do meanwhile: anything that leaves the tables of reviews alone, keeps
  the ratings of the profiles there are, and gives a new profile no reviews.
\<close>

definition off_reviews :: "world \<Rightarrow> world \<Rightarrow> bool" where
  "off_reviews w w' \<longleftrightarrow> t_reviews (w_db w') = t_reviews (w_db w) \<and> t_photos (w_db w') = t_photos (w_db w)
     \<and> t_moderation (w_db w') = t_moderation (w_db w) \<and> next_id w' T_reviews = next_id w T_reviews
     \<and> (\<forall>p \<in> set (t_profiles (w_db w')).
          (\<exists>q \<in> set (t_profiles (w_db w)). pr_id q = pr_id p \<and> pr_totalReviews q = pr_totalReviews p
             \<and> pr_averageRating q = pr_averageRating p \<and> pr_weightedRating q = pr_weightedRating p)
          \<or> (pr_totalReviews p = 0 \<and> pr_averageRating p = 0 \<and> (\<forall>r \<in> set (t_reviews (w_db w)). rv_artisanProfileId r \<noteq> pr_id p)))"

inductive review_step :: "money \<times> world \<Rightarrow> money \<times> world \<Rightarrow> bool" where
  submitted: "valid_create_review dto \<Longrightarrow> review_step (m, w) (m, snd (create_review m uid dto w))"
| edited: "valid_update_review dto \<Longrightarrow> review_step (m, w) (m, snd (update_review m uid rid dto w))"
| replied_to: "review_step (m, w) (m, snd (add_reply uid rid t w))"
| flagged: "review_step (m, w) (m, snd (flag_review a rid reason w))"
| removed: "review_step (m, w) (m, snd (admin_remove m a rid reason w))"
| restored: "review_step (m, w) (m, snd (admin_restore m a rid w))"
| mean_refreshed: "review_step (m, w) (refresh_platform_mean (w_db w) m, w)"
| off_reviews: "off_reviews w w' \<Longrightarrow> review_step (m, w) (m, w')"

text \<open>The same parts, interleaved: requests that have read and not yet written wait in the third component.\<close>

datatype in_flight =
    W_create create_review_dto "job \<times> user \<times> profile \<times> user option"
  | W_update update_review_dto "loaded_review \<times> int"
  | W_reply nat string
  | W_flag user string loaded_review
  | W_remove user string loaded_review
  | W_restore user loaded_review

fun finish :: "money \<Rightarrow> in_flight \<Rightarrow> world \<Rightarrow> world" where
  "finish m (W_create dto x) w = snd (create_commit m dto x w)"
| "finish m (W_update dto x) w = snd (update_commit m dto x w)"
| "finish m (W_reply rid t) w = snd (reply_commit rid t w)"
| "finish m (W_flag a reason l) w = snd (flag_commit a reason l w)"
| "finish m (W_remove a reason l) w = snd (remove_commit m a reason l w)"
| "finish m (W_restore a l) w = snd (restore_commit m a l w)"

inductive review_race :: "money \<times> world \<times> in_flight list \<Rightarrow> money \<times> world \<times> in_flight list \<Rightarrow> bool" where
  create_begins: "fst (create_read uid dto w) = Inr x \<Longrightarrow> review_race (m, w, q) (m, w, W_create dto x # q)"
| update_begins: "fst (update_read uid rid dto w) = Inr x \<Longrightarrow> review_race (m, w, q) (m, w, W_update dto x # q)"
| reply_begins: "fst (reply_read uid rid w) = Inr () \<Longrightarrow> review_race (m, w, q) (m, w, W_reply rid t # q)"
| flag_begins: "fst (flag_read a rid w) = Inr l \<Longrightarrow> review_race (m, w, q) (m, w, W_flag a reason l # q)"
| remove_begins: "fst (load_for_moderation rid w) = Inr l \<Longrightarrow> review_race (m, w, q) (m, w, W_remove a reason l # q)"
| restore_begins: "fst (restore_read rid w) = Inr l \<Longrightarrow> review_race (m, w, q) (m, w, W_restore a l # q)"
| finishes: "x \<in> set q \<Longrightarrow> review_race (m, w, q) (m, finish m x w, remove1 x q)"
| mean_changes: "review_race (m, w, q) (refresh_platform_mean (w_db w) m, w, q)"
| others: "off_reviews w w' \<Longrightarrow> review_race (m, w, q) (m, w', q)"

section \<open>Interleaved requests\<close>

fun waiting_id :: "in_flight \<Rightarrow> nat option" where
  "waiting_id (W_update dto x) = Some (rv_id (lr_row (fst x)))"
| "waiting_id (W_flag a reason l) = Some (rv_id (lr_row l))"
| "waiting_id (W_restore a l) = Some (rv_id (lr_row l))"
| "waiting_id _ = None"

lemma load_review_row [simp]: "lr_row (load_review b d r) = r"
  by (simp add: load_review_def)

lemma finish_ok:
  assumes "review_rows_ok w" and "\<And>k. waiting_id x = Some k \<Longrightarrow> k < next_id w T_reviews"
  shows "review_rows_ok (finish m x w)"
proof (cases x)
  case (W_create dto y)
  then show ?thesis using create_commit_ok [OF assms(1)] by (cases y) simp
next
  case (W_update dto y)
  then show ?thesis using update_commit_ok [OF assms(1)] assms(2) by (cases y) simp
qed (use assms reply_commit_ok remove_commit_ok flag_commit_ok restore_commit_ok in simp_all)

lemma create_commit_frame:
  "t_moderation (w_db (snd (create_commit m dto x w))) = t_moderation (w_db w)
    \<and> next_id w T_reviews \<le> next_id (snd (create_commit m dto x w)) T_reviews"
proof -
  obtain j art p who where x: "x = (j, art, p, who)" by (cases x)
  show ?thesis
  proof (cases "\<exists>r \<in> set (t_reviews (w_db w)). rv_jobId r = Some (j_id j)")
    case True
    then show ?thesis by (simp add: x create_commit_run)
  next
    case no: False
    from create_commit_run(2) [OF no, of m dto art p who] show ?thesis by (auto simp: x with_new_review_def)
  qed
qed

lemma log_part:
  "\<exists>new. t_moderation (w_db (finish m x w)) = t_moderation (w_db w) @ new"
proof (cases x)
  case (W_flag a reason l)
  then show ?thesis using flag_commit_run [of w l a reason]
    by (cases "flagged_by (w_db w) (rv_id (lr_row l)) (u_id a)") (auto simp: Let_def)
next
  case (W_remove a reason l)
  then show ?thesis by (cases "lr_profile l") (simp_all add: remove_commit_run delete_review_def)
qed (auto simp: create_commit_frame update_commit_run reply_commit_run restore_commit_run Let_def split: option.splits)

lemma next_review_part: "next_id w T_reviews \<le> next_id (finish m x w) T_reviews"
proof (cases x)
  case (W_flag a reason l)
  then show ?thesis using flag_commit_run [of w l a reason]
    by (cases "flagged_by (w_db w) (rv_id (lr_row l)) (u_id a)") (auto simp: Let_def)
next
  case (W_remove a reason l)
  then show ?thesis by (cases "lr_profile l") (simp_all add: remove_commit_run)
qed (auto simp: create_commit_frame update_commit_run reply_commit_run restore_commit_run Let_def split: option.splits)

lemma elsewhere_ok: "off_reviews w w' \<Longrightarrow> review_rows_ok w \<Longrightarrow> review_rows_ok w'"
  unfolding off_reviews_def by (rule review_rows_ok_cong) simp_all

definition race_ok :: "world \<Rightarrow> in_flight list \<Rightarrow> bool" where
  "race_ok w q \<longleftrightarrow> review_rows_ok w \<and> (\<forall>x \<in> set q. \<forall>k. waiting_id x = Some k \<longrightarrow> k < next_id w T_reviews)"

lemma found_id: "review_rows_ok w \<Longrightarrow> find_review (w_db w) rid = Some r \<Longrightarrow> rv_id r < next_id w T_reviews"
  using review_rows_okD(1, 2) find_review_iff by metis

lemma race_step_ok:
  "review_race s s' \<Longrightarrow> race_ok (fst (snd s)) (snd (snd s)) \<Longrightarrow> race_ok (fst (snd s')) (snd (snd s'))
    \<and> (\<exists>new. t_moderation (w_db (fst (snd s'))) = t_moderation (w_db (fst (snd s))) @ new)"
proof (induction rule: review_race.induct)
  case (update_begins uid rid dto w x m q)
  obtain l now where x: "x = (l, now)" by (cases x)
  from update_read_run(2) update_begins(1) x obtain r where "find_review (w_db w) rid = Some r" "l = load_review False (w_db w) r" by metis
  with update_begins(2) x show ?case by (auto simp: race_ok_def intro: found_id)
next
  case (flag_begins a rid w l m q reason)
  from flag_read_run(2) [OF flag_begins(1)] flag_begins(2) show ?case by (auto simp: race_ok_def intro: found_id)
next
  case (restore_begins rid w l m q a)
  from restore_read_run(2) [OF restore_begins(1)] restore_begins(2) show ?case by (auto simp: race_ok_def intro: found_id)
next
  case (finishes x q m w)
  then have ok: "review_rows_ok (finish m x w)" by (intro finish_ok) (auto simp: race_ok_def)
  have "k < next_id (finish m x w) T_reviews" if "y \<in> set (remove1 x q)" "waiting_id y = Some k" for y k
    using that finishes(2) set_remove1_subset [of x q] less_le_trans [OF _ next_review_part [of w m x]] by (auto simp: race_ok_def)
  with ok log_part [of m x w] show ?case by (auto simp: race_ok_def)
next
  case (others w w' m q)
  then show ?case using elsewhere_ok by (auto simp: race_ok_def off_reviews_def)
qed (simp_all add: race_ok_def)

text \<open>
  C7. However requests interleave between what they read and what they write, at any times and with the rest
  of the program: no job gets a second review, no review more than three photos, no photo is without its review,
  no user flags a review twice, and the moderation log only ever gets longer.
\<close>

theorem interleaved_reviews:
  assumes "review_race\<^sup>*\<^sup>* (m, w, []) (m', w', q)" and "review_rows_ok w"
  shows "review_rows_ok w' \<and> (\<exists>new. t_moderation (w_db w') = t_moderation (w_db w) @ new)"
proof -
  have "race_ok (fst (snd s)) (snd (snd s)) \<and> (\<exists>new. t_moderation (w_db (fst (snd s))) = t_moderation (w_db w) @ new)"
    if "review_race\<^sup>*\<^sup>* (m, w, []) s" for s
    using that
  proof (induction rule: rtranclp_induct)
    case base
    then show ?case using assms(2) by (simp add: race_ok_def)
  next
    case (step s s')
    from race_step_ok [OF step.hyps(2)] step.IH show ?case by auto
  qed
  from this [OF assms(1)] show ?thesis by (simp add: race_ok_def)
qed

end
