(* ===== verification/ReviewHistory.thy ===== *)
theory ReviewHistory
  imports ReviewSafety
begin

text \<open>
  Reviews over requests served one after the other: what can become of a review, the ratings on the profiles,
  and what the moderation log says of a review's status.
\<close>

section \<open>Rows that a request writes\<close>

lemma saved_map:
  assumes "distinct (map rv_id rows)" and "r \<in> set rows" and "rv_id s = rv_id r"
  shows "save_row rv_id s rows = map (\<lambda>x. if x = r then s else x) rows"
proof -
  have "rv_id x = rv_id r \<longleftrightarrow> x = r" if "x \<in> set rows" for x
    using assms(1, 2) that by (auto simp: distinct_map inj_on_def)
  then have "map (\<lambda>x. if rv_id x = rv_id r then s else x) rows = map (\<lambda>x. if x = r then s else x) rows" by (intro map_cong) auto
  then show ?thesis using assms(2, 3) by (auto simp: save_row_def)
qed

definition with_row :: "review \<Rightarrow> review \<Rightarrow> review list \<Rightarrow> review list" where
  "with_row r s rows = map (\<lambda>x. if x = r then s else x) rows"

lemma in_with_row: "x \<in> set (with_row r s rows) \<Longrightarrow> x = s \<and> r \<in> set rows \<or> x \<in> set rows \<and> x \<noteq> r"
  by (auto simp: with_row_def)

lemma with_row_ids: "rv_id s = rv_id r \<Longrightarrow> map rv_id (with_row r s rows) = map rv_id rows"
  by (auto simp: with_row_def)

text \<open>What a request writes over the review it has loaded.\<close>

lemma saved_loaded:
  assumes "review_rows_ok w" and "find_review (w_db w) k = Some r" and "t_reviews d = t_reviews (w_db w)" and "rv_id row = rv_id r"
  shows "save_row rv_id (saved_review d ((load_review b (w_db w) r)\<lparr>lr_row := row\<rparr>)) (t_reviews (w_db w))
      = with_row r (saved_review d ((load_review b (w_db w) r)\<lparr>lr_row := row\<rparr>)) (t_reviews (w_db w))"
    and "rv_jobId (saved_review d ((load_review b (w_db w) r)\<lparr>lr_row := row\<rparr>)) = rv_jobId r"
    and "r \<in> set (t_reviews (w_db w))"
proof -
  note ids = review_rows_okD(1) [OF assms(1)]
  show mem: "r \<in> set (t_reviews (w_db w))" using assms(2) ids by (simp add: find_review_iff)
  then show "save_row rv_id (saved_review d ((load_review b (w_db w) r)\<lparr>lr_row := row\<rparr>)) (t_reviews (w_db w))
      = with_row r (saved_review d ((load_review b (w_db w) r)\<lparr>lr_row := row\<rparr>)) (t_reviews (w_db w))"
    using saved_map [OF ids] assms(4) by (simp add: with_row_def)
  have "find_review d (rv_id r) = Some r" using assms(3) mem ids by (simp add: find_review_iff)
  then show "rv_jobId (saved_review d ((load_review b (w_db w) r)\<lparr>lr_row := row\<rparr>)) = rv_jobId r" using assms(4) by simp
qed

text \<open>The rows after each kind of request: unchanged, one row added, one row rewritten, the reply written, or one row gone.\<close>

datatype row_change =
    Rows_same
  | Row_added review
  | Row_edited review review
  | Row_status review review
  | Row_replied nat string int
  | Row_gone nat

fun rows_after :: "row_change \<Rightarrow> review list \<Rightarrow> review list" where
  "rows_after Rows_same rows = rows"
| "rows_after (Row_added r) rows = rows @ [r]"
| "rows_after (Row_edited r s) rows = with_row r s rows"
| "rows_after (Row_status r s) rows = with_row r s rows"
| "rows_after (Row_replied k t now) rows = replied k t now rows"
| "rows_after (Row_gone k) rows = filter (\<lambda>r. rv_id r \<noteq> k) rows"

fun change_ok :: "world \<Rightarrow> row_change \<Rightarrow> bool" where
  "change_ok w (Row_added r) \<longleftrightarrow> rv_id r = next_id w T_reviews \<and> rv_status r = Rv_ACTIVE"
| "change_ok w (Row_edited r s) \<longleftrightarrow> r \<in> set (t_reviews (w_db w)) \<and> rv_id s = rv_id r \<and> rv_jobId s = rv_jobId r
     \<and> rv_artisanProfileId s = rv_artisanProfileId r \<and> rv_createdAt s = rv_createdAt r \<and> rv_reviewerName s = rv_reviewerName r
     \<and> rv_reply s = rv_reply r \<and> rv_repliedAt s = rv_repliedAt r \<and> rv_status s = rv_status r
     \<and> (\<exists>t. rv_editedAt s = Some t \<and> t \<le> rv_createdAt r + REVIEW_EDIT_WINDOW_HOURS * 3600000)"
| "change_ok w (Row_status r s) \<longleftrightarrow> r \<in> set (t_reviews (w_db w)) \<and> rv_id s = rv_id r \<and> rv_jobId s = rv_jobId r
     \<and> rv_artisanProfileId s = rv_artisanProfileId r \<and> rv_createdAt s = rv_createdAt r \<and> rv_reviewerName s = rv_reviewerName r
     \<and> rv_reply s = rv_reply r \<and> rv_repliedAt s = rv_repliedAt r \<and> rv_rating s = rv_rating r \<and> rv_text s = rv_text r
     \<and> rv_editedAt s = rv_editedAt r"
| "change_ok w (Row_gone k) \<longleftrightarrow> (\<exists>r \<in> set (t_reviews (w_db w)). rv_id r = k)"
| "change_ok w _ \<longleftrightarrow> True"

text \<open>The profiles after it: the ratings of one are computed anew, or none.\<close>

definition profiles_after :: "money \<Rightarrow> nat option \<Rightarrow> db \<Rightarrow> db \<Rightarrow> bool" where
  "profiles_after m pid d d' \<longleftrightarrow> (case pid of None \<Rightarrow> t_profiles d' = t_profiles d
     | Some k \<Rightarrow> t_profiles d' = t_profiles (refreshed m k (d'\<lparr>t_profiles := t_profiles d\<rparr>)))"

fun refreshes :: "db \<Rightarrow> row_change \<Rightarrow> nat option \<Rightarrow> bool" where
  "refreshes d Rows_same pid \<longleftrightarrow> True"
| "refreshes d (Row_added r) pid \<longleftrightarrow> pid = Some (rv_artisanProfileId r)"
| "refreshes d (Row_edited r s) pid \<longleftrightarrow> pid = map_option pr_id (find_profile d (rv_artisanProfileId r))"
| "refreshes d (Row_status r s) pid \<longleftrightarrow> True"
| "refreshes d (Row_replied k t now) pid \<longleftrightarrow> pid = None"
| "refreshes d (Row_gone k) pid \<longleftrightarrow> (\<forall>r \<in> set (t_reviews d). rv_id r = k \<longrightarrow> pid = Some (rv_artisanProfileId r))"

text \<open>The log after it.\<close>

fun log_after :: "row_change \<Rightarrow> moderation list \<Rightarrow> bool" where
  "log_after (Row_status r s) new \<longleftrightarrow> (\<exists>e. new = [e] \<and> md_reviewId e = rv_id r
     \<and> (rv_status r = Rv_ACTIVE \<and> rv_status s = Rv_FLAGGED \<and> md_action e = FLAG
      \<or> rv_status r = Rv_FLAGGED \<and> rv_status s = Rv_FLAGGED \<and> md_action e = FLAG
      \<or> rv_status r = Rv_FLAGGED \<and> rv_status s = Rv_ACTIVE \<and> md_action e = RESTORE))"
| "log_after (Row_gone k) new \<longleftrightarrow> (\<exists>e. new = [e] \<and> md_reviewId e = k \<and> md_action e = REMOVE \<and> md_reason e \<noteq> None)"
| "log_after _ new \<longleftrightarrow> new = []"

definition changes :: "money \<Rightarrow> world \<Rightarrow> world \<Rightarrow> row_change \<Rightarrow> bool" where
  "changes m w w' c \<longleftrightarrow> change_ok w c \<and> t_reviews (w_db w') = rows_after c (t_reviews (w_db w))
     \<and> (\<exists>pid. refreshes (w_db w) c pid \<and> profiles_after m pid (w_db w) (w_db w'))
     \<and> (\<exists>new. log_after c new \<and> t_moderation (w_db w') = t_moderation (w_db w) @ new)
     \<and> next_id w' T_reviews = (case c of Row_added r \<Rightarrow> Suc (next_id w T_reviews) | _ \<Rightarrow> next_id w T_reviews)"

lemma changesI:
  assumes "change_ok w c" and "t_reviews (w_db w') = rows_after c (t_reviews (w_db w))"
    and "refreshes (w_db w) c pid" and "profiles_after m pid (w_db w) (w_db w')"
    and "log_after c new" and "t_moderation (w_db w') = t_moderation (w_db w) @ new"
    and "next_id w' T_reviews = (case c of Row_added r \<Rightarrow> Suc (next_id w T_reviews) | _ \<Rightarrow> next_id w T_reviews)"
  shows "changes m w w' c"
  unfolding changes_def using assms by blast

lemma changes_same: "changes m w w Rows_same"
  by (rule changesI [where pid = None and new = "[]"]) (simp_all add: profiles_after_def)

lemma profiles_refreshed: "t_profiles d1 = t_profiles d \<Longrightarrow> profiles_after m (Some k) d (refreshed m k d1)"
  by (simp add: profiles_after_def refreshed_def ratings_of_def)

lemma submit_changes: "\<exists>c. changes m w (snd (create_review m uid dto w)) c
    \<and> (case c of Row_added r \<Rightarrow> rv_rating r = to_fixed2 (cr_rating dto) | _ \<Rightarrow> c = Rows_same)"
proof (rule create_review_cases [of m uid dto w])
  assume "snd (create_review m uid dto w) = w"
  then show ?thesis using changes_same by (intro exI [of _ Rows_same]) simp
next
  fix j art p who
  assume commit: "snd (create_review m uid dto w) = snd (create_commit m dto (j, art, p, who) w)"
  show ?thesis
  proof (cases "\<exists>r \<in> set (t_reviews (w_db w)). rv_jobId r = Some (j_id j)")
    case True
    then show ?thesis using changes_same commit by (intro exI [of _ Rows_same]) (simp add: create_commit_run)
  next
    case False
    let ?r = "new_review (next_id w T_reviews) (clock w) (j_id j) dto art p who"
    from create_commit_run(2) [OF False, of m dto art p who] obtain out ids where
      run: "snd (create_commit m dto (j, art, p, who) w) = w\<lparr>w_db := refreshed m (pr_id p) (with_new_review w dto ?r), outbox := out, next_id := ids\<rparr>"
      and ids: "ids T_reviews = Suc (next_id w T_reviews)" by blast
    have "changes m w (snd (create_review m uid dto w)) (Row_added ?r)"
      by (rule changesI [where pid = "Some (pr_id p)" and new = "[]"])
        (simp_all add: commit run ids with_new_review_def new_review_def profiles_refreshed)
    then show ?thesis by (intro exI [of _ "Row_added ?r"]) (simp add: new_review_def)
  qed
qed

lemma edit_changes: "review_rows_ok w \<Longrightarrow> \<exists>c. changes m w (snd (update_review m uid rid dto w)) c
    \<and> (case c of Row_edited r s \<Rightarrow> rv_rating s = (case ur_rating dto of Sent x \<Rightarrow> to_fixed2 x | _ \<Rightarrow> rv_rating r) | _ \<Rightarrow> c = Rows_same)"
proof (rule update_review_cases [of m uid rid dto w])
  assume "snd (update_review m uid rid dto w) = w"
  then show ?thesis using changes_same by (intro exI [of _ Rows_same]) simp
next
  fix r
  assume ok: "review_rows_ok w" and commit: "snd (update_review m uid rid dto w) = snd (update_commit m dto (load_review False (w_db w) r, clock w) w)"
    and found: "find_review (w_db w) rid = Some r" and window: "clock w - rv_createdAt r \<le> REVIEW_EDIT_WINDOW_HOURS * 3600000"
  let ?r2 = "edited_review dto (clock w) r"
  let ?s = "saved_review (w_db w) ((load_review False (w_db w) r)\<lparr>lr_row := ?r2\<rparr>)"
  have r2: "rv_id ?r2 = rv_id r" by (simp add: edited_review_def)
  note s = saved_loaded [OF ok found refl r2]
  show ?thesis
  proof (cases "ur_rating dto = Null")
    case True
    then show ?thesis using changes_same commit by (intro exI [of _ Rows_same]) (simp add: update_commit_run)
  next
    case False
    let ?pid = "map_option pr_id (find_profile (w_db w) (rv_artisanProfileId r))"
    have "changes m w (snd (update_review m uid rid dto w)) (Row_edited r ?s)"
    proof (rule changesI [where pid = ?pid and new = "[]"])
      show "change_ok w (Row_edited r ?s)" using s(2, 3) window by (simp add: edited_review_def)
      show "t_reviews (w_db (snd (update_review m uid rid dto w))) = rows_after (Row_edited r ?s) (t_reviews (w_db w))"
        using False s(1) by (simp add: commit update_commit_run Let_def split: option.splits)
      show "profiles_after m ?pid (w_db w) (w_db (snd (update_review m uid rid dto w)))"
        using False by (simp add: commit update_commit_run Let_def load_review_def profiles_refreshed split: option.splits)
          (auto simp: profiles_after_def)
    qed (use False in \<open>simp_all add: commit update_commit_run Let_def split: option.splits\<close>)
    then show ?thesis by (intro exI [of _ "Row_edited r ?s"]) (simp add: edited_review_def)
  qed
qed

lemma reply_changes: "\<exists>c. changes m w (snd (add_reply uid rid t w)) c \<and> (case c of Row_replied k t now \<Rightarrow> True | _ \<Rightarrow> c = Rows_same)"
proof (rule add_reply_cases [of uid rid t w])
  assume "snd (add_reply uid rid t w) = w"
  then show ?thesis using changes_same by (intro exI [of _ Rows_same]) simp
next
  assume commit: "snd (add_reply uid rid t w) = snd (reply_commit rid t w)"
  have "changes m w (snd (add_reply uid rid t w)) (Row_replied rid t (clock w))"
    by (rule changesI [where pid = None and new = "[]"]) (simp_all add: commit reply_commit_run profiles_after_def)
  then show ?thesis by (intro exI [of _ "Row_replied rid t (clock w)"]) simp
qed

lemma flag_changes: "review_rows_ok w \<Longrightarrow> \<exists>c. changes m w (snd (flag_review a rid reason w)) c
    \<and> (case c of Row_status r s \<Rightarrow> True | _ \<Rightarrow> c = Rows_same)"
proof (rule flag_review_cases [of a rid reason w])
  assume "snd (flag_review a rid reason w) = w"
  then show ?thesis using changes_same by (intro exI [of _ Rows_same]) simp
next
  fix r
  let ?l = "load_review True (w_db w) r" and ?e = "moderation_entry (load_review True (w_db w) r) a FLAG (Some reason) (next_id w T_moderation) (clock w)"
  assume ok: "review_rows_ok w" and commit: "snd (flag_review a rid reason w) = snd (flag_commit a reason ?l w)"
    and found: "find_review (w_db w) rid = Some r"
  let ?s = "saved_review (logged ?e (w_db w)) (?l\<lparr>lr_row := r\<lparr>rv_status := Rv_FLAGGED\<rparr>\<rparr>)"
  note s = saved_loaded [OF ok found, where d = "logged ?e (w_db w)" and row = "r\<lparr>rv_status := Rv_FLAGGED\<rparr>"]
  show ?thesis
  proof (cases "flagged_by (w_db w) (rv_id r) (u_id a)")
    case True
    have "changes m w (snd (flag_review a rid reason w)) Rows_same"
      using True by (intro changesI [where pid = None and new = "[]"]) (simp_all add: commit flag_commit_run profiles_after_def)
    then show ?thesis by (intro exI [of _ Rows_same]) simp
  next
    case no: False
    from flag_commit_run(2) [of w ?l a reason, unfolded load_review_row, OF no] obtain out where run: "snd (flag_review a rid reason w) = (after_moderation w)\<lparr>
         w_db := (let d = logged ?e (w_db w) in if rv_status r = Rv_ACTIVE
            then put_review (saved_review d (?l\<lparr>lr_row := r\<lparr>rv_status := Rv_FLAGGED\<rparr>\<rparr>)) d else d), outbox := out\<rparr>"
      unfolding commit by (metis snd_conv)
    show ?thesis
    proof (cases "rv_status r = Rv_ACTIVE")
      case True
      have "changes m w (snd (flag_review a rid reason w)) (Row_status r ?s)"
        by (rule changesI [where pid = None and new = "[?e]"]) (use True s in \<open>simp_all add: run Let_def profiles_after_def\<close>)
      then show ?thesis by (intro exI [of _ "Row_status r ?s"]) simp
    next
      case False
      then have flagged: "rv_status r = Rv_FLAGGED" by (cases "rv_status r") simp_all
      have "with_row r r rows = rows" for rows by (simp add: with_row_def)
      then have "changes m w (snd (flag_review a rid reason w)) (Row_status r r)"
        by (intro changesI [where pid = None and new = "[?e]"]) (use flagged s(3) in \<open>simp_all add: run Let_def profiles_after_def\<close>)
      then show ?thesis by (intro exI [of _ "Row_status r r"]) simp
    qed
  qed
qed

lemma remove_changes: "review_rows_ok w \<Longrightarrow> \<exists>c. changes m w (snd (admin_remove m a rid reason w)) c
    \<and> (case c of Row_gone k \<Rightarrow> True | _ \<Rightarrow> c = Rows_same)"
proof (rule admin_remove_cases [of m a rid reason w])
  assume "snd (admin_remove m a rid reason w) = w"
  then show ?thesis using changes_same by (intro exI [of _ Rows_same]) simp
next
  fix r
  let ?l = "load_review True (w_db w) r" and ?e = "moderation_entry (load_review True (w_db w) r) a REMOVE (Some reason) (next_id w T_moderation) (clock w)"
  assume ok: "review_rows_ok w" and commit: "snd (admin_remove m a rid reason w) = snd (remove_commit m a reason ?l w)"
    and found: "find_review (w_db w) rid = Some r"
  show ?thesis
  proof (cases "lr_profile ?l")
    case None
    then show ?thesis using changes_same commit by (intro exI [of _ Rows_same]) (simp add: remove_commit_run)
  next
    case (Some p)
    then have p: "pr_id p = rv_artisanProfileId r" by (auto simp: load_review_def find_profile_def dest: find_row_SomeD)
    have only: "x = r" if "x \<in> set (t_reviews (w_db w))" "rv_id x = rv_id r" for x
      using that found review_rows_okD(1) [OF ok] by (metis find_review_iff option.inject)
    have "r \<in> set (t_reviews (w_db w))" using found find_row_SomeD by (fastforce simp: find_review_def)
    then have "changes m w (snd (admin_remove m a rid reason w)) (Row_gone (rv_id r))"
      by (intro changesI [where pid = "Some (pr_id p)" and new = "[?e]"])
        (use only in \<open>auto simp add: commit remove_commit_run(1) [OF Some] p delete_review_def intro!: profiles_refreshed\<close>)
    then show ?thesis by (intro exI [of _ "Row_gone (rv_id r)"]) simp
  qed
qed

lemma restore_changes: "review_rows_ok w \<Longrightarrow> \<exists>c. changes m w (snd (admin_restore m a rid w)) c
    \<and> (case c of Row_status r s \<Rightarrow> True | _ \<Rightarrow> c = Rows_same)"
proof (rule admin_restore_cases [of m a rid w])
  assume "snd (admin_restore m a rid w) = w"
  then show ?thesis using changes_same by (intro exI [of _ Rows_same]) simp
next
  fix r
  let ?l = "load_review True (w_db w) r" and ?e = "moderation_entry (load_review True (w_db w) r) a RESTORE None (next_id w T_moderation) (clock w)"
  assume ok: "review_rows_ok w" and commit: "snd (admin_restore m a rid w) = snd (restore_commit m a ?l w)"
    and found: "find_review (w_db w) rid = Some r" and status: "rv_status r = Rv_FLAGGED"
  let ?s = "saved_review (logged ?e (w_db w)) (?l\<lparr>lr_row := r\<lparr>rv_status := Rv_ACTIVE\<rparr>\<rparr>)"
  note s = saved_loaded [OF ok found, where d = "logged ?e (w_db w)" and row = "r\<lparr>rv_status := Rv_ACTIVE\<rparr>"]
  have "changes m w (snd (admin_restore m a rid w)) (Row_status r ?s)"
  proof (rule changesI [where pid = "map_option pr_id (lr_profile ?l)" and new = "[?e]"])
    show "profiles_after m (map_option pr_id (lr_profile ?l)) (w_db w) (w_db (snd (admin_restore m a rid w)))"
      by (simp add: commit restore_commit_run Let_def profiles_refreshed split: option.splits) (auto simp: profiles_after_def)
  qed (use status s in \<open>simp_all add: commit restore_commit_run Let_def split: option.splits\<close>)
  then show ?thesis by (intro exI [of _ "Row_status r ?s"]) simp
qed

section \<open>A step\<close>

definition in_stars :: "money \<Rightarrow> bool" where
  "in_stars x \<longleftrightarrow> 100 \<le> x \<and> x \<le> 500"

fun new_rating_ok :: "row_change \<Rightarrow> bool" where
  "new_rating_ok (Row_added r) \<longleftrightarrow> in_stars (rv_rating r)"
| "new_rating_ok (Row_edited r s) \<longleftrightarrow> rv_rating s = rv_rating r \<or> in_stars (rv_rating s)"
| "new_rating_ok _ \<longleftrightarrow> True"

lemma to_fixed2_mono: "0 \<le> x \<Longrightarrow> x \<le> y \<Longrightarrow> to_fixed2 x \<le> to_fixed2 y"
  unfolding to_fixed2_def by (auto intro!: floor_mono)

lemma to_fixed2_stars: "1 \<le> x \<Longrightarrow> x \<le> 5 \<Longrightarrow> in_stars (to_fixed2 x)"
  using to_fixed2_mono [of 1 x] to_fixed2_mono [of x 5] to_fixed2_cedis [of 100] to_fixed2_cedis [of 500]
  by (simp add: in_stars_def cedis_def)

lemma step_changes:
  assumes "review_step (m, w) (m', w')" and "review_rows_ok w"
  obtains c where "m' = m" "changes m w w' c" "new_rating_ok c"
  | "w' = w" "m' = refresh_platform_mean (w_db w) m"
  | "m' = m" "off_reviews w w'"
  using assms(1)
proof cases
  case (submitted dto uid)
  from submit_changes [of m w uid dto] obtain c where c: "changes m w w' c" "case c of Row_added r \<Rightarrow> rv_rating r = to_fixed2 (cr_rating dto) | _ \<Rightarrow> c = Rows_same"
    using submitted(2) by blast
  have "new_rating_ok c" using c(2) to_fixed2_stars submitted(3) by (cases c) (simp_all add: valid_create_review_def)
  with that(1) c(1) submitted(1) show ?thesis by blast
next
  case (edited dto uid rid)
  from edit_changes [OF assms(2), of m uid rid dto] obtain c where c: "changes m w w' c"
    "case c of Row_edited r s \<Rightarrow> rv_rating s = (case ur_rating dto of Sent x \<Rightarrow> to_fixed2 x | _ \<Rightarrow> rv_rating r) | _ \<Rightarrow> c = Rows_same"
    using edited(2) by blast
  have "new_rating_ok c" using c(2) to_fixed2_stars edited(3)
    by (cases c; cases "ur_rating dto") (simp_all add: valid_update_review_def)
  with that(1) c(1) edited(1) show ?thesis by blast
next
  case (replied_to uid rid t)
  from reply_changes [of m w uid rid t] obtain c where "changes m w w' c" "case c of Row_replied k u now \<Rightarrow> True | _ \<Rightarrow> c = Rows_same"
    using replied_to(2) by blast
  with that(1) replied_to(1) show ?thesis by (cases c) auto
next
  case (flagged a rid reason)
  from flag_changes [OF assms(2), of m a rid reason] obtain c where "changes m w w' c" "case c of Row_status r s \<Rightarrow> True | _ \<Rightarrow> c = Rows_same"
    using flagged(2) by blast
  with that(1) flagged(1) show ?thesis by (cases c) auto
next
  case (removed a rid reason)
  from remove_changes [OF assms(2), of m a rid reason] obtain c where "changes m w w' c" "case c of Row_gone k \<Rightarrow> True | _ \<Rightarrow> c = Rows_same"
    using removed(2) by blast
  with that(1) removed(1) show ?thesis by (cases c) auto
next
  case (restored a rid)
  from restore_changes [OF assms(2), of m a rid] obtain c where "changes m w w' c" "case c of Row_status r s \<Rightarrow> True | _ \<Rightarrow> c = Rows_same"
    using restored(2) by blast
  with that(1) restored(1) show ?thesis by (cases c) auto
qed (use that in blast)+

lemma step_ok:
  assumes "review_step (m, w) (m', w')" and "review_rows_ok w"
  shows "review_rows_ok w'"
  using assms(1)
proof cases
  case (submitted dto uid)
  show ?thesis unfolding submitted(2)
    by (rule create_review_cases [of m uid dto w]) (simp_all add: assms(2) create_commit_ok)
next
  case (edited dto uid rid)
  show ?thesis unfolding edited(2)
    by (rule update_review_cases [of m uid rid dto w]) (simp_all add: assms(2) update_commit_ok found_id)
next
  case (replied_to uid rid t)
  show ?thesis unfolding replied_to(2) by (rule add_reply_cases [of uid rid t w]) (simp_all add: assms(2) reply_commit_ok)
next
  case (flagged a rid reason)
  show ?thesis unfolding flagged(2)
    by (rule flag_review_cases [of a rid reason w]) (simp_all add: assms(2) flag_commit_ok found_id)
next
  case (removed a rid reason)
  show ?thesis unfolding removed(2)
    by (rule admin_remove_cases [of m a rid reason w]) (simp_all add: assms(2) remove_commit_ok)
next
  case (restored a rid)
  show ?thesis unfolding restored(2)
    by (rule admin_restore_cases [of m a rid w]) (simp_all add: assms(2) restore_commit_ok found_id)
next
  case mean_refreshed
  then show ?thesis using assms(2) by simp
next
  case off_reviews
  then show ?thesis using elsewhere_ok assms(2) by blast
qed

section \<open>The life of a review\<close>

definition life :: "review \<Rightarrow> review \<Rightarrow> bool" where
  "life r r' \<longleftrightarrow> rv_jobId r' = rv_jobId r \<and> rv_artisanProfileId r' = rv_artisanProfileId r \<and> rv_createdAt r' = rv_createdAt r
     \<and> rv_reviewerName r' = rv_reviewerName r
     \<and> (rv_reply r \<noteq> None \<longrightarrow> rv_reply r' = rv_reply r \<and> rv_repliedAt r' = rv_repliedAt r)
     \<and> (rv_rating r' = rv_rating r \<and> rv_text r' = rv_text r \<and> rv_editedAt r' = rv_editedAt r
        \<or> (\<exists>t. rv_editedAt r' = Some t \<and> t \<le> rv_createdAt r + REVIEW_EDIT_WINDOW_HOURS * 3600000))"

lemma life_refl: "life r r"
  by (simp add: life_def)

lemma life_trans: "life r s \<Longrightarrow> life s t \<Longrightarrow> life r t"
  unfolding life_def by (elim conjE disjE) simp_all

lemma in_replied:
  assumes "x \<in> set (replied k t now rows)"
  shows "\<exists>y \<in> set rows. rv_id x = rv_id y \<and> life y x \<and> rv_status x = rv_status y \<and> rv_rating x = rv_rating y"
proof -
  from assms obtain y where y: "y \<in> set rows"
    and x: "x = (if rv_id y = k \<and> rv_reply y = None then y\<lparr>rv_reply := Some t, rv_repliedAt := Some now\<rparr> else y)"
    unfolding replied_def in_update_where by blast
  show ?thesis by (rule bexI [OF _ y]) (simp add: x life_def)
qed

lemma changed_row:
  assumes "changes m w w' c" and "x \<in> set (t_reviews (w_db w'))"
  shows "(\<exists>y \<in> set (t_reviews (w_db w)). rv_id x = rv_id y \<and> life y x) \<or> rv_id x = next_id w T_reviews"
proof -
  have x: "x \<in> set (rows_after c (t_reviews (w_db w)))" and ok: "change_ok w c" using assms by (simp_all add: changes_def)
  show ?thesis
  proof (cases c)
    case (Row_edited r s)
    then have "x = s \<or> x \<in> set (t_reviews (w_db w))" "life r s" using x ok in_with_row by (auto simp: life_def)
    then show ?thesis using Row_edited ok life_refl by auto
  next
    case (Row_status r s)
    then have "x = s \<or> x \<in> set (t_reviews (w_db w))" "life r s" using x ok in_with_row by (auto simp: life_def)
    then show ?thesis using Row_status ok life_refl by auto
  next
    case (Row_replied k t now)
    then show ?thesis using x in_replied by fastforce
  qed (use x ok life_refl in auto)
qed


end
