(* ===== verification/ReviewRatings.thy ===== *)
theory ReviewRatings
  imports ReviewHistory
begin

text \<open>
  The ratings kept on the artisans' profiles and the moderation trail, over requests served one after the
  other; who sees a review; the counts of an artisan's own reviews; and what is lost when a flag interleaves
  with a reply.
\<close>

section \<open>Ratings\<close>

definition ratings_in :: "nat \<Rightarrow> review list \<Rightarrow> money list" where
  "ratings_in pid rows = map rv_rating (filter (\<lambda>r. rv_artisanProfileId r = pid) rows)"

lemma ratings_of_in: "ratings_of pid d = ratings_in pid (t_reviews d)"
  by (simp add: ratings_of_def ratings_in_def)

lemma ratings_with_row:
  "rv_artisanProfileId s = rv_artisanProfileId r \<Longrightarrow> rv_artisanProfileId r \<noteq> pid \<or> rv_rating s = rv_rating r \<Longrightarrow>
   ratings_in pid (with_row r s rows) = ratings_in pid rows"
  by (induction rows) (auto simp: ratings_in_def with_row_def)

lemma ratings_replied: "ratings_in pid (replied k t now rows) = ratings_in pid rows"
  by (induction rows) (auto simp: ratings_in_def replied_def update_where_def)

lemma ratings_gone:
  "(\<And>r. r \<in> set rows \<Longrightarrow> rv_id r = k \<Longrightarrow> rv_artisanProfileId r \<noteq> pid) \<Longrightarrow>
   ratings_in pid (filter (\<lambda>r. rv_id r \<noteq> k) rows) = ratings_in pid rows"
  by (induction rows) (auto simp: ratings_in_def)

lemma ratings_elsewhere:
  assumes "change_ok w c" and "refreshes (w_db w) c pid" and "p \<in> set (t_profiles (w_db w))" and "pid \<noteq> Some (pr_id p)"
  shows "ratings_in (pr_id p) (rows_after c (t_reviews (w_db w))) = ratings_in (pr_id p) (t_reviews (w_db w))"
proof (cases c)
  case (Row_edited r s)
  have "rv_artisanProfileId r \<noteq> pr_id p"
  proof (cases "find_profile (w_db w) (rv_artisanProfileId r)")
    case None
    then show ?thesis using assms(3) by (auto simp: find_profile_def find_row_None_iff)
  next
    case (Some q)
    then show ?thesis using assms(2,4) Row_edited find_row_SomeD [of pr_id] by (fastforce simp: find_profile_def)
  qed
  then show ?thesis using assms(1) Row_edited ratings_with_row by simp
next
  case (Row_gone k)
  then show ?thesis using assms(2,4) by (auto intro!: ratings_gone)
qed (use assms ratings_with_row ratings_replied in \<open>auto simp: ratings_in_def\<close>)

text \<open>The profiles after a step: as they were, or with ratings computed from the rows there are now.\<close>

lemma profile_after_change:
  assumes "changes m w w' c" and "p \<in> set (t_profiles (w_db w'))"
  shows "p \<in> set (t_profiles (w_db w)) \<and> ratings_of (pr_id p) (w_db w') = ratings_of (pr_id p) (w_db w)
    \<or> pr_totalReviews p = length (ratings_of (pr_id p) (w_db w')) \<and> pr_averageRating p = to_fixed2 (average (ratings_of (pr_id p) (w_db w')))
      \<and> pr_weightedRating p = to_fixed2 (weighted_rating m (length (ratings_of (pr_id p) (w_db w'))) (average (ratings_of (pr_id p) (w_db w'))))"
proof -
  from assms(1) obtain pid where ok: "change_ok w c" and rows: "t_reviews (w_db w') = rows_after c (t_reviews (w_db w))"
    and pid: "refreshes (w_db w) c pid" and profiles: "profiles_after m pid (w_db w) (w_db w')" by (auto simp: changes_def)
  have same: ?thesis if "p \<in> set (t_profiles (w_db w))" "pid \<noteq> Some (pr_id p)"
    using ratings_elsewhere [OF ok pid that] that(1) rows by (simp add: ratings_of_in)
  show ?thesis
  proof (cases pid)
    case None
    then show ?thesis using same profiles assms(2) by (simp add: profiles_after_def)
  next
    case (Some k)
    from profiles Some assms(2) obtain q where q: "q \<in> set (t_profiles (w_db w))"
      and p: "p = (if pr_id q = k then q\<lparr>pr_averageRating := to_fixed2 (average (ratings_in k (t_reviews (w_db w')))),
        pr_totalReviews := length (ratings_in k (t_reviews (w_db w'))),
        pr_weightedRating := to_fixed2 (weighted_rating m (length (ratings_in k (t_reviews (w_db w')))) (average (ratings_in k (t_reviews (w_db w')))))\<rparr> else q)"
      by (auto simp: profiles_after_def refreshed_def in_update_where ratings_of_in)
    show ?thesis
    proof (cases "pr_id q = k")
      case True
      then show ?thesis by (simp add: p ratings_of_in)
    next
      case False
      then show ?thesis using same q Some p by simp
    qed
  qed
qed

definition ratings_ok :: "db \<Rightarrow> bool" where
  "ratings_ok d \<longleftrightarrow> (\<forall>p \<in> set (t_profiles d). pr_totalReviews p = length (ratings_of (pr_id p) d)
     \<and> pr_averageRating p = to_fixed2 (average (ratings_of (pr_id p) d)))"

lemma elsewhere_profile:
  assumes "off_reviews w w'" and "p \<in> set (t_profiles (w_db w'))"
  shows "(\<exists>q \<in> set (t_profiles (w_db w)). pr_id q = pr_id p \<and> pr_totalReviews q = pr_totalReviews p
      \<and> pr_averageRating q = pr_averageRating p \<and> pr_weightedRating q = pr_weightedRating p)
    \<or> (pr_totalReviews p = 0 \<and> pr_averageRating p = 0 \<and> ratings_of (pr_id p) (w_db w') = [])"
  using assms by (auto simp: off_reviews_def ratings_of_def filter_empty_conv)

lemma step_ratings:
  assumes "review_step (m, w) (m', w')" and "review_rows_ok w" and "ratings_ok (w_db w)"
  shows "ratings_ok (w_db w')"
  using assms(1,2)
proof (cases rule: step_changes)
  case (1 c)
  then show ?thesis using profile_after_change [OF 1(2)] assms(3) unfolding ratings_ok_def by metis
next
  case 3
  have same: "ratings_of k (w_db w') = ratings_of k (w_db w)" for k using 3 by (simp add: off_reviews_def ratings_of_in)
  have zero: "average [] = 0" "to_fixed2 0 = 0" using to_fixed2_cedis [of 0] by (simp_all add: average_def cedis_def)
  show ?thesis using elsewhere_profile [OF 3(2)] assms(3) same zero unfolding ratings_ok_def by (metis list.size(3))
qed (use assms(3) in simp)

text \<open>
  C9. After any sequence of requests, served one after the other, the number of reviews and the average rating on
  every artisan's profile are those of the reviews there are of that artisan, flagged ones included, removed ones not.
\<close>

theorem ratings_follow_reviews:
  assumes "review_step\<^sup>*\<^sup>* (m, w) (m', w')" and "review_rows_ok w" and "ratings_ok (w_db w)"
    and "p \<in> set (t_profiles (w_db w'))"
  shows "pr_totalReviews p = length (filter (\<lambda>r. rv_artisanProfileId r = pr_id p) (t_reviews (w_db w')))
    \<and> pr_averageRating p = to_fixed2 (average (map rv_rating (filter (\<lambda>r. rv_artisanProfileId r = pr_id p) (t_reviews (w_db w')))))"
proof -
  have "review_rows_ok (snd s) \<and> ratings_ok (w_db (snd s))" if "review_step\<^sup>*\<^sup>* (m, w) s" for s
    using that
  proof (induction rule: rtranclp_induct)
    case (step s s')
    then show ?case using step_ok step_ratings by (metis prod.collapse)
  qed (use assms in simp)
  from this [OF assms(1)] show ?thesis using assms(4) by (simp add: ratings_ok_def ratings_of_def)
qed

section \<open>Within five stars\<close>

lemma average_stars: "xs \<noteq> [] \<Longrightarrow> (\<And>x. x \<in> set xs \<Longrightarrow> in_stars x) \<Longrightarrow> 1 \<le> average xs \<and> average xs \<le> 5"
proof -
  assume xs: "xs \<noteq> []" and stars: "\<And>x. x \<in> set xs \<Longrightarrow> in_stars x"
  have "100 * int (length xs) \<le> sum_list xs \<and> sum_list xs \<le> 500 * int (length xs)"
    using stars
  proof (induction xs)
    case (Cons a xs)
    have "in_stars a" using Cons.prems by simp
    moreover have "100 * int (length xs) \<le> sum_list xs \<and> sum_list xs \<le> 500 * int (length xs)" using Cons by simp
    ultimately show ?case by (simp add: in_stars_def)
  qed simp
  then have "of_int (100 * int (length xs)) \<le> (of_int (sum_list xs) :: rat) \<and> (of_int (sum_list xs) :: rat) \<le> of_int (500 * int (length xs))"
    by (simp only: of_int_le_iff)
  then show ?thesis using xs by (simp add: average_def cedis_def field_simps)
qed

lemma weighted_stars:
  assumes "in_stars m" and "n = 0 \<or> 1 \<le> a \<and> a \<le> 5"
  shows "1 \<le> weighted_rating m n a \<and> weighted_rating m n a \<le> 5"
proof -
  have c: "1 \<le> cedis m \<and> cedis m \<le> 5" using assms(1) by (simp add: in_stars_def cedis_def)
  have "of_nat n * (1 :: rat) \<le> of_nat n * a \<and> of_nat n * a \<le> of_nat n * 5" 
  proof (cases "n = 0")
    case False
    with assms(2) have "1 \<le> a" "a \<le> 5" by simp_all
    then show ?thesis by (simp only: mult_left_mono of_nat_0_le_iff conj_absorb)
  qed simp
  with c have "(of_nat n + 10 :: rat) \<le> of_nat n * a + 10 * cedis m \<and> of_nat n * a + 10 * cedis m \<le> 5 * (of_nat n + 10)" by simp
  moreover have "weighted_rating m n a = (of_nat n * a + 10 * cedis m) / (of_nat n + 10)"
    by (simp add: weighted_rating_def RATING_BAYESIAN_MIN_VOTES_def Let_def add_divide_distrib)
  moreover have "0 < (of_nat n + 10 :: rat)" by (simp add: add_nonneg_pos)
  ultimately show ?thesis by (simp add: pos_le_divide_eq pos_divide_le_eq)
qed

definition stars_ok :: "money \<Rightarrow> world \<Rightarrow> bool" where
  "stars_ok m w \<longleftrightarrow> in_stars m \<and> (\<forall>r \<in> set (t_reviews (w_db w)). in_stars (rv_rating r))
     \<and> (\<forall>p \<in> set (t_profiles (w_db w)). 0 < pr_totalReviews p \<longrightarrow> in_stars (pr_averageRating p) \<and> in_stars (pr_weightedRating p))"

lemma step_stars:
  assumes "review_step (m, w) (m', w')" and "review_rows_ok w" and "stars_ok m w"
  shows "stars_ok m' w'"
  using assms(1,2)
proof (cases rule: step_changes)
  case (1 c)
  have m: "in_stars m" and old: "\<And>r. r \<in> set (t_reviews (w_db w)) \<Longrightarrow> in_stars (rv_rating r)" using assms(3) by (auto simp: stars_ok_def)
  have c: "change_ok w c" "t_reviews (w_db w') = rows_after c (t_reviews (w_db w))" using 1(2) by (simp_all add: changes_def)
  have rows: "in_stars (rv_rating x)" if "x \<in> set (t_reviews (w_db w'))" for x
  proof (cases c)
    case (Row_edited r s)
    then show ?thesis using that c old 1(3) in_with_row by fastforce
  next
    case (Row_status r s)
    then show ?thesis using that c old in_with_row by fastforce
  next
    case (Row_replied k t now)
    then show ?thesis using that c old in_replied by fastforce
  qed (use that c old 1(3) in auto)
  have xs: "in_stars x" if "x \<in> set (ratings_of k (w_db w'))" for x k using that rows by (auto simp: ratings_of_def)
  have "in_stars (pr_averageRating p) \<and> in_stars (pr_weightedRating p)" if "p \<in> set (t_profiles (w_db w'))" "0 < pr_totalReviews p" for p
    using profile_after_change [OF 1(2) that(1)]
  proof
    assume "p \<in> set (t_profiles (w_db w)) \<and> ratings_of (pr_id p) (w_db w') = ratings_of (pr_id p) (w_db w)"
    then show ?thesis using assms(3) that(2) by (auto simp: stars_ok_def)
  next
    let ?xs = "ratings_of (pr_id p) (w_db w')"
    assume p: "pr_totalReviews p = length ?xs \<and> pr_averageRating p = to_fixed2 (average ?xs)
      \<and> pr_weightedRating p = to_fixed2 (weighted_rating m (length ?xs) (average ?xs))"
    then have "1 \<le> average ?xs \<and> average ?xs \<le> 5" using that(2) average_stars [of ?xs] xs by auto
    with p weighted_stars [OF m, of "length ?xs" "average ?xs"] to_fixed2_stars show ?thesis by auto
  qed
  then show ?thesis using m rows 1(1) by (auto simp: stars_ok_def)
next
  case 2
  have "in_stars (refresh_platform_mean (w_db w) m)"
    using assms(3) average_stars [of "map rv_rating (t_reviews (w_db w))"] to_fixed2_stars
    by (auto simp: refresh_platform_mean_def stars_ok_def)
  then show ?thesis using 2 assms(3) by (simp add: stars_ok_def)
next
  case 3
  have rows: "t_reviews (w_db w') = t_reviews (w_db w)" using 3(2) by (simp add: off_reviews_def)
  have "in_stars (pr_averageRating p) \<and> in_stars (pr_weightedRating p)" if "p \<in> set (t_profiles (w_db w'))" "0 < pr_totalReviews p" for p
    using elsewhere_profile [OF 3(2) that(1)] assms(3) that(2) unfolding stars_ok_def by (metis less_irrefl)
  then show ?thesis using 3(1) rows assms(3) by (simp add: stars_ok_def)
qed

text \<open>
  Over any sequence of requests the validators let through, the rating of every review, the average and the
  weighted rating of every artisan who has reviews, and the platform's mean stay between one and five stars.
\<close>

theorem ratings_within_stars:
  assumes "review_step\<^sup>*\<^sup>* (m, w) (m', w')" and "review_rows_ok w" and "stars_ok m w"
  shows "100 \<le> m' \<and> m' \<le> 500 \<and> (\<forall>r \<in> set (t_reviews (w_db w')). 100 \<le> rv_rating r \<and> rv_rating r \<le> 500)
    \<and> (\<forall>p \<in> set (t_profiles (w_db w')). 0 < pr_totalReviews p \<longrightarrow>
      100 \<le> pr_averageRating p \<and> pr_averageRating p \<le> 500 \<and> 100 \<le> pr_weightedRating p \<and> pr_weightedRating p \<le> 500)"
proof -
  have "review_rows_ok (snd s) \<and> stars_ok (fst s) (snd s)" if "review_step\<^sup>*\<^sup>* (m, w) s" for s
    using that
  proof (induction rule: rtranclp_induct)
    case (step s s')
    then show ?case using step_ok step_stars by (metis prod.collapse)
  qed (use assms in simp)
  from this [OF assms(1)] show ?thesis by (simp add: stars_ok_def in_stars_def)
qed

section \<open>The moderation trail\<close>

definition flag_standing :: "moderation list \<Rightarrow> nat \<Rightarrow> bool" where
  "flag_standing lg k \<longleftrightarrow> (case filter (\<lambda>e. md_reviewId e = k \<and> md_action e \<noteq> REMOVE) (rev lg) of
     [] \<Rightarrow> False | e # _ \<Rightarrow> md_action e = FLAG)"

definition trail_ok :: "world \<Rightarrow> bool" where
  "trail_ok w \<longleftrightarrow> (\<forall>e \<in> set (t_moderation (w_db w)). md_reviewId e < next_id w T_reviews)
     \<and> (\<forall>r \<in> set (t_reviews (w_db w)). rv_status r = Rv_FLAGGED \<longleftrightarrow> flag_standing (t_moderation (w_db w)) (rv_id r))"

lemma flag_standing_snoc:
  "flag_standing (lg @ [e]) k = (if md_reviewId e = k \<and> md_action e \<noteq> REMOVE then md_action e = FLAG else flag_standing lg k)"
  by (simp add: flag_standing_def)

lemma flag_standing_new: "(\<And>e. e \<in> set lg \<Longrightarrow> md_reviewId e \<noteq> k) \<Longrightarrow> \<not> flag_standing lg k"
proof -
  assume "\<And>e. e \<in> set lg \<Longrightarrow> md_reviewId e \<noteq> k"
  then have "filter (\<lambda>e. md_reviewId e = k \<and> md_action e \<noteq> REMOVE) (rev lg) = []" by (auto simp: filter_empty_conv)
  then show ?thesis by (simp add: flag_standing_def)
qed

lemma step_trail:
  assumes "review_step (m, w) (m', w')" and "review_rows_ok w" and "trail_ok w"
  shows "trail_ok w'"
    and "\<exists>new. t_moderation (w_db w') = t_moderation (w_db w) @ new
      \<and> (\<forall>r \<in> set (t_reviews (w_db w)). (\<exists>r' \<in> set (t_reviews (w_db w')). rv_id r' = rv_id r)
           \<or> (\<exists>e \<in> set new. md_reviewId e = rv_id r \<and> md_action e = REMOVE \<and> md_reason e \<noteq> None))"
proof -
  note ok' = review_rows_okD [OF assms(2)]
  let ?log = "t_moderation (w_db w)"
  have bound: "\<And>e. e \<in> set ?log \<Longrightarrow> md_reviewId e < next_id w T_reviews"
    and status: "\<And>r. r \<in> set (t_reviews (w_db w)) \<Longrightarrow> rv_status r = Rv_FLAGGED \<longleftrightarrow> flag_standing ?log (rv_id r)"
    using assms(3) by (auto simp: trail_ok_def)
  have "trail_ok w' \<and> (\<exists>new. t_moderation (w_db w') = ?log @ new
      \<and> (\<forall>r \<in> set (t_reviews (w_db w)). (\<exists>r' \<in> set (t_reviews (w_db w')). rv_id r' = rv_id r)
           \<or> (\<exists>e \<in> set new. md_reviewId e = rv_id r \<and> md_action e = REMOVE \<and> md_reason e \<noteq> None)))"
    using assms(1,2)
  proof (cases rule: step_changes)
    case (1 c)
    from 1(2) obtain new where c: "change_ok w c" and rows: "t_reviews (w_db w') = rows_after c (t_reviews (w_db w))"
      and log: "log_after c new" "t_moderation (w_db w') = ?log @ new"
      and nxt: "next_id w' T_reviews = (case c of Row_added r \<Rightarrow> Suc (next_id w T_reviews) | _ \<Rightarrow> next_id w T_reviews)"
      by (auto simp: changes_def)
    show ?thesis
    proof (cases c)
      case Rows_same
      then show ?thesis using rows log nxt assms(3) by (auto simp: trail_ok_def)
    next
      case (Row_added r)
      have "\<not> flag_standing ?log (next_id w T_reviews)" using bound by (intro flag_standing_new) fastforce
      then show ?thesis using Row_added rows log nxt c bound status by (auto simp: trail_ok_def less_SucI)
    next
      case (Row_edited r s)
      have ids: "map rv_id (t_reviews (w_db w')) = map rv_id (t_reviews (w_db w))" using Row_edited rows c by (simp add: with_row_ids)
      have "rv_status x = Rv_FLAGGED \<longleftrightarrow> flag_standing ?log (rv_id x)" if "x \<in> set (t_reviews (w_db w'))" for x
        
      proof -
        from that rows Row_edited in_with_row [of x r s] consider "x = s" | "x \<in> set (t_reviews (w_db w))" by auto
        then show ?thesis using status c Row_edited by cases simp_all
      qed
      moreover have "new = []" using Row_edited log by simp
      ultimately show ?thesis using Row_edited log nxt bound map_eq_imp_length_eq [OF ids] ids
        by (simp add: trail_ok_def) (metis (no_types, lifting) image_iff list.set_map)
    next
      case (Row_status r s)
      have ids: "map rv_id (t_reviews (w_db w')) = map rv_id (t_reviews (w_db w))" using Row_status rows c by (simp add: with_row_ids)
      from log(1) Row_status obtain e where e: "new = [e]" "md_reviewId e = rv_id r" and
        act: "rv_status r = Rv_ACTIVE \<and> rv_status s = Rv_FLAGGED \<and> md_action e = FLAG
          \<or> rv_status r = Rv_FLAGGED \<and> rv_status s = Rv_FLAGGED \<and> md_action e = FLAG
          \<or> rv_status r = Rv_FLAGGED \<and> rv_status s = Rv_ACTIVE \<and> md_action e = RESTORE" by auto
      have r: "r \<in> set (t_reviews (w_db w))" "rv_id s = rv_id r" using c Row_status by auto
      have "rv_status x = Rv_FLAGGED \<longleftrightarrow> flag_standing (?log @ [e]) (rv_id x)" if "x \<in> set (t_reviews (w_db w'))" for x
      proof -
        from that rows Row_status in_with_row [of x r s] consider "x = s" | "x \<in> set (t_reviews (w_db w))" "x \<noteq> r" by auto
        then show ?thesis
        proof cases
          case 1
          then show ?thesis using act e(2) r(2) by (auto simp: flag_standing_snoc)
        next
          case 2
          then have "rv_id x \<noteq> rv_id r" using r(1) ok'(1) by (auto simp: distinct_map inj_on_def)
          then show ?thesis using status [OF 2(1)] e(2) by (simp add: flag_standing_snoc)
        qed
      qed
      moreover have "md_reviewId e < next_id w T_reviews" using e(2) ok'(2) [OF r(1)] by simp
      moreover have "\<exists>r' \<in> set (t_reviews (w_db w')). rv_id r' = rv_id x" if "x \<in> set (t_reviews (w_db w))" for x
        using ids that by (metis (no_types, lifting) image_iff list.set_map)
      ultimately show ?thesis using Row_status log nxt bound e(1) by (auto simp: trail_ok_def)
    next
      case (Row_replied k t now)
      have ids: "map rv_id (t_reviews (w_db w')) = map rv_id (t_reviews (w_db w))"
        using Row_replied rows by (simp add: replied_def update_where_keys)
      have "rv_status x = Rv_FLAGGED \<longleftrightarrow> flag_standing ?log (rv_id x)" if "x \<in> set (t_reviews (w_db w'))" for x
        using that Row_replied rows status in_replied [of x k t now] by fastforce
      moreover have "new = []" using Row_replied log by simp
      ultimately show ?thesis using Row_replied log nxt bound ids
        by (simp add: trail_ok_def) (metis (no_types, lifting) image_iff list.set_map)
    next
      case (Row_gone k)
      from log(1) Row_gone obtain e where e: "new = [e]" "md_reviewId e = k" "md_action e = REMOVE" "md_reason e \<noteq> None" by auto
      have gone: "t_reviews (w_db w') = filter (\<lambda>r. rv_id r \<noteq> k) (t_reviews (w_db w))" using rows Row_gone by simp
      have standing: "flag_standing (?log @ [e]) x = flag_standing ?log x" for x using e by (simp add: flag_standing_snoc)
      have "k < next_id w T_reviews" using ok'(2) c Row_gone by auto
      then show ?thesis using gone log(2) nxt bound status standing Row_gone e by (auto simp: trail_ok_def)
    qed
  next
    case 2
    then show ?thesis using assms(3) by auto
  next
    case 3
    then show ?thesis using assms(3) by (auto simp: off_reviews_def trail_ok_def)
  qed
  then show "trail_ok w'" and "\<exists>new. t_moderation (w_db w') = t_moderation (w_db w) @ new
      \<and> (\<forall>r \<in> set (t_reviews (w_db w)). (\<exists>r' \<in> set (t_reviews (w_db w')). rv_id r' = rv_id r)
           \<or> (\<exists>e \<in> set new. md_reviewId e = rv_id r \<and> md_action e = REMOVE \<and> md_reason e \<noteq> None))" by blast+
qed

text \<open>
  C10. Over any sequence of requests, served one after the other, a review is flagged exactly when the last flag or
  restoration the moderation log has of it is a flag; the log is only added to; and a review that is gone has left
  a removal there, with its reason.
\<close>

theorem moderation_trail:
  assumes "review_step\<^sup>*\<^sup>* (m, w) (m', w')" and "review_rows_ok w" and "trail_ok w"
  shows "(\<forall>r \<in> set (t_reviews (w_db w')). rv_status r = Rv_FLAGGED \<longleftrightarrow> flag_standing (t_moderation (w_db w')) (rv_id r))
    \<and> (\<exists>new. t_moderation (w_db w') = t_moderation (w_db w) @ new
      \<and> (\<forall>r \<in> set (t_reviews (w_db w)). (\<exists>r' \<in> set (t_reviews (w_db w')). rv_id r' = rv_id r)
           \<or> (\<exists>e \<in> set new. md_reviewId e = rv_id r \<and> md_action e = REMOVE \<and> md_reason e \<noteq> None)))"
proof -
  define P where "P w' \<longleftrightarrow> review_rows_ok w' \<and> trail_ok w' \<and> (\<exists>new. t_moderation (w_db w') = t_moderation (w_db w) @ new
      \<and> (\<forall>r \<in> set (t_reviews (w_db w)). (\<exists>r' \<in> set (t_reviews (w_db w')). rv_id r' = rv_id r)
           \<or> (\<exists>e \<in> set new. md_reviewId e = rv_id r \<and> md_action e = REMOVE \<and> md_reason e \<noteq> None)))" for w'
  have one: "P w2" if P: "P w1" and s: "review_step (m1, w1) (m2, w2)" for w1 w2 m1 m2
  proof -
    from P obtain new1 where w1: "review_rows_ok w1" "trail_ok w1" "t_moderation (w_db w1) = t_moderation (w_db w) @ new1"
      and kept1: "\<And>r. r \<in> set (t_reviews (w_db w)) \<Longrightarrow> (\<exists>r' \<in> set (t_reviews (w_db w1)). rv_id r' = rv_id r)
           \<or> (\<exists>e \<in> set new1. md_reviewId e = rv_id r \<and> md_action e = REMOVE \<and> md_reason e \<noteq> None)" unfolding P_def by blast
    from step_trail(2) [OF s w1(1,2)] obtain new2 where w2: "t_moderation (w_db w2) = t_moderation (w_db w1) @ new2"
      and kept2: "\<And>r. r \<in> set (t_reviews (w_db w1)) \<Longrightarrow> (\<exists>r' \<in> set (t_reviews (w_db w2)). rv_id r' = rv_id r)
           \<or> (\<exists>e \<in> set new2. md_reviewId e = rv_id r \<and> md_action e = REMOVE \<and> md_reason e \<noteq> None)" by blast
    have "(\<exists>r' \<in> set (t_reviews (w_db w2)). rv_id r' = rv_id r)
        \<or> (\<exists>e \<in> set (new1 @ new2). md_reviewId e = rv_id r \<and> md_action e = REMOVE \<and> md_reason e \<noteq> None)"
      if "r \<in> set (t_reviews (w_db w))" for r
      using kept1 [OF that]
    proof
      assume "\<exists>r' \<in> set (t_reviews (w_db w1)). rv_id r' = rv_id r"
      then obtain r1 where "r1 \<in> set (t_reviews (w_db w1))" "rv_id r1 = rv_id r" by blast
      with kept2 [of r1] show ?thesis by auto
    qed auto
    then show ?thesis unfolding P_def using step_ok [OF s w1(1)] step_trail(1) [OF s w1(1,2)] w1(3) w2
      by (intro conjI exI [of _ "new1 @ new2"]) auto
  qed
  have "P (snd s)" if "review_step\<^sup>*\<^sup>* (m, w) s" for s
    using that
  proof (induction rule: rtranclp_induct)
    case base
    have "t_moderation (w_db w) = t_moderation (w_db w) @ []" by simp
    with assms(2,3) show ?case unfolding P_def snd_conv by blast
  next
    case (step s s')
    then show ?case using one by (metis prod.collapse)
  qed
  from this [OF assms(1)] show ?thesis unfolding P_def trail_ok_def snd_conv by blast
qed

section \<open>Who sees a review\<close>

lemma visible_iff:
  "visible_to d viewer r \<longleftrightarrow> rv_status r = Rv_ACTIVE \<or> viewer \<noteq> None \<and> alive d (rv_reviewerId r) = viewer"
  by (cases "rv_status r"; cases viewer) (auto simp: visible_to_def)

lemma find_one_review_run:
  "fst (find_one_review rid viewer w) = (case find_review (w_db w) rid of None \<Rightarrow> Inl (NotFound_review (Review_not_found rid))
     | Some r \<Rightarrow> if visible_to (w_db w) viewer r then Inr (review_view_of (w_db w) r) else Inl (NotFound_review (Review_not_found rid)))"
  by (cases "find_review (w_db w) rid")
    (auto simp: find_one_review_def run_simps visible_iff asks_def intro: review_status.exhaust)


section \<open>The artisan's counts\<close>

text \<open>Every review is under one star, and the reviews of four stars and more are those under four and five.\<close>

lemma review_summary_counts:
  "sum_list (sm_byStar (to_review_summary rows)) = sm_total (to_review_summary rows)
    \<and> sm_fourPlus (to_review_summary rows) = sm_byStar (to_review_summary rows) ! 3 + sm_byStar (to_review_summary rows) ! 4"
proof (induction rows)
  case (Cons r rows)
  have "1 \<le> star_of r \<and> star_of r \<le> 5" by (simp add: star_of_def)
  then have "star_of r = 1 \<or> star_of r = 2 \<or> star_of r = 3 \<or> star_of r = 4 \<or> star_of r = 5" by presburger
  moreover have "4 \<le> cedis (rv_rating r) \<longleftrightarrow> 4 \<le> \<lfloor>cedis (rv_rating r)\<rfloor>" by (simp add: le_floor_iff)
  then have "4 \<le> cedis (rv_rating r) \<longleftrightarrow> star_of r = 4 \<or> star_of r = 5" unfolding star_of_def by arith
  ultimately show ?case using Cons by (auto simp: to_review_summary_def Let_def)
qed (simp add: to_review_summary_def)

section \<open>A stale save\<close>

text \<open>
  A user flags a review while its artisan replies: the flag has read the review without the reply, the
  reply is written, and the flag then saves the row it had read. The reply, which the artisan was told is
  published, is gone. And a flag on the review of an artisan whose account is deleted, and can still be recovered, cuts
  the review off from the artisan.
\<close>

lemma flag_loses_reply:
  assumes "find_review (w_db w) k = Some r" and "rv_status r = Rv_ACTIVE" and "rv_reply r = None"
    and "distinct (map rv_id (t_reviews (w_db w)))" and "\<not> flagged_by (w_db w) k (u_id a)"
  shows "map_option rv_reply (find_review (w_db (snd (reply_commit k t w))) k) = Some (Some t)"
    and "map_option rv_reply (find_review (w_db (snd (flag_commit a reason (load_review True (w_db w) r) (snd (reply_commit k t w))))) k)
      = Some None"
proof -
  let ?w = "snd (reply_commit k t w)"
  have id: "rv_id r = k" using assms(1) find_row_SomeD by (fastforce simp: find_review_def)
  show "map_option rv_reply (find_review (w_db ?w) k) = Some (Some t)"
    using assms(1,3) id by (simp add: reply_commit_run find_review_def replied_def find_row_update_where)
  have "\<not> flagged_by (w_db ?w) (rv_id (lr_row (load_review True (w_db w) r))) (u_id a)"
    using assms(5) id by (simp add: flagged_by_def reply_commit_run)
  note run = flag_commit_run(2) [OF this, of reason]
  have saved: "find_row rv_id (rv_id r) (save_row rv_id (saved_review d (l\<lparr>lr_row := r\<lparr>rv_status := Rv_FLAGGED\<rparr>\<rparr>)) rows)
      = Some (saved_review d (l\<lparr>lr_row := r\<lparr>rv_status := Rv_FLAGGED\<rparr>\<rparr>))" for d l rows
    using find_row_save_same [of rv_id "saved_review d (l\<lparr>lr_row := r\<lparr>rv_status := Rv_FLAGGED\<rparr>\<rparr>)" rows] by simp
  show "map_option rv_reply (find_review (w_db (snd (flag_commit a reason (load_review True (w_db w) r) ?w))) k) = Some None"
    using run assms(2,3) id saved by (auto simp: Let_def find_review_def)
qed

lemma flag_detaches_deleted_artisan:
  assumes "find_review (w_db w) k = Some r" and "rv_status r = Rv_ACTIVE" and "rv_reviewedId r = Some u" and "find_user (w_db w) u = None"
    and "\<not> flagged_by (w_db w) k (u_id a)"
  shows "map_option rv_reviewedId (find_review (w_db (snd (flag_commit a reason (load_review True (w_db w) r) w))) k) = Some None"
proof -
  have id: "rv_id r = k" using assms(1) find_row_SomeD by (fastforce simp: find_review_def)
  have "\<not> flagged_by (w_db w) (rv_id (lr_row (load_review True (w_db w) r))) (u_id a)" using assms(5) id by simp
  note run = flag_commit_run(2) [OF this, of reason]
  have saved: "find_row rv_id (rv_id r) (save_row rv_id (saved_review d (l\<lparr>lr_row := r\<lparr>rv_status := Rv_FLAGGED\<rparr>\<rparr>)) rows)
      = Some (saved_review d (l\<lparr>lr_row := r\<lparr>rv_status := Rv_FLAGGED\<rparr>\<rparr>))" for d l rows
    using find_row_save_same [of rv_id "saved_review d (l\<lparr>lr_row := r\<lparr>rv_status := Rv_FLAGGED\<rparr>\<rparr>)" rows] by simp
  have "lr_reviewed (load_review True (w_db w) r) = Null" using assms(3,4) by (simp add: load_review_def)
  then have "rv_reviewedId (saved_review d ((load_review True (w_db w) r)\<lparr>lr_row := r\<lparr>rv_status := Rv_FLAGGED\<rparr>\<rparr>)) = None" for d
    by (simp add: saved_review_def Let_def)
  then show ?thesis using run assms(2) id saved by (auto simp: Let_def find_review_def)
qed

end
