(* ===== verification/ReviewWitnesses.thy ===== *)
theory ReviewWitnesses
  imports ReviewRatings Fixtures
begin

text \<open>
  The theorems on reviews, evaluated: a review (id 50) of 4.5 stars of the completed job 7, by customer 1 of
  artisan 2, whose profile has this one review.
\<close>

definition fx_review :: review where
  "fx_review = \<lparr>rv_id = 50, rv_jobId = Some 7, rv_artisanProfileId = 20, rv_reviewerId = Some 1, rv_reviewedId = Some 2,
     rv_reviewerName = Some ''Kofi Mensah'', rv_rating = 450, rv_text = None, rv_status = Rv_ACTIVE, rv_editedAt = None,
     rv_reply = None, rv_repliedAt = None, rv_createdAt = 0\<rparr>"

definition fx_reviewed :: world where
  "fx_reviewed = (fx_world [])\<lparr>w_db := (fx_db [])\<lparr>t_jobs := [fx_job COMPLETED], t_reviews := [fx_review],
     t_profiles := [fx_profile\<lparr>pr_averageRating := 450, pr_totalReviews := 1, pr_weightedRating := 314\<rparr>]\<rparr>\<rparr>"

lemmas fx_review_defs = fx_reviewed_def fx_review_def fx_world_def fx_db_def fx_profile_def fx_user_def

lemma fx_review_rows: "t_reviews (w_db fx_reviewed) = [fx_review]" "t_photos (w_db fx_reviewed) = []" "t_moderation (w_db fx_reviewed) = []"
  "next_id fx_reviewed T_reviews = 100" "rv_id fx_review = 50" "find_review (w_db fx_reviewed) 50 = Some fx_review"
  by (simp_all add: fx_review_defs find_review_def find_row_def)

lemma fx_rows_ok: "review_rows_ok fx_reviewed" "trail_ok fx_reviewed" "ratings_ok (w_db fx_reviewed)" "stars_ok 300 fx_reviewed"
proof -
  show "review_rows_ok fx_reviewed" by (rule review_rows_okI) (simp_all add: fx_review_rows)
  show "trail_ok fx_reviewed" by (simp add: trail_ok_def fx_review_rows flag_standing_def) (simp add: fx_review_def)
  show "ratings_ok (w_db fx_reviewed)"
    using to_fixed2_cedis [of 450] by (simp add: ratings_ok_def ratings_of_def average_def fx_review_defs)
  show "stars_ok 300 fx_reviewed" by (simp add: stars_ok_def in_stars_def fx_review_defs)
qed

lemma fx_reply_read: "fst (reply_read 2 50 fx_reviewed) = Inr ()"
  by (simp add: reply_read_def run_simps fx_review_rows load_review_def)
    (simp add: run_simps fx_review_defs find_user_def find_row_def)

lemma interleaved_reviews_witness:
  "\<exists>w. review_race\<^sup>*\<^sup>* (300, fx_reviewed, []) (300, w, []) \<and> review_rows_ok w \<and> map rv_reply (t_reviews (w_db w)) = [Some ''Thanks'']"
proof -
  let ?w = "finish 300 (W_reply 50 ''Thanks'') fx_reviewed"
  have "review_race (300, fx_reviewed, []) (300, fx_reviewed, [W_reply 50 ''Thanks''])" by (rule reply_begins) (rule fx_reply_read)
  moreover have "review_race (300, fx_reviewed, [W_reply 50 ''Thanks'']) (300, ?w, [])"
    using finishes [of "W_reply 50 ''Thanks''" "[W_reply 50 ''Thanks'']" 300 fx_reviewed] by simp
  ultimately have run: "review_race\<^sup>*\<^sup>* (300, fx_reviewed, []) (300, ?w, [])" by (meson converse_rtranclp_into_rtranclp r_into_rtranclp)
  have "map rv_reply (t_reviews (w_db ?w)) = [Some ''Thanks'']"
    by (simp add: reply_commit_run replied_def update_where_def fx_review_rows) (simp add: fx_review_def)
  then show ?thesis using conjunct1 [OF interleaved_reviews [OF run fx_rows_ok(1)]] run by (intro exI [of _ ?w] conjI)
qed


lemma fx_removed:
  "t_reviews (w_db (snd (admin_remove 300 (fx_user 9 ADMIN) 50 ''Fake review'' fx_reviewed))) = []"
  "t_profiles (w_db (snd (admin_remove 300 (fx_user 9 ADMIN) 50 ''Fake review'' fx_reviewed)))
     = [fx_profile\<lparr>pr_averageRating := to_fixed2 0, pr_totalReviews := 0, pr_weightedRating := to_fixed2 (weighted_rating 300 0 0)\<rparr>]"
proof -
  let ?l = "load_review True (w_db fx_reviewed) fx_review"
  have l: "lr_profile ?l = Some (fx_profile\<lparr>pr_averageRating := 450, pr_totalReviews := 1, pr_weightedRating := 314\<rparr>)"
    by (simp add: load_review_def find_profile_def find_row_def fx_review_defs)
  note run = remove_commit_run(1) [OF l]
  show "t_reviews (w_db (snd (admin_remove 300 (fx_user 9 ADMIN) 50 ''Fake review'' fx_reviewed))) = []"
    by (simp add: admin_remove_def bnd_def load_for_moderation_run fx_review_rows run delete_review_def)
  show "t_profiles (w_db (snd (admin_remove 300 (fx_user 9 ADMIN) 50 ''Fake review'' fx_reviewed)))
     = [fx_profile\<lparr>pr_averageRating := to_fixed2 0, pr_totalReviews := 0, pr_weightedRating := to_fixed2 (weighted_rating 300 0 0)\<rparr>]"
    by (simp add: admin_remove_def bnd_def load_for_moderation_run fx_review_rows run delete_review_def refreshed_def ratings_of_def average_def update_where_def)
      (simp add: fx_review_defs)
qed

lemma ratings_follow_reviews_witness:
  "\<exists>w p. review_step\<^sup>*\<^sup>* (300, fx_reviewed) (300, w) \<and> p \<in> set (t_profiles (w_db w)) \<and> pr_totalReviews p = 0 \<and> t_reviews (w_db w) = []"
proof -
  let ?w = "snd (admin_remove 300 (fx_user 9 ADMIN) 50 ''Fake review'' fx_reviewed)"
  have run: "review_step\<^sup>*\<^sup>* (300, fx_reviewed) (300, ?w)" by (intro r_into_rtranclp removed)
  from ratings_follow_reviews [OF run fx_rows_ok(1,3)] fx_removed run show ?thesis by (intro exI [of _ ?w]) (auto intro!: exI)
qed

lemma ratings_within_stars_witness:
  "\<exists>m. review_step\<^sup>*\<^sup>* (300, fx_reviewed) (m, fx_reviewed) \<and> m = 450 \<and> 100 \<le> m \<and> m \<le> 500"
proof -
  have m: "refresh_platform_mean (w_db fx_reviewed) 300 = 450"
    using to_fixed2_cedis [of 450] by (simp add: refresh_platform_mean_def fx_review_rows average_def) (simp add: fx_review_def)
  have run: "review_step\<^sup>*\<^sup>* (300, fx_reviewed) (450, fx_reviewed)" using mean_refreshed [of 300 fx_reviewed] m by (simp add: r_into_rtranclp)
  from ratings_within_stars [OF run fx_rows_ok(1,4)] run show ?thesis by (intro exI [of _ 450]) simp
qed

lemma moderation_trail_witness:
  "\<exists>w e. review_step\<^sup>*\<^sup>* (300, fx_reviewed) (300, w) \<and> t_reviews (w_db w) = [] \<and> e \<in> set (t_moderation (w_db w))
    \<and> md_reviewId e = 50 \<and> md_action e = REMOVE"
proof -
  let ?w = "snd (admin_remove 300 (fx_user 9 ADMIN) 50 ''Fake review'' fx_reviewed)"
  have run: "review_step\<^sup>*\<^sup>* (300, fx_reviewed) (300, ?w)" by (intro r_into_rtranclp removed)
  from moderation_trail [OF run fx_rows_ok(1,2)] obtain new where "t_moderation (w_db ?w) = t_moderation (w_db fx_reviewed) @ new"
    "(\<exists>r' \<in> set (t_reviews (w_db ?w)). rv_id r' = rv_id fx_review)
      \<or> (\<exists>e \<in> set new. md_reviewId e = rv_id fx_review \<and> md_action e = REMOVE \<and> md_reason e \<noteq> None)" using fx_review_rows(1) by auto
  then show ?thesis using run fx_removed fx_review_rows by (intro exI [of _ ?w]) auto
qed


end
