(* ===== verification/Spec2Isabelle.thy ===== *)
theory Spec2Isabelle
  imports Claims PaymentMethods PaymentSafety JobAccess BookingRules DisputeEffects AuthWitnesses IdempotencyWitnesses ReviewWitnesses
begin

text \<open>
  A model of the JIN_VA marketplace backend (NestJS, TypeORM, PostgreSQL, Paystack): customers post
  jobs or book an artisan's time, artisans do the work, and the customer's payment is held until the
  work is done. The theories follow the services under \<open>src/src/\<close>.

  \<^bold>\<open>Parts and how they interact.\<close> A booking reserves an artisan's time and, once confirmed, opens
  a job with a payment; a posted job gets its artisan and its payment when an application is accepted.
  Starting a job requires the payment to be held; completing it releases the payment to the artisan
  through Paystack; cancelling a job or a booking settles the payment first. Charges, webhooks and
  refunds move the payment; scheduled runs expire, complete, remind and retry.

  \<^bold>\<open>State and effects.\<close> \<open>Prelude\<close> has the shared automation, JavaScript's number formatting on exact
  rationals, and keyed tables with the \<open>repository\<close> contract. \<open>Types\<close> has the enums, entity rows, events
  and exceptions. \<open>Store\<close> has the database (a list of rows per table), the \<open>world\<close> (the database, the
  Paystack calls made, the events emitted, the clock, the id sequences), handlers \<open>'a act\<close> that return or
  throw and leave a world behind, transactions that restore the tables when their body throws, and the
  contract \<open>db_invariant\<close> of invariants that depend on the tables only. Paystack is the parameter
  \<open>provider\<close>: its answers are arbitrary functions of the calls made and of the request. The services
  are executed one request at a time; where the code releases its locks between two halves of an
  operation, the halves are separate definitions and the properties that matter put arbitrary steps
  between them.

  \<^bold>\<open>Theories and sources.\<close>
  \<^item> \<open>PayoutChecks\<close>: payments/payout-name-match.ts, payout-hold.ts. \<open>Payments\<close>: payments.service.ts
    (hold, capture with the name check, cancel, release, refund, fraud flags, transfer webhooks,
    retries), admin-audit. \<open>PaymentSafety\<close>: what they guarantee. \<open>Fixtures\<close>: worlds for witnesses.
  \<^item> \<open>Calendar\<close>: civil dates. \<open>ChargeOutcome\<close>: charge-outcome.ts. \<open>PaymentMethods\<close>: payment-methods/ and the
    security events it records. \<open>Attempts\<close>: payment-attempts.service.ts. \<open>DuplicateRefund\<close>:
    duplicate-refund.service.ts. \<open>ChargeSuccess\<close>: the settlement of a charge, webhooks, checkout and
    saved-method-charge.service.ts. \<open>MoneyFlow\<close>, \<open>Claims\<close>: what they guarantee together.
  \<^item> \<open>Jobs\<close>: jobs.service.ts, exact-location.ts, like-escape.util.ts, jobs-scheduler.service.ts.
    \<open>JobSafety\<close> (how each handler may change jobs and their history), \<open>JobRules\<close> (the life of a job) and
    \<open>JobAccess\<close> (who sees what).
  \<^item> \<open>Clock\<close>, \<open>Windows\<close>: availability-summary.ts. \<open>Availability\<close>: availability.service.ts. \<open>Bookings\<close>:
    bookings.service.ts, bookings-scheduler.service.ts. \<open>BookingCalendar\<close>: the abstract calendar and its
    refinement. \<open>BookingRules\<close>: what the bookings service guarantees.

  \<^bold>\<open>What the lemmas show.\<close> Money: a payment is held once and paid out at most once, to the account that
  was checked; refunds never exceed the payment and never touch the reference that holds it; at most one
  attempt to pay is active. Jobs: every job has a coherent history; completing and cancelling are atomic.
  Bookings: no artisan is double-booked under any sequence of operations. Data: dates and prices
  round-trip, open windows are exact, search text is literal. A few properties state where the code
  falls short; they prove the behaviour from any state of the described kind.

  \<^bold>\<open>Conventions and bounds.\<close> Money is in pesewas and exact; the code's floating-point arithmetic on
  cedis is taken as exact. Strings are lists of bytes: a character outside ASCII that the code writes
  stands for itself as one byte. Dates range over the years 1970 to 9999. No definition uses fuel: the
  loops of the code that are bounded are structural recursions, and the one that follows time off is a
  partial function shown to return for every input.

  \<^bold>\<open>Not modelled.\<close> Authentication, accounts, disputes, reviews, messages, notifications, insights,
  administration views, uploads, mail and the HTTP layer (controllers, guards, request validation by
  class-validator, throttling); seeds and migrations. Rows carry the columns the modelled code reads.
  Column types round numbers and the database orders equal keys; neither is modelled.
\<close>

end
